(* ===== verification/Prelude.thy ===== *)
theory Prelude
  imports Main "HOL-Library.Signed_Division"
begin

text \<open>
  Shared base of the development: Go's 64-bit signed integers, maps and lists.

  A Go \<open>int64\<close> is an \<open>int\<close> in \<open>[-2^63, 2^63)\<close>; every arithmetic operation of the
  source is followed by \<open>wrap64\<close>, the two's-complement wrap-around the hardware
  performs. A theorem that needs the absence of overflow says so with \<open>in64\<close>.
  Integer division truncates towards zero (\<open>sdiv\<close>). The collections \<open>go_int\<close> and
  \<open>go_range\<close> hold the rules that evaluate and bound these operations.
\<close>

named_theorems go_int \<open>definitions of the wrapped integer operations\<close>
named_theorems go_range \<open>facts that discharge range side conditions\<close>

section \<open>64-bit signed integers\<close>

definition in64 :: "int \<Rightarrow> bool" where
  "in64 x \<longleftrightarrow> - 9223372036854775808 \<le> x \<and> x < 9223372036854775808"

definition wrap64 :: "int \<Rightarrow> int" where
  "wrap64 x = (x + 9223372036854775808) mod 18446744073709551616 - 9223372036854775808"

lemma wrap64_id [simp]: "in64 x \<Longrightarrow> wrap64 x = x"
  by (simp add: in64_def wrap64_def)

lemma in64_wrap64 [simp, go_range]: "in64 (wrap64 x)"
  by (simp add: in64_def wrap64_def pos_mod_bound [THEN less_le_trans])

lemma wrap64_wrap64 [simp]: "wrap64 (wrap64 x) = wrap64 x"
  by simp

lemma in64_0 [simp, go_range]: "in64 0" and in64_1 [simp, go_range]: "in64 1"
  by (simp_all add: in64_def)

lemma wrap64_0 [simp]: "wrap64 0 = 0"
  by simp

definition add64 :: "int \<Rightarrow> int \<Rightarrow> int" where "add64 a b = wrap64 (a + b)"
definition sub64 :: "int \<Rightarrow> int \<Rightarrow> int" where "sub64 a b = wrap64 (a - b)"
definition mul64 :: "int \<Rightarrow> int \<Rightarrow> int" where "mul64 a b = wrap64 (a * b)"
definition div64 :: "int \<Rightarrow> int \<Rightarrow> int" where "div64 a b = wrap64 (a sdiv b)"

declare add64_def [go_int] sub64_def [go_int] mul64_def [go_int] div64_def [go_int]

lemma in64_ops [simp, go_range]:
  "in64 (add64 a b)" "in64 (sub64 a b)" "in64 (mul64 a b)" "in64 (div64 a b)"
  by (simp_all add: go_int)

lemma add64_0 [simp]: "in64 a \<Longrightarrow> add64 a 0 = a" "in64 a \<Longrightarrow> add64 0 a = a"
  by (simp_all add: go_int)

lemma sub64_self [simp]: "sub64 a a = 0"
  by (simp add: go_int)

lemma in64_between: "in64 lo \<Longrightarrow> in64 hi \<Longrightarrow> lo \<le> x \<Longrightarrow> x \<le> hi \<Longrightarrow> in64 x"
  by (simp add: in64_def)

text \<open>Wrapping commutes with sums: inner wraps can be dropped under an outer one.\<close>

lemma wrap64_shift: "wrap64 (x + 18446744073709551616 * q) = wrap64 x"
proof -
  have "(x + 18446744073709551616 * q + 9223372036854775808) mod 18446744073709551616
      = (x + 9223372036854775808 + q * 18446744073709551616) mod 18446744073709551616"
    by (simp add: algebra_simps)
  then show ?thesis by (simp add: wrap64_def)
qed

lemma wrap64_cases: obtains q where "wrap64 x = x + 18446744073709551616 * q"
proof
  show "wrap64 x = x + 18446744073709551616 * (- ((x + 9223372036854775808) div 18446744073709551616))"
    unfolding wrap64_def by (simp add: minus_mult_div_eq_mod [symmetric] algebra_simps)
qed

lemma wrap64_absorb [simp]:
  "wrap64 (wrap64 a + b) = wrap64 (a + b)" "wrap64 (b + wrap64 a) = wrap64 (b + a)"
  "wrap64 (wrap64 a - b) = wrap64 (a - b)" "wrap64 (b - wrap64 a) = wrap64 (b - a)"
proof -
  obtain q where q: "wrap64 a = a + 18446744073709551616 * q" by (rule wrap64_cases)
  show "wrap64 (wrap64 a + b) = wrap64 (a + b)" "wrap64 (b + wrap64 a) = wrap64 (b + a)"
    "wrap64 (wrap64 a - b) = wrap64 (a - b)"
    unfolding q using wrap64_shift [of "a + b" q] wrap64_shift [of "b + a" q] wrap64_shift [of "a - b" q]
    by (simp_all add: algebra_simps)
  show "wrap64 (b - wrap64 a) = wrap64 (b - a)"
    unfolding q using wrap64_shift [of "b - a" "- q"] by (simp add: algebra_simps)
qed

text \<open>The difference of two non-negative counters never overflows.\<close>

lemma sub64_nonneg: "in64 a \<Longrightarrow> in64 b \<Longrightarrow> 0 \<le> a \<Longrightarrow> 0 \<le> b \<Longrightarrow> sub64 a b = a - b"
  by (simp add: go_int in64_def wrap64_def)

text \<open>Go's \<open>/\<close> agrees with \<open>div\<close> on non-negative operands.\<close>

lemma sdiv_nonneg: "0 \<le> a \<Longrightarrow> 0 \<le> b \<Longrightarrow> a sdiv b = a div (b::int)"
  by (cases "a = 0"; cases "b = 0") (auto simp: signed_divide_int_def)

lemma div64_nonneg: "0 \<le> a \<Longrightarrow> 0 \<le> b \<Longrightarrow> in64 a \<Longrightarrow> div64 a b = a div b"
proof -
  assume a: "0 \<le> a" "0 \<le> b" "in64 a"
  have "a div b \<le> a"
  proof (cases "b = 0")
    case True then show ?thesis using a by simp
  next
    case False
    then have "a div b \<le> a div 1" using a zdiv_mono2 [of a 1 b] by simp
    then show ?thesis by simp
  qed
  moreover have "0 \<le> a div b" using a pos_imp_zdiv_nonneg_iff by (cases "b = 0") auto
  ultimately have "in64 (a div b)" using a by (simp add: in64_def)
  then show ?thesis using a by (simp add: div64_def sdiv_nonneg)
qed

text \<open>\<open>x & 0xff\<close> on a \<open>uint64\<close>: the SparkPlug sequence numbers.\<close>

definition next_mod256 :: "nat \<Rightarrow> nat" where
  "next_mod256 n = (n + 1) mod 256"

lemma next_mod256_less [simp]: "next_mod256 n < 256"
  by (simp add: next_mod256_def)

section \<open>Options and maps\<close>

text \<open>Go's \<open>v, ok := m[k]\<close>: the zero value when the key is missing.\<close>

definition get_or :: "'a \<Rightarrow> 'a option \<Rightarrow> 'a" where
  "get_or z o' = (case o' of None \<Rightarrow> z | Some v \<Rightarrow> v)"

lemma get_or_simps [simp]: "get_or z None = z" "get_or z (Some v) = v"
  by (simp_all add: get_or_def)

lemma fun_upd_neq [simp]: "k \<noteq> k' \<Longrightarrow> (m(k \<mapsto> v)) k' = m k'"
  by simp

section \<open>Lists\<close>

lemma last_take_drop_append:
  "n \<le> length xs \<Longrightarrow> take n (xs @ ys) = take n xs"
  by simp

lemma sum_list_filter_split:
  "sum_list (map f xs) = sum_list (map f (filter P xs)) + sum_list (map (f :: 'a \<Rightarrow> int) (filter (\<lambda>x. \<not> P x) xs))"
  by (induction xs) auto

lemma sorted_wrt_snoc:
  "sorted_wrt R (xs @ [x]) \<longleftrightarrow> sorted_wrt R xs \<and> (\<forall>y\<in>set xs. R y x)"
  by (simp add: sorted_wrt_append)

end
