(* ===== verification/Float64.thy ===== *)
theory Float64
  imports Prelude Complex_Main "HOL-Library.Log_Nat"
begin

text \<open>
  Go's \<open>float64\<close>: IEEE 754 binary64 values and the operations the source uses, with
  round-to-nearest-even on every result. A finite value is the rational it denotes;
  the two zeros are one value (the source never divides by a float zero and never
  prints one, so the sign of a zero cannot be observed). NaN compares false with
  everything, as in Go. Converting a value outside the \<open>int64\<close> range yields the
  smallest \<open>int64\<close>, what the amd64 conversion instruction returns (the Go
  specification leaves it to the implementation).
\<close>

section \<open>Values and rounding\<close>

datatype f64 = Fin rat | PInf | NInf | NaN

definition ilog2 :: "rat \<Rightarrow> int" where
  "ilog2 x = (case quotient_of x of (n, d) \<Rightarrow>
     (let k = bitlen n - bitlen d in if 2 powi k \<le> x then k else k - 1))"

definition round_even :: "rat \<Rightarrow> int" where
  "round_even q = (let f = \<lfloor>q\<rfloor>; d = q - of_int f in
     if d < 1 / 2 then f else if 1 / 2 < d then f + 1 else if even f then f else f + 1)"

definition round64 :: "rat \<Rightarrow> f64" where
  "round64 x = (if x = 0 then Fin 0 else
     (let e = max (ilog2 \<bar>x\<bar> - 52) (- 1074);
          y = of_int (round_even (x / 2 powi e)) * 2 powi e
      in if 2 ^ 1024 \<le> \<bar>y\<bar> then (if 0 < x then PInf else NInf) else Fin y))"

section \<open>Operations\<close>

fun fneg :: "f64 \<Rightarrow> f64" where
  "fneg (Fin x) = Fin (- x)" | "fneg PInf = NInf" | "fneg NInf = PInf" | "fneg NaN = NaN"

fun fadd :: "f64 \<Rightarrow> f64 \<Rightarrow> f64" where
  "fadd (Fin x) (Fin y) = round64 (x + y)"
| "fadd NaN _ = NaN" | "fadd _ NaN = NaN"
| "fadd PInf NInf = NaN" | "fadd NInf PInf = NaN"
| "fadd PInf _ = PInf" | "fadd _ PInf = PInf"
| "fadd NInf _ = NInf" | "fadd _ NInf = NInf"

definition fsub :: "f64 \<Rightarrow> f64 \<Rightarrow> f64" where
  "fsub x y = fadd x (fneg y)"

fun inf_of_sign :: "rat \<Rightarrow> f64" where
  "inf_of_sign s = (if 0 < s then PInf else if s < 0 then NInf else NaN)"

fun fsign :: "f64 \<Rightarrow> rat" where
  "fsign (Fin x) = sgn x" | "fsign PInf = 1" | "fsign NInf = - 1" | "fsign NaN = 0"

fun fmul :: "f64 \<Rightarrow> f64 \<Rightarrow> f64" where
  "fmul (Fin x) (Fin y) = round64 (x * y)"
| "fmul NaN _ = NaN" | "fmul _ NaN = NaN"
| "fmul x y = inf_of_sign (fsign x * fsign y)"

fun fdiv :: "f64 \<Rightarrow> f64 \<Rightarrow> f64" where
  "fdiv (Fin x) (Fin y) = (if y = 0 then inf_of_sign x else round64 (x / y))"
| "fdiv NaN _ = NaN" | "fdiv _ NaN = NaN"
| "fdiv (Fin x) _ = Fin 0"
| "fdiv x (Fin y) = inf_of_sign (fsign x * (if y < 0 then - 1 else 1))"
| "fdiv _ _ = NaN"

fun flt :: "f64 \<Rightarrow> f64 \<Rightarrow> bool" where
  "flt (Fin x) (Fin y) = (x < y)"
| "flt NaN _ = False" | "flt _ NaN = False"
| "flt NInf y = (y \<noteq> NInf)" | "flt _ NInf = False"
| "flt PInf _ = False" | "flt _ PInf = True"

fun feq :: "f64 \<Rightarrow> f64 \<Rightarrow> bool" where
  "feq NaN _ = False" | "feq _ NaN = False" | "feq x y = (x = y)"

definition fle :: "f64 \<Rightarrow> f64 \<Rightarrow> bool" where
  "fle x y \<longleftrightarrow> flt x y \<or> feq x y"

text \<open>\<open>float64(n)\<close> and \<open>int64(f)\<close>.\<close>

definition of_int64 :: "int \<Rightarrow> f64" where
  "of_int64 n = round64 (of_int n)"

definition trunc_rat :: "rat \<Rightarrow> int" where
  "trunc_rat x = (if 0 \<le> x then \<lfloor>x\<rfloor> else - \<lfloor>- x\<rfloor>)"

fun to_int64 :: "f64 \<Rightarrow> int" where
  "to_int64 (Fin x) = (if in64 (trunc_rat x) then trunc_rat x else - 9223372036854775808)"
| "to_int64 _ = - 9223372036854775808"

text \<open>\<open>float32(f)\<close>, the result read back as a \<open>float64\<close>, and \<open>int32(f)\<close>.\<close>

definition round32 :: "rat \<Rightarrow> f64" where
  "round32 x = (if x = 0 then Fin 0 else
     (let e = max (ilog2 \<bar>x\<bar> - 23) (- 149);
          y = of_int (round_even (x / 2 powi e)) * 2 powi e
      in if 2 ^ 128 \<le> \<bar>y\<bar> then (if 0 < x then PInf else NInf) else Fin y))"

fun to_float32 :: "f64 \<Rightarrow> f64" where
  "to_float32 (Fin x) = round32 x" | "to_float32 f = f"

fun to_int32 :: "f64 \<Rightarrow> int" where
  "to_int32 (Fin x) = (if - 2147483648 \<le> trunc_rat x \<and> trunc_rat x < 2147483648 then trunc_rat x else - 2147483648)"
| "to_int32 _ = - 2147483648"

text \<open>\<open>math.MaxFloat64\<close>.\<close>

definition max_float64 :: f64 where
  "max_float64 = Fin ((2 ^ 53 - 1) * 2 ^ 971)"

section \<open>Rounding facts\<close>

lemma pow2_less_cancel: "(2::rat) powi a < 2 powi b \<longleftrightarrow> a < b"
  by (metis not_less_iff_gr_or_eq one_less_numeral_iff power_int_strict_increasing semiring_norm(76))

lemma ilog2_bounds:
  assumes "0 < x"
  shows "2 powi ilog2 x \<le> x" and "x < 2 powi (ilog2 x + 1)"
proof -
  obtain n d where nd: "quotient_of x = (n, d)" by fastforce
  have d: "0 < d" using quotient_of_denom_pos [OF nd] .
  have x: "x = of_int n / of_int d" using quotient_of_div [OF nd] .
  have n: "0 < n" using assms d by (simp add: x zero_less_divide_iff)
  define k where "k = bitlen n - bitlen d"
  have nb: "2 powi (bitlen n - 1) \<le> (of_int n :: rat)" "(of_int n :: rat) < 2 powi bitlen n"
    and db: "2 powi (bitlen d - 1) \<le> (of_int d :: rat)" "(of_int d :: rat) < 2 powi bitlen d"
  proof -
    have gen: "2 powi (bitlen m - 1) \<le> (of_int m :: rat) \<and> (of_int m :: rat) < 2 powi bitlen m"
      if m: "0 < m" for m :: int
    proof -
      have b: "2 ^ nat (bitlen m - 1) \<le> m" "m < 2 ^ nat (bitlen m)"
        using bitlen_bounds [OF m] by auto
      have pos: "0 < bitlen m"
        using m bitlen_eq_zero_iff [of m] bitlen_nonneg [of m] by linarith
      from b have "(of_int (2 ^ nat (bitlen m - 1)) :: rat) \<le> of_int m"
        and "(of_int m :: rat) < of_int (2 ^ nat (bitlen m))"
        by (simp_all only: of_int_le_iff of_int_less_iff)
      with pos show ?thesis by (simp add: power_int_def)
    qed
    show "2 powi (bitlen n - 1) \<le> (of_int n :: rat)" "(of_int n :: rat) < 2 powi bitlen n"
      "2 powi (bitlen d - 1) \<le> (of_int d :: rat)" "(of_int d :: rat) < 2 powi bitlen d"
      using gen [OF n] gen [OF d] by auto
  qed
  have lower: "2 powi (k - 1) < x"
  proof -
    have "(2::rat) powi (k - 1) = 2 powi (bitlen n - 1) / 2 powi bitlen d"
      by (simp add: k_def algebra_simps flip: power_int_diff)
    also have "\<dots> \<le> of_int n / 2 powi bitlen d"
      using nb by (simp add: divide_right_mono)
    also have "\<dots> < of_int n / of_int d"
      using db n d by (intro divide_strict_left_mono) auto
    finally show ?thesis by (simp add: x)
  qed
  have upper: "x < 2 powi (k + 1)"
  proof -
    have "x = of_int n / of_int d" by (rule x)
    also have "\<dots> \<le> of_int n / 2 powi (bitlen d - 1)"
      using db n d by (intro divide_left_mono) auto
    also have "\<dots> < 2 powi bitlen n / 2 powi (bitlen d - 1)"
      using nb by (intro divide_strict_right_mono) auto
    also have "\<dots> = 2 powi (k + 1)"
      by (simp add: k_def algebra_simps flip: power_int_diff)
    finally show ?thesis .
  qed
  have il: "ilog2 x = (if 2 powi k \<le> x then k else k - 1)"
    by (simp add: ilog2_def nd k_def Let_def)
  show "2 powi ilog2 x \<le> x" using lower by (simp add: il)
  show "x < 2 powi (ilog2 x + 1)" using upper by (auto simp: il)
qed

lemma round_even_of_int [simp]: "round_even (of_int n) = n"
  by (simp add: round_even_def Let_def)

lemma round_even_near: "\<bar>of_int (round_even q) - q\<bar> \<le> 1 / 2"
proof -
  have "of_int \<lfloor>q\<rfloor> \<le> q" "q < of_int \<lfloor>q\<rfloor> + 1" by linarith+
  then show ?thesis by (auto simp: round_even_def Let_def)
qed

lemma round_even_nonneg: "0 \<le> q \<Longrightarrow> 0 \<le> round_even q"
  by (auto simp: round_even_def Let_def)

lemma round64_0 [simp]: "round64 0 = Fin 0"
  by (simp add: round64_def)

text \<open>Integers of at most 53 bits are represented exactly.\<close>

lemma round64_of_int:
  assumes "\<bar>n\<bar> \<le> 9007199254740992"
  shows "round64 (of_int n) = Fin (of_int n)"
proof (cases "n = 0")
  case True
  then show ?thesis by simp
next
  case False
  define x :: rat where "x = of_int \<bar>n\<bar>"
  define e where "e = max (ilog2 x - 52) (- 1074)"
  have x1: "1 \<le> x" and xle: "x \<le> 2 powi 53"
    using False assms by (simp_all add: x_def power_int_def flip: of_int_abs)
  have b: "2 powi ilog2 x \<le> x" "x < 2 powi (ilog2 x + 1)"
    using ilog2_bounds x1 by auto
  have "(2::rat) powi 0 < 2 powi (ilog2 x + 1)" using x1 b by simp
  then have "0 < ilog2 x + 1" by (simp only: pow2_less_cancel)
  then have lo: "0 \<le> ilog2 x" by simp
  have "(2::rat) powi ilog2 x \<le> 2 powi 53" using xle b by simp
  then have hi: "ilog2 x \<le> 53" using pow2_less_cancel [of 53 "ilog2 x"] by linarith
  have absx: "\<bar>of_int n\<bar> = x" by (simp add: x_def)
  have ed: "e = ilog2 x - 52" using lo by (simp add: e_def)
  obtain m :: int where m: "(of_int n :: rat) / 2 powi e = of_int m"
  proof (cases "ilog2 x = 53")
    case True
    then have "2 powi 53 = x" using b xle by simp
    then have "\<bar>n\<bar> = 2 ^ 53" by (simp add: x_def power_int_def flip: of_int_power_eq_of_int_cancel_iff)
    then have "n = 9007199254740992 \<or> n = - 9007199254740992" by auto
    then have "n = 2 * (n div 2)" by auto
    then have "(of_int n :: rat) = 2 * of_int (n div 2)" by (metis of_int_mult of_int_numeral)
    then show ?thesis using that [of "n div 2"] True by (simp add: ed)
  next
    case F: False
    define j where "j = nat (- e)"
    have "e = - int j" using hi F by (simp add: j_def ed)
    then have "(of_int n :: rat) / 2 powi e = of_int (n * 2 ^ j)"
      by (simp add: power_int_minus divide_inverse)
    then show ?thesis by (rule that)
  qed
  then have y: "of_int (round_even (of_int n / 2 powi e)) * 2 powi e = (of_int n :: rat)"
    by (simp add: field_simps)
  have "x < 2 ^ 1024" using xle by (simp add: power_int_def)
  then show ?thesis using False y
    by (simp add: round64_def Let_def absx flip: e_def)
qed

lemma of_int64_exact: "\<bar>n\<bar> \<le> 9007199254740992 \<Longrightarrow> of_int64 n = Fin (of_int n)"
  by (simp add: of_int64_def round64_of_int)

lemma round64_numeral [simp]:
  "(numeral k :: int) \<le> 9007199254740992 \<Longrightarrow> round64 (numeral k) = Fin (numeral k)"
  "(numeral k :: int) \<le> 9007199254740992 \<Longrightarrow> round64 (- numeral k) = Fin (- numeral k)"
  "round64 1 = Fin 1"
  using round64_of_int [of "numeral k"] round64_of_int [of "- numeral k"] round64_of_int [of 1]
  by simp_all

text \<open>Rounding moves a value by at most its own size: enough for every magnitude bound.\<close>

lemma round64_bound:
  assumes "1 \<le> \<bar>x\<bar>" and "\<bar>x\<bar> \<le> 2 ^ 1022"
  shows "\<exists>y. round64 x = Fin y \<and> \<bar>y\<bar> \<le> 2 * \<bar>x\<bar> \<and> (0 < x \<longrightarrow> 0 \<le> y) \<and> (x < 0 \<longrightarrow> y \<le> 0)"
proof -
  define e where "e = max (ilog2 \<bar>x\<bar> - 52) (- 1074)"
  define q where "q = x / 2 powi e"
  define y where "y = of_int (round_even q) * (2::rat) powi e"
  have p: "0 < (2::rat) powi e" by simp
  have "2 powi ilog2 \<bar>x\<bar> \<le> \<bar>x\<bar>" using ilog2_bounds assms(1) by auto
  moreover have "(2::rat) powi e \<le> \<bar>x\<bar>"
  proof (cases "e = - 1074")
    case True
    have "(2::rat) powi (- 1074) \<le> 2 powi 0" by (rule power_int_increasing) auto
    with True assms(1) show ?thesis by simp
  next
    case False
    then have "(2::rat) powi e \<le> 2 powi ilog2 \<bar>x\<bar>"
      by (intro power_int_increasing) (auto simp: e_def max_def split: if_splits)
    with calculation show ?thesis by simp
  qed
  moreover have near: "\<bar>y - x\<bar> \<le> 2 powi e / 2"
  proof -
    have "y - x = (of_int (round_even q) - q) * 2 powi e"
      by (simp add: y_def q_def left_diff_distrib)
    then show ?thesis using round_even_near [of q] mult_right_mono [of _ "1/2" "2 powi e"] p
      by (simp add: abs_mult)
  qed
  ultimately have yb: "\<bar>y\<bar> \<le> 2 * \<bar>x\<bar>" and sg: "0 < x \<longrightarrow> 0 \<le> y" "x < 0 \<longrightarrow> y \<le> 0"
    by (auto simp: abs_if split: if_splits)
  have "2 * \<bar>x\<bar> < 2 ^ 1024" using assms(2) by (simp add: le_less_trans)
  with yb have "\<not> 2 ^ 1024 \<le> \<bar>y\<bar>" by linarith
  then have "round64 x = Fin y" using assms(1) by (auto simp: round64_def Let_def y_def q_def e_def)
  with yb sg show ?thesis by blast
qed

text \<open>Every \<open>int64\<close> converts to a finite value below \<open>math.MaxFloat64\<close>.\<close>

lemma of_int64_finite:
  assumes "in64 n"
  obtains y where "of_int64 n = Fin y" "\<bar>y\<bar> \<le> 2 ^ 64" "0 \<le> n \<longrightarrow> 0 \<le> y"
proof (cases "n = 0")
  case True
  then show ?thesis using that [of 0] by (simp add: of_int64_def)
next
  case False
  have n: "\<bar>n\<bar> \<le> 2 ^ 63" using assms by (auto simp: in64_def)
  then have n': "\<bar>of_int n\<bar> \<le> (2 ^ 63 :: rat)" by (metis of_int_abs of_int_le_iff of_int_numeral of_int_power)
  moreover have "(2::rat) ^ 63 \<le> 2 ^ 1022" by (rule power_increasing) auto
  moreover have "1 \<le> \<bar>of_int n :: rat\<bar>" using False by (simp flip: of_int_abs)
  ultimately obtain y where "round64 (of_int n) = Fin y" "\<bar>y\<bar> \<le> 2 * \<bar>of_int n\<bar>" "0 < n \<longrightarrow> 0 \<le> y"
    using round64_bound [of "of_int n"] by force
  with n' False show ?thesis by (intro that [of y]) (auto simp: of_int64_def)
qed

lemma of_int64_less_max: "in64 n \<Longrightarrow> flt (of_int64 n) max_float64"
proof -
  assume "in64 n"
  then obtain y where y: "of_int64 n = Fin y" "\<bar>y\<bar> \<le> 2 ^ 64" by (rule of_int64_finite)
  have "(2::rat) ^ 64 < (2 ^ 53 - 1) * 2 ^ 971" by simp
  with y show ?thesis by (simp add: max_float64_def abs_le_iff)
qed

fun finite_f64 :: "f64 \<Rightarrow> bool" where
  "finite_f64 (Fin r) = True" | "finite_f64 _ = False"

lemma round64_small:
  assumes "\<bar>x\<bar> < 1"
  shows "finite_f64 (round64 x)"
proof (cases "x = 0")
  case False
  define e where "e = max (ilog2 \<bar>x\<bar> - 52) (- 1074)"
  define q where "q = x / 2 powi e"
  have p: "0 < (2::rat) powi e" by simp
  have l: "2 powi ilog2 \<bar>x\<bar> \<le> \<bar>x\<bar>" using ilog2_bounds False by auto
  then have "(2::rat) powi ilog2 \<bar>x\<bar> < 2 powi 0" using assms by simp
  then have "ilog2 \<bar>x\<bar> < 0" unfolding pow2_less_cancel .
  then have "e \<le> 0" by (simp add: e_def)
  then have e1: "(2::rat) powi e \<le> 2 powi 0" by (intro power_int_increasing) auto
  have "of_int (round_even q) * (2::rat) powi e - x = (of_int (round_even q) - q) * 2 powi e"
    by (simp add: q_def left_diff_distrib)
  moreover have "\<bar>(of_int (round_even q) - q) * (2::rat) powi e\<bar> \<le> 1 / 2 * 2 powi e"
    unfolding abs_mult using round_even_near [of q] by (intro mult_mono) auto
  ultimately have "\<bar>of_int (round_even q) * (2::rat) powi e\<bar> \<le> 2" using assms e1 by simp
  then have "\<not> 2 ^ 1024 \<le> \<bar>of_int (round_even q) * (2::rat) powi e\<bar>" by (simp add: not_le order_le_less_trans)
  then show ?thesis using False by (simp add: round64_def Let_def e_def q_def)
qed simp

lemma of_int64_fin: "in64 n \<Longrightarrow> finite_f64 (of_int64 n)"
  by (rule of_int64_finite [of n]) simp_all

text \<open>Dividing an integer value by a small constant stays finite.\<close>

lemma fdiv_int_finite:
  assumes "in64 n" "1 \<le> d" "d \<le> 1000"
  shows "finite_f64 (fdiv (of_int64 n) (Fin d))"
proof -
  obtain y where y: "of_int64 n = Fin y" "\<bar>y\<bar> \<le> 2 ^ 64" by (rule of_int64_finite [OF assms(1)])
  have "\<bar>y / d\<bar> \<le> \<bar>y\<bar> / 1" unfolding abs_divide using assms(2) by (intro frac_le) auto
  then have le: "\<bar>y / d\<bar> \<le> 2 ^ 64" using y(2) by simp
  have "finite_f64 (round64 (y / d))"
  proof (cases "1 \<le> \<bar>y / d\<bar>")
    case True
    have "(2::rat) ^ 64 \<le> 2 ^ 1022" by (rule power_increasing) auto
    then have "\<bar>y / d\<bar> \<le> 2 ^ 1022" using le by (rule order_trans [rotated])
    then show ?thesis using round64_bound [OF True] by auto
  next
    case False
    then show ?thesis using round64_small [of "y / d"] by simp
  qed
  then show ?thesis using y(1) assms(2) by simp
qed

end
