(* ===== verification/SparkplugB.thy ===== *)
theory SparkplugB
  imports Float64 GoStrings "HOL-Library.Word"
begin

text \<open>
  The consumer half of SparkPlug B (internal/sparkplug): wire payloads, the alias table
  \<open>StateStore\<close> of aliastable.go with its \<open>Ingest\<close>, the property accessor of
  properties.go, and the rebirth request of rebirth.go, with the debounced requester of
  internal/mqtt/rebirth.go. The store is a map from publisher keys to publisher states;
  a BIRTH rebuilds the state, DATA resolves aliases against it, a DEATH deletes it.
  Optional protobuf fields are options and a \<open>GetX\<close> accessor returns the zero value
  for a missing one. \<open>now\<close> is \<open>time.Now()\<close>.
\<close>

section \<open>Wire payloads\<close>

text \<open>The oneof \<open>Value\<close> of a metric; \<open>RawValue\<close> stands for bytes, datasets and templates.\<close>

datatype wire_value =
  IntValue "32 word" | LongValue "64 word" | FloatValue f64 | DoubleValue f64
| BooleanValue bool | StringValue string | RawValue string | NoValue

text \<open>The dynamic types a decoded value (\<open>any\<close>) can have.\<close>

datatype go_value =
  VInt64 int | VUint64 "64 word" | VInt32 int | VUint32 "32 word" | VInt int
| VFloat64 f64 | VFloat32 f64 | VBool bool | VString string | VRaw string | VNil

record property_value =
  pv_null :: bool
  pv_string :: string

record property_set =
  ps_keys :: "string list"
  ps_values :: "property_value list"

record wire_metric =
  wm_name :: "string option"
  wm_alias :: "nat option"
  wm_timestamp :: "nat option"
  wm_datatype :: "nat option"
  wm_is_null :: bool
  wm_value :: wire_value
  wm_properties :: "property_set option"

record payload =
  pl_timestamp :: "nat option"
  pl_seq :: "nat option"
  pl_metrics :: "wire_metric list"

definition empty_metric :: wire_metric where
  "empty_metric = \<lparr>wm_name = None, wm_alias = None, wm_timestamp = None, wm_datatype = None,
     wm_is_null = False, wm_value = NoValue, wm_properties = None\<rparr>"

fun extract_value :: "wire_value \<Rightarrow> go_value" where
  "extract_value (IntValue v) = VUint32 v"
| "extract_value (LongValue v) = VUint64 v"
| "extract_value (FloatValue v) = VFloat32 v"
| "extract_value (DoubleValue v) = VFloat64 v"
| "extract_value (BooleanValue v) = VBool v"
| "extract_value (StringValue v) = VString v"
| "extract_value (RawValue v) = VRaw v"
| "extract_value NoValue = VNil"

text \<open>\<open>StringProperty\<close>: the first key that matches, fail-closed on a short or null value.\<close>

fun string_property_in :: "string \<Rightarrow> string list \<Rightarrow> property_value list \<Rightarrow> string option" where
  "string_property_in key [] vals = None"
| "string_property_in key (k # ks) vals =
     (if k = key then (case vals of [] \<Rightarrow> None | v # _ \<Rightarrow> if pv_null v then None else Some (pv_string v))
      else string_property_in key ks (drop 1 vals))"

definition string_property :: "wire_metric \<Rightarrow> string \<Rightarrow> string option" where
  "string_property m key = (case wm_properties m of None \<Rightarrow> None
     | Some ps \<Rightarrow> string_property_in key (ps_keys ps) (ps_values ps))"

section \<open>The alias table\<close>

record publisher_key =
  pk_group :: string
  pk_node :: string
  pk_device :: string

definition publisher_key_string :: "publisher_key \<Rightarrow> string" where
  "publisher_key_string k = (if pk_device k = [] then pk_group k @ ''/'' @ pk_node k
     else pk_group k @ ''/'' @ pk_node k @ ''/'' @ pk_device k)"

record alias_entry =
  ae_name :: string
  ae_datatype :: nat

record publisher_state =
  pst_aliases :: "nat \<rightharpoonup> alias_entry"
  pst_last_seq :: nat
  pst_last_birth_at :: int
  pst_last_message_at :: int

type_synonym state_store = "publisher_key \<rightharpoonup> publisher_state"

record resolved_metric =
  rm_name :: string
  rm_alias :: nat
  rm_timestamp :: nat
  rm_datatype :: nat
  rm_value :: go_value

record resolved_payload =
  rp_key :: publisher_key
  rp_timestamp :: nat
  rp_seq :: nat
  rp_metrics :: "resolved_metric list"

datatype ingest_error = NoBirth | UnknownAlias publisher_key nat | UnknownMessageType string

text \<open>A sequence gap reported to the callback: publisher, expected, got.\<close>

type_synonym seq_gap = "publisher_key \<times> nat \<times> nat"

definition new_state_store :: state_store where
  "new_state_store = Map.empty"

definition birth_aliases :: "wire_metric list \<Rightarrow> nat \<rightharpoonup> alias_entry" where
  "birth_aliases ms = fold (\<lambda>m t. case wm_alias m of None \<Rightarrow> t
     | Some a \<Rightarrow> t(a \<mapsto> \<lparr>ae_name = get_or [] (wm_name m), ae_datatype = get_or 0 (wm_datatype m)\<rparr>)) ms Map.empty"

definition apply_birth :: "int \<Rightarrow> publisher_key \<Rightarrow> payload \<Rightarrow> state_store \<Rightarrow> state_store" where
  "apply_birth now key p st = st(key \<mapsto> \<lparr>pst_aliases = birth_aliases (pl_metrics p),
     pst_last_seq = get_or 0 (pl_seq p), pst_last_birth_at = now, pst_last_message_at = now\<rparr>)"

fun resolve_metric :: "publisher_key \<Rightarrow> (nat \<rightharpoonup> alias_entry) \<Rightarrow> wire_metric \<Rightarrow> ingest_error + resolved_metric" where
  "resolve_metric key aliases m =
     (case wm_alias m of
        None \<Rightarrow> Inr \<lparr>rm_name = get_or [] (wm_name m), rm_alias = 0, rm_timestamp = get_or 0 (wm_timestamp m),
          rm_datatype = get_or 0 (wm_datatype m), rm_value = extract_value (wm_value m)\<rparr>
      | Some a \<Rightarrow> (case aliases a of
          None \<Rightarrow> Inl (UnknownAlias key a)
        | Some e \<Rightarrow> Inr \<lparr>rm_name = ae_name e, rm_alias = a, rm_timestamp = get_or 0 (wm_timestamp m),
            rm_datatype = (case wm_datatype m of None \<Rightarrow> ae_datatype e | Some d \<Rightarrow> d),
            rm_value = extract_value (wm_value m)\<rparr>))"

text \<open>The loop of \<open>applyData\<close>: the first unknown alias rejects the whole payload.\<close>

fun resolve_metrics ::
  "publisher_key \<Rightarrow> (nat \<rightharpoonup> alias_entry) \<Rightarrow> wire_metric list \<Rightarrow> ingest_error + resolved_metric list" where
  "resolve_metrics key aliases [] = Inr []"
| "resolve_metrics key aliases (m # ms) =
     (case resolve_metric key aliases m of
        Inl e \<Rightarrow> Inl e
      | Inr r \<Rightarrow> (case resolve_metrics key aliases ms of Inl e \<Rightarrow> Inl e | Inr rs \<Rightarrow> Inr (r # rs)))"

text \<open>The sequence cursor moves before the aliases are resolved, so it moves on an error too.\<close>

definition apply_data :: "int \<Rightarrow> publisher_key \<Rightarrow> payload \<Rightarrow> state_store
    \<Rightarrow> (ingest_error + resolved_payload) \<times> seq_gap list \<times> state_store" where
  "apply_data now key p st =
     (case st key of
        None \<Rightarrow> (Inl NoBirth, [], st)
      | Some state \<Rightarrow>
          let got = get_or 0 (pl_seq p);
              expected = next_mod256 (pst_last_seq state);
              gaps = (if got \<noteq> expected then [(key, expected, got)] else []);
              st' = st(key \<mapsto> state\<lparr>pst_last_seq := got, pst_last_message_at := now\<rparr>)
          in (case resolve_metrics key (pst_aliases state) (pl_metrics p) of
                Inl e \<Rightarrow> (Inl e, gaps, st')
              | Inr ms \<Rightarrow> (Inr \<lparr>rp_key = key, rp_timestamp = get_or 0 (pl_timestamp p), rp_seq = got,
                  rp_metrics = ms\<rparr>, gaps, st')))"

definition apply_death :: "publisher_key \<Rightarrow> state_store \<Rightarrow> state_store" where
  "apply_death key st = st(key := None)"

definition reset_publisher :: "publisher_key \<Rightarrow> state_store \<Rightarrow> state_store" where
  "reset_publisher key st = st(key := None)"

text \<open>\<open>Ingest\<close>: \<open>Inr (Some _)\<close> for DATA, \<open>Inr None\<close> when only the state changed.\<close>

definition ingest :: "int \<Rightarrow> publisher_key \<Rightarrow> string \<Rightarrow> payload \<Rightarrow> state_store
    \<Rightarrow> (ingest_error + resolved_payload option) \<times> seq_gap list \<times> state_store" where
  "ingest now key mt p st =
     (if mt = ''NBIRTH'' \<or> mt = ''DBIRTH'' then (Inr None, [], apply_birth now key p st)
      else if mt = ''NDATA'' \<or> mt = ''DDATA'' then
        (case apply_data now key p st of
           (Inl e, gaps, st') \<Rightarrow> (Inl e, gaps, st')
         | (Inr r, gaps, st') \<Rightarrow> (Inr (Some r), gaps, st'))
      else if mt = ''NDEATH'' \<or> mt = ''DDEATH'' then (Inr None, [], apply_death key st)
      else if mt = ''NCMD'' \<or> mt = ''DCMD'' then (Inr None, [], st)
      else (Inl (UnknownMessageType mt), [], st))"

section \<open>The rebirth request\<close>

definition metric_node_control_rebirth :: string where
  "metric_node_control_rebirth = ''Node Control/Rebirth''"

definition data_type_boolean :: nat where "data_type_boolean = 11"

definition build_rebirth_ncmd :: "nat \<Rightarrow> payload" where
  "build_rebirth_ncmd now =
     \<lparr>pl_timestamp = Some now, pl_seq = None,
      pl_metrics = [empty_metric\<lparr>wm_name := Some metric_node_control_rebirth, wm_timestamp := Some now,
        wm_datatype := Some data_type_boolean, wm_value := BooleanValue True\<rparr>]\<rparr>"

fun rebirth_in :: "wire_metric list \<Rightarrow> bool" where
  "rebirth_in [] = False"
| "rebirth_in (m # ms) =
     (if get_or [] (wm_name m) = metric_node_control_rebirth
      then (case wm_value m of BooleanValue b \<Rightarrow> b | _ \<Rightarrow> rebirth_in ms) else rebirth_in ms)"

definition is_rebirth_request :: "payload option \<Rightarrow> bool" where
  "is_rebirth_request p = (case p of None \<Rightarrow> False | Some q \<Rightarrow> rebirth_in (pl_metrics q))"

text \<open>
  \<open>RebirthRequester.Request\<close>: at most one NCMD per edge node and interval. The debounce
  stamp is written before the publish, so a failed publish is debounced as well.
\<close>

record rebirth_requester =
  rr_min_interval :: int
  rr_last_sent :: "string \<rightharpoonup> int"

definition new_requester :: "int \<Rightarrow> rebirth_requester" where
  "new_requester min_interval = \<lparr>rr_min_interval = (if min_interval \<le> 0 then 30000000000 else min_interval),
     rr_last_sent = Map.empty\<rparr>"

definition rebirth_request :: "int \<Rightarrow> string \<Rightarrow> string \<Rightarrow> rebirth_requester
    \<Rightarrow> (string \<times> payload) option \<times> rebirth_requester" where
  "rebirth_request now grp node r =
     (let key = grp @ ''/'' @ node
      in case rr_last_sent r key of
           Some sent \<Rightarrow> if sub64 now sent < rr_min_interval r then (None, r)
             else (Some (''spBv1.0/'' @ grp @ ''/NCMD/'' @ node, build_rebirth_ncmd (nat (now div 1000000))),
                   r\<lparr>rr_last_sent := (rr_last_sent r)(key \<mapsto> now)\<rparr>)
         | None \<Rightarrow> (Some (''spBv1.0/'' @ grp @ ''/NCMD/'' @ node, build_rebirth_ncmd (nat (now div 1000000))),
                   r\<lparr>rr_last_sent := (rr_last_sent r)(key \<mapsto> now)\<rparr>))"

section \<open>Properties of the alias table\<close>

lemma ingest_other_publisher:
  "key' \<noteq> key \<Longrightarrow> snd (snd (ingest now key mt p st)) key' = st key'"
  by (auto simp: ingest_def apply_birth_def apply_data_def apply_death_def Let_def split: option.split sum.split)

lemma resolve_metrics_names:
  assumes "resolve_metrics key aliases ms = Inr rs"
  shows "length rs = length ms \<and> (\<forall>i<length ms. \<forall>a. wm_alias (ms ! i) = Some a \<longrightarrow>
     (\<exists>e. aliases a = Some e \<and> rm_name (rs ! i) = ae_name e))"
  using assms
proof (induction ms arbitrary: rs)
  case (Cons m ms)
  from Cons.prems obtain r rs' where r: "resolve_metric key aliases m = Inr r"
    and rs': "resolve_metrics key aliases ms = Inr rs'" "rs = r # rs'"
    by (auto split: sum.splits)
  have hd: "wm_alias m = Some a \<Longrightarrow> \<exists>e. aliases a = Some e \<and> rm_name r = ae_name e" for a
    using r by (auto split: option.splits)
  show ?case using Cons.IH [OF rs'(1)] hd rs'(2) by (auto simp: nth_Cons split: nat.split)
qed simp

lemma resolve_metrics_Inl_iff:
  "(\<exists>e. resolve_metrics key aliases ms = Inl e) \<longleftrightarrow> (\<exists>m\<in>set ms. \<exists>a. wm_alias m = Some a \<and> aliases a = None)"
  by (induction ms) (auto split: sum.splits option.splits)

text \<open>A request sent now is debounced for the whole interval; other nodes are unaffected.\<close>

lemma rebirth_request_debounced:
  assumes "rebirth_request t0 grp node r = (Some out, r')" "0 \<le> t0" "t0 \<le> t1" "in64 t1"
    "t1 - t0 < rr_min_interval r"
  shows "rebirth_request t1 grp node r' = (None, r')"
proof -
  have "rr_last_sent r' (grp @ ''/'' @ node) = Some t0" "rr_min_interval r' = rr_min_interval r"
    using assms(1) by (auto simp: rebirth_request_def Let_def split: option.splits if_splits)
  moreover have "sub64 t1 t0 = t1 - t0" using assms by (intro sub64_nonneg) (auto simp: in64_def)
  ultimately show ?thesis using assms(5) by (simp add: rebirth_request_def)
qed

lemma rebirth_round_trip: "is_rebirth_request (Some (build_rebirth_ncmd now))"
  by (simp add: is_rebirth_request_def build_rebirth_ncmd_def empty_metric_def)

text \<open>The publisher of the witnesses.\<close>

definition demo_key :: publisher_key where
  "demo_key = \<lparr>pk_group = ''CPACK'', pk_node = ''edge-1'', pk_device = []\<rparr>"

end
