(* ===== verification/BirthBind.thy ===== *)
theory BirthBind
  imports SparkplugB "HOL-Library.Char_ord"
begin

text \<open>
  Birth binding (internal/birthbind) and the stamping of envelopes
  (cmd/edge-transformer/birthbind_wiring.go): a birth declares which device a metric
  belongs to, the table caches what the resolver answers, and every envelope built from
  the node's data is stamped with the bound ids. The resolver is an interface of the
  source, an argument here. Log lines and Prometheus counters are not modelled; the
  counts of \<open>BirthResult\<close> are.
\<close>

section \<open>The table\<close>

record binding =
  bn_id_equipment :: int
  bn_id_enterprise :: int
  bn_role :: string
  bn_declared :: string

type_synonym device_resolver = "string \<Rightarrow> (int \<times> int) option"

record node_bindings =
  nb_by_alias :: "nat \<rightharpoonup> binding"
  nb_by_name :: "string \<rightharpoonup> binding"

type_synonym bind_table = "(string \<times> string) \<rightharpoonup> node_bindings"

record birth_result =
  br_bound :: nat
  br_no_key :: nat
  br_unresolved :: nat
  br_bad_role :: nat
  br_no_alias :: nat

definition empty_result :: birth_result where
  "empty_result = \<lparr>br_bound = 0, br_no_key = 0, br_unresolved = 0, br_bad_role = 0, br_no_alias = 0\<rparr>"

definition parse_role :: "string \<Rightarrow> string option" where
  "parse_role s = (if s \<in> {''gross'', ''net'', ''scrap''} then Some s else None)"

text \<open>The regular expression \<open>^[a-z_]+(\.[a-z_]+)+$\<close>.\<close>

definition role_shape :: "string \<Rightarrow> bool" where
  "role_shape s = (let parts = split_on (CHR ''.'') s
     in 2 \<le> length parts \<and> (\<forall>p\<in>set parts. p \<noteq> [] \<and>
          list_all (\<lambda>c. (CHR ''a'' \<le> c \<and> c \<le> CHR ''z'') \<or> c = CHR ''_'') p))"

definition map_resolver :: "(string \<rightharpoonup> int) \<Rightarrow> device_resolver" where
  "map_resolver m key = map_option (\<lambda>i. (i, 0)) (m key)"

definition resolve_device :: "device_resolver option \<Rightarrow> string \<Rightarrow> (int \<times> int) option" where
  "resolve_device r key = (case r of None \<Rightarrow> None | Some f \<Rightarrow> if key = [] then None else f key)"

text \<open>What one birth metric declares: nothing, a reason not to bind it, or a binding.\<close>

datatype bind_outcome = NotGoverned | BadRole | NoAlias | NoKey | Unresolved | Bound nat binding

definition bind_metric :: "device_resolver option \<Rightarrow> wire_metric \<Rightarrow> bind_outcome" where
  "bind_metric r m =
     (let declared0 = get_or [] (string_property m ''role'');
          role_str = string_property m ''counter_role''
      in if role_str = None \<and> declared0 = [] then NotGoverned
      else let role = (case role_str of None \<Rightarrow> Some [] | Some s \<Rightarrow> parse_role s)
      in case role of None \<Rightarrow> BadRole
      | Some role' \<Rightarrow>
        (let declared = (if role_str \<noteq> None \<and> declared0 = [] then ''counter.'' @ role' else declared0)
         in if \<not> role_shape declared then BadRole
         else case wm_alias m of None \<Rightarrow> NoAlias
         | Some a \<Rightarrow>
           (let key = get_or [] (string_property m ''device_key'')
            in if key = [] then NoKey
            else case resolve_device r key of None \<Rightarrow> Unresolved
            | Some (eq, ent) \<Rightarrow> if eq \<le> 0 then Unresolved
                else Bound a \<lparr>bn_id_equipment = eq, bn_id_enterprise = ent, bn_role = role', bn_declared = declared\<rparr>)))"

definition bind_step :: "device_resolver option \<Rightarrow> wire_metric \<Rightarrow> node_bindings \<times> birth_result \<Rightarrow> node_bindings \<times> birth_result" where
  "bind_step r m acc = (case acc of (nb, res) \<Rightarrow>
     (case bind_metric r m of
        NotGoverned \<Rightarrow> (nb, res)
      | BadRole \<Rightarrow> (nb, res\<lparr>br_bad_role := br_bad_role res + 1\<rparr>)
      | NoAlias \<Rightarrow> (nb, res\<lparr>br_no_alias := br_no_alias res + 1\<rparr>)
      | NoKey \<Rightarrow> (nb, res\<lparr>br_no_key := br_no_key res + 1\<rparr>)
      | Unresolved \<Rightarrow> (nb, res\<lparr>br_unresolved := br_unresolved res + 1\<rparr>)
      | Bound a b \<Rightarrow>
          (nb\<lparr>nb_by_alias := (nb_by_alias nb)(a \<mapsto> b),
              nb_by_name := (if get_or [] (wm_name m) \<noteq> [] then (nb_by_name nb)(get_or [] (wm_name m) \<mapsto> b) else nb_by_name nb)\<rparr>,
           res\<lparr>br_bound := br_bound res + 1\<rparr>)))"

definition empty_bindings :: node_bindings where
  "empty_bindings = \<lparr>nb_by_alias = Map.empty, nb_by_name = Map.empty\<rparr>"

definition apply_birth_bindings :: "device_resolver option \<Rightarrow> string \<Rightarrow> string \<Rightarrow> bool \<Rightarrow> payload \<Rightarrow> bind_table
    \<Rightarrow> birth_result \<times> bind_table" where
  "apply_birth_bindings r grp node nbirth p t =
     (let nb0 = (case t (grp, node) of None \<Rightarrow> empty_bindings | Some nb \<Rightarrow> if nbirth then empty_bindings else nb);
          (nb, res) = fold (bind_step r) (pl_metrics p) (nb0, empty_result)
      in (res, t((grp, node) \<mapsto> nb)))"

definition lookup_alias :: "bind_table \<Rightarrow> string \<Rightarrow> string \<Rightarrow> nat \<Rightarrow> binding option" where
  "lookup_alias t grp node a = (case t (grp, node) of None \<Rightarrow> None | Some nb \<Rightarrow> nb_by_alias nb a)"

definition lookup_name :: "bind_table \<Rightarrow> string \<Rightarrow> string \<Rightarrow> string \<Rightarrow> binding option" where
  "lookup_name t grp node name = (case t (grp, node) of None \<Rightarrow> None | Some nb \<Rightarrow> nb_by_name nb name)"

section \<open>Envelopes\<close>

record env_metric =
  em_name :: string
  em_timestamp :: int
  em_value :: go_value
  em_counter :: "f64 option"
  em_curspeed :: "f64 option"
  em_id_equipment :: "int option"
  em_role :: string

record analytics_envelope =
  ev_timestamp :: int
  ev_gateway :: string
  ev_source_type :: string
  ev_id_enterprise :: "int option"
  ev_metrics :: "env_metric list"

text \<open>\<open>onBirth\<close>: a \<open>None\<close> binder is the feature switched off.\<close>

definition on_birth :: "device_resolver option option \<Rightarrow> publisher_key \<Rightarrow> string \<Rightarrow> payload \<Rightarrow> bind_table \<Rightarrow> bind_table" where
  "on_birth binder key mt p t =
     (case binder of None \<Rightarrow> t
      | Some r \<Rightarrow> if mt = ''NBIRTH'' \<or> mt = ''DBIRTH''
          then snd (apply_birth_bindings r (pk_group key) (pk_node key) (mt = ''NBIRTH'') p t) else t)"

text \<open>The loop of \<open>stamp\<close>: (tenant so far, stamped, mixed, metrics).\<close>

fun stamp_loop :: "(string \<Rightarrow> binding option) \<Rightarrow> env_metric list \<Rightarrow> int \<Rightarrow> nat \<Rightarrow> bool \<Rightarrow> env_metric list \<times> int \<times> nat \<times> bool" where
  "stamp_loop lk [] ent stamped mixed = ([], ent, stamped, mixed)"
| "stamp_loop lk (m # ms) ent stamped mixed =
     (case lk (em_name m) of
        None \<Rightarrow> (case stamp_loop lk ms ent stamped mixed of (ms', r) \<Rightarrow> (m # ms', r))
      | Some b \<Rightarrow>
          (let ent' = (if bn_id_enterprise b = 0 then ent else if ent = 0 then bn_id_enterprise b else ent);
               mixed' = (mixed \<or> (bn_id_enterprise b \<noteq> 0 \<and> ent \<noteq> 0 \<and> ent \<noteq> bn_id_enterprise b))
           in case stamp_loop lk ms ent' (stamped + 1) mixed' of (ms', r) \<Rightarrow>
                (m\<lparr>em_id_equipment := Some (bn_id_equipment b), em_role := bn_declared b\<rparr> # ms', r)))"

definition stamp :: "device_resolver option option \<Rightarrow> bind_table \<Rightarrow> publisher_key \<Rightarrow> analytics_envelope \<Rightarrow> analytics_envelope" where
  "stamp binder t key env =
     (case binder of None \<Rightarrow> env
      | Some _ \<Rightarrow>
        (case stamp_loop (lookup_name t (pk_group key) (pk_node key)) (ev_metrics env) 0 0 False of
           (ms, ent, stamped, mixed) \<Rightarrow>
             if stamped = 0 then env\<lparr>ev_metrics := ms\<rparr>
             else if mixed then env\<lparr>ev_metrics := map (\<lambda>m. m\<lparr>em_id_equipment := None, em_role := []\<rparr>) ms\<rparr>
             else if 0 < ent then env\<lparr>ev_metrics := ms, ev_id_enterprise := Some ent\<rparr>
             else env\<lparr>ev_metrics := ms\<rparr>))"

section \<open>What a birth binds\<close>

text \<open>A binding of a metric is what it declared: its key resolves to exactly these ids.\<close>

lemma bind_metric_Bound:
  assumes "bind_metric r m = Bound a b"
  shows "wm_alias m = Some a" "\<exists>key f. r = Some f \<and> string_property m ''device_key'' = Some key \<and> key \<noteq> []
      \<and> f key = Some (bn_id_equipment b, bn_id_enterprise b)" "0 < bn_id_equipment b" "role_shape (bn_declared b)"
  using assms by (auto simp: bind_metric_def Let_def resolve_device_def get_or_def split: if_splits option.splits)

lemma bind_fold_name:
  assumes "nb_by_name (fst (fold (bind_step r) ms acc)) k = Some b"
  shows "(\<exists>m\<in>set ms. \<exists>a. wm_name m = Some k \<and> bind_metric r m = Bound a b) \<or> nb_by_name (fst acc) k = Some b"
  using assms
proof (induction ms arbitrary: acc)
  case (Cons m ms)
  have step: "nb_by_name (fst (bind_step r m acc)) k = Some b \<Longrightarrow>
      (\<exists>a. wm_name m = Some k \<and> bind_metric r m = Bound a b) \<or> nb_by_name (fst acc) k = Some b"
    by (cases acc; cases "wm_name m") (auto simp: bind_step_def get_or_def split: bind_outcome.splits if_splits)
  show ?case using Cons.IH [of "bind_step r m acc"] Cons.prems step by auto
qed simp

lemma bind_fold_counts:
  "br_bound (snd (fold (bind_step r) ms acc)) = br_bound (snd acc) + length (filter (\<lambda>m. \<exists>a b. bind_metric r m = Bound a b) ms)"
proof (induction ms arbitrary: acc)
  case (Cons m ms)
  have "br_bound (snd (bind_step r m acc)) = br_bound (snd acc) + (if \<exists>a b. bind_metric r m = Bound a b then 1 else 0)"
    by (cases acc) (auto simp: bind_step_def split: bind_outcome.splits)
  then show ?case using Cons.IH by simp
qed simp

lemma on_birth_other_node:
  "(grp, node) \<noteq> (pk_group key, pk_node key) \<Longrightarrow> lookup_name (on_birth binder key mt p t) grp node = lookup_name t grp node"
  by (auto simp: fun_eq_iff on_birth_def apply_birth_bindings_def lookup_name_def Let_def split: option.split prod.split)

section \<open>What a stamp writes\<close>

lemma stamp_loop_spec:
  assumes "stamp_loop lk ms ent n mx = (ms', ent', n', mx')"
  shows "map em_name ms' = map em_name ms \<and> map em_value ms' = map em_value ms
    \<and> n' = n + length (filter (\<lambda>m. lk (em_name m) \<noteq> None) ms)
    \<and> (mx \<longrightarrow> mx') \<and> (ent \<noteq> 0 \<longrightarrow> ent' = ent)
    \<and> (\<not> mx' \<longrightarrow> (\<forall>m\<in>set ms. \<forall>b. lk (em_name m) = Some b \<longrightarrow> bn_id_enterprise b = 0 \<or> bn_id_enterprise b = ent'))
    \<and> list_all2 (\<lambda>m m'. case lk (em_name m) of None \<Rightarrow> m' = m
         | Some b \<Rightarrow> m' = m\<lparr>em_id_equipment := Some (bn_id_equipment b), em_role := bn_declared b\<rparr>) ms ms'"
  using assms
proof (induction ms arbitrary: ent n mx ms')
  case (Cons m ms)
  show ?case
  proof (cases "lk (em_name m)")
    case None
    then obtain ms1 where ms1: "stamp_loop lk ms ent n mx = (ms1, ent', n', mx')" "ms' = m # ms1"
      using Cons.prems by (auto split: prod.splits)
    show ?thesis using Cons.IH [OF ms1(1)] None ms1(2) by simp
  next
    case (Some b)
    define e1 where "e1 = (if bn_id_enterprise b = 0 then ent else if ent = 0 then bn_id_enterprise b else ent)"
    define m1 where "m1 = (mx \<or> (bn_id_enterprise b \<noteq> 0 \<and> ent \<noteq> 0 \<and> ent \<noteq> bn_id_enterprise b))"
    obtain ms1 where ms1: "stamp_loop lk ms e1 (n + 1) m1 = (ms1, ent', n', mx')"
      "ms' = m\<lparr>em_id_equipment := Some (bn_id_equipment b), em_role := bn_declared b\<rparr> # ms1"
      using Cons.prems Some by (auto simp: Let_def e1_def m1_def split: prod.splits)
    note ih = Cons.IH [OF ms1(1)]
    have "ent \<noteq> 0 \<Longrightarrow> ent' = ent" using ih by (auto simp: e1_def split: if_splits)
    moreover have "\<not> mx' \<Longrightarrow> bn_id_enterprise b = 0 \<or> bn_id_enterprise b = ent'"
      using ih by (auto simp: e1_def m1_def split: if_splits)
    moreover have "mx \<Longrightarrow> mx'" using ih by (simp add: m1_def)
    ultimately show ?thesis using ih Some ms1(2) by auto
  qed
qed auto

section \<open>Properties\<close>

text \<open>
  After a node birth, a metric name is bound only if that very birth declared it: with an
  alias, a well-formed role and a device key that the resolver answers with a positive
  equipment, and the binding holds exactly the resolver's ids. Nothing survives from earlier
  births of the node and nothing of other nodes changes.
\<close>

theorem birth_binds_declared:
  assumes "lookup_name (on_birth (Some r) key ''NBIRTH'' p t) (pk_group key) (pk_node key) name = Some b"
  shows "list_ex (\<lambda>m. wm_name m = Some name \<and> wm_alias m \<noteq> None
      \<and> (\<exists>k f. r = Some f \<and> string_property m ''device_key'' = Some k \<and> k \<noteq> []
           \<and> f k = Some (bn_id_equipment b, bn_id_enterprise b))) (pl_metrics p)
    \<and> 0 < bn_id_equipment b \<and> role_shape (bn_declared b)
    \<and> (\<forall>grp node. (grp, node) \<noteq> (pk_group key, pk_node key) \<longrightarrow>
         lookup_name (on_birth (Some r) key ''NBIRTH'' p t) grp node = lookup_name t grp node)"
proof -
  have "nb_by_name (fst (fold (bind_step r) (pl_metrics p) (empty_bindings, empty_result))) name = Some b"
    using assms by (simp add: on_birth_def apply_birth_bindings_def lookup_name_def Let_def split_beta split: option.splits)
  from bind_fold_name [OF this] obtain m a where m: "m \<in> set (pl_metrics p)" "wm_name m = Some name" "bind_metric r m = Bound a b"
    by (auto simp: empty_bindings_def)
  have "list_ex (\<lambda>m. wm_name m = Some name \<and> wm_alias m \<noteq> None
      \<and> (\<exists>k f. r = Some f \<and> string_property m ''device_key'' = Some k \<and> k \<noteq> []
           \<and> f k = Some (bn_id_equipment b, bn_id_enterprise b))) (pl_metrics p)"
    unfolding list_ex_iff by (rule bexI [OF _ m(1)]) (use bind_metric_Bound(1,2) [OF m(3)] m(2) in simp)
  then show ?thesis using bind_metric_Bound(3,4) [OF m(3)] on_birth_other_node by blast
qed

definition demo_counter_metric :: "string \<Rightarrow> nat \<Rightarrow> string \<Rightarrow> wire_metric" where
  "demo_counter_metric name a key = empty_metric\<lparr>wm_name := Some name, wm_alias := Some a,
     wm_properties := Some \<lparr>ps_keys = [''counter_role'', ''device_key''],
       ps_values = [\<lparr>pv_null = False, pv_string = ''gross''\<rparr>, \<lparr>pv_null = False, pv_string = key\<rparr>]\<rparr>\<rparr>"

definition demo_bind_birth :: payload where
  "demo_bind_birth = \<lparr>pl_timestamp = None, pl_seq = Some 0,
     pl_metrics = [demo_counter_metric ''A/gross'' 1 ''dk_a'', demo_counter_metric ''B/gross'' 2 ''dk_b'']\<rparr>"

definition demo_resolver :: device_resolver where
  "demo_resolver k = (if k = ''dk_a'' then Some (47, 3) else if k = ''dk_b'' then Some (52, 4) else None)"

lemma demo_bound: "lookup_name (on_birth (Some (Some demo_resolver)) demo_key ''NBIRTH'' demo_bind_birth Map.empty) ''CPACK'' ''edge-1'' ''A/gross''
    = Some \<lparr>bn_id_equipment = 47, bn_id_enterprise = 3, bn_role = ''gross'', bn_declared = ''counter.gross''\<rparr>"
  by code_simp

lemma birth_binds_declared_witness:
  "list_ex (\<lambda>m. wm_name m = Some ''A/gross'' \<and> wm_alias m \<noteq> None
     \<and> (\<exists>k f. Some demo_resolver = Some f \<and> string_property m ''device_key'' = Some k \<and> k \<noteq> [] \<and> f k = Some (47, 3)))
     (pl_metrics demo_bind_birth)"
  using birth_binds_declared [of "Some demo_resolver" demo_key demo_bind_birth Map.empty "''A/gross''"] demo_bound
  by (simp add: demo_key_def)

text \<open>
  C34: A stamped envelope is fail-closed. Names and values are untouched; an equipment id
  on a metric is the id its node's birth bound to that name; and all the bindings of one
  envelope that name a tenant name the same one, the envelope's \<open>id_enterprise\<close> (if they
  disagree, no metric carries an id and no tenant is written).
\<close>

theorem stamp_fail_closed:
  assumes "list_all (\<lambda>m. em_id_equipment m = None) (ev_metrics env)" "ev_id_enterprise env = None"
  shows "map em_name (ev_metrics (stamp (Some r) t key env)) = map em_name (ev_metrics env)
    \<and> map em_value (ev_metrics (stamp (Some r) t key env)) = map em_value (ev_metrics env)
    \<and> (\<forall>m\<in>set (ev_metrics (stamp (Some r) t key env)). \<forall>i. em_id_equipment m = Some i \<longrightarrow>
        (\<exists>b. lookup_name t (pk_group key) (pk_node key) (em_name m) = Some b \<and> i = bn_id_equipment b \<and> em_role m = bn_declared b
           \<and> (0 < bn_id_enterprise b \<longrightarrow> ev_id_enterprise (stamp (Some r) t key env) = Some (bn_id_enterprise b))))"
proof -
  let ?lk = "lookup_name t (pk_group key) (pk_node key)"
  obtain ms ent n mx where loop: "stamp_loop ?lk (ev_metrics env) 0 0 False = (ms, ent, n, mx)" by (metis prod_cases4)
  note sp = stamp_loop_spec [OF loop]
  have rel: "list_all2 (\<lambda>m m'. case ?lk (em_name m) of None \<Rightarrow> m' = m
      | Some b \<Rightarrow> m' = m\<lparr>em_id_equipment := Some (bn_id_equipment b), em_role := bn_declared b\<rparr>) (ev_metrics env) ms"
    using sp by blast
  have each: "\<exists>b. ?lk (em_name m') = Some b \<and> i = bn_id_equipment b \<and> em_role m' = bn_declared b
      \<and> (\<not> mx \<longrightarrow> 0 < bn_id_enterprise b \<longrightarrow> ent = bn_id_enterprise b)"
    if m': "m' \<in> set ms" "em_id_equipment m' = Some i" for m' i
  proof -
    obtain j where j: "j < length ms" "m' = ms ! j" "j < length (ev_metrics env)"
      using m'(1) list_all2_lengthD [OF rel] by (auto simp: in_set_conv_nth)
    have r: "case ?lk (em_name (ev_metrics env ! j)) of None \<Rightarrow> m' = ev_metrics env ! j
      | Some b \<Rightarrow> m' = (ev_metrics env ! j)\<lparr>em_id_equipment := Some (bn_id_equipment b), em_role := bn_declared b\<rparr>"
      using list_all2_nthD2 [OF rel j(1)] unfolding j(2) .
    have none: "em_id_equipment (ev_metrics env ! j) = None" using assms(1) j(3) by (simp add: list_all_length)
    obtain b where b: "?lk (em_name (ev_metrics env ! j)) = Some b" using r none m'(2) by (auto split: option.splits)
    have "\<not> mx \<Longrightarrow> bn_id_enterprise b = 0 \<or> bn_id_enterprise b = ent" using sp b nth_mem [OF j(3)] by blast
    then show ?thesis using r b m'(2) by auto
  qed
  show ?thesis
  proof (cases "n \<noteq> 0 \<and> mx")
    case True
    then show ?thesis using sp by (simp add: stamp_def loop comp_def)
  next
    case False
    have ids: "ev_metrics (stamp (Some r) t key env) = ms" using False by (auto simp: stamp_def loop)
    have "em_id_equipment m' = None" if in_ms: "m' \<in> set ms" and zero: "n = 0" for m'
    proof (rule ccontr)
      assume "em_id_equipment m' \<noteq> None"
      then obtain i where "em_id_equipment m' = Some i" by blast
      from each [OF in_ms this] obtain b where "?lk (em_name m') = Some b" by blast
      moreover have "em_name m' \<in> set (map em_name (ev_metrics env))" using sp in_ms by (metis image_eqI set_map)
      ultimately show False using sp zero by (auto simp: filter_empty_conv)
    qed
    moreover have "ev_id_enterprise (stamp (Some r) t key env) = (if n \<noteq> 0 \<and> 0 < ent then Some ent else None)"
      using False assms(2) by (auto simp: stamp_def loop)
    ultimately show ?thesis using sp each False unfolding ids by fastforce
  qed
qed

definition demo_env_metric :: "string \<Rightarrow> int \<Rightarrow> env_metric" where
  "demo_env_metric name v = \<lparr>em_name = name, em_timestamp = 0, em_value = VInt64 v, em_counter = None,
     em_curspeed = None, em_id_equipment = None, em_role = []\<rparr>"

definition demo_envelope :: "env_metric list \<Rightarrow> analytics_envelope" where
  "demo_envelope ms = \<lparr>ev_timestamp = 0, ev_gateway = ''edge-transformer:outbox'', ev_source_type = ''refactored'',
     ev_id_enterprise = None, ev_metrics = ms\<rparr>"

lemma stamp_fail_closed_witness:
  "map em_name (ev_metrics (stamp (Some (Some demo_resolver))
       (on_birth (Some (Some demo_resolver)) demo_key ''NBIRTH'' demo_bind_birth Map.empty) demo_key
       (demo_envelope [demo_env_metric ''A/gross'' 7, demo_env_metric ''X'' 8]))) = [''A/gross'', ''X'']"
  using stamp_fail_closed [of "demo_envelope [demo_env_metric ''A/gross'' 7, demo_env_metric ''X'' 8]" "Some demo_resolver"]
  by (simp add: demo_envelope_def demo_env_metric_def)

end
