(* ===== verification/CalcState.thy ===== *)
theory CalcState
  imports Float64 GoStrings "HOL-Library.List_Lexorder" "HOL-Library.Char_ord"
    "HOL-Library.Product_Lexorder"
begin

text \<open>
  The state layer of \<open>calc_production_counters\<close>: \<open>memState\<close> (state.go) and the
  \<open>TrackedState\<close> that records which numeric keys changed since the last checkpoint
  (tracked_state.go). Both implement Go's \<open>State\<close> interface; the interface is the
  locale \<open>keyed_store\<close>, whose one law says what a read returns after a write, and
  both are interpretations of it. The mutexes are not modelled: every method runs
  under its lock, so a call is one atomic step.
\<close>

section \<open>The store interface\<close>

locale keyed_store =
  fixes get :: "'s \<Rightarrow> 'k \<Rightarrow> 'v option"
    and put :: "'w \<Rightarrow> 's \<Rightarrow> 's"
    and target :: "'w \<Rightarrow> 'k"
    and content :: "'w \<Rightarrow> 'v"
  assumes get_put: "get (put w s) k = (if k = target w then Some (content w) else get s k)"
begin

lemma get_put_same [simp]: "get (put w s) (target w) = Some (content w)"
  by (simp add: get_put)

lemma get_fold_other: "k \<notin> target ` set ws \<Longrightarrow> get (fold put ws s) k = get s k"
  by (induction ws arbitrary: s) (auto simp: get_put)

lemma get_fold:
  "get (fold put ws s) k =
     (case find (\<lambda>w. target w = k) (rev ws) of Some w \<Rightarrow> Some (content w) | None \<Rightarrow> get s k)"
proof (induction ws rule: rev_induct)
  case (snoc w ws)
  then show ?case by (auto simp: get_put)
qed simp

lemma get_fold_cong: "(\<And>k. get s k = get t k) \<Longrightarrow> get (fold put ws s) k = get (fold put ws t) k"
  by (simp add: get_fold split: option.split)

lemma get_fold_written:
  assumes "w \<in> set ws" and "\<forall>w'\<in>set ws. target w' = target w \<longrightarrow> w' = w"
  shows "get (fold put ws s) (target w) = Some (content w)"
proof -
  obtain w' where w': "find (\<lambda>v. target v = target w) (rev ws) = Some w'"
    using assms(1) by (cases "find (\<lambda>v. target v = target w) (rev ws)") (auto simp: find_None_iff)
  then obtain i where "i < length (rev ws)" "w' = rev ws ! i" "target w' = target w"
    by (auto simp: find_Some_iff)
  then have "w' \<in> set ws" "target w' = target w" by (metis nth_mem set_rev)+
  with assms(2) w' show ?thesis by (auto simp: get_fold)
qed

end

section \<open>memState\<close>

record mem_state =
  ms_ints :: "string \<rightharpoonup> int"
  ms_floats :: "string \<rightharpoonup> f64"
  ms_times :: "string \<rightharpoonup> int"
  ms_bools :: "string \<rightharpoonup> bool"
  ms_strings :: "string \<rightharpoonup> string list"
  ms_modes :: "string \<rightharpoonup> int"

definition new_mem_state :: mem_state where
  "new_mem_state = \<lparr>ms_ints = Map.empty, ms_floats = Map.empty, ms_times = Map.empty,
     ms_bools = Map.empty, ms_strings = Map.empty, ms_modes = Map.empty\<rparr>"

definition mem_set_int :: "string \<Rightarrow> int \<Rightarrow> mem_state \<Rightarrow> mem_state" where
  "mem_set_int key v s = s\<lparr>ms_ints := (ms_ints s)(key \<mapsto> v)\<rparr>"
definition mem_set_float :: "string \<Rightarrow> f64 \<Rightarrow> mem_state \<Rightarrow> mem_state" where
  "mem_set_float key v s = s\<lparr>ms_floats := (ms_floats s)(key \<mapsto> v)\<rparr>"
definition mem_set_time :: "string \<Rightarrow> int \<Rightarrow> mem_state \<Rightarrow> mem_state" where
  "mem_set_time key v s = s\<lparr>ms_times := (ms_times s)(key \<mapsto> v)\<rparr>"
definition mem_set_bool :: "string \<Rightarrow> bool \<Rightarrow> mem_state \<Rightarrow> mem_state" where
  "mem_set_bool key v s = s\<lparr>ms_bools := (ms_bools s)(key \<mapsto> v)\<rparr>"
definition mem_set_strings :: "string \<Rightarrow> string list \<Rightarrow> mem_state \<Rightarrow> mem_state" where
  "mem_set_strings key v s = s\<lparr>ms_strings := (ms_strings s)(key \<mapsto> v)\<rparr>"
definition mem_set_unit_mode :: "string \<Rightarrow> int \<Rightarrow> mem_state \<Rightarrow> mem_state" where
  "mem_set_unit_mode key v s = s\<lparr>ms_modes := (ms_modes s)(key \<mapsto> v)\<rparr>"

lemmas mem_set_defs = mem_set_int_def mem_set_float_def mem_set_time_def mem_set_bool_def
  mem_set_strings_def mem_set_unit_mode_def

text \<open>The \<open>v, _ := state.Int(key)\<close> reads: the zero value for a missing key.\<close>

definition int0 :: "mem_state \<Rightarrow> string \<Rightarrow> int" where
  "int0 s key = get_or 0 (ms_ints s key)"
definition float0 :: "mem_state \<Rightarrow> string \<Rightarrow> f64" where
  "float0 s key = get_or (Fin 0) (ms_floats s key)"
definition time0 :: "mem_state \<Rightarrow> string \<Rightarrow> int" where
  "time0 s key = get_or 0 (ms_times s key)"
definition bool0 :: "mem_state \<Rightarrow> string \<Rightarrow> bool" where
  "bool0 s key = get_or False (ms_bools s key)"
definition strings0 :: "mem_state \<Rightarrow> string \<Rightarrow> string list" where
  "strings0 s key = get_or [] (ms_strings s key)"

section \<open>Deferred writes\<close>

text \<open>
  \<open>StateMutation\<close>: its \<open>Setter\<close> closure is one typed write. The typed slots a write
  can address, and the value read back from one, are the keys and values of the
  store interface.
\<close>

datatype state_write =
  SetInt string int | SetFloat string f64 | SetTimeMs string int
| SetBool string bool | SetStrings string "string list"

datatype slot = IntSlot string | FloatSlot string | TimeSlot string | BoolSlot string | StringsSlot string
datatype slot_value = IntVal int | FloatVal f64 | TimeVal int | BoolVal bool | StringsVal "string list"

record state_mutation =
  mut_kind :: string
  mut_write :: state_write

fun write_slot :: "state_write \<Rightarrow> slot" where
  "write_slot (SetInt k v) = IntSlot k" | "write_slot (SetFloat k v) = FloatSlot k"
| "write_slot (SetTimeMs k v) = TimeSlot k" | "write_slot (SetBool k v) = BoolSlot k"
| "write_slot (SetStrings k v) = StringsSlot k"

fun write_value :: "state_write \<Rightarrow> slot_value" where
  "write_value (SetInt k v) = IntVal v" | "write_value (SetFloat k v) = FloatVal v"
| "write_value (SetTimeMs k v) = TimeVal v" | "write_value (SetBool k v) = BoolVal v"
| "write_value (SetStrings k v) = StringsVal v"

fun apply_write :: "state_write \<Rightarrow> mem_state \<Rightarrow> mem_state" where
  "apply_write (SetInt k v) s = mem_set_int k v s"
| "apply_write (SetFloat k v) s = mem_set_float k v s"
| "apply_write (SetTimeMs k v) s = mem_set_time k v s"
| "apply_write (SetBool k v) s = mem_set_bool k v s"
| "apply_write (SetStrings k v) s = mem_set_strings k v s"

fun read_slot :: "mem_state \<Rightarrow> slot \<Rightarrow> slot_value option" where
  "read_slot s (IntSlot k) = map_option IntVal (ms_ints s k)"
| "read_slot s (FloatSlot k) = map_option FloatVal (ms_floats s k)"
| "read_slot s (TimeSlot k) = map_option TimeVal (ms_times s k)"
| "read_slot s (BoolSlot k) = map_option BoolVal (ms_bools s k)"
| "read_slot s (StringsSlot k) = map_option StringsVal (ms_strings s k)"

definition apply_mutations :: "state_mutation list \<Rightarrow> mem_state \<Rightarrow> mem_state" where
  "apply_mutations ms = fold (\<lambda>m. apply_write (mut_write m)) ms"

interpretation mem: keyed_store read_slot apply_write write_slot write_value
proof unfold_locales
  fix w s k
  show "read_slot (apply_write w s) k = (if k = write_slot w then Some (write_value w) else read_slot s k)"
    by (cases w; cases k) (auto simp: mem_set_defs)
qed

text \<open>Two states that agree on every slot and every unit mode are equal.\<close>

lemma mem_state_eqI:
  assumes "\<And>k. read_slot s k = read_slot t k" and "ms_modes s = ms_modes t"
  shows "s = (t :: mem_state)"
proof -
  have inj: "inj IntVal" "inj FloatVal" "inj TimeVal" "inj BoolVal" "inj StringsVal"
    by (auto intro: injI)
  have "ms_ints s = ms_ints t" "ms_floats s = ms_floats t" "ms_times s = ms_times t"
    "ms_bools s = ms_bools t" "ms_strings s = ms_strings t"
    using assms(1) [of "IntSlot _"] assms(1) [of "FloatSlot _"] assms(1) [of "TimeSlot _"]
      assms(1) [of "BoolSlot _"] assms(1) [of "StringsSlot _"] inj
    by (auto simp: fun_eq_iff option.inj_map [THEN inj_eq])
  with assms(2) show ?thesis by simp
qed

lemma apply_write_modes [simp]: "ms_modes (apply_write w s) = ms_modes s"
  by (cases w) (simp_all add: mem_set_defs)

lemma fold_apply_write_modes [simp]: "ms_modes (fold apply_write ws s) = ms_modes s"
  by (induction ws arbitrary: s) auto

lemma apply_mutations_fold: "apply_mutations ms = fold apply_write (map mut_write ms)"
  by (simp add: apply_mutations_def fold_map comp_def)

lemma apply_mutations_simps [simp]:
  "apply_mutations [] s = s"
  "apply_mutations (m # ms) s = apply_mutations ms (apply_write (mut_write m) s)"
  "apply_mutations (ms @ ns) s = apply_mutations ns (apply_mutations ms s)"
  by (simp_all add: apply_mutations_def)

end
