(* ===== verification/TrackedState.thy ===== *)
theory TrackedState
  imports CalcState
begin

text \<open>
  \<open>tracked_state.go\<close>: a \<open>State\<close> that also records which numeric keys (int, float,
  time) were written since the last \<open>TakeDirty\<close>, so that the caller can checkpoint the
  counter baselines in the transaction that enqueues the envelopes computed from them.
  The dirty set is a set of (kind, key) pairs, as the Go map with empty-struct values
  is; \<open>TakeDirty\<close> returns the entries sorted by kind and key.
\<close>

section \<open>Entries\<close>

datatype entry_kind = EntryFloat | EntryInt | EntryTimeMs

text \<open>The order of the Go string constants: \<open>float < int < time_ms\<close>.\<close>

fun kind_rank :: "entry_kind \<Rightarrow> nat" where
  "kind_rank EntryFloat = 0" | "kind_rank EntryInt = 1" | "kind_rank EntryTimeMs = 2"

fun kind_string :: "entry_kind \<Rightarrow> string" where
  "kind_string EntryFloat = ''float''" | "kind_string EntryInt = ''int''"
| "kind_string EntryTimeMs = ''time_ms''"

lemma kind_rank_inj: "kind_rank a = kind_rank b \<Longrightarrow> a = b"
  by (cases a; cases b) auto

lemma kind_rank_string: "kind_rank a \<le> kind_rank b \<longleftrightarrow> kind_string a \<le> kind_string b"
  by (cases a; cases b) (auto simp: less_eq_char_def less_char_def)

instantiation entry_kind :: linorder
begin

definition less_eq_entry_kind :: "entry_kind \<Rightarrow> entry_kind \<Rightarrow> bool" where
  "less_eq_entry_kind a b = (kind_rank a \<le> kind_rank b)"

definition less_entry_kind :: "entry_kind \<Rightarrow> entry_kind \<Rightarrow> bool" where
  "less_entry_kind a b = (kind_rank a < kind_rank b)"

instance
  by standard (auto simp: less_eq_entry_kind_def less_entry_kind_def dest: kind_rank_inj)

end

type_synonym dirty_key = "entry_kind \<times> string"

record state_entry =
  e_kind :: entry_kind
  e_key :: string
  e_int :: int
  e_float :: f64

section \<open>TrackedState\<close>

record tracked_state =
  ts_inner :: mem_state
  ts_dirty :: "dirty_key set"

definition new_tracked_state :: "mem_state \<Rightarrow> tracked_state" where
  "new_tracked_state s = \<lparr>ts_inner = s, ts_dirty = {}\<rparr>"

definition mark :: "entry_kind \<Rightarrow> string \<Rightarrow> tracked_state \<Rightarrow> tracked_state" where
  "mark kind key t = t\<lparr>ts_dirty := insert (kind, key) (ts_dirty t)\<rparr>"

definition tracked_set_int :: "string \<Rightarrow> int \<Rightarrow> tracked_state \<Rightarrow> tracked_state" where
  "tracked_set_int key v t = mark EntryInt key (t\<lparr>ts_inner := mem_set_int key v (ts_inner t)\<rparr>)"

definition tracked_set_float :: "string \<Rightarrow> f64 \<Rightarrow> tracked_state \<Rightarrow> tracked_state" where
  "tracked_set_float key v t = mark EntryFloat key (t\<lparr>ts_inner := mem_set_float key v (ts_inner t)\<rparr>)"

definition tracked_set_time :: "string \<Rightarrow> int \<Rightarrow> tracked_state \<Rightarrow> tracked_state" where
  "tracked_set_time key v t = mark EntryTimeMs key (t\<lparr>ts_inner := mem_set_time key v (ts_inner t)\<rparr>)"

text \<open>The embedded \<open>State\<close> serves the setters \<open>TrackedState\<close> does not override.\<close>

fun tracked_write :: "state_write \<Rightarrow> tracked_state \<Rightarrow> tracked_state" where
  "tracked_write (SetInt k v) t = tracked_set_int k v t"
| "tracked_write (SetFloat k v) t = tracked_set_float k v t"
| "tracked_write (SetTimeMs k v) t = tracked_set_time k v t"
| "tracked_write w t = t\<lparr>ts_inner := apply_write w (ts_inner t)\<rparr>"

fun read_entry :: "mem_state \<Rightarrow> dirty_key \<Rightarrow> state_entry option" where
  "read_entry s (EntryInt, key) =
     map_option (\<lambda>v. \<lparr>e_kind = EntryInt, e_key = key, e_int = v, e_float = Fin 0\<rparr>) (ms_ints s key)"
| "read_entry s (EntryFloat, key) =
     map_option (\<lambda>v. \<lparr>e_kind = EntryFloat, e_key = key, e_int = 0, e_float = v\<rparr>) (ms_floats s key)"
| "read_entry s (EntryTimeMs, key) =
     map_option (\<lambda>v. \<lparr>e_kind = EntryTimeMs, e_key = key, e_int = v, e_float = Fin 0\<rparr>) (ms_times s key)"

definition take_dirty :: "tracked_state \<Rightarrow> state_entry list \<times> tracked_state" where
  "take_dirty t =
     (List.map_filter (read_entry (ts_inner t)) (sorted_list_of_set (ts_dirty t)), t\<lparr>ts_dirty := {}\<rparr>)"

definition requeue :: "state_entry list \<Rightarrow> tracked_state \<Rightarrow> tracked_state" where
  "requeue es t = t\<lparr>ts_dirty := ts_dirty t \<union> set (map (\<lambda>e. (e_kind e, e_key e)) es)\<rparr>"

fun restore_entry :: "state_entry \<Rightarrow> tracked_state \<Rightarrow> tracked_state" where
  "restore_entry e t = t\<lparr>ts_inner :=
     (case e_kind e of
        EntryInt \<Rightarrow> mem_set_int (e_key e) (e_int e) (ts_inner t)
      | EntryFloat \<Rightarrow> mem_set_float (e_key e) (e_float e) (ts_inner t)
      | EntryTimeMs \<Rightarrow> mem_set_time (e_key e) (e_int e) (ts_inner t))\<rparr>"

definition restore :: "state_entry list \<Rightarrow> tracked_state \<Rightarrow> tracked_state \<times> nat" where
  "restore es t = (fold restore_entry es t, length es)"

text \<open>A \<open>TrackedState\<close> is a \<open>State\<close>: the interface law holds for it as well.\<close>

lemma tracked_write_inner [simp]: "ts_inner (tracked_write w t) = apply_write w (ts_inner t)"
  by (cases w) (simp_all add: tracked_set_int_def tracked_set_float_def tracked_set_time_def mark_def)

interpretation tracked: keyed_store "\<lambda>t. read_slot (ts_inner t)" tracked_write write_slot write_value
  by unfold_locales (simp add: mem.get_put)

lemma tracked_fold_inner [simp]:
  "ts_inner (fold tracked_write ws t) = fold apply_write ws (ts_inner t)"
  by (induction ws arbitrary: t) auto

section \<open>What the dirty set covers\<close>

fun write_dirty :: "state_write \<Rightarrow> dirty_key set" where
  "write_dirty (SetInt k v) = {(EntryInt, k)}"
| "write_dirty (SetFloat k v) = {(EntryFloat, k)}"
| "write_dirty (SetTimeMs k v) = {(EntryTimeMs, k)}"
| "write_dirty w = {}"

lemma tracked_write_dirty [simp]: "ts_dirty (tracked_write w t) = ts_dirty t \<union> write_dirty w"
  by (cases w) (auto simp: tracked_set_int_def tracked_set_float_def tracked_set_time_def mark_def)

lemma read_entry_frame:
  "k \<notin> write_dirty w \<Longrightarrow> read_entry (apply_write w s) k = read_entry s k"
  by (cases w; cases k; cases "fst k") (auto simp: mem_set_defs)

lemma read_entry_key: "read_entry s k = Some e \<Longrightarrow> (e_kind e, e_key e) = k"
  by (cases k; cases "fst k") auto

lemma finite_dirty_write [simp]: "finite (write_dirty w)"
  by (cases w) auto

lemma take_dirty_entries:
  "finite (ts_dirty t) \<Longrightarrow>
   set (fst (take_dirty t)) = {e. \<exists>k\<in>ts_dirty t. read_entry (ts_inner t) k = Some e}"
  by (auto simp: take_dirty_def map_filter_def image_iff) (metis option.sel option.simps(3))

lemma take_dirty_state [simp]: "ts_inner (snd (take_dirty t)) = ts_inner t"
  "ts_dirty (snd (take_dirty t)) = {}"
  by (simp_all add: take_dirty_def)

end
