(* ===== verification/Outbox.thy ===== *)
theory Outbox
  imports CalcState "HOL-Library.AList"
begin

text \<open>
  The on-disk queue (internal/outbox/outbox.go) and the edge-transformer's drain loop
  (\<open>runOutboxDrain\<close>). The SQLite database is modelled by what its statements do: the
  rows of the \<open>outbox\<close> table, the \<open>AUTOINCREMENT\<close> sequence, and the \<open>calc_state\<close> table
  as an association list with one entry per (kind, key). A statement or transaction
  that fails is a \<open>False\<close> flag of the call and leaves the database as it was. Times are
  Unix nanoseconds; \<open>now\<close> is \<open>time.Now()\<close>. The payload type is a parameter: JSON
  envelopes for the edge-transformer, SparkPlug payloads for the agent.
\<close>

section \<open>Tables\<close>

record 'p outbox_message =
  om_id :: int
  om_tenant :: string
  om_topic :: string
  om_payload :: 'p
  om_enqueued_at :: "int option"      \<comment> \<open>\<open>None\<close> is the zero \<open>time.Time\<close>\<close>
  om_attempts :: nat

record 'p outbox_row =
  or_id :: int
  or_tenant :: string
  or_topic :: string
  or_payload :: 'p
  or_enqueued_at :: int
  or_attempts :: nat
  or_next_attempt_at :: int

record state_row =
  sr_kind :: string
  sr_key :: string
  sr_int :: int
  sr_float :: f64

type_synonym state_table = "((string \<times> string) \<times> (int \<times> f64 \<times> int)) list"

record 'p outbox_db =
  db_rows :: "'p outbox_row list"
  db_seq :: int
  db_state :: state_table

record 'p outbox_store =
  os_db :: "'p outbox_db"
  os_cap :: int

definition empty_db :: "'p outbox_db" where
  "empty_db = \<lparr>db_rows = [], db_seq = 0, db_state = []\<rparr>"

definition default_capacity :: int where
  "default_capacity = 100000"

datatype open_error = PathRequired | NegativeCapacity

definition open_store :: "string \<Rightarrow> int \<Rightarrow> 'p outbox_db \<Rightarrow> open_error + 'p outbox_store" where
  "open_store path cap db =
     (if path = [] then Inl PathRequired
      else if cap < 0 then Inl NegativeCapacity
      else Inr \<lparr>os_db = db, os_cap = (if cap = 0 then default_capacity else cap)\<rparr>)"

section \<open>Enqueue and checkpoint\<close>

text \<open>\<open>DELETE FROM outbox WHERE id IN (SELECT id ... ORDER BY id ASC LIMIT overflow)\<close>.\<close>

definition trim_to_capacity :: "int \<Rightarrow> 'p outbox_db \<Rightarrow> 'p outbox_db" where
  "trim_to_capacity max_rows db =
     (let overflow = int (length (db_rows db)) - max_rows
      in if overflow \<le> 0 then db
         else let doomed = set (take (nat overflow) (sort (map or_id (db_rows db))))
              in db\<lparr>db_rows := filter (\<lambda>r. or_id r \<notin> doomed) (db_rows db)\<rparr>)"

definition insert_message :: "int \<Rightarrow> 'p outbox_message \<Rightarrow> 'p outbox_db \<Rightarrow> int \<times> 'p outbox_db" where
  "insert_message now m db =
     (let i = db_seq db + 1
      in (i, db\<lparr>db_rows := db_rows db @ [\<lparr>or_id = i, or_tenant = om_tenant m, or_topic = om_topic m,
             or_payload = om_payload m, or_enqueued_at = get_or now (om_enqueued_at m), or_attempts = 0,
             or_next_attempt_at = 0\<rparr>], db_seq := i\<rparr>))"

fun insert_messages :: "int \<Rightarrow> 'p outbox_message list \<Rightarrow> 'p outbox_db \<Rightarrow> int list \<times> 'p outbox_db" where
  "insert_messages now [] db = ([], db)"
| "insert_messages now (m # ms) db =
     (case insert_message now m db of (i, db') \<Rightarrow>
      case insert_messages now ms db' of (is', db'') \<Rightarrow> (i # is', db''))"

text \<open>\<open>INSERT ... ON CONFLICT (kind, key) DO UPDATE\<close>.\<close>

definition upsert_state :: "int \<Rightarrow> state_row \<Rightarrow> 'p outbox_db \<Rightarrow> 'p outbox_db" where
  "upsert_state now r db =
     db\<lparr>db_state := AList.update (sr_kind r, sr_key r) (sr_int r, sr_float r, now) (db_state db)\<rparr>"

definition enqueue_batch :: "int \<Rightarrow> bool \<Rightarrow> 'p outbox_message list \<Rightarrow> state_row list \<Rightarrow> 'p outbox_store
    \<Rightarrow> int list option \<times> 'p outbox_store" where
  "enqueue_batch now ok msgs state st =
     (if \<not> ok then (None, st)
      else let db = os_db st;
               db1 = (if 0 < os_cap st \<and> msgs \<noteq> [] then trim_to_capacity (os_cap st - int (length msgs)) db else db);
               (ids, db2) = insert_messages now msgs db1;
               db3 = fold (upsert_state now) state db2
           in (Some ids, st\<lparr>os_db := db3\<rparr>))"

definition enqueue :: "int \<Rightarrow> bool \<Rightarrow> 'p outbox_message \<Rightarrow> 'p outbox_store \<Rightarrow> int option \<times> 'p outbox_store" where
  "enqueue now ok m st = (case enqueue_batch now ok [m] [] st of (ids, st') \<Rightarrow> (map_option hd ids, st'))"

definition load_state :: "bool \<Rightarrow> 'p outbox_store \<Rightarrow> state_row list option" where
  "load_state ok st = (if ok then Some (map (\<lambda>((kind, key), (i, f, _)). \<lparr>sr_kind = kind, sr_key = key, sr_int = i, sr_float = f\<rparr>)
     (sort_key fst (db_state (os_db st)))) else None)"

section \<open>Drain\<close>

definition row_message :: "'p outbox_row \<Rightarrow> 'p outbox_message" where
  "row_message r = \<lparr>om_id = or_id r, om_tenant = or_tenant r, om_topic = or_topic r, om_payload = or_payload r,
     om_enqueued_at = Some (or_enqueued_at r), om_attempts = or_attempts r\<rparr>"

text \<open>\<open>Peek\<close>: \<open>[]\<close> is \<open>ErrOutboxEmpty\<close>.\<close>

definition peek :: "int \<Rightarrow> int \<Rightarrow> 'p outbox_store \<Rightarrow> 'p outbox_message list" where
  "peek now batch_size st =
     map row_message (take (nat (if batch_size \<le> 0 then 1 else batch_size))
       (sort_key or_id (filter (\<lambda>r. or_next_attempt_at r \<le> now) (db_rows (os_db st)))))"

definition delete_row :: "int \<Rightarrow> 'p outbox_store \<Rightarrow> bool \<times> 'p outbox_store" where
  "delete_row i st =
     (i \<in> or_id ` set (db_rows (os_db st)),
      st\<lparr>os_db := (os_db st)\<lparr>db_rows := filter (\<lambda>r. or_id r \<noteq> i) (db_rows (os_db st))\<rparr>\<rparr>)"

definition mark_attempt :: "int \<Rightarrow> int \<Rightarrow> int \<Rightarrow> 'p outbox_store \<Rightarrow> 'p outbox_store" where
  "mark_attempt now i backoff st =
     st\<lparr>os_db := (os_db st)\<lparr>db_rows := map (\<lambda>r. if or_id r = i
        then r\<lparr>or_attempts := or_attempts r + 1, or_next_attempt_at := add64 now backoff\<rparr> else r) (db_rows (os_db st))\<rparr>\<rparr>"

definition depth :: "'p outbox_store \<Rightarrow> nat" where
  "depth st = length (db_rows (os_db st))"

definition oldest_age :: "int \<Rightarrow> 'p outbox_store \<Rightarrow> int" where
  "oldest_age now st = (if db_rows (os_db st) = [] then 0
     else sub64 now (Min (or_enqueued_at ` set (db_rows (os_db st)))))"

definition outbox_degraded :: "int \<Rightarrow> 'p outbox_store \<Rightarrow> bool" where
  "outbox_degraded now st \<longleftrightarrow> 5000 < depth st \<or> 60000000000 < oldest_age now st"

record 'b outbox_envelope =
  oe_routing_key :: string
  oe_message_id :: string
  oe_body :: 'b
  oe_traceparent :: string

text \<open>The doubling loop of \<open>backoff\<close>, in nanoseconds.\<close>

fun backoff_loop :: "nat \<Rightarrow> int \<Rightarrow> int" where
  "backoff_loop 0 d = d"
| "backoff_loop (Suc n) d = (if d < 60000000000 then backoff_loop n (2 * d) else d)"

definition backoff :: "nat \<Rightarrow> int" where
  "backoff attempts = (let d = backoff_loop attempts 1000000000 in if 60000000000 < d then 60000000000 else d)"

text \<open>
  One peeked row: a payload that does not unmarshal (\<open>None\<close>) is deleted; a published one is
  deleted after the confirm; a failed publish is marked for a later attempt. \<open>pub_ok\<close> is
  the publisher's answer and \<open>db_ok\<close> whether the database call that follows succeeds; its
  failure is ignored or logged.
\<close>

definition drain_one :: "int \<Rightarrow> 'b outbox_envelope option outbox_message \<Rightarrow> bool \<Rightarrow> bool
    \<Rightarrow> 'b outbox_envelope option outbox_store \<Rightarrow> 'b outbox_envelope list \<times> 'b outbox_envelope option outbox_store" where
  "drain_one now m pub_ok db_ok st =
     (case om_payload m of
        None \<Rightarrow> ([], if db_ok then snd (delete_row (om_id m) st) else st)
      | Some env \<Rightarrow>
          if pub_ok then ([env], if db_ok then snd (delete_row (om_id m) st) else st)
          else ([], if db_ok then mark_attempt now (om_id m) (backoff (om_attempts m + 1)) st else st))"

fun drain_rows :: "int \<Rightarrow> ('b outbox_envelope option outbox_message \<times> bool \<times> bool) list
    \<Rightarrow> 'b outbox_envelope option outbox_store \<Rightarrow> 'b outbox_envelope list \<times> 'b outbox_envelope option outbox_store" where
  "drain_rows now [] st = ([], st)"
| "drain_rows now ((m, pub_ok, db_ok) # ms) st =
     (case drain_one now m pub_ok db_ok st of (out, st') \<Rightarrow>
      case drain_rows now ms st' of (outs, st'') \<Rightarrow> (out @ outs, st''))"

text \<open>One turn of the loop of \<open>runOutboxDrain\<close>: a batch of ten.\<close>

definition outbox_drain_turn :: "int \<Rightarrow> (int \<Rightarrow> bool \<times> bool) \<Rightarrow> 'b outbox_envelope option outbox_store
    \<Rightarrow> 'b outbox_envelope list \<times> 'b outbox_envelope option outbox_store" where
  "outbox_drain_turn now answers st = drain_rows now (map (\<lambda>m. (m, answers (om_id m))) (peek now 10 st)) st"

section \<open>The table invariant\<close>

definition outbox_ok :: "'p outbox_store \<Rightarrow> bool" where
  "outbox_ok st \<longleftrightarrow> sorted_wrt (<) (map or_id (db_rows (os_db st)))
     \<and> (\<forall>r\<in>set (db_rows (os_db st)). or_id r \<le> db_seq (os_db st))
     \<and> distinct (map fst (db_state (os_db st))) \<and> 0 < os_cap st"

lemma open_store_ok: "open_store path cap empty_db = Inr st \<Longrightarrow> outbox_ok st"
  by (auto simp: open_store_def outbox_ok_def empty_db_def default_capacity_def split: if_splits)

lemma sort_strict: "sorted_wrt (<) (xs :: int list) \<Longrightarrow> sort xs = xs"
  by (intro sorted_sort_id) (simp add: sorted_wrt_mono_rel [of _ "(<)"] strict_sorted_iff)

lemma sort_key_strict: "sorted_wrt (<) (map or_id rs) \<Longrightarrow> sort_key or_id rs = rs"
  by (intro sort_key_id_if_sorted) (simp add: strict_sorted_iff)

lemma sorted_wrt_filter_map: "sorted_wrt (<) (map f xs) \<Longrightarrow> sorted_wrt (<) (map f (filter P xs))"
  by (induction xs) auto

text \<open>On an ordered table, trimming drops a prefix.\<close>

lemma filter_not_taken:
  assumes "sorted_wrt (<) (map or_id rs)"
  shows "filter (\<lambda>r. or_id r \<notin> set (take n (map or_id rs))) rs = drop n rs"
  using assms
proof (induction rs arbitrary: n)
  case (Cons r rs)
  show ?case
  proof (cases n)
    case 0
    then show ?thesis by simp
  next
    case (Suc k)
    have less: "\<forall>r'\<in>set rs. or_id r < or_id r'" using Cons.prems by auto
    then have "filter (\<lambda>x. or_id x \<notin> insert (or_id r) (set (take k (map or_id rs)))) rs
        = filter (\<lambda>x. or_id x \<notin> set (take k (map or_id rs))) rs"
      by (intro filter_cong) auto
    then show ?thesis using Cons Suc by simp
  qed
qed simp

lemma trim_drop:
  assumes "sorted_wrt (<) (map or_id (db_rows db))"
  shows "db_rows (trim_to_capacity m db) = drop (nat (int (length (db_rows db)) - m)) (db_rows db)"
    and "db_seq (trim_to_capacity m db) = db_seq db" "db_state (trim_to_capacity m db) = db_state db"
  using filter_not_taken [OF assms] by (simp_all add: trim_to_capacity_def Let_def sort_strict [OF assms])

lemma insert_messages_rows:
  "\<exists>new. db_rows (snd (insert_messages now ms db)) = db_rows db @ new
     \<and> map or_payload new = map om_payload ms \<and> map or_id new = fst (insert_messages now ms db)
     \<and> fst (insert_messages now ms db) = map (\<lambda>i. db_seq db + 1 + int i) [0..<length ms]
     \<and> db_seq (snd (insert_messages now ms db)) = db_seq db + int (length ms)
     \<and> (\<forall>r\<in>set new. or_attempts r = 0 \<and> or_next_attempt_at r = 0)
     \<and> db_state (snd (insert_messages now ms db)) = db_state db"
proof (induction ms arbitrary: db)
  case (Cons m ms)
  obtain i db' where i: "insert_message now m db = (i, db')" by fastforce
  obtain is' db'' where rest: "insert_messages now ms db' = (is', db'')" by fastforce
  have db': "i = db_seq db + 1" "db_seq db' = db_seq db + 1" "db_state db' = db_state db"
    "\<exists>r. db_rows db' = db_rows db @ [r] \<and> or_id r = i \<and> or_payload r = om_payload m \<and> or_attempts r = 0 \<and> or_next_attempt_at r = 0"
    using i by (auto simp: insert_message_def Let_def)
  have up: "map (\<lambda>j. db_seq db + 1 + int j) [0..<Suc n] = (db_seq db + 1) # map (\<lambda>j. db_seq db + 2 + int j) [0..<n]" for n
    by (induction n) auto
  from Cons.IH [of db'] rest obtain new where new: "db_rows db'' = db_rows db' @ new"
    "map or_payload new = map om_payload ms" "map or_id new = is'"
    "is' = map (\<lambda>i. db_seq db' + 1 + int i) [0..<length ms]" "db_seq db'' = db_seq db' + int (length ms)"
    "\<forall>r\<in>set new. or_attempts r = 0 \<and> or_next_attempt_at r = 0" "db_state db'' = db_state db'" by auto
  from db' obtain r where r: "db_rows db' = db_rows db @ [r]" "or_id r = i" "or_payload r = om_payload m"
    "or_attempts r = 0" "or_next_attempt_at r = 0" by blast
  show ?case
    by (rule exI [of _ "r # new"])
      (use new r db' i rest up [of "length ms"] in \<open>simp add: algebra_simps del: upt_Suc\<close>)
qed simp

lemma fold_upsert_rows [simp]: "db_rows (fold (upsert_state now) rs db) = db_rows db"
  "db_seq (fold (upsert_state now) rs db) = db_seq db"
  by (induction rs arbitrary: db) (auto simp: upsert_state_def)

lemma fold_upsert_distinct: "distinct (map fst (db_state db)) \<Longrightarrow> distinct (map fst (db_state (fold (upsert_state now) rs db)))"
  by (induction rs arbitrary: db) (auto simp: upsert_state_def distinct_update)

text \<open>What a successful batch leaves: the newest rows that fit, then the batch, in order.\<close>

lemma enqueue_batch_rows:
  assumes "outbox_ok st" "msgs \<noteq> []" "enqueue_batch now True msgs state st = (res, st')"
  shows "\<exists>new. db_rows (os_db st') = drop (nat (int (depth st) - (os_cap st - int (length msgs)))) (db_rows (os_db st)) @ new
     \<and> map or_payload new = map om_payload msgs \<and> res = Some (map or_id new)
     \<and> (\<forall>r\<in>set new. or_attempts r = 0 \<and> or_next_attempt_at r = 0) \<and> os_cap st' = os_cap st"
proof -
  have s: "sorted_wrt (<) (map or_id (db_rows (os_db st)))" "0 < os_cap st" using assms(1) by (simp_all add: outbox_ok_def)
  define db1 where "db1 = trim_to_capacity (os_cap st - int (length msgs)) (os_db st)"
  obtain new where new: "db_rows (snd (insert_messages now msgs db1)) = db_rows db1 @ new"
    "map or_payload new = map om_payload msgs" "map or_id new = fst (insert_messages now msgs db1)"
    "\<forall>r\<in>set new. or_attempts r = 0 \<and> or_next_attempt_at r = 0"
    using insert_messages_rows [of now msgs db1] by blast
  have res: "res = Some (fst (insert_messages now msgs db1))"
    "st' = st\<lparr>os_db := fold (upsert_state now) state (snd (insert_messages now msgs db1))\<rparr>"
    using assms(2,3) s(2) by (auto simp: enqueue_batch_def Let_def db1_def split: prod.splits)
  show ?thesis
    by (rule exI [of _ new]) (use new res trim_drop [OF s(1), of "os_cap st - int (length msgs)"] in
        \<open>simp add: db1_def depth_def\<close>)
qed

end
