(* ===== verification/OutboxProps.thy ===== *)
theory OutboxProps
  imports Outbox
begin

text \<open>
  What the queue guarantees: its table stays ordered, a batch is all or nothing, the
  oldest rows give way when it is full, messages come out in order, a row leaves the
  queue only for a stated reason, and the retry delay is bounded.
\<close>

section \<open>The invariant is kept\<close>

lemma sorted_map_shift: "sorted_wrt (<) (map (\<lambda>i. a + 1 + int i) [0..<n])"
  by (simp add: sorted_wrt_map)

lemma enqueue_batch_ok:
  assumes "outbox_ok st" "enqueue_batch now ok msgs state st = (res, st')"
  shows "outbox_ok st'"
proof (cases ok)
  case False
  then show ?thesis using assms by (simp add: enqueue_batch_def)
next
  case True
  have s: "sorted_wrt (<) (map or_id (db_rows (os_db st)))" "\<forall>r\<in>set (db_rows (os_db st)). or_id r \<le> db_seq (os_db st)"
    "distinct (map fst (db_state (os_db st)))" "0 < os_cap st" using assms(1) by (simp_all add: outbox_ok_def)
  define db1 where "db1 = (if 0 < os_cap st \<and> msgs \<noteq> [] then trim_to_capacity (os_cap st - int (length msgs)) (os_db st) else os_db st)"
  have db1: "sorted_wrt (<) (map or_id (db_rows db1))" "\<forall>r\<in>set (db_rows db1). or_id r \<le> db_seq db1"
    "distinct (map fst (db_state db1))" "db_seq db1 = db_seq (os_db st)"
    using s trim_drop [OF s(1)] by (auto simp: db1_def drop_map [symmetric] sorted_wrt_drop dest: in_set_dropD)
  obtain new where new: "db_rows (snd (insert_messages now msgs db1)) = db_rows db1 @ new"
    "map or_id new = map (\<lambda>i. db_seq db1 + 1 + int i) [0..<length msgs]"
    "db_seq (snd (insert_messages now msgs db1)) = db_seq db1 + int (length msgs)"
    "db_state (snd (insert_messages now msgs db1)) = db_state db1"
    using insert_messages_rows [of now msgs db1] by metis
  have st': "st' = st\<lparr>os_db := fold (upsert_state now) state (snd (insert_messages now msgs db1))\<rparr>"
    using assms(2) True by (auto simp: enqueue_batch_def Let_def db1_def split: prod.splits)
  have newset: "or_id ` set new = (\<lambda>i. db_seq db1 + 1 + int i) ` {0..<length msgs}"
    using arg_cong [OF new(2), of set] by simp
  have "sorted_wrt (<) (map or_id new)" unfolding new(2) by (rule sorted_map_shift)
  moreover have bound: "db_seq db1 < or_id r \<and> or_id r \<le> db_seq db1 + int (length msgs)" if "r \<in> set new" for r
  proof -
    have "or_id r \<in> (\<lambda>i. db_seq db1 + 1 + int i) ` {0..<length msgs}" using that newset by blast
    then obtain i where "i < length msgs" "or_id r = db_seq db1 + 1 + int i" by auto
    then show ?thesis by simp
  qed
  ultimately have ids: "sorted_wrt (<) (map or_id (db_rows db1 @ new))"
    using db1(1,2) by (fastforce simp: sorted_wrt_append)
  have le: "\<forall>r\<in>set (db_rows db1 @ new). or_id r \<le> db_seq db1 + int (length msgs)"
    using db1(2) bound by fastforce
  show ?thesis
    using ids le s(4) db1(3) fold_upsert_distinct [of "snd (insert_messages now msgs db1)" now state]
    by (simp add: outbox_ok_def st' new)
qed


lemma outbox_ok_filter:
  "outbox_ok st \<Longrightarrow> outbox_ok (st\<lparr>os_db := (os_db st)\<lparr>db_rows := filter P (db_rows (os_db st))\<rparr>\<rparr>)"
  by (simp add: outbox_ok_def sorted_wrt_filter_map)

lemma delete_row_ok: "outbox_ok st \<Longrightarrow> outbox_ok (snd (delete_row i st))"
  unfolding delete_row_def snd_conv by (rule outbox_ok_filter)

lemma mark_attempt_ids [simp]: "map or_id (db_rows (os_db (mark_attempt now i b st))) = map or_id (db_rows (os_db st))"
  by (simp add: mark_attempt_def comp_def if_distrib cong: if_cong)

lemma mark_attempt_ok: "outbox_ok st \<Longrightarrow> outbox_ok (mark_attempt now i b st)"
proof -
  assume a: "outbox_ok st"
  have img: "or_id ` set (db_rows (os_db (mark_attempt now i b st))) = or_id ` set (db_rows (os_db st))"
    unfolding set_map [symmetric] mark_attempt_ids ..
  have "or_id r \<le> db_seq (os_db st)" if "r \<in> set (db_rows (os_db (mark_attempt now i b st)))" for r
  proof -
    have "or_id r \<in> or_id ` set (db_rows (os_db st))" using that img by blast
    then show ?thesis using a by (auto simp: outbox_ok_def)
  qed
  moreover have "db_seq (os_db (mark_attempt now i b st)) = db_seq (os_db st)" "os_cap (mark_attempt now i b st) = os_cap st"
    "db_state (os_db (mark_attempt now i b st)) = db_state (os_db st)" by (simp_all add: mark_attempt_def)
  ultimately show ?thesis using a by (simp add: outbox_ok_def)
qed

text \<open>
  C33: After a committed batch that is not larger than the capacity, the queue holds at most
  its capacity; what it dropped is the oldest rows and nothing else, and the batch is at the
  end in the order given. A failed batch changes nothing at all.
\<close>

theorem enqueue_drops_oldest_within_capacity:
  assumes "outbox_ok st" "msgs \<noteq> []" "enqueue_batch now ok msgs state st = (res, st')"
  shows "if ok then
      (\<exists>k new. db_rows (os_db st') = drop k (db_rows (os_db st)) @ new \<and> map or_payload new = map om_payload msgs
         \<and> res = Some (map or_id new)
         \<and> (int (length msgs) \<le> os_cap st \<longrightarrow> int (depth st') \<le> os_cap st)
         \<and> (int (depth st + length msgs) \<le> os_cap st \<longrightarrow> k = 0))
    else res = None \<and> st' = st"
proof (cases ok)
  case False
  then show ?thesis using assms(3) by (simp add: enqueue_batch_def)
next
  case True
  have b: "enqueue_batch now True msgs state st = (res, st')" using assms(3) True by simp
  obtain new where new: "db_rows (os_db st') = drop (nat (int (depth st) - (os_cap st - int (length msgs)))) (db_rows (os_db st)) @ new"
    "map or_payload new = map om_payload msgs" "res = Some (map or_id new)"
    using enqueue_batch_rows [OF assms(1,2) b] by blast
  have len: "length new = length msgs" using arg_cong [OF new(2), of length] by simp
  show ?thesis using True new len
    by (simp only: if_True) (rule exI [of _ "nat (int (depth st) - (os_cap st - int (length msgs)))"],
      rule exI [of _ new], auto simp: depth_def)
qed

definition demo_om :: "'p \<Rightarrow> 'p outbox_message" where
  "demo_om v = \<lparr>om_id = 0, om_tenant = ''t'', om_topic = ''x'', om_payload = v, om_enqueued_at = None, om_attempts = 0\<rparr>"

definition demo_store :: "int \<Rightarrow> nat outbox_store" where
  "demo_store cap = \<lparr>os_db = empty_db, os_cap = cap\<rparr>"

lemma demo_store_ok [simp]: "0 < cap \<Longrightarrow> outbox_ok (demo_store cap)"
  by (simp add: demo_store_def outbox_ok_def empty_db_def)

lemma enqueue_drops_oldest_within_capacity_witness:
  "int (depth (snd (enqueue_batch 0 True (map demo_om [8, 9]) []
     (snd (enqueue_batch 0 True (map demo_om [6, 7]) [] (demo_store 3)))))) \<le> 3"
proof -
  obtain r1 st1 where a: "enqueue_batch 0 True (map demo_om [6, 7]) [] (demo_store 3) = (r1, st1)" by fastforce
  have ok1: "outbox_ok st1" by (rule enqueue_batch_ok [OF _ a]) simp
  have cap: "os_cap st1 = 3" using a by (auto simp: enqueue_batch_def demo_store_def Let_def split: prod.splits)
  obtain r2 st2 where b: "enqueue_batch 0 True (map demo_om [8, 9]) [] st1 = (r2, st2)" by fastforce
  show ?thesis
    using enqueue_drops_oldest_within_capacity [OF ok1 _ b] unfolding a snd_conv b by (auto simp: cap)
qed

text \<open>
  A batch larger than the capacity is stored whole, so the queue can exceed its
  capacity: everything older is dropped and the depth is exactly the size of the batch.
\<close>

theorem oversized_batch_exceeds_capacity:
  assumes "outbox_ok st" "os_cap st < int (length msgs)" "enqueue_batch now True msgs state st = (res, st')"
  shows "depth st' = length msgs \<and> os_cap st' < int (depth st')"
proof -
  have ne: "msgs \<noteq> []" using assms(1,2) by (auto simp: outbox_ok_def)
  obtain new where new: "db_rows (os_db st') = drop (nat (int (depth st) - (os_cap st - int (length msgs)))) (db_rows (os_db st)) @ new"
    "map or_payload new = map om_payload msgs" "os_cap st' = os_cap st"
    using enqueue_batch_rows [OF assms(1) ne assms(3)] by blast
  have len: "length new = length msgs" using arg_cong [OF new(2), of length] by simp
  have "drop (nat (int (depth st) - (os_cap st - int (length msgs)))) (db_rows (os_db st)) = []"
    using assms(2) by (simp add: depth_def)
  then show ?thesis using new len assms(2) by (simp add: depth_def)
qed

lemma oversized_batch_exceeds_capacity_witness:
  "depth (snd (enqueue_batch 0 True (map demo_om [5, 6, 7]) [] (demo_store 2))) = 3"
proof -
  obtain r st where a: "enqueue_batch 0 True (map demo_om [5, 6, 7]) [] (demo_store 2) = (r, st)" by fastforce
  have "os_cap (demo_store 2) = 2" by (simp add: demo_store_def)
  then show ?thesis using oversized_batch_exceeds_capacity [OF _ _ a] unfolding a snd_conv by simp
qed

section \<open>Order\<close>

lemma peek_prefix:
  assumes "outbox_ok st"
  shows "peek now n st = map row_message (take (nat (if n \<le> 0 then 1 else n))
    (filter (\<lambda>r. or_next_attempt_at r \<le> now) (db_rows (os_db st))))"
  using assms by (simp add: peek_def outbox_ok_def sort_key_strict sorted_wrt_filter_map)

text \<open>
  A peek returns messages in the order they were enqueued, all of them due; it misses a
  due row only when the batch is full; and it does not change the queue.
\<close>

theorem peek_is_fifo:
  assumes "outbox_ok st" "0 < n"
  shows "sorted_wrt (<) (map om_id (peek now n st))
    \<and> length (peek now n st) = min (nat n) (length (filter (\<lambda>r. or_next_attempt_at r \<le> now) (db_rows (os_db st))))
    \<and> list_all (\<lambda>m. list_ex (\<lambda>r. m = row_message r \<and> or_next_attempt_at r \<le> now) (db_rows (os_db st))) (peek now n st)
    \<and> (list_all (\<lambda>r. or_next_attempt_at r \<le> now) (db_rows (os_db st)) \<longrightarrow>
         peek now n st = map row_message (take (nat n) (db_rows (os_db st))))"
proof -
  have s: "sorted_wrt (<) (map or_id (filter (\<lambda>r. or_next_attempt_at r \<le> now) (db_rows (os_db st))))"
    using assms(1) by (simp add: outbox_ok_def sorted_wrt_filter_map)
  have "map om_id (map row_message xs) = map or_id xs" for xs :: "'a outbox_row list"
    by (simp add: row_message_def)
  then have "sorted_wrt (<) (map om_id (peek now n st))"
    using s assms(2) unfolding peek_prefix [OF assms(1)]
    by (simp add: take_map [symmetric] sorted_wrt_take del: map_map)
  moreover have "\<exists>r'\<in>set (db_rows (os_db st)). row_message r = row_message r' \<and> or_next_attempt_at r' \<le> now"
    if "r \<in> set (take m (filter (\<lambda>r. or_next_attempt_at r \<le> now) (db_rows (os_db st))))" for r m
    using in_set_takeD [OF that] by auto
  moreover have "filter (\<lambda>r. or_next_attempt_at r \<le> now) (db_rows (os_db st)) = db_rows (os_db st)"
    if "list_all (\<lambda>r. or_next_attempt_at r \<le> now) (db_rows (os_db st))"
    using that by (simp add: list_all_iff filter_id_conv)
  ultimately show ?thesis using assms(2) unfolding peek_prefix [OF assms(1)]
    by (auto simp: list_all_iff list_ex_iff)
qed

lemma peek_is_fifo_witness:
  "sorted_wrt (<) (map om_id (peek 5 10 (snd (enqueue_batch 0 True (map demo_om [5, 6, 7]) [] (demo_store 9)))))"
proof -
  obtain r st where a: "enqueue_batch 0 True (map demo_om [5, 6, 7]) [] (demo_store 9) = (r, st)" by fastforce
  have "outbox_ok st" by (rule enqueue_batch_ok [OF _ a]) simp
  then show ?thesis using peek_is_fifo [of st 10 5] unfolding a snd_conv by simp
qed

section \<open>The retry delay\<close>

lemma backoff_loop_pow: "0 < d \<Longrightarrow> backoff_loop n d = (if d < 60000000000 then backoff_loop n d else d)"
  by (cases n) auto

lemma backoff_loop_bounds:
  "0 < d \<Longrightarrow> d \<le> backoff_loop n d \<and> min (d * 2 ^ n) 60000000000 \<le> backoff_loop n d \<and> backoff_loop n d \<le> d * 2 ^ n"
proof (induction n arbitrary: d)
  case (Suc n)
  show ?case
  proof (cases "d < 60000000000")
    case True
    then show ?thesis using Suc.IH [of "2 * d"] Suc.prems by (auto simp: algebra_simps)
  next
    case False
    have "(1::int) \<le> 2 ^ Suc n" by (rule one_le_power) simp
    then have "d * 1 \<le> d * 2 ^ Suc n" using Suc.prems by (intro mult_left_mono) simp_all
    then show ?thesis using False by simp
  qed
qed simp

text \<open>
  The delay before the n-th retry of a failed publish is two to the n seconds, capped
  at sixty.
\<close>

theorem backoff_doubles_to_cap: "backoff n = min (1000000000 * 2 ^ n) 60000000000"
  using backoff_loop_bounds [of 1000000000 n] by (auto simp: backoff_def Let_def min_def)

end
