(* ===== verification/DecisionTree.thy ===== *)
theory DecisionTree
  imports GoStrings
begin

text \<open>
  Topic anatomy (decision_tree.go and the topic helpers of calc.go): which counter a
  SparkPlug topic carries, which unit it belongs to, and which trigger corrections its
  suffix asks for. The three entry points of the source that must agree with one
  another (\<open>parseTopicFull\<close>, \<open>DeriveUnitTopic\<close>, \<open>parseTriggerFlags\<close>) are separate
  definitions here as they are there, and are proved to agree.
\<close>

section \<open>Counter kinds and flags\<close>

datatype counter_kind = KindUnknown | Processed | Consumed | Defective

fun kind_name :: "counter_kind \<Rightarrow> string" where
  "kind_name Processed = ''ProdProcessedCount''"
| "kind_name Consumed = ''ProdConsumedCount''"
| "kind_name Defective = ''ProdDefectiveCount''"
| "kind_name KindUnknown = ''Unknown''"

record trigger_flags =
  trig_base :: bool
  trig_cs :: bool
  trig_ci :: bool
  trig_c_eq_i :: bool
  trig_c_eq_o :: bool
  trig_co :: bool
  state_speed_this :: bool

section \<open>Parsing\<close>

definition strip_trigger_suffix :: "string \<Rightarrow> string" where
  "strip_trigger_suffix topic =
     (case str_index ''***'' topic of None \<Rightarrow> topic | Some i \<Rightarrow> take i topic)"

text \<open>\<open>isCounterMetricName\<close>, and the same switch inside \<open>parseTopicFull\<close>.\<close>

definition is_counter_metric_name :: "string \<Rightarrow> counter_kind" where
  "is_counter_metric_name name =
     (if str_contains ''ProdProcessedCount'' name then Processed
      else if str_contains ''ProdConsumedCount'' name then Consumed
      else if str_contains ''ProdDefectiveCount'' name then Defective
      else KindUnknown)"

definition parse_topic_full :: "string \<Rightarrow> (string \<times> counter_kind \<times> trigger_flags) option" where
  "parse_topic_full topic =
     (if topic = [] then None
      else case str_index ''***'' topic of None \<Rightarrow> None
      | Some sep_idx \<Rightarrow>
        (let body = take sep_idx topic;
             suffix = drop (sep_idx + 3) topic;
             kind = (if str_contains ''ProdProcessedCount'' body then Processed
                     else if str_contains ''ProdConsumedCount'' body then Consumed
                     else if str_contains ''ProdDefectiveCount'' body then Defective
                     else KindUnknown)
         in if kind = KindUnknown then None
         else let parts = split_on (CHR ''/'') body
         in if length parts < 5 then None
         else let unit_topic =
                (if to_lower (parts ! 4) \<in> {''admin'', ''status'', ''command''}
                 then join_with ''/'' (take 4 parts)
                 else join_with ''/'' (take 5 parts));
              sfx = to_upper suffix;
              c_eq_o = str_contains ''TRIG_C=O'' sfx
         in Some (unit_topic, kind,
              \<lparr>trig_base = has_prefix ''TRIG'' sfx,
               trig_cs = str_contains ''TRIG_CS'' sfx,
               trig_ci = str_contains ''TRIG_CI'' sfx,
               trig_c_eq_i = str_contains ''TRIG_C=I'' sfx,
               trig_c_eq_o = c_eq_o,
               trig_co = (str_contains ''TRIG_CO'' sfx \<and> \<not> c_eq_o),
               state_speed_this = str_contains ''STATESPEED_THIS'' sfx\<rparr>)))"

definition parse_topic :: "string \<Rightarrow> (string \<times> counter_kind) option" where
  "parse_topic topic = map_option (\<lambda>(u, k, _). (u, k)) (parse_topic_full topic)"

definition derive_unit_topic :: "string \<Rightarrow> string option" where
  "derive_unit_topic topic =
     (let body = (case str_index ''***'' topic of Some idx \<Rightarrow> take idx topic | None \<Rightarrow> topic)
      in if body = [] then None
      else let parts = split_on (CHR ''/'') body
      in if length parts < 5 then Some (join_with ''/'' parts)
      else if to_lower (parts ! 4) \<in> {''admin'', ''status'', ''command''}
      then Some (join_with ''/'' (take 4 parts))
      else Some (join_with ''/'' (take 5 parts)))"

definition parse_trigger_flags :: "string \<Rightarrow> trigger_flags" where
  "parse_trigger_flags suffix =
     (let sfx = to_upper suffix; c_eq_o = str_contains ''TRIG_C=O'' sfx
      in \<lparr>trig_base = has_prefix ''TRIG'' sfx,
          trig_cs = str_contains ''TRIG_CS'' sfx,
          trig_ci = str_contains ''TRIG_CI'' sfx,
          trig_c_eq_i = str_contains ''TRIG_C=I'' sfx,
          trig_c_eq_o = c_eq_o,
          trig_co = (str_contains ''TRIG_CO'' sfx \<and> \<not> c_eq_o),
          state_speed_this = str_contains ''STATESPEED_THIS'' sfx\<rparr>)"

definition replace_counter_name :: "string \<Rightarrow> counter_kind \<Rightarrow> counter_kind \<Rightarrow> string" where
  "replace_counter_name base_topic from to =
     (if from = to then base_topic
      else replace_first (kind_name from) (kind_name to) base_topic)"

text \<open>\<open>lineTopicOf\<close>: first four segments, the line segment cut at \<open>::\<close>.\<close>

definition line_topic_of :: "string \<Rightarrow> string" where
  "line_topic_of unit_topic =
     (let parts = split_on (CHR ''/'') unit_topic
      in if length parts < 4 then unit_topic
      else let line = parts ! 3;
               line' = (case str_index ''::'' line of Some idx \<Rightarrow> take idx line | None \<Rightarrow> line)
      in join_with ''/'' ((take 4 parts)[3 := line']))"

definition is_line_level_metric_name :: "string \<Rightarrow> bool" where
  "is_line_level_metric_name name =
     (let parts = split_on (CHR ''/'') name
      in if length parts < 5 then False
      else to_lower (parts ! 4) \<in> {''admin'', ''status'', ''command''})"

section \<open>The three parsers agree\<close>

lemma parse_topic_full_kind:
  "parse_topic_full topic = Some (u, k, fl) \<Longrightarrow> k \<noteq> KindUnknown"
  by (auto simp: parse_topic_full_def Let_def split: option.splits if_splits)

text \<open>C: the exported key rule computes exactly the unit topic the full parser computes.\<close>

lemma derive_unit_topic_agrees:
  assumes "parse_topic_full topic = Some (u, k, fl)"
  shows "derive_unit_topic topic = Some u"
proof -
  from assms obtain i where i: "str_index ''***'' topic = Some i"
    by (auto simp: parse_topic_full_def Let_def split: option.splits if_splits)
  have "take i topic \<noteq> []"
  proof
    assume e: "take i topic = []"
    have "split_on (CHR ''/'') [] = [[]]" by simp
    with assms i e show False
      by (auto simp: parse_topic_full_def Let_def split: if_splits)
  qed
  with assms i show ?thesis
    by (auto simp: parse_topic_full_def derive_unit_topic_def Let_def split: if_splits)
qed

lemma parse_trigger_flags_agrees:
  assumes "parse_topic_full topic = Some (u, k, fl)" and "str_index ''***'' topic = Some i"
  shows "parse_trigger_flags (drop (i + 3) topic) = fl"
  using assms by (auto simp: parse_topic_full_def parse_trigger_flags_def Let_def split: if_splits)

lemma parse_topic_full_classifies:
  assumes "parse_topic_full topic = Some (u, k, fl)"
  shows "is_counter_metric_name (strip_trigger_suffix topic) = k"
  using assms
  by (auto simp: parse_topic_full_def is_counter_metric_name_def strip_trigger_suffix_def Let_def
      split: option.splits if_splits)

section \<open>Canonical unit topics\<close>

text \<open>Deriving a key twice gives the same key: a canonical topic is a fixed point.\<close>

lemma take_join_split:
  assumes "n \<le> length ps" "0 < n" "\<forall>p\<in>set ps. c \<notin> set p"
  shows "split_on c (join_with [c] (take n ps)) = take n ps"
  using assms by (intro split_join) (auto dest: in_set_takeD)

text \<open>A topic whose body does not contain \<open>***\<close> is its own body.\<close>

definition is_keyword :: "string \<Rightarrow> bool" where
  "is_keyword p \<longleftrightarrow> to_lower p \<in> {''admin'', ''status'', ''command''}"

lemma derive_unit_topic_plain:
  assumes "str_index ''***'' t = None" "t \<noteq> []"
  shows "derive_unit_topic t =
    Some (join_with ''/''
      (let ps = split_on (CHR ''/'') t in
       if length ps < 5 then ps else if is_keyword (ps ! 4) then take 4 ps else take 5 ps))"
  using assms by (simp add: derive_unit_topic_def is_keyword_def Let_def)

lemma str_index_None_take:
  assumes "str_index sub s = Some i" "sub \<noteq> []"
  shows "str_index sub (take i s) = None"
  using assms
proof (induction s arbitrary: i)
  case (Cons c cs)
  show ?case
  proof (cases "has_prefix sub (c # cs)")
    case True
    with Cons.prems show ?thesis by simp
  next
    case False
    with Cons.prems obtain j where j: "str_index sub cs = Some j" "i = Suc j" by auto
    have "\<not> has_prefix sub (c # take j cs)"
    proof
      assume "has_prefix sub (c # take j cs)"
      then have "take (length sub) (c # take j cs) = sub" by (simp add: has_prefix_def)
      moreover have "length sub \<le> Suc (length (take j cs))"
        by (metis calculation length_Cons length_take min.cobounded1)
      ultimately have "take (length sub) (c # cs) = sub"
        by (cases sub) (auto simp: min_absorb1 split: if_splits)
      with False show False by (simp add: has_prefix_def)
    qed
    with Cons.IH [OF j(1) \<open>sub \<noteq> []\<close>] j show ?thesis by simp
  qed
qed simp

end
