(* ===== verification/CounterMath.thy ===== *)
theory CounterMath
  imports CalcState DecisionTree
begin

text \<open>
  The messages, metrics and decisions of \<open>calc_production_counters\<close> (calc.go) and its
  arithmetic helpers (counter_math.go): the drop classifiers, the spike clamp, the
  \<open>***TRIG\<close> corrections, the derived speed and the status metric. A helper that
  appends to \<open>Decision.StateUpdates\<close> returns the mutations it appends; the one helper
  that writes State directly (\<open>applyTrigCorrections\<close>) returns those writes.
\<close>

section \<open>Messages, metrics, decisions\<close>

text \<open>Values of the \<open>map[string]any\<close> bags the program fills.\<close>

datatype any_val = AInt int | AFloat f64 | AString string | ABool bool

record message =
  m_topic :: string
  m_payload :: int
  m_timestamp :: "int option"        \<comment> \<open>Unix ms; \<open>None\<close> is the zero \<open>time.Time\<close>\<close>
  m_tenant :: string
  m_cmd_trigger :: bool
  m_timezone :: string
  m_add_metrics :: "string \<rightharpoonup> any_val"
  m_counters_only :: bool
  m_ideal_rate :: f64
  m_no_speed_guard_fallback :: bool
  m_reset_heal :: bool
  m_counter_spike_margin :: f64
  m_guard_rated_speed :: f64
  m_uint16_counter :: bool

record metric =
  mt_name :: string
  mt_timestamp :: int
  mt_value :: int
  mt_type :: string
  mt_counter :: int
  mt_timezone :: string
  mt_curspeed :: f64
  mt_extra :: "string \<rightharpoonup> any_val"
  mt_line_aggregated :: bool

record decision =
  send_downstream :: bool
  enriched :: "string \<rightharpoonup> any_val"
  metrics :: "metric list"
  updates :: "state_mutation list"

record calc_config =
  monotonicity_guard :: bool
  counter_rollover :: bool

section \<open>Counter drops\<close>

definition rollover_adjusted_prev :: "int \<Rightarrow> int \<Rightarrow> int \<Rightarrow> calc_config \<Rightarrow> int \<times> bool" where
  "rollover_adjusted_prev prev cur counter_max cfg =
     (if counter_rollover cfg \<and> 0 < counter_max
         \<and> div64 (mul64 counter_max 90) 100 \<le> prev
         \<and> cur \<le> div64 (mul64 counter_max 10) 100
      then (sub64 prev counter_max, True) else (0, False))"

definition is_uint16_rollover :: "int \<Rightarrow> int \<Rightarrow> bool" where
  "is_uint16_rollover prev cur \<longleftrightarrow> 65536 - 4096 \<le> prev \<and> prev < 65536 \<and> 0 \<le> cur \<and> cur < 4096"

definition handle_counter_drop :: "int \<Rightarrow> int \<Rightarrow> int \<times> bool" where
  "handle_counter_drop prev cur =
     (if is_uint16_rollover prev cur then (sub64 prev 65536, False) else (0, True))"

definition normalize_uint16 :: "int \<Rightarrow> int \<times> bool" where
  "normalize_uint16 v = (if - 32768 \<le> v \<and> v < 0 then (add64 v 65536, True) else (v, False))"

section \<open>The spike clamp\<close>

definition clamp_spike_increment :: "int \<Rightarrow> f64 \<Rightarrow> int \<Rightarrow> f64 \<Rightarrow> int \<times> bool" where
  "clamp_spike_increment incr ideal_rate interval_ms margin_k =
     (if incr \<le> 0 \<or> fle ideal_rate (Fin 0) \<or> interval_ms \<le> 0 \<or> fle margin_k (Fin 0)
      then (incr, False)
      else let ceiling = to_int64 (fdiv (fmul (fmul margin_k ideal_rate) (of_int64 interval_ms)) (Fin 60000))
      in if 0 < ceiling \<and> ceiling < incr then (ceiling, True) else (incr, False))"

definition spike_guard_rate :: "f64 \<Rightarrow> f64 \<Rightarrow> f64" where
  "spike_guard_rate ideal_rate guard_rated_speed =
     (if flt (Fin 0) ideal_rate then ideal_rate
      else if flt (Fin 0) guard_rated_speed then guard_rated_speed
      else Fin 0)"

section \<open>Trigger corrections (Phase 4)\<close>

definition apply_trig_corrections ::
  "int \<Rightarrow> int \<Rightarrow> int \<Rightarrow> int \<Rightarrow> int \<Rightarrow> int \<Rightarrow> trigger_flags \<Rightarrow> mem_state \<Rightarrow> string \<Rightarrow> string
   \<Rightarrow> (int \<times> int \<times> int) \<times> state_write list" where
  "apply_trig_corrections cur_p cur_c cur_d prev_p prev_c prev_d flags s topic_consumed topic_defective =
     (let cs = (cur_d \<le> 0 \<or> trig_cs flags);
          cur_d1 = (if cs then sub64 cur_c cur_p else cur_d);
          count_zeros = (if cs then 1 else 0 :: nat);
          cur_c1 = (if (cur_c \<le> 0 \<and> count_zeros < 1) \<or> trig_ci flags
                    then add64 cur_p cur_d1 else cur_c);
          ci = trig_c_eq_i flags;
          cur_c2 = (if ci then cur_p else cur_c1);
          prev_c2 = (if ci then prev_p else prev_c);
          cur_d2 = (if ci then 0 else cur_d1);
          co = trig_c_eq_o flags;
          cur_p3 = (if co then cur_c2 else cur_p);
          prev_p3 = (if co then prev_c2 else prev_p);
          cur_d3 = (if co then 0 else cur_d2)
      in if trig_co flags then
           (let in_incr_key = topic_consumed @ ''___IN_INCR'';
                in_scrap_key = topic_defective @ ''___IN_SCRAP'';
                in_incr = int0 s in_incr_key;
                in_scrap = int0 s in_scrap_key;
                cur_p4 = (if in_incr = 0
                          then add64 (sub64 (sub64 cur_c2 (mul64 2 cur_d3)) in_scrap) prev_d
                          else cur_p3);
                d_in = sub64 cur_c2 prev_c2;
                new_in_incr = (if d_in < 0 then 0 else d_in);
                d_scrap = sub64 cur_d3 prev_d;
                new_in_scrap = (if d_scrap < 0 then 0 else d_scrap);
                cur_p5 = (if cur_p4 = prev_p3 \<and> cur_d3 = prev_d
                          then sub64 (add64 cur_p4 cur_c2) prev_c2 else cur_p4)
            in ((cur_p5, cur_c2, cur_d3),
                [SetInt in_incr_key new_in_incr, SetInt in_scrap_key new_in_scrap]))
         else ((cur_p3, cur_c2, cur_d3), []))"

section \<open>Speed, threshold and status\<close>

definition mutation :: "string \<Rightarrow> state_write \<Rightarrow> state_mutation" where
  "mutation kind w = \<lparr>mut_kind = kind, mut_write = w\<rparr>"

lemma mut_write_mutation [simp]: "mut_write (mutation k w) = w"
  by (simp add: mutation_def)

definition compute_speed :: "mem_state \<Rightarrow> string \<Rightarrow> int \<Rightarrow> int \<Rightarrow> f64 \<times> state_mutation list" where
  "compute_speed s unit_topic timestamp_ms cons_incr =
     (if bool0 s (unit_topic @ ''/Status/Parameter*30761*'')
      then (float0 s (unit_topic @ ''/Status/CurMachSpeed''), [])
      else if cons_incr \<le> 0 then (Fin 0, [])
      else let ts_key = unit_topic @ ''/Status/CurMachSpeed___TS'';
               last_ts = time0 s ts_key
      in if last_ts = 0 then (Fin 0, [mutation ''speed.ts_first'' (SetTimeMs ts_key timestamp_ms)])
      else let delta = sub64 timestamp_ms last_ts
      in if delta \<le> 0 then (Fin 0, [])
      else let speed_int = div64 (add64 (mul64 cons_incr 60000) (div64 delta 2)) delta;
               speed = of_int64 speed_int
      in (speed, [mutation ''speed.ts'' (SetTimeMs ts_key timestamp_ms),
                  mutation ''speed.value'' (SetFloat (unit_topic @ ''/Status/CurMachSpeed'') speed)]))"

definition rolling_avg_threshold :: "mem_state \<Rightarrow> string \<Rightarrow> int \<Rightarrow> int \<Rightarrow> f64" where
  "rolling_avg_threshold s unit_topic cur_consumed timestamp_ms =
     (let last_ts = time0 s (unit_topic @ ''/Status/_6_Consumed_last_TS'');
          last_counter = int0 s (unit_topic @ ''/Status/_6_Consumed_last_counter_value'')
      in if timestamp_ms = last_ts then Fin 0
      else let delta = sub64 timestamp_ms last_ts
      in if delta = 0 then Fin 0
      else fdiv (of_int64 (sub64 cur_consumed last_counter)) (of_int64 delta))"

definition status_metric_for :: "string \<Rightarrow> int \<Rightarrow> int \<Rightarrow> message \<Rightarrow> metric" where
  "status_metric_for status_topic_name status_code timestamp_ms msg =
     (let parts = split_on (CHR ''/'') status_topic_name;
          parts' = (if 6 \<le> length parts then take 5 parts @ [''Status'', ''StateCurrent''] else parts)
      in \<lparr>mt_name = join_with ''/'' parts', mt_timestamp = timestamp_ms, mt_value = status_code,
          mt_type = ''int32'', mt_counter = status_code, mt_timezone = m_timezone msg,
          mt_curspeed = Fin 0, mt_extra = m_add_metrics msg, mt_line_aggregated = False\<rparr>)"

definition register_status_topic :: "mem_state \<Rightarrow> string \<Rightarrow> state_mutation list" where
  "register_status_topic s status_topic =
     (let list = strings0 s ''___STATUS_TOPICS''
      in if status_topic \<in> set list then []
      else [mutation ''status.topics'' (SetStrings ''___STATUS_TOPICS'' (list @ [status_topic]))])"

definition round1 :: "f64 \<Rightarrow> f64" where
  "round1 v = fdiv (of_int64 (to_int64 (fadd (fmul v (Fin 10)) (Fin (1 / 2))))) (Fin 10)"

definition round2 :: "f64 \<Rightarrow> f64" where
  "round2 v = fdiv (of_int64 (to_int64 (fadd (fmul v (Fin 100)) (Fin (1 / 2))))) (Fin 100)"

section \<open>Properties of the drop classifiers\<close>

text \<open>A 16-bit wrap credits exactly the counts that crossed the boundary.\<close>

lemma uint16_wrap_increment:
  assumes "is_uint16_rollover prev cur"
  shows "sub64 cur (fst (handle_counter_drop prev cur)) = (65536 - prev) + cur
    \<and> \<not> snd (handle_counter_drop prev cur)"
  using assms by (simp add: handle_counter_drop_def is_uint16_rollover_def go_int in64_def)

lemma genuine_reset_baseline:
  "\<not> is_uint16_rollover prev cur \<Longrightarrow> handle_counter_drop prev cur = (0, True)"
  by (simp add: handle_counter_drop_def)

text \<open>Reading the register unsigned: the normalised stream is the register value.\<close>

lemma normalize_uint16_unsigned:
  assumes "0 \<le> u" "u < 65536"
  shows "fst (normalize_uint16 (if u < 32768 then u else u - 65536)) = u"
  using assms by (simp add: normalize_uint16_def go_int in64_def)

lemma clamp_spike_le:
  "fst (clamp_spike_increment incr r i m) \<le> incr"
  by (simp add: clamp_spike_increment_def Let_def)

lemma clamp_spike_pos:
  "0 < incr \<Longrightarrow> 0 < fst (clamp_spike_increment incr r i m)"
  by (simp add: clamp_spike_increment_def Let_def)

lemma clamp_spike_flag:
  "snd (clamp_spike_increment incr r i m) \<longleftrightarrow> fst (clamp_spike_increment incr r i m) < incr"
  by (auto simp: clamp_spike_increment_def Let_def)

lemma clamp_spike_idem:
  "clamp_spike_increment (fst (clamp_spike_increment incr r i m)) r i m =
     (fst (clamp_spike_increment incr r i m), False)"
  by (simp add: clamp_spike_increment_def Let_def)

lemma clamp_spike_inert: "incr \<le> 0 \<or> fle r (Fin 0) \<or> i \<le> 0 \<or> fle m (Fin 0) \<Longrightarrow>
  clamp_spike_increment incr r i m = (incr, False)"
  by (simp add: clamp_spike_increment_def)

end
