(* ===== verification/LineAggregation.thy ===== *)
theory LineAggregation
  imports CounterMath
begin

text \<open>
  Phase 9 (line_aggregation.go): a unit that is the first (last) machine of its line's
  \<open>Parameter30700\<close> list contributes its Consumed (Processed) increment to the line.
  \<open>phase9_candidate\<close> is the body of the loop for one candidate line topic, with the
  metrics and mutations it appends; a \<open>SECTOR::LINE\<close> unit has two candidates. Every
  read sees the state before the message: the mutations are applied by the caller.
\<close>

record phase9_input =
  p9_msg :: message
  p9_timestamp :: int
  p9_proc_incr :: int
  p9_cons_incr :: int
  p9_cur_processed :: int
  p9_cur_consumed :: int
  p9_consumed_set :: bool
  p9_processed_set :: bool
  p9_prod_speed :: f64
  p9_state_speed_this :: bool
  p9_reset_line_scrap :: bool

definition line_metric :: "phase9_input \<Rightarrow> string \<Rightarrow> int \<Rightarrow> int \<Rightarrow> metric" where
  "line_metric p name v counter =
     \<lparr>mt_name = name, mt_timestamp = p9_timestamp p, mt_value = v, mt_type = ''int32'',
      mt_counter = counter, mt_timezone = m_timezone (p9_msg p), mt_curspeed = Fin 0,
      mt_extra = m_add_metrics (p9_msg p), mt_line_aggregated = True\<rparr>"

definition line_def_key :: "string \<Rightarrow> string" where
  "line_def_key line = line @ ''/Admin/ProdDefectiveCount''"
definition line_prev_key :: "string \<Rightarrow> string" where
  "line_prev_key line = line @ ''/Admin/ProdDefectiveCount___PREVIOUS''"
definition line_ts_key :: "string \<Rightarrow> string" where
  "line_ts_key line = line @ ''/Admin/ProdDefectiveCount___TS''"
definition line_infeed_key :: "string \<Rightarrow> string" where
  "line_infeed_key line = line @ ''/Admin/ProdDefectiveCount___HAS_INFEED''"

lemmas line_keys = line_def_key_def line_prev_key_def line_ts_key_def line_infeed_key_def

text \<open>The first-machine block: LINE Consumed metric, accumulator \<open>+ consIncr\<close>.\<close>

definition phase9_first :: "phase9_input \<Rightarrow> mem_state \<Rightarrow> string \<Rightarrow> metric list \<times> state_mutation list" where
  "phase9_first p s line =
     (let m = line_metric p (line @ ''/Admin/ProdConsumedCount'') (p9_cons_incr p) (p9_cur_consumed p);
          m' = (if p9_state_speed_this p then m else m\<lparr>mt_curspeed := round1 (p9_prod_speed p)\<rparr>);
          new_def = add64 (int0 s (line_def_key line)) (p9_cons_incr p)
      in ([m'],
          mutation ''line.defective.add_consumed'' (SetInt (line_def_key line) new_def)
          # (if int0 s (line_infeed_key line) \<noteq> 1
             then [mutation ''line.defective.has_infeed'' (SetInt (line_infeed_key line) 1)] else [])))"

text \<open>The last-machine block: LINE Processed metric, accumulator \<open>- procIncr\<close> once the line has an infeed.\<close>

definition phase9_last :: "phase9_input \<Rightarrow> mem_state \<Rightarrow> string \<Rightarrow> bool \<Rightarrow> metric list \<times> state_mutation list" where
  "phase9_last p s line has_infeed =
     ([line_metric p (line @ ''/Admin/ProdProcessedCount'') (p9_proc_incr p) (p9_cur_processed p)],
      if has_infeed
      then [mutation ''line.defective.sub_processed''
              (SetInt (line_def_key line) (sub64 (int0 s (line_def_key line)) (p9_proc_incr p)))]
      else [])"

text \<open>The debounced LINE Defective emission: at most one per wall-clock second.\<close>

definition phase9_defective :: "phase9_input \<Rightarrow> mem_state \<Rightarrow> string \<Rightarrow> metric list \<times> state_mutation list" where
  "phase9_defective p s line =
     (case ms_times s (line_ts_key line) of
        None \<Rightarrow> ([], [mutation ''line.defective.ts_first'' (SetTimeMs (line_ts_key line) (p9_timestamp p))])
      | Some line_def_ts \<Rightarrow>
          if div64 (p9_timestamp p) 1000 \<le> div64 line_def_ts 1000 then ([], [])
          else let cur_def = int0 s (line_def_key line);
                   prev_def = int0 s (line_prev_key line)
          in ([line_metric p (line_def_key line) (sub64 cur_def prev_def) cur_def],
              [mutation ''line.defective.previous'' (SetInt (line_prev_key line) cur_def),
               mutation ''line.defective.ts'' (SetTimeMs (line_ts_key line) (p9_timestamp p))]))"

definition phase9_candidate ::
  "phase9_input \<Rightarrow> mem_state \<Rightarrow> string \<Rightarrow> string \<Rightarrow> metric list \<times> state_mutation list" where
  "phase9_candidate p s machine_idx line =
     (case ms_strings s (line @ ''/Status/Parameter30700'') of
        None \<Rightarrow> ([], [])
      | Some csv \<Rightarrow> if csv = [] then ([], []) else
        let first_machine = csv ! 0;
            last_machine = csv ! (length csv - 1);
            reset = (if p9_reset_line_scrap p
                     then [mutation ''line.defective.reset'' (SetInt (line_def_key line) 0),
                           mutation ''line.defective.previous.reset'' (SetInt (line_prev_key line) 0)]
                     else []);
            is_first = (p9_consumed_set p \<and> machine_idx = first_machine);
            is_last = (p9_processed_set p \<and> machine_idx = last_machine);
            (m1, u1) = (if is_first then phase9_first p s line else ([], []));
            has_infeed = (is_first \<or> int0 s (line_infeed_key line) = 1);
            (m2, u2) = (if is_last then phase9_last p s line has_infeed else ([], []));
            scrap_gross = (if is_first then p9_cons_incr p else 0);
            scrap_net = (if is_last \<and> has_infeed then sub64 0 (p9_proc_incr p) else 0);
            (m3, u3) = (if scrap_net \<noteq> 0 \<or> scrap_gross \<noteq> 0 then phase9_defective p s line else ([], []))
        in (m1 @ m2 @ m3, reset @ u1 @ u2 @ u3))"

definition phase9_candidates :: "string \<Rightarrow> string list" where
  "phase9_candidates line_part =
     line_part # (case str_index ''::'' line_part of None \<Rightarrow> [] | Some idx \<Rightarrow> [drop (idx + 2) line_part])"

definition run_phase9 :: "phase9_input \<Rightarrow> mem_state \<Rightarrow> metric list \<times> state_mutation list" where
  "run_phase9 p s =
     (let topic_array = split_on (CHR ''/'') (strip_trigger_suffix (m_topic (p9_msg p)))
      in if length topic_array < 8 then ([], [])
      else let machine_idx = topic_array ! 7;
               prefix = topic_array ! 0 @ ''/'' @ topic_array ! 1 @ ''/'' @ topic_array ! 2 @ ''/'';
               outs = map (\<lambda>line. phase9_candidate p s machine_idx (prefix @ line))
                        (phase9_candidates (topic_array ! 3))
      in (concat (map fst outs), concat (map snd outs)))"

section \<open>Properties\<close>

text \<open>Every Phase-9 metric is marked as a line aggregate.\<close>

lemma phase9_candidate_line_aggregated:
  "m \<in> set (fst (phase9_candidate p s i line)) \<Longrightarrow> mt_line_aggregated m"
  by (auto simp: phase9_candidate_def phase9_first_def phase9_last_def phase9_defective_def
      line_metric_def Let_def split: option.splits if_splits prod.splits)

lemma run_phase9_line_aggregated:
  "m \<in> set (fst (run_phase9 p s)) \<Longrightarrow> mt_line_aggregated m"
  by (auto simp: run_phase9_def Let_def dest: phase9_candidate_line_aggregated split: if_splits)

lemma phase9_candidate_no_line:
  "ms_strings s (line @ ''/Status/Parameter30700'') = None \<Longrightarrow> phase9_candidate p s i line = ([], [])"
  by (simp add: phase9_candidate_def)

end
