(* ===== verification/Calc.thy ===== *)
theory Calc
  imports LineAggregation
begin

text \<open>
  \<open>CalcWithConfig\<close> (calc.go): one SparkPlug counter reading against the State, phase by
  phase. A counter triple is (Processed, Consumed, Defective). The result is the
  \<open>Decision\<close> and the writes made to State during the call (those of the \<open>TRIG_CO\<close>
  reconstruction); the deferred mutations are in \<open>updates\<close>. \<open>now\<close> is \<open>time.Now()\<close> in
  Unix milliseconds, used only for a message without a timestamp.
\<close>

type_synonym triple = "int \<times> int \<times> int"

fun pick :: "counter_kind \<Rightarrow> 'a \<times> 'a \<times> 'a \<Rightarrow> 'a" where
  "pick Processed (p, c, d) = p" | "pick Consumed (p, c, d) = c" | "pick _ (p, c, d) = d"

fun set_triple :: "counter_kind \<Rightarrow> 'a \<Rightarrow> 'a \<times> 'a \<times> 'a \<Rightarrow> 'a \<times> 'a \<times> 'a" where
  "set_triple Processed v (p, c, d) = (v, c, d)"
| "set_triple Consumed v (p, c, d) = (p, v, d)"
| "set_triple _ v (p, c, d) = (p, c, v)"

section \<open>Phases 0 to 3: which reading, against which baseline\<close>

definition calc_phase0 :: "message \<Rightarrow> message \<times> (string \<rightharpoonup> any_val)" where
  "calc_phase0 msg =
     (if m_uint16_counter msg then
        (case normalize_uint16 (m_payload msg) of (v, ok) \<Rightarrow>
           if ok then (msg\<lparr>m_payload := v\<rparr>, [''uint16_signed_read'' \<mapsto> AInt (m_payload msg)])
           else (msg, Map.empty))
      else (msg, Map.empty))"

definition drop_decision :: "(string \<rightharpoonup> any_val) \<Rightarrow> state_mutation list \<Rightarrow> decision" where
  "drop_decision enr us = \<lparr>send_downstream = False, enriched = enr, metrics = [], updates = us\<rparr>"

definition skip_decision :: "(string \<rightharpoonup> any_val) \<Rightarrow> state_mutation list \<Rightarrow> string \<Rightarrow> decision" where
  "skip_decision enr us reason = drop_decision (enr(''skipped_reason'' \<mapsto> AString reason)) us"

text \<open>Seeding: store the reading (a negative one as 0), emit nothing.\<close>

definition seed_decision ::
  "(string \<rightharpoonup> any_val) \<Rightarrow> state_mutation list \<Rightarrow> string \<Rightarrow> string \<Rightarrow> string \<Rightarrow> int \<Rightarrow> decision" where
  "seed_decision enr us kind reason key payload =
     (let v = (if payload < 0 then 0 else payload)
      in drop_decision (enr(''skipped_reason'' \<mapsto> AString reason, ''seeded_baseline'' \<mapsto> AInt v))
           (us @ [mutation kind (SetInt key v)]))"

definition sibling_topics :: "string \<Rightarrow> counter_kind \<Rightarrow> string \<times> string \<times> string" where
  "sibling_topics base_topic kind =
     (replace_counter_name base_topic kind Processed,
      replace_counter_name base_topic kind Consumed,
      replace_counter_name base_topic kind Defective)"

text \<open>One arm of the kind switch: (new previous value, send, genuine reset).\<close>

definition advance_counter :: "int \<Rightarrow> int \<Rightarrow> int \<Rightarrow> calc_config \<Rightarrow> int \<times> bool \<times> bool" where
  "advance_counter prev cur counter_max cfg =
     (if cur < prev then
        (case rollover_adjusted_prev prev cur counter_max cfg of
           (new_prev, True) \<Rightarrow> (new_prev, True, False)
         | (_, False) \<Rightarrow> (case handle_counter_drop prev cur of (np, is_reset) \<Rightarrow> (np, True, is_reset)))
      else (prev, prev < cur, False))"

record calc_ctx =
  cx_msg :: message
  cx_ts :: int
  cx_unit :: string
  cx_kind :: counter_kind
  cx_flags :: trigger_flags
  cx_topics :: "string \<times> string \<times> string"
  cx_cur :: triple
  cx_prev :: triple
  cx_send :: bool
  cx_reset_line :: bool

definition topic_p :: "calc_ctx \<Rightarrow> string" where "topic_p cx = pick Processed (cx_topics cx)"
definition topic_c :: "calc_ctx \<Rightarrow> string" where "topic_c cx = pick Consumed (cx_topics cx)"
definition topic_d :: "calc_ctx \<Rightarrow> string" where "topic_d cx = pick Defective (cx_topics cx)"
definition cur_topic :: "calc_ctx \<Rightarrow> string" where "cur_topic cx = pick (cx_kind cx) (cx_topics cx)"

definition increments :: "triple \<Rightarrow> triple \<Rightarrow> triple" where
  "increments cur prev =
     (case cur of (p, c, d) \<Rightarrow> case prev of (pp, pc, pd) \<Rightarrow> (sub64 p pp, sub64 c pc, sub64 d pd))"

definition debug_fields :: "triple \<Rightarrow> triple \<Rightarrow> triple \<Rightarrow> (string \<rightharpoonup> any_val) \<Rightarrow> (string \<rightharpoonup> any_val)" where
  "debug_fields cur prev incr enr =
     (case cur of (p, c, d) \<Rightarrow> case prev of (pp, pc, pd) \<Rightarrow> case incr of (ip, ic, idf) \<Rightarrow>
      enr(''ProdConsumedCount'' \<mapsto> AInt c, ''ProdConsumedCount_Last'' \<mapsto> AInt pc, ''ProdConsumedIncremet'' \<mapsto> AInt ic,
          ''ProdProcessedCount'' \<mapsto> AInt p, ''ProdProcessedCount_Last'' \<mapsto> AInt pp, ''ProdProcessedIncremet'' \<mapsto> AInt ip,
          ''ProdDefectiveCount'' \<mapsto> AInt d, ''ProdDefectiveCount_Last'' \<mapsto> AInt pd, ''ProdDefectiveIncremet'' \<mapsto> AInt idf))"

section \<open>Phase 4, the spike guard and Phase 5\<close>

definition calc_phase4 :: "calc_ctx \<Rightarrow> mem_state \<Rightarrow> triple \<times> state_write list" where
  "calc_phase4 cx s =
     (if cx_send cx \<and> trig_base (cx_flags cx) then
        (case cx_cur cx of (p, c, d) \<Rightarrow> case cx_prev cx of (pp, pc, pd) \<Rightarrow>
           apply_trig_corrections p c d pp pc pd (cx_flags cx) s (topic_c cx) (topic_d cx))
      else (cx_cur cx, []))"

definition spike_guard :: "calc_ctx \<Rightarrow> mem_state \<Rightarrow> triple \<Rightarrow> (string \<rightharpoonup> any_val)
    \<Rightarrow> triple \<times> (string \<rightharpoonup> any_val) \<times> state_mutation list" where
  "spike_guard cx s incr enr =
     (let msg = cx_msg cx;
          guard_rate = spike_guard_rate (m_ideal_rate msg) (m_guard_rated_speed msg);
          margin = m_counter_spike_margin msg
      in if flt (Fin 0) margin \<and> flt (Fin 0) guard_rate \<and> cur_topic cx \<noteq> [] then
        (let guard_key = cur_topic cx @ ''___GUARD_TS'';
             prev_ts = time0 s guard_key;
             us = [mutation ''counter.guard_ts'' (SetTimeMs guard_key (cx_ts cx))]
         in if 0 < prev_ts \<and> prev_ts < cx_ts cx then
           (case incr of (ip, ic, idf) \<Rightarrow>
             let interval = sub64 (cx_ts cx) prev_ts;
                 (c, did) = clamp_spike_increment ic guard_rate interval margin;
                 enr1 = (if did then enr(''counter_spike_clamped_consumed'' \<mapsto> AInt (sub64 ic c)) else enr);
                 p' = fst (clamp_spike_increment ip guard_rate interval margin);
                 d' = fst (clamp_spike_increment idf guard_rate interval margin)
             in ((p', c, d'),
                 enr1(''ProdConsumedIncremet'' \<mapsto> AInt c, ''ProdProcessedIncremet'' \<mapsto> AInt p',
                      ''ProdDefectiveIncremet'' \<mapsto> AInt d'), us))
            else (incr, enr, us))
         else (incr, enr, []))"

definition write_non_negative :: "string \<Rightarrow> int \<Rightarrow> string \<Rightarrow> state_mutation" where
  "write_non_negative topic v kind = mutation kind (SetInt topic (if v < 0 then 0 else v))"

definition calc_phase5 :: "calc_ctx \<Rightarrow> mem_state \<Rightarrow> triple \<Rightarrow> int \<Rightarrow> state_mutation list" where
  "calc_phase5 cx s cur cons_incr =
     (if cx_send cx then
        (case cur of (p, c, d) \<Rightarrow>
          [write_non_negative (topic_p cx) p ''counter.processed'',
           write_non_negative (topic_c cx) c ''counter.consumed'',
           write_non_negative (topic_d cx) d ''counter.defective'']
          @ (if bool0 s (cx_unit cx @ ''/Status/Parameter*30770*'')
             then let key = cx_unit cx @ ''/Status/Parameter*30772*''
                  in [mutation ''counter.custom_30772'' (SetInt key (add64 (int0 s key) cons_incr))]
             else []))
      else [])"

section \<open>Phases 6 to 8: speed, multiplier, unit metrics\<close>

text \<open>The counter multiplier \<open>Parameter*30710*\<close>.\<close>

definition apply_multiplier :: "mem_state \<Rightarrow> string \<Rightarrow> triple \<Rightarrow> f64 \<Rightarrow> triple \<times> f64" where
  "apply_multiplier s unit_topic incr speed =
     (case ms_ints s (unit_topic @ ''/Status/Parameter*30710*'') of
        Some mult \<Rightarrow> if 0 < mult
          then (case incr of (ip, ic, idf) \<Rightarrow>
                  ((mul64 ip mult, mul64 ic mult, mul64 idf mult), fmul speed (of_int64 mult)))
          else (incr, speed)
      | None \<Rightarrow> (incr, speed))"

definition glitch_bound :: "message \<Rightarrow> f64 \<Rightarrow> (string \<rightharpoonup> any_val) \<Rightarrow> f64 \<times> (string \<rightharpoonup> any_val)" where
  "glitch_bound msg mach_speed enr =
     (if m_counters_only msg \<and> flt (Fin 0) (m_ideal_rate msg) \<and> feq mach_speed (Fin 0)
      then (fmul (Fin 3) (m_ideal_rate msg),
            enr(''counters_only_mode'' \<mapsto> ABool True, ''ideal_rate'' \<mapsto> AFloat (m_ideal_rate msg)))
      else if m_no_speed_guard_fallback msg \<and> feq mach_speed (Fin 0)
      then (max_float64, enr(''no_speed_guard_fallback'' \<mapsto> ABool True))
      else (fmul (Fin 3) mach_speed, enr))"

definition unit_metric :: "calc_ctx \<Rightarrow> string \<Rightarrow> int \<Rightarrow> int \<Rightarrow> metric" where
  "unit_metric cx name v counter =
     \<lparr>mt_name = name, mt_timestamp = cx_ts cx, mt_value = v, mt_type = ''int32'', mt_counter = counter,
      mt_timezone = m_timezone (cx_msg cx), mt_curspeed = Fin 0, mt_extra = m_add_metrics (cx_msg cx),
      mt_line_aggregated = False\<rparr>"

text \<open>The threshold test shared by the Consumed metric and its \<open>STATESPEED_THIS\<close> variant.\<close>

definition crosses_threshold :: "calc_ctx \<Rightarrow> mem_state \<Rightarrow> int \<Rightarrow> f64 \<Rightarrow> f64 \<Rightarrow> bool" where
  "crosses_threshold cx s cur_consumed mach_speed prod_speed =
     (let quant = float0 s (cx_unit cx @ ''/Status/Parameter*30750*'');
          mode = int0 s (cx_unit cx @ ''/Status/Parameter30758'');
          threshold = (if mode = 4 then rolling_avg_threshold s (cx_unit cx) cur_consumed (cx_ts cx)
                       else fdiv (fmul mach_speed quant) (Fin 100))
      in fle threshold prod_speed)"

record phase8_out =
  p8_metrics :: "metric list"
  p8_status_topic :: "string option"
  p8_consumed_set :: bool
  p8_processed_set :: bool

definition calc_phase8 ::
  "calc_ctx \<Rightarrow> mem_state \<Rightarrow> triple \<Rightarrow> triple \<Rightarrow> f64 \<Rightarrow> f64 \<Rightarrow> f64 \<Rightarrow> phase8_out" where
  "calc_phase8 cx s cur incr prod_speed mach_speed bound =
     (case cur of (cur_p, cur_c, cur_d) \<Rightarrow> case incr of (ip, ic, idf) \<Rightarrow>
      let sst = state_speed_this (cx_flags cx);
          crosses = crosses_threshold cx s cur_c mach_speed prod_speed;
          c_set = (0 < ic \<and> 0 \<le> cur_c \<and> flt prod_speed bound);
          p_set = (0 < ip \<and> 0 \<le> cur_p \<and> flt prod_speed bound);
          d_set = (0 < idf \<and> 0 \<le> cur_d \<and> flt (of_int64 idf) bound);
          mc = unit_metric cx (topic_c cx) ic cur_c;
          mp = unit_metric cx (topic_p cx) ip cur_p;
          md = unit_metric cx (topic_d cx) idf cur_d
      in \<lparr>p8_metrics =
             (if c_set then [if sst then mc else mc\<lparr>mt_curspeed := round1 prod_speed\<rparr>] else [])
           @ (if p_set then [if sst then mp\<lparr>mt_curspeed := round2 prod_speed\<rparr> else mp] else [])
           @ (if d_set then [md] else []),
          p8_status_topic =
             (if p_set \<and> sst \<and> crosses then Some (topic_p cx)
              else if c_set \<and> \<not> sst \<and> crosses then Some (topic_c cx) else None),
          p8_consumed_set = c_set, p8_processed_set = p_set\<rparr>)"

text \<open>Phase 10: the status metric, unless \<open>Parameter*30763*\<close> disables it for the line.\<close>

definition calc_phase10 :: "calc_ctx \<Rightarrow> mem_state \<Rightarrow> string option \<Rightarrow> metric list \<times> state_mutation list" where
  "calc_phase10 cx s status_topic =
     (case status_topic of None \<Rightarrow> ([], [])
      | Some t \<Rightarrow>
          if t = [] \<or> bool0 s (line_topic_of (cx_unit cx) @ ''/Status/Parameter*30763*'') then ([], [])
          else let m = status_metric_for t 6 (cx_ts cx) (cx_msg cx)
               in ([m], register_status_topic s (mt_name m)))"

section \<open>The whole call\<close>

text \<open>Phases 4 to 11, for a reading that was neither dropped nor seeded.\<close>

definition calc_count :: "calc_ctx \<Rightarrow> (string \<rightharpoonup> any_val) \<Rightarrow> state_mutation list \<Rightarrow> mem_state
    \<Rightarrow> decision \<times> state_write list" where
  "calc_count cx enr0 us0 s0 =
     (let incr0 = increments (cx_cur cx) (cx_prev cx);
          enr1 = debug_fields (cx_cur cx) (cx_prev cx) incr0 enr0;
          (cur, direct) = calc_phase4 cx s0;
          s = fold apply_write direct s0;
          incr1 = increments cur (cx_prev cx);
          (incr2, enr2, us1) = spike_guard cx s incr1 enr1;
          us2 = calc_phase5 cx s cur (pick Consumed incr2);
          (speed0, us3) = compute_speed s (cx_unit cx) (cx_ts cx) (pick Consumed incr2);
          (incr, speed) = apply_multiplier s (cx_unit cx) incr2 speed0;
          mach_speed = float0 s (cx_unit cx @ ''/Status/MachSpeed'');
          (bound, enr3) = glitch_bound (cx_msg cx) mach_speed (enr2(''machspeed'' \<mapsto> AFloat mach_speed));
          p8 = calc_phase8 cx s cur incr speed mach_speed bound;
          (m9, us9) = run_phase9
            \<lparr>p9_msg = cx_msg cx, p9_timestamp = cx_ts cx, p9_proc_incr = pick Processed incr,
             p9_cons_incr = pick Consumed incr, p9_cur_processed = pick Processed cur,
             p9_cur_consumed = pick Consumed cur, p9_consumed_set = p8_consumed_set p8,
             p9_processed_set = p8_processed_set p8, p9_prod_speed = speed,
             p9_state_speed_this = state_speed_this (cx_flags cx),
             p9_reset_line_scrap = cx_reset_line cx\<rparr> s;
          ms = p8_metrics p8 @ m9;
          (m10, us10) = calc_phase10 cx s (p8_status_topic p8)
      in (\<lparr>send_downstream = (ms \<noteq> []), enriched = enr3, metrics = ms @ m10,
           updates = us0 @ us1 @ us2 @ us3 @ us9 @ us10\<rparr>, direct))"

definition calc_with_config ::
  "calc_config \<Rightarrow> int \<Rightarrow> message \<Rightarrow> mem_state \<Rightarrow> decision \<times> state_write list" where
  "calc_with_config cfg now msg0 s =
     (let (msg, enr) = calc_phase0 msg0;
          ts = (case m_timestamp msg of None \<Rightarrow> now | Some t \<Rightarrow> t);
          base_topic = strip_trigger_suffix (m_topic msg)
      in case parse_topic_full (m_topic msg) of
        None \<Rightarrow> (drop_decision enr [], [])
      | Some (unit_topic, kind, flags) \<Rightarrow>
        if ms_modes s unit_topic = Some 6 then (skip_decision enr [] ''unit_mode_setup'', [])
        else if \<not> m_cmd_trigger msg then (skip_decision enr [] ''no_cmd_trigger'', [])
        else let topics = sibling_topics base_topic kind;
                 own = pick kind topics
        in if ms_ints s own = None
        then (seed_decision enr [] ''counter.seed_baseline'' ''first_observation_seed'' own (m_payload msg), [])
        else let prev = (int0 s (pick Processed topics), int0 s (pick Consumed topics), int0 s (pick Defective topics));
                 last_ts_key = own @ ''___LAST_TS'';
                 last_ts = time0 s last_ts_key;
                 guarded = (monotonicity_guard cfg \<and> own \<noteq> [])
        in if guarded \<and> last_ts \<noteq> 0 \<and> ts \<le> last_ts
        then (skip_decision enr [] ''non_monotonic_ts'', [])
        else let us0 = (if guarded then [mutation ''counter.last_ts'' (SetTimeMs last_ts_key ts)] else []);
                 counter_max = int0 s (unit_topic @ ''/Status/CounterMax'');
                 (new_prev, send, active_reset) = advance_counter (pick kind prev) (m_payload msg) counter_max cfg
        in if m_reset_heal msg \<and> active_reset
        then (seed_decision enr us0 ''counter.reset_seed_baseline'' ''counter_reset_seed'' own (m_payload msg), [])
        else calc_count
          \<lparr>cx_msg = msg, cx_ts = ts, cx_unit = unit_topic, cx_kind = kind, cx_flags = flags,
           cx_topics = topics, cx_cur = set_triple kind (m_payload msg) prev,
           cx_prev = set_triple kind new_prev prev, cx_send = send,
           cx_reset_line = (active_reset \<and> kind \<noteq> Defective)\<rparr> enr us0 s)"

definition calc :: "int \<Rightarrow> message \<Rightarrow> mem_state \<Rightarrow> decision \<times> state_write list" where
  "calc now msg s = calc_with_config \<lparr>monotonicity_guard = False, counter_rollover = False\<rparr> now msg s"

text \<open>The caller applies the deferred mutations after the call (\<open>runShadow\<close>).\<close>

definition calc_step :: "calc_config \<Rightarrow> int \<Rightarrow> message \<Rightarrow> mem_state \<Rightarrow> metric list \<times> mem_state" where
  "calc_step cfg now msg s =
     (case calc_with_config cfg now msg s of (dec, direct) \<Rightarrow>
        (metrics dec, apply_mutations (updates dec) (fold apply_write direct s)))"

end
