(* ===== verification/TopicShape.thy ===== *)
theory TopicShape
  imports DecisionTree
begin

text \<open>
  Well-formed counter topics, \<open>Enterprise/Site/Area/Line/Unit/Admin/Prod*Count/Index/Unit\<close>,
  and what the string functions of the source compute on them: the parser's result,
  the sibling topics, and that the State keys derived from one topic are pairwise
  different. Keys are compared as paths: two joined paths are equal only if their
  segments are.
\<close>

section \<open>Searching in joined paths\<close>

lemma has_prefix_skip:
  assumes "c \<notin> set sub" "\<not> has_prefix sub x"
  shows "\<not> has_prefix sub (x @ c # y)"
proof
  assume p: "has_prefix sub (x @ c # y)"
  show False
  proof (cases "length sub \<le> length x")
    case True
    with p assms(2) show False by (simp add: has_prefix_def)
  next
    case False
    then have "take (length sub) (x @ c # y) = x @ c # take (length sub - length x - 1) y"
      by (cases "length sub - length x") auto
    with p have "sub = x @ c # take (length sub - length x - 1) y" by (simp add: has_prefix_def)
    with assms(1) show False by (metis in_set_conv_decomp)
  qed
qed

lemma str_contains_Cons: "str_contains sub (c # cs) \<longleftrightarrow> has_prefix sub (c # cs) \<or> str_contains sub cs"
  by (auto simp: str_contains_def)

lemma str_index_skip:
  assumes "c \<notin> set sub" "sub \<noteq> []" "\<not> str_contains sub x"
  shows "str_index sub (x @ c # y) = map_option ((+) (Suc (length x))) (str_index sub y)"
  using assms(3)
proof (induction x)
  case Nil
  have "\<not> has_prefix sub (c # y)" using assms(1,2) by (cases sub) (auto simp: has_prefix_def)
  then show ?case by (cases "str_index sub y") auto
next
  case (Cons a x)
  from Cons.prems have np: "\<not> has_prefix sub (a # x)" and nc: "\<not> str_contains sub x"
    by (auto simp: str_contains_Cons)
  have "\<not> has_prefix sub (a # x @ c # y)"
    using has_prefix_skip [OF assms(1) np, of y] by simp
  with Cons.IH [OF nc] show ?case by (cases "str_index sub y") auto
qed

lemma str_contains_skip:
  assumes "c \<notin> set sub" "sub \<noteq> []" "\<not> str_contains sub x"
  shows "str_contains sub (x @ c # y) \<longleftrightarrow> str_contains sub y"
  by (simp add: str_contains_def str_index_skip [OF assms])

lemma str_contains_prefix [simp]: "str_contains sub (sub @ y)"
  by (simp add: str_contains_def str_index_prefix)

lemma str_contains_no_char:
  assumes "c \<in> set sub" "c \<notin> set s"
  shows "\<not> str_contains sub s"
  using assms by (auto simp: str_contains_iff)

lemma str_index_append_first:
  assumes "sub \<noteq> []" "hd sub \<notin> set x"
  shows "str_index sub (x @ sub @ y) = Some (length x)"
  using assms(2)
proof (induction x)
  case Nil
  then show ?case by (simp add: str_index_prefix)
next
  case (Cons a x)
  then have "\<not> has_prefix sub (a # x @ sub @ y)" using assms(1)
    by (cases sub) (auto simp: has_prefix_def)
  with Cons show ?case by simp
qed

lemma str_index_None_iff: "str_index sub s = None \<longleftrightarrow> \<not> str_contains sub s"
  by (simp add: str_contains_def)

section \<open>Paths\<close>

definition path :: "string list \<Rightarrow> string" where
  "path ps = join_with ''/'' ps"

definition segments_ok :: "string list \<Rightarrow> bool" where
  "segments_ok ps \<longleftrightarrow> ps \<noteq> [] \<and> (\<forall>p\<in>set ps. CHR ''/'' \<notin> set p)"

lemma split_path: "segments_ok ps \<Longrightarrow> split_on (CHR ''/'') (path ps) = ps"
  by (simp add: path_def segments_ok_def split_join)

lemma path_inj: "segments_ok ps \<Longrightarrow> segments_ok qs \<Longrightarrow> path ps = path qs \<longleftrightarrow> ps = qs"
  by (metis split_path)

lemma path_Cons: "ps \<noteq> [] \<Longrightarrow> path (p # ps) = p @ CHR ''/'' # path ps"
  by (cases ps) (auto simp: path_def)

lemma path_single [simp]: "path [p] = p"
  by (simp add: path_def)

lemma path_append: "ps \<noteq> [] \<Longrightarrow> qs \<noteq> [] \<Longrightarrow> path (ps @ qs) = path ps @ CHR ''/'' # path qs"
proof (induction ps)
  case (Cons p ps)
  then show ?case by (cases "ps = []") (auto simp: path_Cons)
qed simp

lemma path_snoc_suffix: "ps \<noteq> [] \<Longrightarrow> path ps @ s = path (butlast ps @ [last ps @ s])"
proof (induction ps)
  case (Cons p ps)
  then show ?case by (cases "ps = []") (auto simp: path_Cons)
qed simp

lemma set_path: "c \<noteq> CHR ''/'' \<Longrightarrow> c \<in> set (path ps) \<longleftrightarrow> (\<exists>p\<in>set ps. c \<in> set p)"
proof (induction ps)
  case (Cons p ps)
  then show ?case by (cases "ps = []") (auto simp: path_Cons)
qed (simp add: path_def)

section \<open>Well-formed counter topics\<close>

record unit_id =
  u_enterprise :: string
  u_site :: string
  u_area :: string
  u_line :: string
  u_unit :: string
  u_index :: string

definition good_segment :: "string \<Rightarrow> bool" where
  "good_segment p \<longleftrightarrow> CHR ''/'' \<notin> set p \<and> CHR ''*'' \<notin> set p
     \<and> \<not> str_contains ''ProdProcessedCount'' p \<and> \<not> str_contains ''ProdConsumedCount'' p
     \<and> \<not> str_contains ''ProdDefectiveCount'' p"

definition good_unit :: "unit_id \<Rightarrow> bool" where
  "good_unit u \<longleftrightarrow> good_segment (u_enterprise u) \<and> good_segment (u_site u) \<and> good_segment (u_area u)
     \<and> good_segment (u_line u) \<and> good_segment (u_unit u) \<and> good_segment (u_index u)
     \<and> to_lower (u_unit u) \<notin> {''admin'', ''status'', ''command''}"

definition unit_segments :: "unit_id \<Rightarrow> string list" where
  "unit_segments u = [u_enterprise u, u_site u, u_area u, u_line u, u_unit u]"

definition unit_topic :: "unit_id \<Rightarrow> string" where
  "unit_topic u = path (unit_segments u)"

definition counter_segments :: "unit_id \<Rightarrow> counter_kind \<Rightarrow> string list" where
  "counter_segments u k = unit_segments u @ [''Admin'', kind_name k, u_index u, ''Unit'']"

definition counter_topic :: "unit_id \<Rightarrow> counter_kind \<Rightarrow> string" where
  "counter_topic u k = path (counter_segments u k)"

lemma good_segment_no_kind:
  assumes "good_segment p" "k \<noteq> KindUnknown" shows "\<not> str_contains (kind_name k) p"
  using assms by (cases k) (auto simp: good_segment_def)

lemma kind_name_chars: "CHR ''/'' \<notin> set (kind_name k)" "CHR ''*'' \<notin> set (kind_name k)" "kind_name k \<noteq> []"
  by (cases k; simp)+

lemma kind_name_contains:
  "k \<noteq> KindUnknown \<Longrightarrow> j \<noteq> KindUnknown \<Longrightarrow> str_contains (kind_name k) (kind_name j) \<longleftrightarrow> k = j"
  by (cases k; cases j) (simp_all add: str_contains_def has_prefix_def)

lemma kind_name_fixed:
  "k \<noteq> KindUnknown \<Longrightarrow> \<not> str_contains (kind_name k) ''Admin''"
  "k \<noteq> KindUnknown \<Longrightarrow> \<not> str_contains (kind_name k) ''Unit''"
  by (cases k; simp add: str_contains_def has_prefix_def)+

lemma good_unit_segments:
  assumes "good_unit u"
  shows "segments_ok (unit_segments u)" "segments_ok (counter_segments u k)"
    "\<forall>p\<in>set (unit_segments u). good_segment p"
  using assms kind_name_chars
  by (auto simp: good_unit_def good_segment_def segments_ok_def unit_segments_def counter_segments_def)

lemma counter_topic_expand:
  "counter_topic u k = path (unit_segments u @ [''Admin'']) @ CHR ''/'' # kind_name k @ CHR ''/'' # path [u_index u, ''Unit'']"
  by (simp add: counter_topic_def counter_segments_def unit_segments_def path_Cons)

lemma prefix_no_kind:
  assumes "good_unit u" "k \<noteq> KindUnknown"
  shows "\<not> str_contains (kind_name k) (path (unit_segments u @ [''Admin'']))"
  using assms kind_name_chars [of k] good_segment_no_kind [OF _ assms(2)] kind_name_fixed [OF assms(2)]
  by (auto simp: unit_segments_def path_Cons str_contains_skip good_unit_def)

lemma suffix_no_kind:
  assumes "good_unit u" "k \<noteq> KindUnknown"
  shows "\<not> str_contains (kind_name k) (path [u_index u, ''Unit''])"
  using assms kind_name_chars [of k] good_segment_no_kind [OF _ assms(2)] kind_name_fixed [OF assms(2)]
  by (auto simp: path_Cons str_contains_skip good_unit_def)

text \<open>A topic names exactly its own counter.\<close>

lemma counter_topic_contains:
  assumes "good_unit u" "k \<noteq> KindUnknown" "j \<noteq> KindUnknown"
  shows "str_contains (kind_name j) (counter_topic u k) \<longleftrightarrow> j = k"
proof (cases "j = k")
  case True
  have "counter_topic u k = (path (unit_segments u @ [''Admin'']) @ ''/'') @ kind_name k @ CHR ''/'' # path [u_index u, ''Unit'']"
    by (simp add: counter_topic_expand)
  then show ?thesis using True by (metis str_contains_iff)
next
  case False
  have "\<not> str_contains (kind_name j) (kind_name k)" using assms False kind_name_contains by auto
  then show ?thesis using False prefix_no_kind [OF assms(1,3)] suffix_no_kind [OF assms(1,3)]
    kind_name_chars [of j]
    by (simp add: counter_topic_expand str_contains_skip)
qed

lemma counter_topic_chars: "good_unit u \<Longrightarrow> CHR ''*'' \<notin> set (counter_topic u k)"
  using kind_name_chars [of k]
  by (auto simp: counter_topic_def set_path counter_segments_def unit_segments_def good_unit_def good_segment_def)

lemma counter_topic_nonempty [simp]: "counter_topic u k \<noteq> []"
  by (simp add: counter_topic_expand)

lemma counter_topic_stars:
  assumes "good_unit u"
  shows "str_index ''***'' (counter_topic u k @ ''***'' @ sfx) = Some (length (counter_topic u k))"
  by (rule str_index_append_first) (simp_all add: counter_topic_chars [OF assms])

lemma strip_counter_topic [simp]:
  "good_unit u \<Longrightarrow> strip_trigger_suffix (counter_topic u k @ ''***'' @ sfx) = counter_topic u k"
  unfolding strip_trigger_suffix_def counter_topic_stars by simp

lemmas strip_counter_topic_Cons [simp] = strip_counter_topic [unfolded append_Cons append_Nil]

lemma split_counter_topic [simp]:
  "good_unit u \<Longrightarrow> split_on (CHR ''/'') (counter_topic u k) = counter_segments u k"
  by (simp add: counter_topic_def split_path good_unit_segments)

text \<open>The parser's result on a well-formed topic.\<close>

lemma parse_counter_topic:
  assumes "good_unit u" "k \<noteq> KindUnknown"
  shows "parse_topic_full (counter_topic u k @ ''***'' @ sfx) = Some (unit_topic u, k, parse_trigger_flags sfx)"
proof -
  have c: "str_contains ''ProdProcessedCount'' (counter_topic u k) \<longleftrightarrow> k = Processed"
    "str_contains ''ProdConsumedCount'' (counter_topic u k) \<longleftrightarrow> k = Consumed"
    "str_contains ''ProdDefectiveCount'' (counter_topic u k) \<longleftrightarrow> k = Defective"
    using counter_topic_contains [OF assms, of Processed] counter_topic_contains [OF assms, of Consumed]
      counter_topic_contains [OF assms, of Defective] by auto
  have kw: "to_lower (u_unit u) \<notin> {''admin'', ''status'', ''command''}"
    using assms(1) by (simp add: good_unit_def)
  show ?thesis
    unfolding parse_topic_full_def counter_topic_stars [OF assms(1)]
    using assms c kw
    by (cases k) (simp_all add: Let_def parse_trigger_flags_def counter_segments_def unit_segments_def unit_topic_def path_def)
qed

lemma replace_counter_topic:
  assumes "good_unit u" "k \<noteq> KindUnknown"
  shows "replace_counter_name (counter_topic u k) k j = counter_topic u j"
proof (cases "k = j")
  case True
  then show ?thesis by (simp add: replace_counter_name_def)
next
  case False
  have "str_index (kind_name k) (counter_topic u k) = Some (Suc (length (path (unit_segments u @ [''Admin'']))))"
    using prefix_no_kind [OF assms] kind_name_chars [of k]
    by (simp add: counter_topic_expand str_index_skip str_index_prefix)
  with False show ?thesis
    by (simp add: replace_counter_name_def replace_first_def) (simp add: counter_topic_expand)
qed

end
