(* ===== verification/CalcProps.thy ===== *)
theory CalcProps
  imports Calc TopicShape
begin

text \<open>
  What \<open>calc_with_config\<close> does on well-formed topics: the early exits, the seeds, the
  metrics of a counted reading, and which State slots a message can write. The
  properties of the manifest about single messages and about runs of messages are at
  the end.
\<close>

section \<open>The call on a well-formed topic\<close>

definition unit_topics :: "unit_id \<Rightarrow> string \<times> string \<times> string" where
  "unit_topics u = (counter_topic u Processed, counter_topic u Consumed, counter_topic u Defective)"

lemma pick_unit_topics [simp]: "k \<noteq> KindUnknown \<Longrightarrow> pick k (unit_topics u) = counter_topic u k"
  by (cases k) (simp_all add: unit_topics_def)

lemma sibling_unit_topics:
  "good_unit u \<Longrightarrow> k \<noteq> KindUnknown \<Longrightarrow> sibling_topics (counter_topic u k) k = unit_topics u"
  by (simp add: sibling_topics_def unit_topics_def replace_counter_topic)

definition msg_time :: "int \<Rightarrow> message \<Rightarrow> int" where
  "msg_time now msg = (case m_timestamp msg of None \<Rightarrow> now | Some t \<Rightarrow> t)"

definition payload_of :: "message \<Rightarrow> int" where
  "payload_of msg = m_payload (fst (calc_phase0 msg))"

lemma calc_phase0_fields [simp]:
  "m_topic (fst (calc_phase0 msg)) = m_topic msg"
  "m_timestamp (fst (calc_phase0 msg)) = m_timestamp msg"
  "m_cmd_trigger (fst (calc_phase0 msg)) = m_cmd_trigger msg"
  "m_reset_heal (fst (calc_phase0 msg)) = m_reset_heal msg"
  by (simp_all add: calc_phase0_def split: prod.split)

definition baselines :: "mem_state \<Rightarrow> unit_id \<Rightarrow> triple" where
  "baselines s u = (int0 s (counter_topic u Processed), int0 s (counter_topic u Consumed),
     int0 s (counter_topic u Defective))"

definition counting_ctx ::
  "calc_config \<Rightarrow> int \<Rightarrow> message \<Rightarrow> mem_state \<Rightarrow> unit_id \<Rightarrow> counter_kind \<Rightarrow> string \<Rightarrow> calc_ctx" where
  "counting_ctx cfg now msg s u k sfx =
     (case advance_counter (int0 s (counter_topic u k)) (payload_of msg)
             (int0 s (unit_topic u @ ''/Status/CounterMax'')) cfg of (new_prev, send, reset) \<Rightarrow>
      \<lparr>cx_msg = fst (calc_phase0 msg), cx_ts = msg_time now msg, cx_unit = unit_topic u, cx_kind = k,
       cx_flags = parse_trigger_flags sfx, cx_topics = unit_topics u,
       cx_cur = set_triple k (payload_of msg) (baselines s u),
       cx_prev = set_triple k new_prev (baselines s u), cx_send = send,
       cx_reset_line = (reset \<and> k \<noteq> Defective)\<rparr>)"

definition last_ts_mutation :: "calc_config \<Rightarrow> int \<Rightarrow> message \<Rightarrow> unit_id \<Rightarrow> counter_kind \<Rightarrow> state_mutation list" where
  "last_ts_mutation cfg now msg u k =
     (if monotonicity_guard cfg
      then [mutation ''counter.last_ts'' (SetTimeMs (counter_topic u k @ ''___LAST_TS'') (msg_time now msg))]
      else [])"

lemma pick_baselines [simp]: "k \<noteq> KindUnknown \<Longrightarrow> pick k (baselines s u) = int0 s (counter_topic u k)"
  by (cases k) (simp_all add: baselines_def)

text \<open>The whole call, with the parser's work done.\<close>

lemma calc_on_topic:
  assumes "good_unit u" "k \<noteq> KindUnknown" "m_topic msg = counter_topic u k @ ''***'' @ sfx"
  shows "calc_with_config cfg now msg s =
    (let enr = snd (calc_phase0 msg); own = counter_topic u k;
         last_ts = time0 s (own @ ''___LAST_TS'');
         cx = counting_ctx cfg now msg s u k sfx;
         us0 = last_ts_mutation cfg now msg u k;
         reset = snd (snd (advance_counter (int0 s own) (payload_of msg)
             (int0 s (unit_topic u @ ''/Status/CounterMax'')) cfg))
     in if ms_modes s (unit_topic u) = Some 6 then (skip_decision enr [] ''unit_mode_setup'', [])
        else if \<not> m_cmd_trigger msg then (skip_decision enr [] ''no_cmd_trigger'', [])
        else if ms_ints s own = None
        then (seed_decision enr [] ''counter.seed_baseline'' ''first_observation_seed'' own (payload_of msg), [])
        else if monotonicity_guard cfg \<and> last_ts \<noteq> 0 \<and> msg_time now msg \<le> last_ts
        then (skip_decision enr [] ''non_monotonic_ts'', [])
        else if m_reset_heal msg \<and> reset
        then (seed_decision enr us0 ''counter.reset_seed_baseline'' ''counter_reset_seed'' own (payload_of msg), [])
        else calc_count cx enr us0 s)"
proof -
  obtain msg' enr where p0: "calc_phase0 msg = (msg', enr)" by fastforce
  have f: "m_topic msg' = m_topic msg" "m_timestamp msg' = m_timestamp msg"
    "m_cmd_trigger msg' = m_cmd_trigger msg" "m_reset_heal msg' = m_reset_heal msg"
    using calc_phase0_fields [of msg] by (simp_all add: p0)
  obtain np send reset where adv: "advance_counter (int0 s (counter_topic u k)) (m_payload msg')
      (int0 s (unit_topic u @ ''/Status/CounterMax'')) cfg = (np, send, reset)"
    by (metis prod_cases3)
  show ?thesis
    unfolding calc_with_config_def p0
    using assms
    by (simp add: f parse_counter_topic sibling_unit_topics Let_def adv counting_ctx_def
        last_ts_mutation_def payload_of_def p0 msg_time_def flip: baselines_def
        del: append_Cons)
qed

section \<open>Which slots a message writes\<close>

definition line_paths :: "unit_id \<Rightarrow> string list" where
  "line_paths u = map (\<lambda>l. path [u_enterprise u, u_site u, u_area u, l]) (phase9_candidates (u_line u))"

definition line_int_keys :: "string \<Rightarrow> string set" where
  "line_int_keys l = {line_def_key l, line_prev_key l, line_infeed_key l}"

definition written_int_keys :: "unit_id \<Rightarrow> string set" where
  "written_int_keys u = {counter_topic u Processed, counter_topic u Consumed, counter_topic u Defective,
     unit_topic u @ ''/Status/Parameter*30772*'',
     counter_topic u Consumed @ ''___IN_INCR'', counter_topic u Defective @ ''___IN_SCRAP''}
     \<union> (\<Union>l\<in>set (line_paths u). line_int_keys l)"

definition written_slots :: "unit_id \<Rightarrow> slot set" where
  "written_slots u = IntSlot ` written_int_keys u \<union> range TimeSlot
     \<union> {FloatSlot (unit_topic u @ ''/Status/CurMachSpeed''), StringsSlot ''___STATUS_TOPICS''}"

lemma written_slots_time [simp]: "TimeSlot k \<in> written_slots u"
  by (simp add: written_slots_def)

lemma written_slots_int [simp]: "IntSlot k \<in> written_slots u \<longleftrightarrow> k \<in> written_int_keys u"
  by (auto simp: written_slots_def)

lemma written_slots_float [simp]:
  "FloatSlot k \<in> written_slots u \<longleftrightarrow> k = unit_topic u @ ''/Status/CurMachSpeed''"
  by (auto simp: written_slots_def)

lemma written_slots_other [simp]: "BoolSlot k \<notin> written_slots u"
  "StringsSlot k \<in> written_slots u \<longleftrightarrow> k = ''___STATUS_TOPICS''"
  by (auto simp: written_slots_def)

lemma written_int_keys_topic [simp]: "k \<noteq> KindUnknown \<Longrightarrow> counter_topic u k \<in> written_int_keys u"
  by (cases k) (auto simp: written_int_keys_def)

lemma phase9_candidate_slots:
  "m \<in> set (snd (phase9_candidate p s i l)) \<Longrightarrow>
   write_slot (mut_write m) \<in> IntSlot ` line_int_keys l \<union> range TimeSlot"
  by (auto simp: phase9_candidate_def phase9_first_def phase9_last_def phase9_defective_def
      line_int_keys_def Let_def split: option.splits if_splits prod.splits)

lemma run_phase9_int_slots:
  assumes "m \<in> set (snd (run_phase9 p s))"
    "good_unit u" "m_topic (p9_msg p) = counter_topic u k @ ''***'' @ sfx"
  shows "\<exists>l\<in>set (line_paths u). write_slot (mut_write m) \<in> IntSlot ` line_int_keys l \<union> range TimeSlot"
proof -
  have pre: "(u_enterprise u @ ''/'' @ u_site u @ ''/'' @ u_area u @ ''/'') @ l
      = path [u_enterprise u, u_site u, u_area u, l]" for l
    by (simp add: path_Cons)
  from assms(1) obtain l where "l \<in> set (phase9_candidates (u_line u))"
    "m \<in> set (snd (phase9_candidate p s (u_index u) (path [u_enterprise u, u_site u, u_area u, l])))"
    unfolding run_phase9_def assms(3) strip_counter_topic [OF assms(2)] split_counter_topic [OF assms(2)]
    by (auto simp: Let_def counter_segments_def unit_segments_def simp flip: pre)
  with phase9_candidate_slots [OF this(2)] show ?thesis
    by (auto simp: line_paths_def)
qed

lemma run_phase9_slots:
  assumes "m \<in> set (snd (run_phase9 p s))"
    "good_unit u" "m_topic (p9_msg p) = counter_topic u k @ ''***'' @ sfx"
  shows "write_slot (mut_write m) \<in> written_slots u"
  using run_phase9_int_slots [OF assms] by (auto simp: written_slots_def written_int_keys_def)

lemma trig_direct_shape:
  "\<exists>a b. snd (apply_trig_corrections p c d pp pc pd fl s tc td) =
     (if trig_co fl then [SetInt (tc @ ''___IN_INCR'') a, SetInt (td @ ''___IN_SCRAP'') b] else [])"
  unfolding apply_trig_corrections_def Let_def
  by (cases "trig_co fl") (simp_all only: if_True if_False snd_conv, blast+)

lemma trig_direct_writes:
  assumes "w \<in> set (snd (apply_trig_corrections p c d pp pc pd fl s tc td))"
  shows "\<exists>v. w = SetInt (tc @ ''___IN_INCR'') v \<or> w = SetInt (td @ ''___IN_SCRAP'') v"
proof -
  obtain a b where ab: "snd (apply_trig_corrections p c d pp pc pd fl s tc td) =
     (if trig_co fl then [SetInt (tc @ ''___IN_INCR'') a, SetInt (td @ ''___IN_SCRAP'') b] else [])"
    using trig_direct_shape by blast
  with assms show ?thesis by (cases "trig_co fl") auto
qed

lemma phase4_slots:
  assumes "w \<in> set (snd (calc_phase4 cx s))" "cx_topics cx = unit_topics u"
  shows "write_slot w \<in> written_slots u"
proof -
  obtain p c d where cur: "cx_cur cx = (p, c, d)" by (metis prod_cases3)
  obtain pp pc pd where prev: "cx_prev cx = (pp, pc, pd)" by (metis prod_cases3)
  have "\<exists>v. w = SetInt (topic_c cx @ ''___IN_INCR'') v \<or> w = SetInt (topic_d cx @ ''___IN_SCRAP'') v"
    using assms(1) trig_direct_writes
    by (cases "cx_send cx \<and> trig_base (cx_flags cx)") (fastforce simp: calc_phase4_def cur prev)+
  then show ?thesis by (auto simp: topic_c_def topic_d_def assms(2) written_int_keys_def)
qed

lemma phase5_slots:
  assumes "m \<in> set (calc_phase5 cx s cur ic)" "cx_topics cx = unit_topics u" "cx_unit cx = unit_topic u"
  shows "write_slot (mut_write m) \<in> written_slots u"
proof -
  obtain p c d where cur: "cur = (p, c, d)" by (metis prod_cases3)
  have t: "topic_p cx = counter_topic u Processed" "topic_c cx = counter_topic u Consumed"
    "topic_d cx = counter_topic u Defective"
    by (simp_all add: topic_p_def topic_c_def topic_d_def assms(2))
  from assms(1) have "\<exists>v. mut_write m = SetInt (counter_topic u Processed) v
      \<or> mut_write m = SetInt (counter_topic u Consumed) v \<or> mut_write m = SetInt (counter_topic u Defective) v
      \<or> mut_write m = SetInt (unit_topic u @ ''/Status/Parameter*30772*'') v"
    unfolding calc_phase5_def write_non_negative_def cur t assms(3) Let_def
    by (cases "cx_send cx"; cases "bool0 s (unit_topic u @ ''/Status/Parameter*30770*'')") auto
  then show ?thesis by (elim exE disjE) (simp_all add: written_int_keys_def)
qed

lemma spike_guard_slots:
  "m \<in> set (snd (snd (spike_guard cx s incr enr))) \<Longrightarrow> write_slot (mut_write m) \<in> written_slots u"
  by (auto simp: spike_guard_def Let_def split_beta split: if_splits)

lemma compute_speed_slots:
  "m \<in> set (snd (compute_speed s (unit_topic u) ts ic)) \<Longrightarrow> write_slot (mut_write m) \<in> written_slots u"
  by (auto simp: compute_speed_def Let_def split: if_splits)

lemma phase10_slots:
  "m \<in> set (snd (calc_phase10 cx s t)) \<Longrightarrow> write_slot (mut_write m) \<in> written_slots u"
  by (auto simp: calc_phase10_def register_status_topic_def Let_def split: if_splits option.splits)

lemma last_ts_slots: "m \<in> set (last_ts_mutation cfg now msg u k) \<Longrightarrow> write_slot (mut_write m) \<in> written_slots u'"
  by (auto simp: last_ts_mutation_def split: if_splits)

lemma counting_ctx_fields [simp]:
  "cx_msg (counting_ctx cfg now msg s u k sfx) = fst (calc_phase0 msg)"
  "cx_ts (counting_ctx cfg now msg s u k sfx) = msg_time now msg"
  "cx_unit (counting_ctx cfg now msg s u k sfx) = unit_topic u"
  "cx_kind (counting_ctx cfg now msg s u k sfx) = k"
  "cx_flags (counting_ctx cfg now msg s u k sfx) = parse_trigger_flags sfx"
  "cx_topics (counting_ctx cfg now msg s u k sfx) = unit_topics u"
  "cx_cur (counting_ctx cfg now msg s u k sfx) = set_triple k (payload_of msg) (baselines s u)"
  by (simp_all add: counting_ctx_def split: prod.split)

text \<open>The writes of a call, direct and deferred, in the order they reach State.\<close>

definition calc_writes :: "calc_config \<Rightarrow> int \<Rightarrow> message \<Rightarrow> mem_state \<Rightarrow> state_write list" where
  "calc_writes cfg now msg s =
     (case calc_with_config cfg now msg s of (dec, direct) \<Rightarrow> direct @ map mut_write (updates dec))"

lemma calc_step_writes:
  "snd (calc_step cfg now msg s) = fold apply_write (calc_writes cfg now msg s) s"
  by (simp add: calc_step_def calc_writes_def apply_mutations_fold split: prod.split)

lemma calc_count_slots:
  assumes "good_unit u" "m_topic msg = counter_topic u k @ ''***'' @ sfx"
    "\<forall>m\<in>set us0. write_slot (mut_write m) \<in> written_slots u"
    "w \<in> set (case calc_count (counting_ctx cfg now msg s u k sfx) enr us0 s of
       (dec, direct) \<Rightarrow> direct @ map mut_write (updates dec))"
  shows "write_slot w \<in> written_slots u"
  using assms(3,4)
  by (auto simp: calc_count_def Let_def split_beta assms(2)
      dest: phase4_slots [of _ _ _ u] phase5_slots [of _ _ _ _ _ u] spike_guard_slots [of _ _ _ _ _ u]
        compute_speed_slots [of _ _ u] phase10_slots [of _ _ _ _ u]
        run_phase9_slots [OF _ assms(1), of _ _ _ k sfx])

lemma seed_updates:
  "updates (seed_decision enr us kd reason key v) = us @ [mutation kd (SetInt key (if v < 0 then 0 else v))]"
  "metrics (seed_decision enr us kd reason key v) = []"
  "send_downstream (seed_decision enr us kd reason key v) = False"
  "updates (skip_decision enr us reason) = us"
  "metrics (skip_decision enr us reason) = []"
  "send_downstream (skip_decision enr us reason) = False"
  "updates (drop_decision enr us) = us" "metrics (drop_decision enr us) = []"
  "send_downstream (drop_decision enr us) = False"
  by (simp_all add: seed_decision_def skip_decision_def drop_decision_def Let_def)

lemma calc_writes_slots:
  assumes "good_unit u" "k \<noteq> KindUnknown" "m_topic msg = counter_topic u k @ ''***'' @ sfx"
    "w \<in> set (calc_writes cfg now msg s)"
  shows "write_slot w \<in> written_slots u"
proof -
  note slots = last_ts_slots [of _ cfg now msg u k u]
  note count = calc_count_slots [OF assms(1,3), of "last_ts_mutation cfg now msg u k"]
  from assms(4) show ?thesis
    unfolding calc_writes_def calc_on_topic [OF assms(1-3)] Let_def
    using slots count assms(2) by (auto simp: seed_updates split: if_splits)
qed

text \<open>Everything else in State is untouched by a message.\<close>

lemma calc_step_frame:
  assumes "good_unit u" "k \<noteq> KindUnknown" "m_topic msg = counter_topic u k @ ''***'' @ sfx"
    "sl \<notin> written_slots u"
  shows "read_slot (snd (calc_step cfg now msg s)) sl = read_slot s sl"
  unfolding calc_step_writes
  by (rule mem.get_fold_other) (use calc_writes_slots [OF assms(1-3)] assms(4) in auto)

lemma calc_step_modes [simp]: "ms_modes (snd (calc_step cfg now msg s)) = ms_modes s"
  by (simp add: calc_step_writes)

section \<open>The keys of one unit are different\<close>

lemma status_key: "unit_topic u @ ''/Status/'' @ x = path (unit_segments u @ [''Status'', x])"
  by (simp add: unit_topic_def unit_segments_def path_Cons)

lemmas status_key_Cons = status_key [unfolded append_Cons append_Nil]

lemma status_key_ok: "good_unit u \<Longrightarrow> CHR ''/'' \<notin> set x \<Longrightarrow> segments_ok (unit_segments u @ [''Status'', x])"
  by (auto simp: good_unit_def good_segment_def segments_ok_def unit_segments_def)

lemma status_key_neq:
  assumes "good_unit u" "CHR ''/'' \<notin> set x" "CHR ''/'' \<notin> set y" "x \<noteq> y"
  shows "unit_topic u @ ''/Status/'' @ x \<noteq> unit_topic u @ ''/Status/'' @ y"
  using assms(4) by simp

lemma path_neq_length:
  "segments_ok ps \<Longrightarrow> segments_ok qs \<Longrightarrow> length ps \<noteq> length qs \<Longrightarrow> path ps \<noteq> path qs"
  using path_inj by metis

lemma counter_suffix_key:
  "counter_topic u k @ x = path (unit_segments u @ [''Admin'', kind_name k, u_index u, ''Unit'' @ x])"
  by (simp add: counter_topic_def counter_segments_def unit_segments_def path_Cons)

lemma counter_suffix_ok:
  "good_unit u \<Longrightarrow> CHR ''/'' \<notin> set x \<Longrightarrow>
   segments_ok (unit_segments u @ [''Admin'', kind_name k, u_index u, ''Unit'' @ x])"
  using kind_name_chars(1) [of k]
  by (auto simp: good_unit_def good_segment_def segments_ok_def unit_segments_def)

lemma phase9_candidates_no_slash:
  "l \<in> set (phase9_candidates line) \<Longrightarrow> CHR ''/'' \<notin> set line \<Longrightarrow> CHR ''/'' \<notin> set l"
  by (auto simp: phase9_candidates_def split: option.splits dest: in_set_dropD)

lemma line_key_path:
  assumes "good_unit u" "l \<in> set (line_paths u)" "x \<in> line_int_keys l"
  obtains ps where "x = path ps" "segments_ok ps" "length ps = 6"
proof -
  from assms(2) obtain q where q: "q \<in> set (phase9_candidates (u_line u))"
    and l: "l = path [u_enterprise u, u_site u, u_area u, q]"
    by (auto simp: line_paths_def)
  have ns: "CHR ''/'' \<notin> set q" using phase9_candidates_no_slash [OF q] assms(1)
    by (simp add: good_unit_def good_segment_def)
  have key: "l @ ''/Admin/'' @ y = path [u_enterprise u, u_site u, u_area u, q, ''Admin'', y]" for y
    by (simp add: l path_Cons)
  from assms(3) obtain y where y: "x = l @ ''/Admin/'' @ y" "CHR ''/'' \<notin> set y"
    by (auto simp: line_int_keys_def line_keys)
  show ?thesis
    by (rule that [of "[u_enterprise u, u_site u, u_area u, q, ''Admin'', y]"])
      (use y key ns assms(1) in \<open>auto simp: segments_ok_def good_unit_def good_segment_def\<close>)
qed

text \<open>A status parameter other than \<open>Parameter*30772*\<close> is written by no counter message.\<close>

lemma status_key_not_written:
  assumes "good_unit u" "CHR ''/'' \<notin> set x" "x \<noteq> ''Parameter*30772*''"
  shows "unit_topic u @ ''/Status/'' @ x \<notin> written_int_keys u"
proof -
  have ok: "segments_ok (unit_segments u @ [''Status'', x])" by (rule status_key_ok [OF assms(1,2)])
  have seven: "length (unit_segments u @ [''Status'', x]) = 7" by (simp add: unit_segments_def)
  have ct: "unit_topic u @ ''/Status/'' @ x \<noteq> counter_topic u k @ y" if "CHR ''/'' \<notin> set y" for k y
    unfolding status_key counter_suffix_key
    by (rule path_neq_length [OF ok counter_suffix_ok [OF assms(1) that]]) (simp add: seven)
  have ln: "unit_topic u @ ''/Status/'' @ x \<notin> line_int_keys l" if lm: "l \<in> set (line_paths u)" for l
  proof
    assume a: "unit_topic u @ ''/Status/'' @ x \<in> line_int_keys l"
    obtain ps where "unit_topic u @ ''/Status/'' @ x = path ps" "segments_ok ps" "length ps = 6"
      by (rule line_key_path [OF assms(1) lm a])
    then show False using path_neq_length [OF ok, of ps] seven unfolding status_key by simp
  qed
  have p: "unit_topic u @ ''/Status/'' @ x \<noteq> unit_topic u @ ''/Status/Parameter*30772*''"
    using assms(3) by simp
  show ?thesis
    using p ct [of "[]"] ct [of "''___IN_INCR''"] ct [of "''___IN_SCRAP''"] ln
    by (simp add: written_int_keys_def)
qed

lemmas status_key_not_written_Cons = status_key_not_written [unfolded append_Cons append_Nil]

text \<open>A counter topic differs from every other key a message writes.\<close>

lemma counter_topic_neq_line:
  assumes "good_unit u" "l \<in> set (line_paths u)"
  shows "counter_topic u k \<notin> line_int_keys l"
proof
  assume a: "counter_topic u k \<in> line_int_keys l"
  obtain ps where "counter_topic u k = path ps" "segments_ok ps" "length ps = 6"
    by (rule line_key_path [OF assms a])
  then show False
    using path_neq_length [OF good_unit_segments(2) [OF assms(1)], of ps k]
    by (simp add: counter_topic_def counter_segments_def unit_segments_def)
qed

lemma counter_topic_inj:
  assumes "good_unit u" shows "counter_topic u j = counter_topic u k \<longleftrightarrow> j = k"
proof -
  have "kind_name j = kind_name k \<longleftrightarrow> j = k" by (cases j; cases k) auto
  then show ?thesis
    using path_inj [OF good_unit_segments(2) [OF assms] good_unit_segments(2) [OF assms], of j k]
    by (simp add: counter_topic_def counter_segments_def)
qed

lemma counter_topic_neq_status:
  assumes "good_unit u" "CHR ''/'' \<notin> set x"
  shows "counter_topic u k \<noteq> unit_topic u @ ''/Status/'' @ x"
  unfolding status_key counter_topic_def
  by (rule path_neq_length [OF good_unit_segments(2) [OF assms(1)] status_key_ok [OF assms]])
    (simp add: counter_segments_def unit_segments_def)

end
