(* ===== verification/CalcCorrect.thy ===== *)
theory CalcCorrect
  imports CalcProps
begin

text \<open>
  Correctness of the counter calculation over runs of messages: what a stream of
  readings of one counter emits in total, that redelivery is harmless, and what the
  stored baselines are. A plain unit is one in the configuration of the production
  decoder without a speed sensor: topics end in \<open>***TRIG\<close>, the reset heal and the
  no-speed fallback are on, no multiplier and no spike margin are configured.
\<close>

section \<open>Runs\<close>

fun calc_run :: "calc_config \<Rightarrow> int \<Rightarrow> message list \<Rightarrow> mem_state \<Rightarrow> metric list \<times> mem_state" where
  "calc_run cfg now [] s = ([], s)"
| "calc_run cfg now (m # ms) s =
     (case calc_step cfg now m s of (out, s') \<Rightarrow>
      case calc_run cfg now ms s' of (outs, s'') \<Rightarrow> (out @ outs, s''))"

definition own_sum :: "unit_id \<Rightarrow> counter_kind \<Rightarrow> metric list \<Rightarrow> int" where
  "own_sum u k ms =
     sum_list (map mt_value (filter (\<lambda>m. mt_name m = counter_topic u k \<and> \<not> mt_line_aggregated m) ms))"

lemma own_sum_append [simp]: "own_sum u k (xs @ ys) = own_sum u k xs + own_sum u k ys"
  by (simp add: own_sum_def)

lemma own_sum_Nil [simp]: "own_sum u k [] = 0"
  by (simp add: own_sum_def)

text \<open>How far the totalizer moved between two readings: a 16-bit wrap continues the
  count, a genuine reset restarts it (and what it lost is unknown).\<close>

definition counter_movement :: "int \<Rightarrow> int \<Rightarrow> int" where
  "counter_movement prev cur =
     (if prev \<le> cur then cur - prev
      else if is_uint16_rollover prev cur then (65536 - prev) + cur else 0)"

fun total_movement :: "int \<Rightarrow> int list \<Rightarrow> int" where
  "total_movement prev [] = 0"
| "total_movement prev (v # vs) = counter_movement prev v + total_movement v vs"

lemma total_movement_sorted:
  "sorted (v0 # vs) \<Longrightarrow> total_movement v0 vs = last (v0 # vs) - v0"
  by (induction vs arbitrary: v0) (auto simp: counter_movement_def)

lemma total_movement_append:
  "total_movement p (xs @ ys) = total_movement p xs + total_movement (last (p # xs)) ys"
  by (induction xs arbitrary: p) auto

section \<open>Plain units\<close>

definition rules_off :: calc_config where
  "rules_off = \<lparr>monotonicity_guard = False, counter_rollover = False\<rparr>"

definition plain_message :: "unit_id \<Rightarrow> counter_kind \<Rightarrow> message \<Rightarrow> bool" where
  "plain_message u k msg \<longleftrightarrow> m_topic msg = counter_topic u k @ ''***TRIG'' \<and> m_cmd_trigger msg
     \<and> \<not> m_counters_only msg \<and> m_no_speed_guard_fallback msg \<and> m_reset_heal msg
     \<and> \<not> m_uint16_counter msg \<and> m_counter_spike_margin msg = Fin 0
     \<and> 0 < m_payload msg \<and> in64 (m_payload msg)"

definition plain_state :: "unit_id \<Rightarrow> mem_state \<Rightarrow> bool" where
  "plain_state u s \<longleftrightarrow> ms_modes s (unit_topic u) \<noteq> Some 6
     \<and> ms_floats s (unit_topic u @ ''/Status/MachSpeed'') = None
     \<and> ms_ints s (unit_topic u @ ''/Status/Parameter*30710*'') = None
     \<and> ms_bools s (unit_topic u @ ''/Status/Parameter*30761*'') = None"

definition trig_flags :: trigger_flags where
  "trig_flags = \<lparr>trig_base = True, trig_cs = False, trig_ci = False, trig_c_eq_i = False,
     trig_c_eq_o = False, trig_co = False, state_speed_this = False\<rparr>"

lemma parse_trig: "parse_trigger_flags ''TRIG'' = trig_flags"
  by (simp add: parse_trigger_flags_def trig_flags_def to_upper_def upper_char_def str_contains_def
      has_prefix_def Let_def) code_simp?

lemma plain_state_step:
  assumes "good_unit u" "k \<noteq> KindUnknown" "m_topic msg = counter_topic u k @ ''***'' @ sfx" "plain_state u s"
  shows "plain_state u (snd (calc_step cfg now msg s))"
proof -
  note fr = calc_step_frame [OF assms(1-3), of _ cfg now s]
  have "IntSlot (unit_topic u @ ''/Status/'' @ ''Parameter*30710*'') \<notin> written_slots u"
    using status_key_not_written [OF assms(1), of "''Parameter*30710*''"] by simp
  with fr [of "IntSlot (unit_topic u @ ''/Status/'' @ ''Parameter*30710*'')"]
    fr [of "FloatSlot (unit_topic u @ ''/Status/MachSpeed'')"]
    fr [of "BoolSlot (unit_topic u @ ''/Status/Parameter*30761*'')"]
  show ?thesis using assms(4) by (simp add: plain_state_def)
qed

lemma advance_rules_off:
  "advance_counter prev cur cm rules_off =
     (if cur < prev then (if is_uint16_rollover prev cur then (sub64 prev 65536, True, False) else (0, True, True))
      else (prev, prev < cur, False))"
  by (simp add: advance_counter_def rollover_adjusted_prev_def rules_off_def handle_counter_drop_def)

text \<open>The plain \<open>***TRIG\<close> corrections never touch the message's own counter.\<close>

lemma trig_corrections_own:
  assumes "k \<noteq> KindUnknown" "0 < pick k (p, c, d)"
  shows "pick k (fst (apply_trig_corrections p c d pp pc pd trig_flags s tc td)) = pick k (p, c, d)"
    and "snd (apply_trig_corrections p c d pp pc pd trig_flags s tc td) = []"
  using assms by (cases k; simp add: apply_trig_corrections_def trig_flags_def Let_def)+

lemma compute_speed_finite:
  assumes "\<not> bool0 s (unit @ ''/Status/Parameter*30761*'')"
  shows "flt (fst (compute_speed s unit ts ic)) max_float64"
proof -
  have z: "flt (Fin 0) max_float64" by (simp add: max_float64_def)
  show ?thesis
    using assms z of_int64_less_max
    by (simp add: compute_speed_def Let_def)
qed

lemma pick_set_triple [simp]: "k \<noteq> KindUnknown \<Longrightarrow> pick k (set_triple k v t) = v"
  by (cases k; cases t) auto

lemma pick_increments: "pick k (increments a b) = sub64 (pick k a) (pick k b)"
  by (cases k; cases a; cases b) (auto simp: increments_def)

section \<open>One counted reading\<close>

lemma phase8_own:
  assumes u: "good_unit u" and k: "k \<noteq> KindUnknown" and t: "cx_topics cx = unit_topics u"
    and fl: "\<not> state_speed_this (cx_flags cx)"
    and sp: "flt speed bound" and dv: "flt (of_int64 (pick k incr)) bound" and cur: "0 \<le> pick k cur"
  shows "own_sum u k (p8_metrics (calc_phase8 cx s cur incr speed ms bound)) = max 0 (pick k incr)"
proof -
  obtain p c d where cur': "cur = (p, c, d)" by (metis prod_cases3)
  obtain ip ic dd where incr': "incr = (ip, ic, dd)" by (metis prod_cases3)
  have tp: "topic_p cx = counter_topic u Processed" "topic_c cx = counter_topic u Consumed"
    "topic_d cx = counter_topic u Defective"
    by (simp_all add: topic_p_def topic_c_def topic_d_def t)
  show ?thesis
    using k sp dv cur
    by (cases k) (simp_all add: calc_phase8_def cur' incr' Let_def tp fl own_sum_def unit_metric_def
        counter_topic_inj [OF u] max_def)
qed

lemma phase9_own [simp]: "own_sum u k (fst (run_phase9 p s)) = 0"
proof -
  have "filter (\<lambda>m. mt_name m = counter_topic u k \<and> \<not> mt_line_aggregated m) (fst (run_phase9 p s)) = []"
    using run_phase9_line_aggregated by (auto simp: filter_empty_conv)
  then show ?thesis by (simp add: own_sum_def)
qed

lemma phase8_status_topic:
  assumes "p8_status_topic (calc_phase8 cx s cur incr speed ms bound) = Some t"
    "cx_topics cx = unit_topics u"
  shows "\<exists>j. t = counter_topic u j"
  using assms by (cases cur; cases incr)
    (auto simp: calc_phase8_def Let_def topic_p_def topic_c_def split: if_splits)

lemma status_name:
  assumes "good_unit u"
  shows "mt_name (status_metric_for (counter_topic u j) c ts msg) = unit_topic u @ ''/Status/StateCurrent''"
proof -
  have "mt_name (status_metric_for (counter_topic u j) c ts msg) = path (unit_segments u @ [''Status'', ''StateCurrent''])"
    using assms by (simp add: status_metric_for_def Let_def counter_segments_def unit_segments_def path_def)
  then show ?thesis using status_key [of u "''StateCurrent''"] by simp
qed

lemma phase10_own:
  assumes "good_unit u" "\<And>t. st = Some t \<Longrightarrow> \<exists>j. t = counter_topic u j"
  shows "own_sum u k (fst (calc_phase10 cx s st)) = 0"
proof -
  have "unit_topic u @ ''/Status/StateCurrent'' \<noteq> counter_topic u k"
    using counter_topic_neq_status [OF assms(1), of "''StateCurrent''" k] by simp
  then show ?thesis
    using assms(2) status_name [OF assms(1)]
    by (auto simp: calc_phase10_def own_sum_def Let_def split: option.split)
qed

lemma calc_count_metrics:
  "metrics (fst (calc_count cx enr us0 s0)) =
    (let cur = fst (calc_phase4 cx s0); direct = snd (calc_phase4 cx s0);
         s = fold apply_write direct s0;
         incr1 = increments cur (cx_prev cx);
         incr2 = fst (spike_guard cx s incr1 (debug_fields (cx_cur cx) (cx_prev cx)
           (increments (cx_cur cx) (cx_prev cx)) enr));
         incr = fst (apply_multiplier s (cx_unit cx) incr2 (fst (compute_speed s (cx_unit cx) (cx_ts cx) (pick Consumed incr2))));
         speed = snd (apply_multiplier s (cx_unit cx) incr2 (fst (compute_speed s (cx_unit cx) (cx_ts cx) (pick Consumed incr2))));
         mach = float0 s (cx_unit cx @ ''/Status/MachSpeed'');
         bound = fst (glitch_bound (cx_msg cx) mach Map.empty);
         p8 = calc_phase8 cx s cur incr speed mach bound
     in p8_metrics p8 @ fst (run_phase9
            \<lparr>p9_msg = cx_msg cx, p9_timestamp = cx_ts cx, p9_proc_incr = pick Processed incr,
             p9_cons_incr = pick Consumed incr, p9_cur_processed = pick Processed cur,
             p9_cur_consumed = pick Consumed cur, p9_consumed_set = p8_consumed_set p8,
             p9_processed_set = p8_processed_set p8, p9_prod_speed = speed,
             p9_state_speed_this = state_speed_this (cx_flags cx),
             p9_reset_line_scrap = cx_reset_line cx\<rparr> s)
          @ fst (calc_phase10 cx s (p8_status_topic p8)))"
proof -
  have gb: "fst (glitch_bound m ms e) = fst (glitch_bound m ms Map.empty)" for m ms e
    unfolding glitch_bound_def by (auto split: if_splits)
  show ?thesis
    unfolding calc_count_def Let_def split_beta
    by (simp add: gb [of _ _ "_(_ \<mapsto> _)"])
qed

lemma phase4_plain:
  assumes "k \<noteq> KindUnknown" "cx_flags cx = trig_flags" "0 < pick k (cx_cur cx)"
  shows "pick k (fst (calc_phase4 cx s)) = pick k (cx_cur cx)" "snd (calc_phase4 cx s) = []"
proof -
  obtain a b c where abc: "cx_cur cx = (a, b, c)" by (metis prod_cases3)
  obtain a' b' c' where abc': "cx_prev cx = (a', b', c')" by (metis prod_cases3)
  show "pick k (fst (calc_phase4 cx s)) = pick k (cx_cur cx)" "snd (calc_phase4 cx s) = []"
    using trig_corrections_own [OF assms(1), of a b c] assms(3) by (simp_all add: calc_phase4_def abc abc' assms(2))
qed

lemma calc_count_plain:
  assumes u: "good_unit u" and j: "j \<noteq> KindUnknown"
    and t: "cx_topics cx = unit_topics u" and un: "cx_unit cx = unit_topic u"
    and fl: "cx_flags cx = trig_flags" and ps: "plain_state u s"
    and pm: "plain_message u k (cx_msg cx)"
    and p4: "pick j (fst (calc_phase4 cx s)) = v" "snd (calc_phase4 cx s) = []" and v: "0 \<le> v"
    and prev: "pick j (cx_prev cx) = p"
  shows "own_sum u j (metrics (fst (calc_count cx enr us0 s))) = max 0 (sub64 v p)"
    and "snd (calc_count cx enr us0 s) = []"
proof -
  define i where "i = increments (fst (calc_phase4 cx s)) (cx_prev cx)"
  have i: "pick j i = sub64 v p" by (simp add: i_def pick_increments p4 prev)
  have sg: "spike_guard cx s x e = (x, e, [])" for x e
    using pm by (simp add: spike_guard_def Let_def plain_message_def)
  have sp: "flt (fst (compute_speed s (unit_topic u) ts ic)) max_float64" for ts ic
    using ps by (intro compute_speed_finite) (simp add: plain_state_def bool0_def)
  have mult: "apply_multiplier s (unit_topic u) x y = (x, y)" for x y
    using ps by (simp add: apply_multiplier_def plain_state_def)
  have bound: "fst (glitch_bound (cx_msg cx) (float0 s (unit_topic u @ ''/Status/MachSpeed'')) Map.empty) = max_float64"
    using ps pm by (simp add: glitch_bound_def plain_state_def plain_message_def float0_def)
  have sst: "\<not> state_speed_this (cx_flags cx)" by (simp add: fl trig_flags_def)
  show "snd (calc_count cx enr us0 s) = []"
    unfolding calc_count_def Let_def split_beta by (simp add: p4)
  show "own_sum u j (metrics (fst (calc_count cx enr us0 s))) = max 0 (sub64 v p)"
    unfolding calc_count_metrics Let_def
    by (simp add: p4(2) un sg mult bound flip: i_def)
      (simp add: phase8_own [OF u j t sst sp] of_int64_less_max i p4(1) v
        phase10_own [OF u] phase8_status_topic [OF _ t])
qed

lemma calc_count_own:
  assumes u: "good_unit u" and k: "k \<noteq> KindUnknown"
    and t: "cx_topics cx = unit_topics u" and un: "cx_unit cx = unit_topic u"
    and fl: "cx_flags cx = trig_flags" and ps: "plain_state u s"
    and pm: "plain_message u k (cx_msg cx)"
    and cur: "pick k (cx_cur cx) = v" "0 < v" and prev: "pick k (cx_prev cx) = p"
  shows "own_sum u k (metrics (fst (calc_count cx enr us0 s))) = max 0 (sub64 v p)"
    and "snd (calc_count cx enr us0 s) = []"
  using calc_count_plain [OF u k t un fl ps pm _ _ _ prev] phase4_plain [OF k fl, of s] cur by simp_all

text \<open>The stored baseline: phase 5 writes it, and no later write of the message hits it.\<close>

lemma calc_count_baseline:
  assumes u: "good_unit u" and k: "k \<noteq> KindUnknown"
    and t: "cx_topics cx = unit_topics u" and un: "cx_unit cx = unit_topic u"
    and msg: "m_topic (cx_msg cx) = counter_topic u k @ ''***'' @ sfx"
    and nd: "snd (calc_phase4 cx s) = []"
    and us0: "\<forall>m\<in>set us0. \<exists>key. write_slot (mut_write m) = TimeSlot key"
  shows "ms_ints (apply_mutations (updates (fst (calc_count cx enr us0 s))) s) (counter_topic u k) =
    (if cx_send cx then Some (max 0 (pick k (fst (calc_phase4 cx s)))) else ms_ints s (counter_topic u k))"
proof -
  obtain a b c where cur: "fst (calc_phase4 cx s) = (a, b, c)" by (metis prod_cases3)
  have tp: "topic_p cx = counter_topic u Processed" "topic_c cx = counter_topic u Consumed"
    "topic_d cx = counter_topic u Defective"
    by (simp_all add: topic_p_def topic_c_def topic_d_def t)
  have other: "ms_ints (apply_mutations us x) (counter_topic u k) = ms_ints x (counter_topic u k)"
    if "\<forall>m\<in>set us. write_slot (mut_write m) \<noteq> IntSlot (counter_topic u k)" for us x
  proof -
    have "read_slot (apply_mutations us x) (IntSlot (counter_topic u k)) = read_slot x (IntSlot (counter_topic u k))"
      unfolding apply_mutations_fold by (rule mem.get_fold_other) (use that in auto)
    then show ?thesis by (simp add: option.inj_map [THEN inj_eq] inj_def)
  qed
  have sgs: "\<forall>m\<in>set (snd (snd (spike_guard cx s i e))). write_slot (mut_write m) \<noteq> IntSlot (counter_topic u k)" for i e
    by (auto simp: spike_guard_def Let_def split_beta split: if_splits)
  have css: "\<forall>m\<in>set (snd (compute_speed s un' ts ic)). write_slot (mut_write m) \<noteq> IntSlot (counter_topic u k)" for un' ts ic
    by (auto simp: compute_speed_def Let_def split: if_splits)
  have p10: "\<forall>m\<in>set (snd (calc_phase10 cx s st)). write_slot (mut_write m) \<noteq> IntSlot (counter_topic u k)" for st
    by (auto simp: calc_phase10_def register_status_topic_def Let_def split: if_splits option.splits)
  have p9: "ms_ints (apply_mutations (snd (run_phase9 p s)) x) (counter_topic u k) = ms_ints x (counter_topic u k)"
    if "p9_msg p = cx_msg cx" for p x
  proof (rule other, rule ballI)
    fix m assume "m \<in> set (snd (run_phase9 p s))"
    then show "write_slot (mut_write m) \<noteq> IntSlot (counter_topic u k)"
      using run_phase9_int_slots [OF _ u, of m p s k sfx] that msg counter_topic_neq_line [OF u] by auto
  qed
  have u0: "\<forall>m\<in>set us0. write_slot (mut_write m) \<noteq> IntSlot (counter_topic u k)" using us0 by force
  have n30772: "counter_topic u k \<noteq> unit_topic u @ ''/Status/Parameter*30772*''"
    using counter_topic_neq_status [OF u, of "''Parameter*30772*''" k] by simp
  have p5: "ms_ints (apply_mutations (calc_phase5 cx s (a, b, c) ic) x) (counter_topic u k) =
     (if cx_send cx then Some (max 0 (pick k (a, b, c))) else ms_ints x (counter_topic u k))" for ic x
    using k n30772
    by (cases k) (simp_all add: calc_phase5_def write_non_negative_def tp un Let_def mem_set_int_def
        counter_topic_inj [OF u] max_def)
  show ?thesis
    unfolding calc_count_def Let_def split_beta
    by (simp add: nd cur other sgs css p10 p9 u0 p5 del: Un_iff)
qed

section \<open>One plain message, and runs of them\<close>

lemma payload_plain: "plain_message u k msg \<Longrightarrow> calc_phase0 msg = (msg, Map.empty)"
  by (simp add: calc_phase0_def plain_message_def)

text \<open>The relation between one reading and the next: what \<open>advance_counter\<close> keeps.\<close>

lemma advance_movement:
  assumes "0 \<le> p" "in64 p" "0 < v" "in64 v" "advance_counter p v cm rules_off = (np, send, reset)" "\<not> reset"
  shows "max 0 (sub64 v np) = counter_movement p v"
proof -
  have "is_uint16_rollover p v \<Longrightarrow> sub64 v (sub64 p 65536) = 65536 - p + v"
    using uint16_wrap_increment [of p v] by (simp add: handle_counter_drop_def)
  with assms show ?thesis
    by (auto simp: advance_rules_off counter_movement_def sub64_nonneg is_uint16_rollover_def split: if_splits)
qed

lemma plain_step:
  assumes u: "good_unit u" and k: "k \<noteq> KindUnknown" and pm: "plain_message u k msg"
    and ps: "plain_state u s" and base: "ms_ints s (counter_topic u k) = Some p" "0 \<le> p" "in64 p"
  shows "own_sum u k (fst (calc_step rules_off now msg s)) = counter_movement p (m_payload msg)"
    and "ms_ints (snd (calc_step rules_off now msg s)) (counter_topic u k) = Some (m_payload msg)"
    and "plain_state u (snd (calc_step rules_off now msg s))"
proof -
  have topic: "m_topic msg = counter_topic u k @ ''***'' @ ''TRIG''" using pm by (simp add: plain_message_def)
  show "plain_state u (snd (calc_step rules_off now msg s))" by (rule plain_state_step [OF u k topic ps])
  define v where "v = m_payload msg"
  have v: "0 < v" "in64 v" using pm by (simp_all add: v_def plain_message_def)
  have pv: "payload_of msg = v" by (simp add: payload_of_def payload_plain [OF pm] v_def)
  define cx where "cx = counting_ctx rules_off now msg s u k ''TRIG''"
  obtain np send reset where adv: "advance_counter p v (int0 s (unit_topic u @ ''/Status/CounterMax'')) rules_off = (np, send, reset)"
    by (metis prod_cases3)
  have i0: "int0 s (counter_topic u k) = p" using base by (simp add: int0_def)
  have cxf: "pick k (cx_cur cx) = v" "pick k (cx_prev cx) = np" "cx_send cx = send"
    using k adv by (simp_all add: cx_def counting_ctx_def pv i0)
  have guards: "ms_modes s (unit_topic u) \<noteq> Some 6" "m_cmd_trigger msg" "m_reset_heal msg" "\<not> monotonicity_guard rules_off"
    using ps pm by (simp_all add: plain_state_def plain_message_def rules_off_def)
  have call: "calc_with_config rules_off now msg s =
     (if reset then (seed_decision Map.empty [] ''counter.reset_seed_baseline'' ''counter_reset_seed'' (counter_topic u k) v, [])
      else calc_count cx Map.empty [] s)"
    using guards
    unfolding calc_on_topic [OF u k topic] by (simp add: Let_def base(1) i0 pv adv payload_plain [OF pm] cx_def last_ts_mutation_def)
  have own: "own_sum u k (metrics (fst (calc_count cx Map.empty [] s))) = max 0 (sub64 v np)"
    and nod: "snd (calc_count cx Map.empty [] s) = []"
    using calc_count_own [OF u k _ _ _ ps, of cx v np Map.empty "[]"] pm cxf v
    by (simp_all add: cx_def parse_trig payload_plain [OF pm])
  have "own_sum u k (fst (calc_step rules_off now msg s)) = counter_movement p v \<and>
     ms_ints (snd (calc_step rules_off now msg s)) (counter_topic u k) = Some v"
  proof (cases reset)
    case True
    then have "\<not> p \<le> v" "\<not> is_uint16_rollover p v" using adv by (auto simp: advance_rules_off split: if_splits)
    then show ?thesis using True v
      by (simp add: calc_step_def call seed_updates counter_movement_def mem_set_int_def)
  next
    case False
    have p4: "pick k (fst (calc_phase4 cx s)) = v" "snd (calc_phase4 cx s) = []"
      using phase4_plain [OF k, of cx] cxf v by (simp_all add: cx_def parse_trig)
    have bl: "ms_ints (apply_mutations (updates (fst (calc_count cx Map.empty [] s))) s) (counter_topic u k) =
        (if send then Some (max 0 v) else Some p)"
      using calc_count_baseline [OF u k, of cx "''TRIG''" s "[]" Map.empty] topic p4 cxf base(1)
      by (simp add: cx_def payload_plain [OF pm])
    have "\<not> send \<Longrightarrow> p = v" using adv by (auto simp: advance_rules_off split: if_splits)
    with bl v have "ms_ints (apply_mutations (updates (fst (calc_count cx Map.empty [] s))) s) (counter_topic u k) = Some v"
      by auto
    then show ?thesis
      using False own nod advance_movement [OF base(2,3) v adv False]
      by (simp add: calc_step_def call split_beta)
  qed
  then show "own_sum u k (fst (calc_step rules_off now msg s)) = counter_movement p (m_payload msg)"
    "ms_ints (snd (calc_step rules_off now msg s)) (counter_topic u k) = Some (m_payload msg)"
    by (simp_all add: v_def)
qed

lemma plain_run:
  assumes "good_unit u" "k \<noteq> KindUnknown" "\<forall>m\<in>set msgs. plain_message u k m" "plain_state u s"
    "ms_ints s (counter_topic u k) = Some p" "0 \<le> p" "in64 p"
  shows "own_sum u k (fst (calc_run rules_off now msgs s)) = total_movement p (map m_payload msgs)"
    and "ms_ints (snd (calc_run rules_off now msgs s)) (counter_topic u k) = Some (last (p # map m_payload msgs))"
  using assms(3-)
proof (induction msgs arbitrary: s p)
  case (Cons m ms)
  {
    case 1
    then have pm: "plain_message u k m" by simp
    note st = plain_step [OF assms(1,2) pm 1(2-5), of now]
    have pos: "0 \<le> m_payload m" "in64 (m_payload m)" using pm by (simp_all add: plain_message_def)
    show ?case using Cons.IH(1) [OF _ st(3,2) pos] 1 st(1) by (simp add: split_beta)
  next
    case 2
    then have pm: "plain_message u k m" by simp
    note st = plain_step [OF assms(1,2) pm 2(2-5), of now]
    have pos: "0 \<le> m_payload m" "in64 (m_payload m)" using pm by (simp_all add: plain_message_def)
    show ?case using Cons.IH(2) [OF _ st(3,2) pos] 2 by (simp add: split_beta)
  }
qed simp_all

lemma plain_state_run:
  assumes "good_unit u" "k \<noteq> KindUnknown" "\<forall>m\<in>set msgs. plain_message u k m" "plain_state u s"
  shows "plain_state u (snd (calc_run cfg now msgs s))"
  using assms(3,4)
proof (induction msgs arbitrary: s)
  case (Cons m ms)
  have "m_topic m = counter_topic u k @ ''***'' @ ''TRIG''" using Cons.prems by (simp add: plain_message_def)
  from plain_state_step [OF assms(1,2) this Cons.prems(2)] Cons show ?case by (simp add: split_beta)
qed simp

section \<open>Conservation\<close>

text \<open>Data for the witnesses: one unit of the CPACK plant.\<close>

definition demo_unit :: unit_id where
  "demo_unit = \<lparr>u_enterprise = ''CPACK'', u_site = ''SC'', u_area = ''LINHAS'', u_line = ''L5'',
     u_unit = ''BREYER'', u_index = ''61''\<rparr>"

definition demo_message :: "counter_kind \<Rightarrow> int \<Rightarrow> int \<Rightarrow> message" where
  "demo_message k v ts = \<lparr>m_topic = counter_topic demo_unit k @ ''***TRIG'', m_payload = v, m_timestamp = Some ts,
     m_tenant = ''cpack'', m_cmd_trigger = True, m_timezone = [], m_add_metrics = Map.empty,
     m_counters_only = False, m_ideal_rate = Fin 0, m_no_speed_guard_fallback = True, m_reset_heal = True,
     m_counter_spike_margin = Fin 0, m_guard_rated_speed = Fin 0, m_uint16_counter = False\<rparr>"

definition demo_state :: "counter_kind \<Rightarrow> int \<Rightarrow> mem_state" where
  "demo_state k v = mem_set_int (counter_topic demo_unit k) v new_mem_state"

lemma demo_good [simp]: "good_unit demo_unit"
  by code_simp

lemma demo_plain [simp]: "0 < v \<Longrightarrow> in64 v \<Longrightarrow> plain_message demo_unit k (demo_message k v ts)"
  by (simp add: plain_message_def demo_message_def)

lemma demo_state_plain [simp]: "plain_state demo_unit (demo_state k v)"
  using counter_topic_neq_status [OF demo_good, of "''Parameter*30710*''" k]
  by (auto simp: plain_state_def demo_state_def mem_set_int_def new_mem_state_def)

lemma demo_state_int [simp]: "ms_ints (demo_state k v) (counter_topic demo_unit k) = Some v"
  by (simp add: demo_state_def mem_set_int_def)

lemma demo_message_fields [simp]: "m_payload (demo_message k v ts) = v"
  "m_topic (demo_message k v ts) = counter_topic demo_unit k @ ''***TRIG''"
  "m_timestamp (demo_message k v ts) = Some ts" "m_cmd_trigger (demo_message k v ts)"
  "m_uint16_counter (demo_message k v ts) = False"
  by (simp_all add: demo_message_def)

text \<open>
  C3: Over any run of readings of one counter, the increments emitted on that counter's own
  topic add up to exactly how far the totalizer moved: every forward step counts once, a
  16-bit wrap counts what crossed the boundary, a genuine reset counts nothing; and the
  stored baseline is the last reading, so the next run continues where this one stopped.
\<close>

theorem calc_conservation:
  assumes "good_unit u" "k \<noteq> KindUnknown" "\<forall>m\<in>set msgs. plain_message u k m" "plain_state u s"
    "ms_ints s (counter_topic u k) = Some p" "0 \<le> p" "in64 p"
  shows "own_sum u k (fst (calc_run rules_off now msgs s)) = total_movement p (map m_payload msgs)
    \<and> ms_ints (snd (calc_run rules_off now msgs s)) (counter_topic u k) = Some (last (p # map m_payload msgs))"
  using plain_run [OF assms] by simp

lemma calc_conservation_witness:
  "own_sum demo_unit Consumed (fst (calc_run rules_off 0
      [demo_message Consumed 65530 1000, demo_message Consumed 4 2000, demo_message Consumed 50 3000,
       demo_message Consumed 20 4000, demo_message Consumed 25 5000] (demo_state Consumed 65500))) = 91
   \<and> ms_ints (snd (calc_run rules_off 0
      [demo_message Consumed 65530 1000, demo_message Consumed 4 2000, demo_message Consumed 50 3000,
       demo_message Consumed 20 4000, demo_message Consumed 25 5000] (demo_state Consumed 65500)))
        (counter_topic demo_unit Consumed) = Some 25"
proof -
  have "total_movement 65500 [65530, 4, 50, 20, 25] = 91"
    by (simp add: counter_movement_def is_uint16_rollover_def)
  then show ?thesis
    using calc_conservation [OF demo_good, of Consumed
      "[demo_message Consumed 65530 1000, demo_message Consumed 4 2000, demo_message Consumed 50 3000,
        demo_message Consumed 20 4000, demo_message Consumed 25 5000]" "demo_state Consumed 65500" 65500 0]
    by (simp add: in64_def)
qed

text \<open>A first reading is a seed, whatever the rest of State holds.\<close>

lemma first_observation_step:
  assumes "good_unit u" "k \<noteq> KindUnknown" "m_topic msg = counter_topic u k @ ''***'' @ sfx"
    "ms_modes s (unit_topic u) \<noteq> Some 6" "m_cmd_trigger msg" "ms_ints s (counter_topic u k) = None"
  shows "calc_step cfg now msg s = ([], mem_set_int (counter_topic u k) (max 0 (payload_of msg)) s)"
  unfolding calc_step_def calc_on_topic [OF assms(1-3)]
  using assms(4-6) by (simp add: Let_def seed_updates max_def)

text \<open>
  From a cold start (no baseline: first boot, or a decoder restart without a checkpoint)
  the first reading of a counter is stored and emits nothing at all, not even a status, and
  a non-decreasing stream of readings then emits exactly last minus first: the whole
  totalizer is never emitted as production.
\<close>

theorem calc_cold_start:
  assumes "good_unit u" "k \<noteq> KindUnknown" "\<forall>m\<in>set (m0 # msgs). plain_message u k m" "plain_state u s"
    "ms_ints s (counter_topic u k) = None" "sorted (map m_payload (m0 # msgs))"
  shows "fst (calc_step rules_off now m0 s) = []
    \<and> own_sum u k (fst (calc_run rules_off now (m0 # msgs) s)) = m_payload (last (m0 # msgs)) - m_payload m0"
proof -
  have pm: "plain_message u k m0" and topic: "m_topic m0 = counter_topic u k @ ''***'' @ ''TRIG''"
    using assms(3) by (simp_all add: plain_message_def)
  have v: "0 \<le> m_payload m0" "in64 (m_payload m0)" using pm by (simp_all add: plain_message_def)
  have st: "calc_step rules_off now m0 s = ([], mem_set_int (counter_topic u k) (m_payload m0) s)"
    using first_observation_step [OF assms(1,2) topic, of s rules_off now] assms(4,5) pm v
    by (simp add: plain_state_def plain_message_def payload_of_def payload_plain [OF pm])
  define s' where "s' = mem_set_int (counter_topic u k) (m_payload m0) s"
  have ps: "plain_state u s'" using plain_state_step [OF assms(1,2) topic assms(4), of rules_off now] st
    by (simp add: s'_def)
  have "own_sum u k (fst (calc_run rules_off now msgs s')) = total_movement (m_payload m0) (map m_payload msgs)"
    by (rule plain_run(1) [OF assms(1,2) _ ps _ v]) (use assms(3) in \<open>auto simp: s'_def mem_set_int_def\<close>)
  with assms(6) st show ?thesis
    by (cases "msgs = []") (simp_all add: total_movement_sorted s'_def split_beta last_map)
qed

lemma calc_cold_start_witness:
  "fst (calc_step rules_off 0 (demo_message Processed 830000 1000) new_mem_state) = []
   \<and> own_sum demo_unit Processed (fst (calc_run rules_off 0
        [demo_message Processed 830000 1000, demo_message Processed 830012 61000] new_mem_state)) = 12"
proof -
  have "plain_state demo_unit new_mem_state" by (simp add: plain_state_def new_mem_state_def)
  then show ?thesis
    using calc_cold_start [OF demo_good, of Processed "demo_message Processed 830000 1000"
      "[demo_message Processed 830012 61000]" new_mem_state 0]
    by (simp add: in64_def new_mem_state_def)
qed

end
