(* ===== verification/Durability.thy ===== *)
theory Durability
  imports TrackedState OutboxProps CalcCorrect
begin

text \<open>
  Durable baselines (cmd/edge-transformer/main.go: \<open>calcStateToRows\<close>, \<open>rowsToCalcState\<close>,
  \<open>restoreCalcState\<close>, \<open>commitOutboxBatch\<close>): the counter State is checkpointed in the
  transaction that enqueues the envelopes computed from it and restored at boot. The
  \<open>calc_state\<close> table is the third provider of the store interface.
\<close>

section \<open>The checkpoint table as a store\<close>

definition state_entry_of :: "'p outbox_db \<Rightarrow> string \<times> string \<Rightarrow> (int \<times> f64) option" where
  "state_entry_of db k = map_option (\<lambda>(i, f, t). (i, f)) (map_of (db_state db) k)"

interpretation checkpoint: keyed_store state_entry_of "upsert_state now"
  "\<lambda>r. (sr_kind r, sr_key r)" "\<lambda>r. (sr_int r, sr_float r)" for now
  by unfold_locales (simp add: state_entry_of_def upsert_state_def update_conv)

section \<open>Conversions\<close>

definition calc_state_to_rows :: "state_entry list \<Rightarrow> state_row list" where
  "calc_state_to_rows es = map (\<lambda>e. \<lparr>sr_kind = kind_string (e_kind e), sr_key = e_key e,
     sr_int = e_int e, sr_float = e_float e\<rparr>) es"

text \<open>A row of an unknown kind is kept by the conversion and skipped by \<open>Restore\<close>.\<close>

definition kind_of_string :: "string \<Rightarrow> entry_kind option" where
  "kind_of_string s = (if s = ''int'' then Some EntryInt else if s = ''float'' then Some EntryFloat
     else if s = ''time_ms'' then Some EntryTimeMs else None)"

definition rows_to_calc_state :: "state_row list \<Rightarrow> state_entry list" where
  "rows_to_calc_state rs = List.map_filter (\<lambda>r. map_option (\<lambda>k. \<lparr>e_kind = k, e_key = sr_key r,
     e_int = sr_int r, e_float = sr_float r\<rparr>) (kind_of_string (sr_kind r))) rs"

section \<open>Commit and restore\<close>

definition commit_outbox_batch :: "int \<Rightarrow> bool \<Rightarrow> 'p outbox_message list \<Rightarrow> tracked_state \<times> 'p outbox_store
    \<Rightarrow> tracked_state \<times> 'p outbox_store" where
  "commit_outbox_batch now ok batch ds =
     (case ds of (t, st) \<Rightarrow>
      case take_dirty t of (taken, t1) \<Rightarrow>
        if batch = [] \<and> taken = [] then (t1, st)
        else case enqueue_batch now ok batch (calc_state_to_rows taken) st of
               (None, st') \<Rightarrow> (requeue taken t1, st')
             | (Some ids, st') \<Rightarrow> (t1, st'))"

definition restore_calc_state :: "bool \<Rightarrow> 'p outbox_store \<Rightarrow> tracked_state \<Rightarrow> tracked_state" where
  "restore_calc_state ok st t =
     (case load_state ok st of None \<Rightarrow> t | Some rows \<Rightarrow> fst (restore (rows_to_calc_state rows) t))"

text \<open>A crash keeps the database and loses the memory; the new process restores.\<close>

definition restart :: "'p outbox_store \<Rightarrow> tracked_state \<times> 'p outbox_store" where
  "restart st = (restore_calc_state True st (new_tracked_state new_mem_state), st)"

section \<open>The checkpoint invariant\<close>

text \<open>The entry the table has for a State key.\<close>

definition db_entry :: "'p outbox_db \<Rightarrow> dirty_key \<Rightarrow> state_entry option" where
  "db_entry db k = map_option (\<lambda>(i, f). \<lparr>e_kind = fst k, e_key = snd k, e_int = i, e_float = f\<rparr>)
     (state_entry_of db (kind_string (fst k), snd k))"

text \<open>Every key that is not dirty is stored with its current value; a dirty one has a value.\<close>

definition checkpointed :: "tracked_state \<Rightarrow> 'p outbox_store \<Rightarrow> bool" where
  "checkpointed t st \<longleftrightarrow> finite (ts_dirty t)
     \<and> (\<forall>k\<in>ts_dirty t. read_entry (ts_inner t) k \<noteq> None)
     \<and> (\<forall>k. k \<notin> ts_dirty t \<longrightarrow> db_entry (os_db st) k = read_entry (ts_inner t) k)
     \<and> distinct (map fst (db_state (os_db st)))"

lemma kind_string_inj: "kind_string a = kind_string b \<longleftrightarrow> a = b"
  by (cases a; cases b) auto

lemma kind_of_kind_string [simp]: "kind_of_string (kind_string k) = Some k"
  by (cases k) (simp_all add: kind_of_string_def)

lemma kind_of_string_Some: "kind_of_string s = Some k \<Longrightarrow> s = kind_string k"
  by (auto simp: kind_of_string_def split: if_splits)

lemma read_entry_written: "k \<in> write_dirty w \<Longrightarrow> read_entry (apply_write w s) k \<noteq> None"
  by (cases w) (auto simp: mem_set_defs)

lemma read_entry_write_some:
  "k \<in> d \<union> write_dirty w \<Longrightarrow> (\<forall>k\<in>d. read_entry s k \<noteq> None) \<Longrightarrow> read_entry (apply_write w s) k \<noteq> None"
  by (cases "k \<in> write_dirty w") (auto simp: read_entry_written read_entry_frame)

lemma checkpointed_write: "checkpointed t st \<Longrightarrow> checkpointed (tracked_write w t) st"
  unfolding checkpointed_def tracked_write_dirty tracked_write_inner
  using read_entry_write_some [of _ "ts_dirty t" w "ts_inner t"] by (simp add: read_entry_frame)

lemma checkpointed_writes: "checkpointed t st \<Longrightarrow> checkpointed (fold tracked_write ws t) st"
  by (induction ws arbitrary: t) (auto simp: checkpointed_write)

lemma db_entry_fold_other:
  assumes "k \<notin> (\<lambda>e. (e_kind e, e_key e)) ` set es"
  shows "state_entry_of (fold (upsert_state now) (calc_state_to_rows es) db) (kind_string (fst k), snd k)
    = state_entry_of db (kind_string (fst k), snd k)"
  by (rule checkpoint.get_fold_other)
    (use assms in \<open>auto simp: calc_state_to_rows_def kind_string_inj image_iff prod_eq_iff\<close>)

lemma db_entry_fold_written:
  assumes "e \<in> set es" "\<forall>e'\<in>set es. (e_kind e', e_key e') = (e_kind e, e_key e) \<longrightarrow> e' = e"
  shows "state_entry_of (fold (upsert_state now) (calc_state_to_rows es) db) (kind_string (e_kind e), e_key e)
    = Some (e_int e, e_float e)"
proof -
  let ?r = "\<lparr>sr_kind = kind_string (e_kind e), sr_key = e_key e, sr_int = e_int e, sr_float = e_float e\<rparr>"
  have "state_entry_of (fold (upsert_state now) (calc_state_to_rows es) db) (sr_kind ?r, sr_key ?r) = Some (sr_int ?r, sr_float ?r)"
    by (rule checkpoint.get_fold_written)
      (use assms in \<open>auto simp: calc_state_to_rows_def kind_string_inj\<close>)
  then show ?thesis by simp
qed

lemma enqueue_batch_state:
  assumes "enqueue_batch now True msgs rows st = (res, st')"
    "sorted_wrt (<) (map or_id (db_rows (os_db st)))"
  shows "state_entry_of (os_db st') k = state_entry_of (fold (upsert_state now) rows (os_db st)) k"
    and "distinct (map fst (db_state (os_db st))) \<Longrightarrow> distinct (map fst (db_state (os_db st')))" "res \<noteq> None"
proof -
  define db1 where "db1 = (if 0 < os_cap st \<and> msgs \<noteq> [] then trim_to_capacity (os_cap st - int (length msgs)) (os_db st) else os_db st)"
  have db1: "db_state db1 = db_state (os_db st)" using trim_drop(3) [OF assms(2)] by (simp add: db1_def)
  have st': "st' = st\<lparr>os_db := fold (upsert_state now) rows (snd (insert_messages now msgs db1))\<rparr>" "res \<noteq> None"
    using assms(1) by (auto simp: enqueue_batch_def Let_def db1_def split: prod.splits)
  have ins: "db_state (snd (insert_messages now msgs db1)) = db_state (os_db st)"
    using insert_messages_rows [of now msgs db1] db1 by metis
  then have "state_entry_of (snd (insert_messages now msgs db1)) k = state_entry_of (os_db st) k" for k
    by (simp add: state_entry_of_def)
  then show "state_entry_of (os_db st') k = state_entry_of (fold (upsert_state now) rows (os_db st)) k"
    using checkpoint.get_fold_cong [of "snd (insert_messages now msgs db1)" "os_db st"] by (simp add: st')
  show "distinct (map fst (db_state (os_db st))) \<Longrightarrow> distinct (map fst (db_state (os_db st')))"
    using fold_upsert_distinct [of "snd (insert_messages now msgs db1)" now rows] by (simp add: st' ins)
  show "res \<noteq> None" by (rule st'(2))
qed

text \<open>The values a checkpoint writes are the current ones of the dirty keys.\<close>

lemma take_dirty_key:
  assumes "finite (ts_dirty t)" "e \<in> set (fst (take_dirty t))"
  shows "(e_kind e, e_key e) \<in> ts_dirty t" "read_entry (ts_inner t) (e_kind e, e_key e) = Some e"
proof -
  obtain k where "k \<in> ts_dirty t" "read_entry (ts_inner t) k = Some e"
    using assms(2) unfolding take_dirty_entries [OF assms(1)] by blast
  with read_entry_key [of "ts_inner t" k e]
  show "(e_kind e, e_key e) \<in> ts_dirty t" "read_entry (ts_inner t) (e_kind e, e_key e) = Some e" by simp_all
qed

lemma take_dirty_covers:
  assumes "finite (ts_dirty t)" "\<forall>k\<in>ts_dirty t. read_entry (ts_inner t) k \<noteq> None"
  shows "(\<lambda>e. (e_kind e, e_key e)) ` set (fst (take_dirty t)) = ts_dirty t"
proof
  show "(\<lambda>e. (e_kind e, e_key e)) ` set (fst (take_dirty t)) \<subseteq> ts_dirty t"
    using take_dirty_key(1) [OF assms(1)] by blast
  show "ts_dirty t \<subseteq> (\<lambda>e. (e_kind e, e_key e)) ` set (fst (take_dirty t))"
  proof
    fix k assume k: "k \<in> ts_dirty t"
    then obtain e where e: "read_entry (ts_inner t) k = Some e" using assms(2) by blast
    then have "e \<in> set (fst (take_dirty t))" using k unfolding take_dirty_entries [OF assms(1)] by blast
    moreover have "(e_kind e, e_key e) = k" using e by (rule read_entry_key)
    ultimately show "k \<in> (\<lambda>e. (e_kind e, e_key e)) ` set (fst (take_dirty t))" by (auto simp: image_iff)
  qed
qed

text \<open>A written checkpoint agrees with the State on every key.\<close>

lemma db_entry_checkpoint:
  assumes "checkpointed t st"
    "\<And>k. state_entry_of db (kind_string (fst k), snd k)
       = state_entry_of (fold (upsert_state now) (calc_state_to_rows (fst (take_dirty t))) (os_db st)) (kind_string (fst k), snd k)"
  shows "db_entry db k = read_entry (ts_inner t) k"
proof (cases "k \<in> ts_dirty t")
  case True
  have fin: "finite (ts_dirty t)" and rd: "\<forall>k\<in>ts_dirty t. read_entry (ts_inner t) k \<noteq> None"
    using assms(1) by (simp_all add: checkpointed_def)
  obtain e where e: "e \<in> set (fst (take_dirty t))" "k = (e_kind e, e_key e)"
    using True take_dirty_covers [OF fin rd] by blast
  have u: "\<forall>e'\<in>set (fst (take_dirty t)). (e_kind e', e_key e') = (e_kind e, e_key e) \<longrightarrow> e' = e"
    using take_dirty_key(2) [OF fin] e(1) by (metis option.inject)
  have "db_entry db k = Some \<lparr>e_kind = e_kind e, e_key = e_key e, e_int = e_int e, e_float = e_float e\<rparr>"
    using assms(2) [of k] db_entry_fold_written [OF e(1) u, of now "os_db st"] by (simp add: db_entry_def e(2))
  then show ?thesis using take_dirty_key(2) [OF fin e(1)] by (simp add: e(2))
next
  case False
  have fin: "finite (ts_dirty t)" and rd: "\<forall>k\<in>ts_dirty t. read_entry (ts_inner t) k \<noteq> None"
    and all: "\<forall>k. k \<notin> ts_dirty t \<longrightarrow> db_entry (os_db st) k = read_entry (ts_inner t) k"
    using assms(1) by (simp_all add: checkpointed_def)
  have "k \<notin> (\<lambda>e. (e_kind e, e_key e)) ` set (fst (take_dirty t))"
    using False by (simp only: take_dirty_covers [OF fin rd] not_False_eq_True)
  from db_entry_fold_other [OF this, of now "os_db st"]
  have "db_entry db k = db_entry (os_db st) k" unfolding db_entry_def assms(2) by (rule arg_cong)
  then show ?thesis using all False by metis
qed

text \<open>A commit keeps the invariant, on success and on failure; success leaves nothing dirty.\<close>

lemma commit_keeps_checkpointed:
  assumes "checkpointed t st" "outbox_ok st" "commit_outbox_batch now ok batch (t, st) = (t', st')"
  shows "checkpointed t' st'" "outbox_ok st'" "ts_inner t' = ts_inner t" "ok \<Longrightarrow> ts_dirty t' = {}"
proof -
  obtain taken t1 where td: "take_dirty t = (taken, t1)" by fastforce
  have t1: "ts_inner t1 = ts_inner t" "ts_dirty t1 = {}" using take_dirty_state [of t] by (simp_all add: td)
  have fin: "finite (ts_dirty t)" and rd: "\<forall>k\<in>ts_dirty t. read_entry (ts_inner t) k \<noteq> None"
    and dist: "distinct (map fst (db_state (os_db st)))"
    using assms(1) by (simp_all add: checkpointed_def)
  have cov: "(\<lambda>e. (e_kind e, e_key e)) ` set taken = ts_dirty t"
    using take_dirty_covers [OF fin rd] by (simp add: td)
  have srt: "sorted_wrt (<) (map or_id (db_rows (os_db st)))" using assms(2) by (simp add: outbox_ok_def)
  obtain res st2 where enq: "enqueue_batch now ok batch (calc_state_to_rows taken) st = (res, st2)" by fastforce
  have "checkpointed t' st' \<and> outbox_ok st' \<and> ts_inner t' = ts_inner t \<and> (ok \<longrightarrow> ts_dirty t' = {})"
  proof (cases "batch = [] \<and> taken = []")
    case True
    then have "ts_dirty t = {}" using cov by simp
    then show ?thesis using assms True t1 by (simp add: commit_outbox_batch_def td checkpointed_def)
  next
    case False
    show ?thesis
    proof (cases ok)
      case True
      then have enq': "enqueue_batch now True batch (calc_state_to_rows taken) st = (res, st2)" using enq by simp
      have eq: "t' = t1" "st' = st2" using assms(3) False enq enqueue_batch_state(3) [OF enq' srt]
        by (auto simp: commit_outbox_batch_def td split: if_splits)
      have "db_entry (os_db st2) k = read_entry (ts_inner t) k" for k
        by (rule db_entry_checkpoint [OF assms(1), of _ now])
          (simp add: enqueue_batch_state(1) [OF enq' srt] td)
      then show ?thesis using enqueue_batch_ok [OF assms(2) enq'] enqueue_batch_state(2) [OF enq' srt dist]
        by (simp add: eq t1 checkpointed_def)
    next
      case no: False
      then have "res = None" "st2 = st" using enq by (simp_all add: enqueue_batch_def)
      then have eq: "t' = requeue taken t1" "st' = st"
        using assms(3) False enq by (simp_all add: commit_outbox_batch_def td split: if_splits)
      have "ts_dirty t' = ts_dirty t1 \<union> (\<lambda>e. (e_kind e, e_key e)) ` set taken" "ts_inner t' = ts_inner t1"
        by (simp_all add: eq requeue_def)
      then have same: "ts_dirty t' = ts_dirty t" "ts_inner t' = ts_inner t"
        unfolding cov t1 by simp_all
      have "checkpointed t' st'" using assms(1) unfolding checkpointed_def eq(2) same .
      then show ?thesis using assms(2) no same by (simp add: eq(2))
    qed
  qed
  then show "checkpointed t' st'" "outbox_ok st'" "ts_inner t' = ts_inner t" "ok \<Longrightarrow> ts_dirty t' = {}"
    by blast+
qed

section \<open>What a restart finds\<close>

text \<open>\<open>Restore\<close> as a store: an entry keeps only the value of its kind.\<close>

definition entry_value :: "state_entry \<Rightarrow> state_entry" where
  "entry_value e = (if e_kind e = EntryFloat then e\<lparr>e_int := 0\<rparr> else e\<lparr>e_float := Fin 0\<rparr>)"

interpretation restored: keyed_store "\<lambda>t. read_entry (ts_inner t)" restore_entry
  "\<lambda>e. (e_kind e, e_key e)" entry_value
proof unfold_locales
  fix e t k
  show "read_entry (ts_inner (restore_entry e t)) k =
      (if k = (e_kind e, e_key e) then Some (entry_value e) else read_entry (ts_inner t) k)"
    by (cases k; cases "fst k"; cases "e_kind e") (auto simp: mem_set_defs entry_value_def)
qed

lemma read_entry_value: "read_entry s k = Some e \<Longrightarrow> entry_value e = e"
  by (cases k; cases "fst k") (auto simp: entry_value_def)

lemma rows_entries:
  assumes "distinct (map fst (db_state (os_db st)))" "load_state True st = Some rows"
  shows "set (rows_to_calc_state rows) = {e. db_entry (os_db st) (e_kind e, e_key e) = Some e}"
proof -
  have rows: "r \<in> set rows \<longleftrightarrow> state_entry_of (os_db st) (sr_kind r, sr_key r) = Some (sr_int r, sr_float r)" for r :: state_row
  proof -
    have "r \<in> set rows \<longleftrightarrow> (\<exists>t. ((sr_kind r, sr_key r), (sr_int r, sr_float r, t)) \<in> set (db_state (os_db st)))"
      using assms(2) by (cases r) (force simp: load_state_def)
    then show ?thesis unfolding state_entry_of_def using map_of_eq_Some_iff [OF assms(1)] by auto
  qed
  have "e \<in> set (rows_to_calc_state rows) \<longleftrightarrow>
      \<lparr>sr_kind = kind_string (e_kind e), sr_key = e_key e, sr_int = e_int e, sr_float = e_float e\<rparr> \<in> set rows"
    (is "?l \<longleftrightarrow> ?row \<in> set rows") for e :: state_entry
  proof
    assume ?l
    then obtain r where r: "r \<in> set rows" "Some e = map_option (\<lambda>k. \<lparr>e_kind = k, e_key = sr_key r,
        e_int = sr_int r, e_float = sr_float r\<rparr>) (kind_of_string (sr_kind r))"
      unfolding rows_to_calc_state_def map_filter_def by (auto simp: image_iff)
    from r(2) have "?row = r"
      by (cases "kind_of_string (sr_kind r)") (auto dest: kind_of_string_Some)
    with r(1) show "?row \<in> set rows" by simp
  next
    assume "?row \<in> set rows"
    then show ?l unfolding rows_to_calc_state_def map_filter_def by (force simp: image_iff)
  qed
  then have mem: "e \<in> set (rows_to_calc_state rows) \<longleftrightarrow>
      state_entry_of (os_db st) (kind_string (e_kind e), e_key e) = Some (e_int e, e_float e)" for e :: state_entry
    unfolding rows by simp
  have "e \<in> set (rows_to_calc_state rows) \<longleftrightarrow> db_entry (os_db st) (e_kind e, e_key e) = Some e" for e :: state_entry
    unfolding mem db_entry_def
    by (cases "state_entry_of (os_db st) (kind_string (e_kind e), e_key e)"; cases e) auto
  then show ?thesis by blast
qed

lemma restart_reads:
  assumes "distinct (map fst (db_state (os_db st)))" "\<And>k. db_entry (os_db st) k = read_entry s k"
  shows "read_entry (ts_inner (fst (restart st))) k = read_entry s k"
proof -
  obtain rows where rows: "load_state True st = Some rows" by (simp add: load_state_def)
  define es where "es = rows_to_calc_state rows"
  have es: "set es = {e. read_entry s (e_kind e, e_key e) = Some e}"
    using rows_entries [OF assms(1) rows] assms(2) by (simp add: es_def)
  have fold: "fst (restart st) = fold restore_entry es (new_tracked_state new_mem_state)"
    by (simp add: restart_def restore_calc_state_def rows restore_def es_def)
  show ?thesis
  proof (cases "read_entry s k")
    case None
    then have "k \<notin> (\<lambda>e. (e_kind e, e_key e)) ` set es" unfolding es by auto
    then have "read_entry (ts_inner (fst (restart st))) k = read_entry (ts_inner (new_tracked_state new_mem_state)) k"
      unfolding fold by (rule restored.get_fold_other)
    also have "\<dots> = None" by (cases k; cases "fst k") (auto simp: new_tracked_state_def new_mem_state_def)
    finally show ?thesis using None by simp
  next
    case (Some e)
    then have k: "k = (e_kind e, e_key e)" using read_entry_key by metis
    have e: "e \<in> set es" using Some unfolding es k by simp
    have "\<forall>e'\<in>set es. (e_kind e', e_key e') = (e_kind e, e_key e) \<longrightarrow> e' = e"
      using Some k unfolding es by auto
    then show ?thesis
      unfolding fold using restored.get_fold_written [OF e] Some read_entry_value [OF Some] by (simp add: k)
  qed
qed

lemma restart_state:
  assumes "checkpointed t st" "outbox_ok st" "commit_outbox_batch now True batch (t, st) = (t', st')"
  shows "ms_ints (ts_inner (fst (restart st'))) = ms_ints (ts_inner t)"
    "ms_floats (ts_inner (fst (restart st'))) = ms_floats (ts_inner t)"
    "ms_times (ts_inner (fst (restart st'))) = ms_times (ts_inner t)"
proof -
  note c = commit_keeps_checkpointed [OF assms]
  have "db_entry (os_db st') k = read_entry (ts_inner t) k" for k
    using c(1,3,4) unfolding checkpointed_def by (simp del: split_paired_All)
  then have rd: "read_entry (ts_inner (fst (restart st'))) k = read_entry (ts_inner t) k" for k
    using restart_reads [of st' "ts_inner t" k] c(1) by (simp add: checkpointed_def)
  have val: "map_option e_int (read_entry s (EntryInt, k)) = ms_ints s k"
    "map_option e_float (read_entry s (EntryFloat, k)) = ms_floats s k"
    "map_option e_int (read_entry s (EntryTimeMs, k)) = ms_times s k" for s k
    by (simp_all add: option.map_comp comp_def option.map_ident)
  show "ms_ints (ts_inner (fst (restart st'))) = ms_ints (ts_inner t)"
    "ms_floats (ts_inner (fst (restart st'))) = ms_floats (ts_inner t)"
    "ms_times (ts_inner (fst (restart st'))) = ms_times (ts_inner t)"
    using val [symmetric] by (simp_all add: fun_eq_iff rd del: read_entry.simps)
qed

lemma restart_other [simp]: "ms_modes (ts_inner (fst (restart st))) = Map.empty"
  "ms_bools (ts_inner (fst (restart st))) = Map.empty"
proof -
  have "ms_modes (ts_inner (fold restore_entry es t)) = ms_modes (ts_inner t)
      \<and> ms_bools (ts_inner (fold restore_entry es t)) = ms_bools (ts_inner t)" for es t
    by (induction es arbitrary: t) (simp_all add: mem_set_defs split: entry_kind.split)
  then show "ms_modes (ts_inner (fst (restart st))) = Map.empty" "ms_bools (ts_inner (fst (restart st))) = Map.empty"
    by (simp_all add: restart_def restore_calc_state_def restore_def new_tracked_state_def new_mem_state_def
        split: option.split)
qed

section \<open>The calculation over a tracked State\<close>

text \<open>Every write of a call, direct or deferred, goes through the tracked setters.\<close>

definition tracked_calc_step :: "calc_config \<Rightarrow> int \<Rightarrow> message \<Rightarrow> tracked_state \<Rightarrow> metric list \<times> tracked_state" where
  "tracked_calc_step cfg now msg t =
     (case calc_with_config cfg now msg (ts_inner t) of (dec, direct) \<Rightarrow>
        (metrics dec, fold tracked_write (map mut_write (updates dec)) (fold tracked_write direct t)))"

fun tracked_calc_run :: "calc_config \<Rightarrow> int \<Rightarrow> message list \<Rightarrow> tracked_state \<Rightarrow> metric list \<times> tracked_state" where
  "tracked_calc_run cfg now [] t = ([], t)"
| "tracked_calc_run cfg now (m # ms) t =
     (case tracked_calc_step cfg now m t of (out, t') \<Rightarrow>
      case tracked_calc_run cfg now ms t' of (outs, t'') \<Rightarrow> (out @ outs, t''))"

lemma tracked_calc_step_inner:
  "fst (tracked_calc_step cfg now msg t) = fst (calc_step cfg now msg (ts_inner t))"
  "ts_inner (snd (tracked_calc_step cfg now msg t)) = snd (calc_step cfg now msg (ts_inner t))"
  by (simp_all add: tracked_calc_step_def calc_step_def split_beta apply_mutations_fold)

lemma tracked_calc_run_inner:
  "fst (tracked_calc_run cfg now msgs t) = fst (calc_run cfg now msgs (ts_inner t))
   \<and> ts_inner (snd (tracked_calc_run cfg now msgs t)) = snd (calc_run cfg now msgs (ts_inner t))"
  by (induction msgs arbitrary: t) (simp_all add: split_beta tracked_calc_step_inner)

lemma checkpointed_step: "checkpointed t st \<Longrightarrow> checkpointed (snd (tracked_calc_step cfg now msg t)) st"
  by (simp add: tracked_calc_step_def split_beta checkpointed_writes)

lemma checkpointed_run: "checkpointed t st \<Longrightarrow> checkpointed (snd (tracked_calc_run cfg now msgs t)) st"
  by (induction msgs arbitrary: t) (simp_all add: split_beta checkpointed_step)

lemma checkpointed_boot:
  "db_state (os_db st) = [] \<Longrightarrow> checkpointed (new_tracked_state new_mem_state) st"
  by (auto simp: checkpointed_def new_tracked_state_def db_entry_def state_entry_of_def new_mem_state_def
      split: entry_kind.split) (metis (no_types, lifting) entry_kind.exhaust option.simps(8) read_entry.simps mem_state.select_convs)

section \<open>Properties\<close>

text \<open>
  C6: After a commit that succeeds, a crash at any later moment followed by a boot restores
  every counter baseline, speed window and timestamp exactly as they were when the batch was
  committed; only mode, boolean and string slots, which are not checkpointed, start empty.
\<close>

theorem restart_restores_committed:
  assumes "checkpointed t st" "outbox_ok st"
    "commit_outbox_batch now True batch (snd (tracked_calc_run cfg now msgs t), st) = (t', st')"
  shows "let s = ts_inner (fst (restart st')); s0 = snd (calc_run cfg now msgs (ts_inner t))
    in ms_ints s = ms_ints s0 \<and> ms_floats s = ms_floats s0 \<and> ms_times s = ms_times s0
      \<and> ms_modes s = Map.empty \<and> ms_bools s = Map.empty"
  using restart_state [OF checkpointed_run [OF assms(1)] assms(2,3)]
  by (simp add: Let_def tracked_calc_run_inner)

definition demo_outbox :: "string outbox_store" where
  "demo_outbox = \<lparr>os_db = empty_db, os_cap = 5\<rparr>"

lemma demo_outbox_ok [simp]: "outbox_ok demo_outbox" "checkpointed (new_tracked_state new_mem_state) demo_outbox"
  by (simp_all add: demo_outbox_def outbox_ok_def empty_db_def checkpointed_boot)

lemma restart_restores_committed_witness:
  "ms_ints (ts_inner (fst (restart (snd (commit_outbox_batch 0 True [demo_om ''e'']
     (snd (tracked_calc_run rules_off 0 [demo_message Consumed 700 1000] (new_tracked_state new_mem_state)), demo_outbox))))))
     (counter_topic demo_unit Consumed) = Some 700"
proof -
  obtain t' st' where c: "commit_outbox_batch 0 True [demo_om ''e'']
     (snd (tracked_calc_run rules_off 0 [demo_message Consumed 700 1000] (new_tracked_state new_mem_state)), demo_outbox) = (t', st')"
    by fastforce
  have "plain_state demo_unit new_mem_state" by (simp add: plain_state_def new_mem_state_def)
  then have "ms_ints (snd (calc_step rules_off 0 (demo_message Consumed 700 1000) new_mem_state)) (counter_topic demo_unit Consumed) = Some 700"
    using first_observation_step [OF demo_good, of Consumed "demo_message Consumed 700 1000" "''TRIG''" new_mem_state rules_off 0]
    by (simp add: plain_state_def new_mem_state_def mem_set_int_def payload_of_def
        payload_plain [OF demo_plain, of 700 Consumed 1000] in64_def)
  then show ?thesis
    using restart_restores_committed [OF demo_outbox_ok(2,1) c]
    unfolding c snd_conv by (simp add: Let_def split_beta new_tracked_state_def)
qed

text \<open>
  C4: Across a crash nothing is counted twice and nothing is lost: if the readings so far
  were committed, the increments emitted before the crash and by the restarted process add
  up to the movement of the totalizer over all readings, as if the process had never died.
\<close>

theorem restart_conservation:
  assumes "good_unit u" "k \<noteq> KindUnknown" "\<forall>m\<in>set (msgs1 @ msgs2). plain_message u k m"
    "plain_state u (ts_inner t)" "ms_ints (ts_inner t) (counter_topic u k) = Some p" "0 \<le> p" "in64 p"
    "checkpointed t st" "outbox_ok st"
    "tracked_calc_run rules_off now msgs1 t = (out1, t1)"
    "commit_outbox_batch now True batch (t1, st) = (t', st')"
    "tracked_calc_run rules_off now msgs2 (fst (restart st')) = (out2, t2)"
  shows "own_sum u k (out1 @ out2) = total_movement p (map m_payload (msgs1 @ msgs2))"
proof -
  have t1: "t1 = snd (tracked_calc_run rules_off now msgs1 t)" and out1: "out1 = fst (calc_run rules_off now msgs1 (ts_inner t))"
    using assms(10) tracked_calc_run_inner [of rules_off now msgs1 t] by simp_all
  define s1 where "s1 = snd (calc_run rules_off now msgs1 (ts_inner t))"
  have in1: "ts_inner t1 = s1" using tracked_calc_run_inner [of rules_off now msgs1 t] by (simp add: t1 s1_def)
  have cp: "checkpointed t1 st" unfolding t1 by (rule checkpointed_run [OF assms(8)])
  note rs = restart_state [OF cp assms(9,11)]
  have run1: "own_sum u k out1 = total_movement p (map m_payload msgs1)"
    "ms_ints s1 (counter_topic u k) = Some (last (p # map m_payload msgs1))"
    unfolding out1 s1_def by (rule plain_run [OF assms(1,2) _ assms(4-7)]; use assms(3) in simp)+
  have ps1: "plain_state u s1" unfolding s1_def
    by (rule plain_state_run [OF assms(1,2) _ assms(4)]) (use assms(3) in simp)
  define s2 where "s2 = ts_inner (fst (restart st'))"
  have s2: "ms_ints s2 (counter_topic u k) = Some (last (p # map m_payload msgs1))" "plain_state u s2"
    using rs run1(2) ps1 by (simp_all add: s2_def in1 plain_state_def)
  have lastp: "0 \<le> last (p # map m_payload msgs1) \<and> in64 (last (p # map m_payload msgs1))"
  proof (cases "msgs1 = []")
    case False
    then have "plain_message u k (last msgs1)" using assms(3) by simp
    then show ?thesis using False by (simp add: last_map plain_message_def)
  qed (use assms(6,7) in simp)
  have "own_sum u k out2 = total_movement (last (p # map m_payload msgs1)) (map m_payload msgs2)"
    using plain_run(1) [OF assms(1,2) _ s2(2,1), of msgs2 now] assms(3,12) lastp
      tracked_calc_run_inner [of rules_off now msgs2 "fst (restart st')"] by (simp add: s2_def)
  then show ?thesis using run1(1) by (simp add: total_movement_append)
qed

lemma restart_conservation_witness:
  "\<exists>t1 t' st' out1 out2. tracked_calc_run rules_off 0 [demo_message Consumed 710 2000, demo_message Consumed 730 3000]
       (tracked_set_int (counter_topic demo_unit Consumed) 700 (new_tracked_state new_mem_state)) = (out1, t1)
     \<and> commit_outbox_batch 0 True [demo_om ''e''] (t1, demo_outbox) = (t', st')
     \<and> out2 = fst (tracked_calc_run rules_off 0 [demo_message Consumed 735 4000] (fst (restart st')))
     \<and> own_sum demo_unit Consumed (out1 @ out2) = 35"
proof -
  define t where "t = tracked_set_int (counter_topic demo_unit Consumed) 700 (new_tracked_state new_mem_state)"
  have t: "checkpointed t demo_outbox" "ts_inner t = demo_state Consumed 700"
    using checkpointed_write [OF demo_outbox_ok(2), of "SetInt (counter_topic demo_unit Consumed) 700"]
    by (simp_all add: t_def tracked_set_int_def mark_def new_tracked_state_def demo_state_def)
  obtain out1 t1 where a: "tracked_calc_run rules_off 0 [demo_message Consumed 710 2000, demo_message Consumed 730 3000] t = (out1, t1)"
    by fastforce
  obtain t' st' where b: "commit_outbox_batch 0 True [demo_om ''e''] (t1, demo_outbox) = (t', st')" by fastforce
  obtain out2 t2 where c: "tracked_calc_run rules_off 0 [demo_message Consumed 735 4000] (fst (restart st')) = (out2, t2)"
    by fastforce
  have "own_sum demo_unit Consumed (out1 @ out2) = 35"
    using restart_conservation [OF demo_good _ _ _ _ _ _ t(1) demo_outbox_ok(1) a b c, of Consumed 700]
    by (simp add: t(2) in64_def counter_movement_def)
  with a b c show ?thesis by (simp add: t_def del: tracked_calc_run.simps)
qed

end
