(* ===== verification/EdgeTransformer.thy ===== *)
theory EdgeTransformer
  imports BirthBind Durability
begin

text \<open>
  The decoder's message handler (cmd/edge-transformer/main.go): a decoded SparkPlug payload
  is resolved against the alias table, each metric seeds the State or is evaluated by
  \<open>Calc\<close> (\<open>runShadow\<close>), the envelopes of the enabled flows are built and stamped, and the
  batch is enqueued together with the baselines in one transaction. The outbox path is
  modelled; the direct publish path, the local-state sink, traces, logs and Prometheus
  counters are not. The JSON text of an envelope is represented by the envelope itself;
  \<open>json_ok\<close> says when \<open>encoding/json\<close> can encode it.
\<close>

section \<open>Coercions\<close>

text \<open>\<open>metricAsInt\<close>, and the identical switch inside \<open>runShadow\<close>: unsigned 64-bit values wrap.\<close>

fun metric_as_int :: "go_value \<Rightarrow> int option" where
  "metric_as_int (VInt64 i) = Some i"
| "metric_as_int (VUint64 w) = Some (wrap64 (uint w))"
| "metric_as_int (VInt32 i) = Some i"
| "metric_as_int (VUint32 w) = Some (uint w)"
| "metric_as_int (VInt i) = Some i"
| "metric_as_int (VFloat64 f) = Some (to_int64 f)"
| "metric_as_int (VFloat32 f) = Some (to_int64 f)"
| "metric_as_int _ = None"

text \<open>\<open>metricAsFloat\<close>, and the switch of the MachSpeed branch.\<close>

fun metric_as_float :: "go_value \<Rightarrow> f64 option" where
  "metric_as_float (VFloat64 f) = Some f"
| "metric_as_float (VFloat32 f) = Some f"
| "metric_as_float (VInt64 i) = Some (of_int64 i)"
| "metric_as_float (VUint64 w) = Some (round64 (of_int (uint w)))"
| "metric_as_float (VInt32 i) = Some (of_int64 i)"
| "metric_as_float (VUint32 w) = Some (of_int64 (uint w))"
| "metric_as_float (VInt i) = Some (of_int64 i)"
| "metric_as_float _ = None"

section \<open>Seeding\<close>

text \<open>\<open>seedFromMetric\<close>: the write a recognised metric performs, if any.\<close>

definition seed_from_metric :: "resolved_metric \<Rightarrow> state_write option" where
  "seed_from_metric m =
     (let name = rm_name m; v = rm_value m
      in if has_suffix ''/Status/MachSpeed'' name then map_option (SetFloat name) (metric_as_float v)
      else if has_suffix ''/Status/Parameter*30750*'' name then map_option (SetFloat name) (metric_as_float v)
      else if has_suffix ''/Status/Parameter30758'' name then map_option (SetInt name) (metric_as_int v)
      else if has_suffix ''/Status/Parameter*30761*'' name then (case v of VBool b \<Rightarrow> Some (SetBool name b) | _ \<Rightarrow> None)
      else if has_suffix ''/Status/Parameter*30710*'' name then map_option (SetInt name) (metric_as_int v)
      else if has_suffix ''/Status/Parameter30700'' name then
        (case v of VString s \<Rightarrow> if s = [] then None
            else Some (SetStrings name (map trim_space (split_on (CHR '','') s)))
         | _ \<Rightarrow> None)
      else None)"

section \<open>One metric through Calc\<close>

record calc_hooks =
  ch_on :: bool                                   \<comment> \<open>\<open>enabled\<close>\<close>
  ch_durable :: bool                              \<comment> \<open>\<open>tracked\<close> is not nil\<close>
  ch_cfg :: calc_config
  ch_counters_only :: bool
  ch_counters_only_from_db :: bool
  ch_ideal_rates :: "(string \<times> f64) list"
  ch_spike_margin_default :: f64
  ch_spike_margins :: "string \<rightharpoonup> f64"
  ch_spike_rated_speeds :: "string \<rightharpoonup> f64"
  ch_uint16_counters :: "string list"
  ch_reset_heal :: bool
  ch_no_speed_guard_fallback :: bool

text \<open>A map entry that is positive.\<close>

definition positive_entry :: "f64 option \<Rightarrow> f64 option" where
  "positive_entry r = (case r of None \<Rightarrow> None | Some x \<Rightarrow> if flt (Fin 0) x then Some x else None)"

text \<open>The \<open>Calc.Message\<close> that \<open>runShadow\<close> builds from a counter metric.\<close>

definition shadow_message :: "calc_hooks \<Rightarrow> string \<Rightarrow> string \<Rightarrow> int \<Rightarrow> int option \<Rightarrow> message" where
  "shadow_message h tenant name v ts =
     (let topic = name @ ''***TRIG'';
          rates = map_of (ch_ideal_rates h);
          counters_only = (ch_counters_only h \<or> (ch_counters_only_from_db h \<and> ch_ideal_rates h \<noteq> []));
          unit = map_option fst (parse_topic topic);
          on_unit = (\<lambda>m. case unit of None \<Rightarrow> None | Some u \<Rightarrow> positive_entry (m u));
          rate = (if counters_only then on_unit rates else None)
      in \<lparr>m_topic = topic, m_payload = v, m_timestamp = ts, m_tenant = tenant, m_cmd_trigger = True,
          m_timezone = [], m_add_metrics = Map.empty,
          m_counters_only = (rate \<noteq> None), m_ideal_rate = get_or (Fin 0) rate,
          m_no_speed_guard_fallback = ch_no_speed_guard_fallback h, m_reset_heal = ch_reset_heal h,
          m_counter_spike_margin = get_or (ch_spike_margin_default h) (on_unit (ch_spike_margins h)),
          m_guard_rated_speed = get_or (Fin 0) (on_unit (ch_spike_rated_speeds h)),
          m_uint16_counter = (name \<in> set (ch_uint16_counters h))\<rparr>)"

definition run_shadow :: "calc_hooks \<Rightarrow> int \<Rightarrow> string \<Rightarrow> resolved_metric \<Rightarrow> int option \<Rightarrow> tracked_state
    \<Rightarrow> metric list \<times> tracked_state" where
  "run_shadow h now tenant m ts t =
     (case seed_from_metric m of
        Some w \<Rightarrow> ([], tracked_write w t)
      | None \<Rightarrow>
        if is_counter_metric_name (rm_name m) = KindUnknown then ([], t)
        else case metric_as_int (rm_value m) of
          None \<Rightarrow> ([], t)
        | Some v \<Rightarrow> tracked_calc_step (ch_cfg h) now (shadow_message h tenant (rm_name m) v ts) t)"

text \<open>The loop of the handler; a zero source timestamp is the zero \<open>time.Time\<close>.\<close>

definition source_time :: "resolved_metric \<Rightarrow> int option" where
  "source_time m = (if 0 < rm_timestamp m then Some (wrap64 (int (rm_timestamp m))) else None)"

fun shadow_all :: "calc_hooks \<Rightarrow> int \<Rightarrow> string \<Rightarrow> resolved_metric list \<Rightarrow> tracked_state \<Rightarrow> metric list \<times> tracked_state" where
  "shadow_all h now tenant [] t = ([], t)"
| "shadow_all h now tenant (m # ms) t =
     (case run_shadow h now tenant m (source_time m) t of (out, t') \<Rightarrow>
      case shadow_all h now tenant ms t' of (outs, t'') \<Rightarrow> (out @ outs, t''))"

section \<open>Envelopes\<close>

definition raw_env_metric :: "resolved_metric \<Rightarrow> env_metric" where
  "raw_env_metric m = \<lparr>em_name = rm_name m, em_timestamp = wrap64 (int (rm_timestamp m)), em_value = rm_value m,
     em_counter = None, em_curspeed = None, em_id_equipment = None, em_role = []\<rparr>"

definition calc_env_metric :: "metric \<Rightarrow> env_metric" where
  "calc_env_metric m = \<lparr>em_name = mt_name m, em_timestamp = mt_timestamp m, em_value = VInt64 (mt_value m),
     em_counter = Some (of_int64 (mt_counter m)),
     em_curspeed = (if feq (mt_curspeed m) (Fin 0) then None else Some (mt_curspeed m)),
     em_id_equipment = None, em_role = []\<rparr>"

definition build_cutover_metrics :: "bool \<Rightarrow> metric list \<Rightarrow> resolved_metric list \<Rightarrow> env_metric list" where
  "build_cutover_metrics phase9_line_agg calc_metrics resolved =
     map calc_env_metric (filter (\<lambda>m. \<not> (mt_line_aggregated m \<and> \<not> phase9_line_agg)) calc_metrics)
     @ map raw_env_metric (filter (\<lambda>m. is_counter_metric_name (rm_name m) = KindUnknown) resolved)"

definition build_envelope :: "string \<Rightarrow> int \<Rightarrow> env_metric list \<Rightarrow> analytics_envelope" where
  "build_envelope source_type ts ms = \<lparr>ev_timestamp = ts, ev_gateway = ''edge-transformer:outbox'',
     ev_source_type = source_type, ev_id_enterprise = None, ev_metrics = ms\<rparr>"

definition emitted_source_types :: "bool \<Rightarrow> bool \<Rightarrow> bool \<Rightarrow> string list" where
  "emitted_source_types emit_go emit_refactored emit_production =
     (if emit_go then [''go''] else []) @ (if emit_refactored then [''refactored''] else [])
     @ (if emit_production then [''''] else [])"

definition analytics_routing_key :: "bool \<Rightarrow> string \<Rightarrow> string" where
  "analytics_routing_key per_tenant tenant =
     (if per_tenant \<and> tenant \<noteq> [] then ''sparkplug.data.'' @ tenant else ''sparkplug.data'')"

text \<open>\<open>json.Marshal\<close> refuses a float that is NaN or infinite, and nothing else here.\<close>

fun json_value_ok :: "go_value \<Rightarrow> bool" where
  "json_value_ok (VFloat64 f) = finite_f64 f" | "json_value_ok (VFloat32 f) = finite_f64 f"
| "json_value_ok _ = True"

definition json_ok :: "analytics_envelope \<Rightarrow> bool" where
  "json_ok e = list_all (\<lambda>m. json_value_ok (em_value m)
     \<and> pred_option finite_f64 (em_counter m) \<and> pred_option finite_f64 (em_curspeed m)) (ev_metrics e)"

section \<open>The handler\<close>

record edge_config =
  ec_hooks :: calc_hooks
  ec_emit_go :: bool
  ec_emit_refactored :: bool
  ec_emit_production :: bool
  ec_cutover_refactored :: bool
  ec_per_tenant_routing :: bool
  ec_phase9_line_agg :: bool
  ec_binder :: "device_resolver option option"

type_synonym edge_outbox = "analytics_envelope outbox_envelope outbox_store"

record edge_state =
  es_store :: state_store
  es_tracked :: tracked_state
  es_outbox :: edge_outbox
  es_rebirth :: "rebirth_requester option"
  es_binds :: bind_table

text \<open>\<open>Request\<close> on the optional requester; the NCMD it publishes, if any.\<close>

definition edge_request_rebirth :: "int \<Rightarrow> publisher_key \<Rightarrow> edge_state \<Rightarrow> (string \<times> payload) list \<times> edge_state" where
  "edge_request_rebirth now key es =
     (case es_rebirth es of None \<Rightarrow> ([], es)
      | Some r \<Rightarrow> (case rebirth_request now (pk_group key) (pk_node key) r of
          (None, r') \<Rightarrow> ([], es\<lparr>es_rebirth := Some r'\<rparr>)
        | (Some cmd, r') \<Rightarrow> ([cmd], es\<lparr>es_rebirth := Some r'\<rparr>)))"

definition flow_envelope :: "edge_config \<Rightarrow> bind_table \<Rightarrow> publisher_key \<Rightarrow> metric list \<Rightarrow> resolved_payload \<Rightarrow> string \<Rightarrow> analytics_envelope" where
  "flow_envelope cfg binds key calc_metrics rp source_type =
     stamp (ec_binder cfg) binds key (build_envelope source_type (wrap64 (int (rp_timestamp rp)))
       (if source_type = ''refactored'' \<and> ec_cutover_refactored cfg \<and> ch_on (ec_hooks cfg)
        then build_cutover_metrics (ec_phase9_line_agg cfg) calc_metrics (rp_metrics rp)
        else map raw_env_metric (rp_metrics rp)))"

text \<open>The batch: one message per flow whose envelope can be marshalled. \<open>mid\<close> makes the message ids.\<close>

definition edge_batch :: "edge_config \<Rightarrow> (string \<Rightarrow> string) \<Rightarrow> bind_table \<Rightarrow> publisher_key \<Rightarrow> metric list \<Rightarrow> resolved_payload
    \<Rightarrow> analytics_envelope outbox_envelope outbox_message list" where
  "edge_batch cfg mid binds key calc_metrics rp =
     (let tenant = to_lower (pk_group key);
          routing = analytics_routing_key (ec_per_tenant_routing cfg) tenant
      in map (\<lambda>(st, env). \<lparr>om_id = 0, om_tenant = tenant, om_topic = publisher_key_string key,
             om_payload = \<lparr>oe_routing_key = routing, oe_message_id = mid st, oe_body = env, oe_traceparent = []\<rparr>,
             om_enqueued_at = None, om_attempts = 0\<rparr>)
           (filter (\<lambda>(st, env). json_ok env)
             (map (\<lambda>st. (st, flow_envelope cfg binds key calc_metrics rp st))
               (emitted_source_types (ec_emit_go cfg) (ec_emit_refactored cfg) (ec_emit_production cfg)))))"

text \<open>\<open>commitOutboxBatch\<close> with a nil \<open>tracked\<close> when baselines are not durable.\<close>

definition edge_commit :: "calc_hooks \<Rightarrow> int \<Rightarrow> bool \<Rightarrow> 'p outbox_message list \<Rightarrow> tracked_state \<times> 'p outbox_store
    \<Rightarrow> tracked_state \<times> 'p outbox_store" where
  "edge_commit h now ok batch ds =
     (if ch_durable h then commit_outbox_batch now ok batch ds
      else if batch = [] then ds else (fst ds, snd (enqueue_batch now ok batch [] (snd ds))))"

datatype handler_result = HandlerOk | DecodeFailed | IngestFailed ingest_error

definition seed_birth :: "wire_metric list \<Rightarrow> tracked_state \<Rightarrow> tracked_state" where
  "seed_birth = fold (\<lambda>m t. let name = get_or [] (wm_name m)
     in if name = [] then t
     else case seed_from_metric \<lparr>rm_name = name, rm_alias = get_or 0 (wm_alias m), rm_timestamp = 0,
         rm_datatype = 0, rm_value = extract_value (wm_value m)\<rparr> of
       None \<Rightarrow> t | Some w \<Rightarrow> tracked_write w t)"

text \<open>
  \<open>sparkplugHandler\<close>: \<open>p\<close> is the decoded payload (\<open>None\<close> when decoding failed), \<open>ok\<close> whether the
  outbox transaction succeeds. The result, the rebirth commands published, and the new state.
\<close>

definition sparkplug_handler :: "edge_config \<Rightarrow> int \<Rightarrow> (string \<Rightarrow> string) \<Rightarrow> bool \<Rightarrow> publisher_key \<Rightarrow> string
    \<Rightarrow> payload option \<Rightarrow> edge_state \<Rightarrow> handler_result \<times> (string \<times> payload) list \<times> edge_state" where
  "sparkplug_handler cfg now mid ok key mt p es =
     (case p of None \<Rightarrow> (DecodeFailed, [], es)
      | Some p \<Rightarrow>
       (case ingest now key mt p (es_store es) of (res, gaps, store') \<Rightarrow>
        let es0 = es\<lparr>es_store := store'\<rparr>;
            (cmds, es1) = (if gaps = [] then ([], es0) else edge_request_rebirth now key es0)
        in (case res of
              Inl NoBirth \<Rightarrow> (case edge_request_rebirth now key es1 of (cmds', es2) \<Rightarrow> (HandlerOk, cmds @ cmds', es2))
            | Inl e \<Rightarrow> (IngestFailed e, cmds, es1)
            | Inr None \<Rightarrow>
                (let es2 = es1\<lparr>es_binds := on_birth (ec_binder cfg) key mt p (es_binds es1)\<rparr>
                 in (HandlerOk, cmds,
                     if ch_on (ec_hooks cfg) \<and> mt = ''NBIRTH''
                     then es2\<lparr>es_tracked := seed_birth (pl_metrics p) (es_tracked es2)\<rparr> else es2))
            | Inr (Some rp) \<Rightarrow>
                (let (ms, t1) = (if ch_on (ec_hooks cfg)
                       then shadow_all (ec_hooks cfg) now (pk_group key) (rp_metrics rp) (es_tracked es1)
                       else ([], es_tracked es1));
                     batch = edge_batch cfg mid (es_binds es1) key ms rp;
                     (t2, ob) = edge_commit (ec_hooks cfg) now ok batch (t1, es_outbox es1)
                 in (HandlerOk, cmds, es1\<lparr>es_tracked := t2, es_outbox := ob\<rparr>)))))"

definition parse_trace_tenants :: "string \<Rightarrow> string list" where
  "parse_trace_tenants raw = remdups (filter (\<lambda>t. t \<noteq> []) (map (\<lambda>p. to_lower (trim_space p)) (split_on (CHR '','') raw)))"

definition line_tag_of :: "string \<Rightarrow> string" where
  "line_tag_of name = (let parts = split_on (CHR ''/'') name
     in if 4 \<le> length parts then parts ! 2 @ ''/'' @ parts ! 3 else name)"

end
