(* ===== verification/AgentTags.thy ===== *)
theory AgentTags
  imports SparkplugB "HOL-Library.AList" "HOL-Library.List_Lexorder" "HOL-Library.Char_ord"
begin

text \<open>
  The agent's readings on their way to SparkPlug: the raw-tag envelope (agent/rawtag),
  the last-value store with its report-by-exception dirty set (agent/tagstore), and the
  alias allocator (agent/aliasmap). A Go map that is iterated is an association list
  with distinct keys; every iteration of the source is followed by a sort, so the order
  of the list cannot be observed. JSON text is read through \<open>json\<close>, the value
  \<open>encoding/json\<close> parses it to.
\<close>

section \<open>Raw tags\<close>

text \<open>A decoded JSON scalar: \<open>float64\<close>, \<open>bool\<close>, \<open>string\<close> or \<open>nil\<close>.\<close>

datatype scalar = ScNull | ScNum f64 | ScBool bool | ScStr string

record raw_tag =
  rt_endpoint :: string
  rt_metric :: string
  rt_value :: scalar
  rt_type :: string
  rt_ts :: int
  rt_quality :: bool
  rt_param :: int

datatype json = JAbsent | JNull | JNum f64 | JBool bool | JStr string | JCompound

record envelope_tag =
  et_metric :: string
  et_value :: json
  et_q :: "bool option"
  et_long :: bool
  et_ts :: int
  et_param :: int

record envelope =
  env_endpoint :: string
  env_scan_ts :: int
  env_tags :: "envelope_tag list"

fun decode_value :: "json \<Rightarrow> scalar option" where
  "decode_value JAbsent = Some ScNull" | "decode_value JNull = Some ScNull"
| "decode_value (JNum f) = Some (ScNum f)" | "decode_value (JBool b) = Some (ScBool b)"
| "decode_value (JStr s) = Some (ScStr s)" | "decode_value JCompound = None"

datatype decode_error = EmptySuffix nat | BadValue nat string

definition decode_tag :: "envelope \<Rightarrow> envelope_tag \<Rightarrow> scalar \<Rightarrow> raw_tag" where
  "decode_tag env t v =
     \<lparr>rt_endpoint = env_endpoint env, rt_metric = et_metric t, rt_value = v,
      rt_type = (if et_long t then ''long'' else []),
      rt_ts = (if et_ts t = 0 then env_scan_ts env else et_ts t),
      rt_quality = (case et_q t of None \<Rightarrow> True | Some q \<Rightarrow> q), rt_param = et_param t\<rparr>"

fun decode_tags :: "envelope \<Rightarrow> nat \<Rightarrow> envelope_tag list \<Rightarrow> decode_error + raw_tag list" where
  "decode_tags env i [] = Inr []"
| "decode_tags env i (t # ts) =
     (if et_metric t = [] then Inl (EmptySuffix i)
      else case decode_value (et_value t) of
        None \<Rightarrow> Inl (BadValue i (et_metric t))
      | Some v \<Rightarrow> (case decode_tags env (Suc i) ts of Inl e \<Rightarrow> Inl e | Inr rs \<Rightarrow> Inr (decode_tag env t v # rs)))"

definition rawtag_decode :: "envelope \<Rightarrow> decode_error + raw_tag list" where
  "rawtag_decode env = decode_tags env 0 (env_tags env)"

text \<open>The reader side (encode.go).\<close>

record out_tag =
  ot_metric :: string
  ot_value :: json
  ot_long :: bool

definition rawtag_encode :: "string \<Rightarrow> int \<Rightarrow> out_tag list \<Rightarrow> envelope" where
  "rawtag_encode endpoint scan_ts tags =
     \<lparr>env_endpoint = endpoint, env_scan_ts = scan_ts,
      env_tags = map (\<lambda>t. \<lparr>et_metric = ot_metric t, et_value = ot_value t, et_q = None, et_long = ot_long t,
        et_ts = 0, et_param = 0\<rparr>) tags\<rparr>"

section \<open>The tag store\<close>

text \<open>Interface equality of two scalars: same dynamic type and equal values, NaN unequal to itself.\<close>

fun scalar_eq :: "scalar \<Rightarrow> scalar \<Rightarrow> bool" where
  "scalar_eq ScNull ScNull = True" | "scalar_eq (ScNum a) (ScNum b) = feq a b"
| "scalar_eq (ScBool a) (ScBool b) = (a = b)" | "scalar_eq (ScStr a) (ScStr b) = (a = b)"
| "scalar_eq _ _ = False"

record tag_store =
  tg_last :: "(string \<times> raw_tag) list"
  tg_dirty :: "string list"

definition new_tag_store :: tag_store where
  "new_tag_store = \<lparr>tg_last = [], tg_dirty = []\<rparr>"

definition tag_apply :: "raw_tag \<Rightarrow> tag_store \<Rightarrow> bool \<times> tag_store" where
  "tag_apply t s =
     (case map_of (tg_last s) (rt_metric t) of
        Some prev \<Rightarrow>
          if scalar_eq (rt_value prev) (rt_value t) \<and> rt_quality prev = rt_quality t
          then (False, s\<lparr>tg_last := AList.update (rt_metric t) (prev\<lparr>rt_ts := rt_ts t\<rparr>) (tg_last s)\<rparr>)
          else (True, s\<lparr>tg_last := AList.update (rt_metric t) t (tg_last s),
                        tg_dirty := List.insert (rt_metric t) (tg_dirty s)\<rparr>)
      | None \<Rightarrow> (True, s\<lparr>tg_last := AList.update (rt_metric t) t (tg_last s),
                        tg_dirty := List.insert (rt_metric t) (tg_dirty s)\<rparr>))"

definition tag_snapshot :: "tag_store \<Rightarrow> raw_tag list" where
  "tag_snapshot s = sort_key rt_metric (map snd (tg_last s))"

definition snapshot_for_birth :: "tag_store \<Rightarrow> raw_tag list \<times> tag_store" where
  "snapshot_for_birth s = (sort_key rt_metric (map snd (tg_last s)), s\<lparr>tg_dirty := []\<rparr>)"

definition zero_raw_tag :: raw_tag where
  "zero_raw_tag = \<lparr>rt_endpoint = [], rt_metric = [], rt_value = ScNull, rt_type = [], rt_ts = 0,
     rt_quality = False, rt_param = 0\<rparr>"

text \<open>\<open>s.last[m]\<close> is the zero tag for a key that is missing.\<close>

definition drain_dirty :: "tag_store \<Rightarrow> raw_tag list \<times> tag_store" where
  "drain_dirty s =
     (if tg_dirty s = [] then ([], s)
      else (sort_key rt_metric (map (\<lambda>m. get_or zero_raw_tag (map_of (tg_last s) m)) (tg_dirty s)),
            s\<lparr>tg_dirty := []\<rparr>))"

text \<open>The invariant: distinct keys, every tag stored under its own suffix, dirty keys present.\<close>

definition tag_store_ok :: "tag_store \<Rightarrow> bool" where
  "tag_store_ok s \<longleftrightarrow> distinct (map fst (tg_last s)) \<and> distinct (tg_dirty s)
     \<and> (\<forall>(k, t)\<in>set (tg_last s). rt_metric t = k) \<and> set (tg_dirty s) \<subseteq> fst ` set (tg_last s)"

lemma tag_store_ok_new [simp]: "tag_store_ok new_tag_store"
  by (simp add: tag_store_ok_def new_tag_store_def)

lemma map_of_metric:
  "tag_store_ok s \<Longrightarrow> map_of (tg_last s) k = Some t \<Longrightarrow> rt_metric t = k"
  by (auto simp: tag_store_ok_def dest: map_of_SomeD)

lemma update_metric:
  assumes "\<forall>(k, t)\<in>set xs. rt_metric t = k" "rt_metric t = k"
  shows "\<forall>(k, t)\<in>set (AList.update k t xs). rt_metric t = k"
  using assms by (induction xs) auto

lemma update_keys: "fst ` set (AList.update k v xs) = insert k (fst ` set xs)"
  using dom_update [of k v xs] by (simp add: dom_map_of_conv_image_fst)

lemma tag_store_update_ok:
  assumes "tag_store_ok s" "rt_metric t = k" "distinct d" "set d \<subseteq> insert k (set (tg_dirty s))"
  shows "tag_store_ok (s\<lparr>tg_last := AList.update k t (tg_last s), tg_dirty := d\<rparr>)"
  using assms update_metric [of "tg_last s" t k]
  by (auto simp: tag_store_ok_def update_keys distinct_update)

lemma tag_apply_ok:
  assumes "tag_store_ok s"
  shows "tag_store_ok (snd (tag_apply t s))"
proof -
  have d: "distinct (tg_dirty s)" using assms by (simp add: tag_store_ok_def)
  have changed: "tag_store_ok (s\<lparr>tg_last := AList.update (rt_metric t) t (tg_last s),
      tg_dirty := List.insert (rt_metric t) (tg_dirty s)\<rparr>)"
    by (rule tag_store_update_ok [OF assms]) (use d in auto)
  show ?thesis
  proof (cases "map_of (tg_last s) (rt_metric t)")
    case None
    then show ?thesis using changed by (simp add: tag_apply_def)
  next
    case (Some prev)
    have "tag_store_ok (s\<lparr>tg_last := AList.update (rt_metric t) (prev\<lparr>rt_ts := rt_ts t\<rparr>) (tg_last s),
        tg_dirty := tg_dirty s\<rparr>)"
      by (rule tag_store_update_ok [OF assms]) (use d map_of_metric [OF assms Some] in auto)
    then show ?thesis using changed Some by (simp add: tag_apply_def)
  qed
qed

lemma drain_dirty_ok: "tag_store_ok s \<Longrightarrow> tag_store_ok (snd (drain_dirty s))"
  by (simp add: tag_store_ok_def drain_dirty_def)

lemma snapshot_for_birth_ok: "tag_store_ok s \<Longrightarrow> tag_store_ok (snd (snapshot_for_birth s))"
  by (simp add: tag_store_ok_def snapshot_for_birth_def)

text \<open>What a drain returns: the current reading of exactly the dirty suffixes, sorted.\<close>

lemma drain_dirty_set:
  assumes "tag_store_ok s"
  shows "set (fst (drain_dirty s)) = {t. \<exists>m\<in>set (tg_dirty s). map_of (tg_last s) m = Some t}"
proof -
  have ex: "\<exists>t. map_of (tg_last s) m = Some t" if "m \<in> set (tg_dirty s)" for m
    using assms that by (auto simp: tag_store_ok_def map_of_eq_None_iff dest!: subsetD)
  have "set (fst (drain_dirty s)) = (\<lambda>m. get_or zero_raw_tag (map_of (tg_last s) m)) ` set (tg_dirty s)"
    by (simp add: drain_dirty_def)
  also have "\<dots> = {t. \<exists>m\<in>set (tg_dirty s). map_of (tg_last s) m = Some t}"
  proof (intro set_eqI iffI)
    fix t assume "t \<in> (\<lambda>m. get_or zero_raw_tag (map_of (tg_last s) m)) ` set (tg_dirty s)"
    then show "t \<in> {t. \<exists>m\<in>set (tg_dirty s). map_of (tg_last s) m = Some t}" using ex by fastforce
  next
    fix t assume "t \<in> {t. \<exists>m\<in>set (tg_dirty s). map_of (tg_last s) m = Some t}"
    then obtain m where "m \<in> set (tg_dirty s)" "map_of (tg_last s) m = Some t" by blast
    then show "t \<in> (\<lambda>m. get_or zero_raw_tag (map_of (tg_last s) m)) ` set (tg_dirty s)"
      by (intro image_eqI [of _ _ m]) simp_all
  qed
  finally show ?thesis .
qed

section \<open>The alias allocator\<close>

record alias_table =
  al_by_name :: "string \<rightharpoonup> nat"
  al_next :: nat

definition new_alias_table :: alias_table where
  "new_alias_table = \<lparr>al_by_name = Map.empty, al_next = 0\<rparr>"

definition alias_of :: "string \<Rightarrow> alias_table \<Rightarrow> nat \<times> bool \<times> alias_table" where
  "alias_of name t =
     (case al_by_name t name of
        Some a \<Rightarrow> (a, False, t)
      | None \<Rightarrow> (al_next t + 1, True, \<lparr>al_by_name = (al_by_name t)(name \<mapsto> al_next t + 1), al_next = al_next t + 1\<rparr>))"

definition has_alias :: "string \<Rightarrow> alias_table \<Rightarrow> bool" where
  "has_alias name t \<longleftrightarrow> al_by_name t name \<noteq> None"

definition alias_table_ok :: "alias_table \<Rightarrow> bool" where
  "alias_table_ok t \<longleftrightarrow> (\<forall>n a. al_by_name t n = Some a \<longrightarrow> 1 \<le> a \<and> a \<le> al_next t)
     \<and> (\<forall>m n a. al_by_name t m = Some a \<longrightarrow> al_by_name t n = Some a \<longrightarrow> m = n)"

lemma alias_table_ok_new [simp]: "alias_table_ok new_alias_table"
  by (simp add: alias_table_ok_def new_alias_table_def)

lemma alias_of_ok: "alias_table_ok t \<Longrightarrow> alias_table_ok (snd (snd (alias_of n t)))"
  by (auto simp: alias_table_ok_def alias_of_def le_Suc_eq split: option.split) (metis Suc_n_not_le_n)+

lemma alias_of_lookup: "al_by_name (snd (snd (alias_of n t))) n = Some (fst (alias_of n t))"
  by (simp add: alias_of_def split: option.split)

text \<open>Aliases are stable: an allocation never changes an alias given out before.\<close>

lemma alias_of_stable: "al_by_name t m = Some a \<Longrightarrow> al_by_name (snd (snd (alias_of n t))) m = Some a"
  by (auto simp: alias_of_def split: option.split)

lemma alias_of_has [simp]: "has_alias n t \<Longrightarrow> snd (snd (alias_of n t)) = t"
  "has_alias n (snd (snd (alias_of n t)))"
  by (auto simp: has_alias_def alias_of_def split: option.split)

end
