(* ===== verification/Birth.thy ===== *)
theory Birth
  imports AgentTags
begin

text \<open>
  The definitive birth declaration (agent/birth/birth.go): from a canonical count-leaf
  name to the role-typed properties of its birth metric, the projection of an NBIRTH
  back into the logical declaration, and the validation of that declaration. A
  \<open>PropertySet\<close> is two parallel lists, as in the generated protobuf code.
\<close>

section \<open>Data types\<close>

text \<open>SparkPlug's numeric datatype codes.\<close>

datatype data_type =
  DT_Int32 | DT_Int64 | DT_UInt32 | DT_UInt64 | DT_Float | DT_Double | DT_Boolean | DT_String

fun data_type_number :: "data_type \<Rightarrow> nat" where
  "data_type_number DT_Int32 = 3" | "data_type_number DT_Int64 = 4"
| "data_type_number DT_UInt32 = 7" | "data_type_number DT_UInt64 = 8"
| "data_type_number DT_Float = 9" | "data_type_number DT_Double = 10"
| "data_type_number DT_Boolean = 11" | "data_type_number DT_String = 12"

definition datatype_name :: "nat \<Rightarrow> string" where
  "datatype_name code =
     (if code = 3 then ''Int32'' else if code = 4 then ''Int64'' else if code = 7 then ''UInt32''
      else if code = 8 then ''UInt64'' else if code = 9 then ''Float'' else if code = 10 then ''Double'' else [])"

definition valid_datatypes :: "string list" where
  "valid_datatypes = [''Int32'', ''Int64'', ''UInt32'', ''UInt64'', ''Float'', ''Double'']"

section \<open>Count leaves\<close>

definition leaf_role :: "string \<Rightarrow> string option" where
  "leaf_role kind = map_of [(''ProdConsumedCount'', ''gross''), (''ProdProcessedCount'', ''net''),
     (''ProdDefectiveCount'', ''scrap'')] kind"

definition valid_roles :: "string list" where
  "valid_roles = [''gross'', ''net'', ''scrap'']"

record parsed_leaf =
  lf_role :: string
  lf_source_ref :: string

definition parse_counter_leaf :: "string \<Rightarrow> parsed_leaf option" where
  "parse_counter_leaf name =
     (let segs = split_on (CHR ''/'') name; n = length segs
      in if n < 5 then None
         else if segs ! (n - 1) \<noteq> ''Unit'' then None
         else case leaf_role (segs ! (n - 3)) of
           None \<Rightarrow> None
         | Some role \<Rightarrow> (case atoi (segs ! (n - 2)) of
               None \<Rightarrow> None
             | Some idx \<Rightarrow> if idx < 0 then None
                 else Some \<lparr>lf_role = role, lf_source_ref = ''idx:'' @ segs ! (n - 2)\<rparr>))"

definition str_prop :: "string \<Rightarrow> property_value" where
  "str_prop v = \<lparr>pv_null = False, pv_string = v\<rparr>"

text \<open>\<open>MetricProps\<close>: \<open>None\<close> is \<open>ok = false\<close>, no properties at all.\<close>

definition metric_props :: "string \<Rightarrow> string \<Rightarrow> string \<Rightarrow> property_set option" where
  "metric_props name declared_key declared_role =
     (let role = trim_space declared_role;
          key = trim_space declared_key;
          tail = (\<lambda>r. (''role'', str_prop r) # (if key \<noteq> [] then [(''device_key'', str_prop key)] else []));
          mk = (\<lambda>kvs. \<lparr>ps_keys = map fst kvs, ps_values = map snd kvs\<rparr>)
      in case parse_counter_leaf name of
           Some leaf \<Rightarrow> Some (mk ([(''counter_role'', str_prop (lf_role leaf)), (''source_ref'', str_prop (lf_source_ref leaf))]
               @ tail (if role = [] then ''counter.'' @ lf_role leaf else role)))
         | None \<Rightarrow> if role = [] then None else Some (mk (tail role)))"

definition counter_metric_props :: "string \<Rightarrow> property_set option" where
  "counter_metric_props name = metric_props name [] []"

section \<open>The logical declaration\<close>

record birth_metric =
  bm_name :: string
  bm_alias :: nat
  bm_datatype :: string
  bm_counter_role :: string
  bm_source_ref :: string

record device =
  dv_key :: string
  dv_metrics :: "birth_metric list"

record birth_declaration =
  dc_group :: string
  dc_node :: string
  dc_devices :: "device list"

record birth_props =
  bp_role :: string
  bp_source_ref :: string
  bp_device_key :: string

text \<open>The loop of \<open>readProps\<close>: the last occurrence of a key wins, extra keys are ignored.\<close>

fun read_props_loop :: "string list \<Rightarrow> property_value list \<Rightarrow> birth_props \<Rightarrow> birth_props" where
  "read_props_loop (k # ks) (v # vs) acc =
     read_props_loop ks vs
       (if k = ''counter_role'' then acc\<lparr>bp_role := pv_string v\<rparr>
        else if k = ''source_ref'' then acc\<lparr>bp_source_ref := pv_string v\<rparr>
        else if k = ''device_key'' then acc\<lparr>bp_device_key := pv_string v\<rparr> else acc)"
| "read_props_loop _ _ acc = acc"

definition read_props :: "wire_metric \<Rightarrow> birth_props option" where
  "read_props m =
     (case wm_properties m of None \<Rightarrow> None
      | Some ps \<Rightarrow>
          let r = read_props_loop (ps_keys ps) (ps_values ps) \<lparr>bp_role = [], bp_source_ref = [], bp_device_key = []\<rparr>
          in if bp_role r = [] then None else Some r)"

definition birth_metric_of :: "wire_metric \<Rightarrow> birth_props \<Rightarrow> birth_metric" where
  "birth_metric_of m bp = \<lparr>bm_name = get_or [] (wm_name m), bm_alias = get_or 0 (wm_alias m),
     bm_datatype = datatype_name (get_or 0 (wm_datatype m)), bm_counter_role = bp_role bp,
     bm_source_ref = bp_source_ref bp\<rparr>"

text \<open>Grouping by device key in first-seen order: the \<open>byDevice\<close> index is the position in the list.\<close>

fun add_to_device :: "string \<Rightarrow> birth_metric \<Rightarrow> device list \<Rightarrow> device list" where
  "add_to_device key bm [] = [\<lparr>dv_key = key, dv_metrics = [bm]\<rparr>]"
| "add_to_device key bm (d # ds) =
     (if dv_key d = key then d\<lparr>dv_metrics := dv_metrics d @ [bm]\<rparr> # ds else d # add_to_device key bm ds)"

definition declaration_from_nbirth :: "string \<Rightarrow> string \<Rightarrow> payload \<Rightarrow> birth_declaration" where
  "declaration_from_nbirth group_id node pl =
     \<lparr>dc_group = group_id, dc_node = node,
      dc_devices = fold (\<lambda>m ds. case read_props m of None \<Rightarrow> ds
        | Some bp \<Rightarrow> add_to_device (bp_device_key bp) (birth_metric_of m bp) ds) (pl_metrics pl) []\<rparr>"

definition is_lower_hex :: "char \<Rightarrow> bool" where
  "is_lower_hex c \<longleftrightarrow> c \<in> set ''0123456789abcdef''"

definition opaque_device_key :: "string \<Rightarrow> bool" where
  "opaque_device_key k \<longleftrightarrow> take 3 k = ''dk_'' \<and> length k = 35 \<and> list_all is_lower_hex (drop 3 k)"

datatype declaration_error =
  GroupRequired | NodeRequired | DevicesRequired | DeviceKeyRequired nat | DeviceKeyNotOpaque nat
| MetricsRequired nat | BadAlias nat nat | BadRole nat nat | BadDatatype nat nat

text \<open>\<open>Validate\<close>: the first violated rule, \<open>None\<close> when the declaration is valid.\<close>

fun validate_metrics :: "nat \<Rightarrow> nat \<Rightarrow> birth_metric list \<Rightarrow> declaration_error option" where
  "validate_metrics i j [] = None"
| "validate_metrics i j (m # ms) =
     (if bm_alias m < 1 then Some (BadAlias i j)
      else if bm_counter_role m \<notin> set valid_roles then Some (BadRole i j)
      else if bm_datatype m \<noteq> [] \<and> bm_datatype m \<notin> set valid_datatypes then Some (BadDatatype i j)
      else validate_metrics i (Suc j) ms)"

fun validate_devices :: "nat \<Rightarrow> device list \<Rightarrow> declaration_error option" where
  "validate_devices i [] = None"
| "validate_devices i (d # ds) =
     (if trim_space (dv_key d) = [] then Some (DeviceKeyRequired i)
      else if \<not> opaque_device_key (dv_key d) then Some (DeviceKeyNotOpaque i)
      else if dv_metrics d = [] then Some (MetricsRequired i)
      else case validate_metrics i 0 (dv_metrics d) of Some e \<Rightarrow> Some e | None \<Rightarrow> validate_devices (Suc i) ds)"

definition validate_declaration :: "birth_declaration \<Rightarrow> declaration_error option" where
  "validate_declaration d =
     (if trim_space (dc_group d) = [] then Some GroupRequired
      else if trim_space (dc_node d) = [] then Some NodeRequired
      else if dc_devices d = [] then Some DevicesRequired
      else validate_devices 0 (dc_devices d))"

section \<open>Reading back what was declared\<close>

lemma leaf_role_valid: "leaf_role k = Some r \<Longrightarrow> r \<in> set valid_roles"
  by (auto simp: leaf_role_def valid_roles_def split: if_splits)

lemma leaf_role_neq_Nil: "leaf_role k = Some r \<Longrightarrow> r \<noteq> []"
  by (auto simp: leaf_role_def split: if_splits)

lemma parse_counter_leaf_role:
  "parse_counter_leaf n = Some leaf \<Longrightarrow> lf_role leaf \<in> set valid_roles \<and> lf_role leaf \<noteq> []"
  by (auto simp: parse_counter_leaf_def Let_def dest: leaf_role_valid leaf_role_neq_Nil
      split: if_splits option.splits)

lemma read_props_metric_props:
  assumes "wm_properties m = metric_props name key role"
  shows "read_props m = (case parse_counter_leaf name of None \<Rightarrow> None
    | Some leaf \<Rightarrow> Some \<lparr>bp_role = lf_role leaf, bp_source_ref = lf_source_ref leaf, bp_device_key = trim_space key\<rparr>)"
  using assms parse_counter_leaf_role [of name]
  by (auto simp: read_props_def metric_props_def Let_def str_prop_def split: option.splits)

lemma opaque_key_trim:
  assumes "opaque_device_key k" shows "trim_space k = k"
proof -
  have sp: "\<not> is_space c" if "is_lower_hex c \<or> c = CHR ''d''" for c
    using that by (auto simp: is_lower_hex_def is_space_def)
  obtain c cs where k: "k = CHR ''d'' # c # cs"
    using assms by (cases k rule: list.exhaust; cases "tl k") (auto simp: opaque_device_key_def)
  have "drop 3 k \<noteq> []" using assms by (auto simp: opaque_device_key_def)
  then have "last k = last (drop 3 k)" by (simp add: last_drop)
  moreover have "is_lower_hex (last (drop 3 k))"
    using assms last_in_set [OF \<open>drop 3 k \<noteq> []\<close>] by (simp only: opaque_device_key_def list_all_iff)
  ultimately have l: "\<not> is_space (last k)" using sp by simp
  have "dropWhile is_space k = k" using sp [of "CHR ''d''"] by (simp add: k)
  moreover have "dropWhile is_space (rev k) = rev k"
    using l by (cases "rev k") (auto simp: last_rev [symmetric] hd_rev dropWhile_eq_self_iff)
  ultimately show ?thesis by (simp add: trim_space_def)
qed

lemma opaque_key_neq_Nil: "opaque_device_key k \<Longrightarrow> k \<noteq> []"
  by (auto simp: opaque_device_key_def)

section \<open>Valid declarations\<close>

definition good_birth_metric :: "birth_metric \<Rightarrow> bool" where
  "good_birth_metric m \<longleftrightarrow> 1 \<le> bm_alias m \<and> bm_counter_role m \<in> set valid_roles
     \<and> (bm_datatype m = [] \<or> bm_datatype m \<in> set valid_datatypes)"

definition good_device :: "device \<Rightarrow> bool" where
  "good_device d \<longleftrightarrow> opaque_device_key (dv_key d) \<and> dv_metrics d \<noteq> [] \<and> list_all good_birth_metric (dv_metrics d)"

lemma validate_metrics_good: "list_all good_birth_metric ms \<Longrightarrow> validate_metrics i j ms = None"
  by (induction ms arbitrary: j) (auto simp: good_birth_metric_def)

lemma validate_devices_good: "list_all good_device ds \<Longrightarrow> validate_devices i ds = None"
  by (induction ds arbitrary: i)
    (auto simp: good_device_def opaque_key_trim opaque_key_neq_Nil validate_metrics_good)

lemma add_to_device_good:
  "list_all good_device ds \<Longrightarrow> opaque_device_key key \<Longrightarrow> good_birth_metric bm
   \<Longrightarrow> list_all good_device (add_to_device key bm ds) \<and> add_to_device key bm ds \<noteq> []"
  by (induction ds) (auto simp: good_device_def)

lemma datatype_name_valid: "datatype_name c = [] \<or> datatype_name c \<in> set valid_datatypes"
  by (simp add: datatype_name_def valid_datatypes_def)

lemma declaration_devices_good:
  assumes "\<forall>m\<in>set ms. \<forall>bp. read_props m = Some bp \<longrightarrow>
      opaque_device_key (bp_device_key bp) \<and> bp_role bp \<in> set valid_roles \<and> 1 \<le> get_or 0 (wm_alias m)"
    and "list_all good_device ds"
  shows "list_all good_device (fold (\<lambda>m ds. case read_props m of None \<Rightarrow> ds
      | Some bp \<Rightarrow> add_to_device (bp_device_key bp) (birth_metric_of m bp) ds) ms ds)"
  using assms
proof (induction ms arbitrary: ds)
  case (Cons m ms)
  show ?case
  proof (cases "read_props m")
    case None
    then show ?thesis using Cons by simp
  next
    case (Some bp)
    have "good_birth_metric (birth_metric_of m bp)"
      using Cons.prems(1) Some datatype_name_valid by (auto simp: good_birth_metric_def birth_metric_of_def)
    then have "list_all good_device (add_to_device (bp_device_key bp) (birth_metric_of m bp) ds)"
      using add_to_device_good [OF Cons.prems(2)] Cons.prems(1) Some by auto
    then show ?thesis using Cons Some by simp
  qed
qed simp

lemma fold_devices_neq_Nil:
  assumes "ds \<noteq> [] \<or> (\<exists>m\<in>set ms. read_props m \<noteq> None)"
  shows "fold (\<lambda>m ds. case read_props m of None \<Rightarrow> ds
      | Some bp \<Rightarrow> add_to_device (bp_device_key bp) (birth_metric_of m bp) ds) ms ds \<noteq> []"
proof -
  have ne: "add_to_device k b ds \<noteq> []" for k b ds by (cases ds) auto
  show ?thesis using assms
    by (induction ms arbitrary: ds) (auto simp: ne split: option.splits)
qed

end
