(* ===== verification/Session.thy ===== *)
theory Session
  imports Birth
begin

text \<open>
  The producer half of SparkPlug B (agent/session/session.go): one edge node's session
  with its alias table, the rolling NDATA sequence and the birth/death sequence, and
  the payloads it builds. The resolver interface the session calls is the locale
  \<open>metric_resolver\<close>; the agent's own resolver (cmd/sparkplug-agent) interprets it. A
  build that fails returns the error together with the state it leaves behind: the
  sequence it advanced and the aliases it allocated before the failure.
\<close>

section \<open>The resolver interface\<close>

record mapped_metric =
  mm_suffix :: string
  mm_name :: string
  mm_datatype :: data_type

text \<open>\<open>Resolver\<close> and \<open>AllResolver\<close>: the enumeration and the lookup describe one map.\<close>

locale metric_resolver =
  fixes resolve :: "string \<Rightarrow> (string \<times> data_type) option"
    and all_mapped :: "mapped_metric list"
  assumes mapped_iff: "resolve s = Some (n, dt) \<longleftrightarrow> \<lparr>mm_suffix = s, mm_name = n, mm_datatype = dt\<rparr> \<in> set all_mapped"
begin

lemma resolve_mapped: "resolve s = Some (n, dt) \<Longrightarrow> n \<in> mm_name ` set all_mapped"
  by (auto simp: mapped_iff image_iff intro!: bexI)

lemma mapped_resolve: "mm \<in> set all_mapped \<Longrightarrow> resolve (mm_suffix mm) = Some (mm_name mm, mm_datatype mm)"
  by (cases mm) (simp add: mapped_iff)

end

record tag_map_entry =
  te_suffix :: string
  te_name :: string
  te_type :: string
  te_device_key :: string
  te_role :: string

definition full_name :: "string \<Rightarrow> tag_map_entry \<Rightarrow> string" where
  "full_name prefix e = (if te_name e \<noteq> [] then te_name e else prefix @ te_suffix e)"

definition datatype_of :: "string \<Rightarrow> data_type" where
  "datatype_of t =
     (if t = ''double'' then DT_Double else if t = ''float'' then DT_Float else if t = ''long'' then DT_Int64
      else if t = ''int'' then DT_Int32 else if t = ''bool'' then DT_Boolean else if t = ''string'' then DT_String
      else DT_Double)"

type_synonym agent_resolver = "(string \<times> (string \<times> data_type)) list"

definition new_resolver :: "string \<Rightarrow> tag_map_entry list \<Rightarrow> agent_resolver" where
  "new_resolver prefix es =
     fold (\<lambda>e. AList.update (te_suffix e) (full_name prefix e, datatype_of (te_type e))) es []"

definition resolver_resolve :: "agent_resolver \<Rightarrow> string \<Rightarrow> (string \<times> data_type) option" where
  "resolver_resolve r s = map_of r s"

definition resolver_all_mapped :: "agent_resolver \<Rightarrow> mapped_metric list" where
  "resolver_all_mapped r = sort_key mm_suffix (map (\<lambda>(s, n, dt). \<lparr>mm_suffix = s, mm_name = n, mm_datatype = dt\<rparr>) r)"

lemma new_resolver_distinct: "distinct (map fst (new_resolver prefix es))"
proof -
  have "distinct (map fst r) \<Longrightarrow> distinct (map fst (fold (\<lambda>e. AList.update (te_suffix e) (f e)) es r))"
    for f :: "tag_map_entry \<Rightarrow> string \<times> data_type" and r
    by (induction es arbitrary: r) (auto simp: distinct_update)
  then show ?thesis by (simp add: new_resolver_def)
qed

interpretation agent_resolver: metric_resolver
  "resolver_resolve (new_resolver prefix es)" "resolver_all_mapped (new_resolver prefix es)" for prefix es
  by unfold_locales
    (force simp: resolver_resolve_def resolver_all_mapped_def map_of_eq_Some_iff [OF new_resolver_distinct])

definition device_keys_from_tag_map :: "string \<Rightarrow> tag_map_entry list \<Rightarrow> string \<rightharpoonup> string" where
  "device_keys_from_tag_map prefix es = fold (\<lambda>e m. if te_device_key e = [] then m
     else m(full_name prefix e \<mapsto> te_device_key e)) es Map.empty"

definition roles_from_tag_map :: "string \<Rightarrow> tag_map_entry list \<Rightarrow> string \<rightharpoonup> string" where
  "roles_from_tag_map prefix es = fold (\<lambda>e m. if te_role e \<noteq> [] then m(full_name prefix e \<mapsto> te_role e) else m) es Map.empty"

section \<open>The session state\<close>

record session_cfg =
  sc_resolve :: "string \<Rightarrow> (string \<times> data_type) option"
  sc_all_mapped :: "mapped_metric list option"
  sc_definitive :: bool
  sc_device_keys :: "string \<rightharpoonup> string"
  sc_roles :: "string \<rightharpoonup> string"
  sc_birth_all_mapped :: bool

record session =
  se_aliases :: alias_table
  se_seq :: nat
  se_bd_seq :: nat
  se_started :: bool

definition new_session :: session where
  "new_session = \<lparr>se_aliases = new_alias_table, se_seq = 0, se_bd_seq = 0, se_started = False\<rparr>"

definition new_connection :: "session \<Rightarrow> nat \<times> session" where
  "new_connection s =
     (let bd = (if se_started s then next_mod256 (se_bd_seq s) else se_bd_seq s)
      in (bd, s\<lparr>se_bd_seq := bd, se_started := True\<rparr>))"

section \<open>Values\<close>

datatype session_error = NotNumeric string | NotBool string | NotString string | UnsupportedDatatype string

fun to_float :: "string \<Rightarrow> scalar \<Rightarrow> session_error + f64" where
  "to_float nm (ScNum f) = Inr f"
| "to_float nm (ScBool b) = Inr (Fin (if b then 1 else 0))"
| "to_float nm _ = Inl (NotNumeric nm)"

definition set_value :: "string \<Rightarrow> data_type \<Rightarrow> scalar \<Rightarrow> session_error + wire_value" where
  "set_value nm dt v =
     (if v = ScNull then Inr NoValue
      else case dt of
        DT_Double \<Rightarrow> map_sum id DoubleValue (to_float nm v)
      | DT_Float \<Rightarrow> map_sum id (\<lambda>f. FloatValue (to_float32 f)) (to_float nm v)
      | DT_Int64 \<Rightarrow> map_sum id (\<lambda>f. LongValue (word_of_int (to_int64 f))) (to_float nm v)
      | DT_Int32 \<Rightarrow> map_sum id (\<lambda>f. IntValue (word_of_int (to_int32 f))) (to_float nm v)
      | DT_Boolean \<Rightarrow> (case v of ScBool b \<Rightarrow> Inr (BooleanValue b) | _ \<Rightarrow> Inl (NotBool nm))
      | DT_String \<Rightarrow> (case v of ScStr s \<Rightarrow> Inr (StringValue s) | _ \<Rightarrow> Inl (NotString nm))
      | _ \<Rightarrow> Inl (UnsupportedDatatype nm))"

definition max_ts :: "raw_tag list \<Rightarrow> nat" where
  "max_ts tags = nat (fold (\<lambda>t m. if m < rt_ts t then rt_ts t else m) tags 0)"

definition tag_ts :: "raw_tag \<Rightarrow> nat \<Rightarrow> nat" where
  "tag_ts t fallback = (if 0 < rt_ts t then nat (rt_ts t) else fallback)"

definition bd_seq_metric :: "nat \<Rightarrow> nat \<Rightarrow> wire_metric" where
  "bd_seq_metric bd ts = empty_metric\<lparr>wm_name := Some ''bdSeq'', wm_datatype := Some (data_type_number DT_Int64),
     wm_value := LongValue (word_of_nat bd), wm_timestamp := (if ts \<noteq> 0 then Some ts else None)\<rparr>"

section \<open>Building payloads\<close>

definition birth_properties :: "session_cfg \<Rightarrow> string \<Rightarrow> property_set option" where
  "birth_properties cfg name = (if sc_definitive cfg
     then metric_props name (get_or [] (sc_device_keys cfg name)) (get_or [] (sc_roles cfg name)) else None)"

definition birth_metric_for :: "session_cfg \<Rightarrow> string \<Rightarrow> nat \<Rightarrow> nat \<Rightarrow> data_type \<Rightarrow> bool \<Rightarrow> wire_value \<Rightarrow> wire_metric" where
  "birth_metric_for cfg name alias ts dt is_null v =
     \<lparr>wm_name = Some name, wm_alias = Some alias, wm_timestamp = Some ts, wm_datatype = Some (data_type_number dt),
      wm_is_null = is_null, wm_value = v, wm_properties = birth_properties cfg name\<rparr>"

text \<open>The birth-all-mapped loop: a mapped metric never seen is born as an explicit null.\<close>

fun birth_all_loop :: "session_cfg \<Rightarrow> nat \<Rightarrow> (string \<rightharpoonup> raw_tag) \<Rightarrow> mapped_metric list \<Rightarrow> alias_table
    \<Rightarrow> (session_error + wire_metric list) \<times> alias_table" where
  "birth_all_loop cfg ts seen [] al = (Inr [], al)"
| "birth_all_loop cfg ts seen (mm # mms) al =
     (let n = mm_name mm; dt = mm_datatype mm; (a, _, al1) = alias_of n al;
          m = (case seen (mm_suffix mm) of
                 Some t \<Rightarrow> map_sum id (birth_metric_for cfg n a (tag_ts t ts) dt False) (set_value n dt (rt_value t))
               | None \<Rightarrow> Inr (birth_metric_for cfg n a ts dt True NoValue))
      in case m of Inl e \<Rightarrow> (Inl e, al1)
         | Inr w \<Rightarrow> (case birth_all_loop cfg ts seen mms al1 of
               (Inl e, al2) \<Rightarrow> (Inl e, al2) | (Inr ws, al2) \<Rightarrow> (Inr (w # ws), al2)))"

text \<open>The legacy loop: the seen tags that resolve.\<close>

fun birth_seen_loop :: "session_cfg \<Rightarrow> nat \<Rightarrow> raw_tag list \<Rightarrow> alias_table
    \<Rightarrow> (session_error + wire_metric list) \<times> alias_table" where
  "birth_seen_loop cfg ts [] al = (Inr [], al)"
| "birth_seen_loop cfg ts (t # tags) al =
     (case sc_resolve cfg (rt_metric t) of
        None \<Rightarrow> birth_seen_loop cfg ts tags al
      | Some (n, dt) \<Rightarrow>
          let (a, _, al1) = alias_of n al
          in case set_value n dt (rt_value t) of
               Inl e \<Rightarrow> (Inl e, al1)
             | Inr v \<Rightarrow> (case birth_seen_loop cfg ts tags al1 of
                   (Inl e, al2) \<Rightarrow> (Inl e, al2)
                 | (Inr ws, al2) \<Rightarrow> (Inr (birth_metric_for cfg n a (tag_ts t ts) dt False v # ws), al2)))"

definition all_mapped_set :: "session_cfg \<Rightarrow> mapped_metric list option" where
  "all_mapped_set cfg = (if sc_birth_all_mapped cfg then sc_all_mapped cfg else None)"

definition build_nbirth :: "session_cfg \<Rightarrow> raw_tag list \<Rightarrow> session \<Rightarrow> (session_error + payload) \<times> session" where
  "build_nbirth cfg snapshot s0 =
     (let s = s0\<lparr>se_seq := 0\<rparr>;
          ts = max_ts snapshot;
          (ms, al) = (case all_mapped_set cfg of
             Some all_mm \<Rightarrow> birth_all_loop cfg ts (map_of (rev (map (\<lambda>t. (rt_metric t, t)) snapshot))) all_mm (se_aliases s)
           | None \<Rightarrow> birth_seen_loop cfg ts snapshot (se_aliases s));
          s' = s\<lparr>se_aliases := al\<rparr>
      in (map_sum id (\<lambda>ws. \<lparr>pl_timestamp = Some ts, pl_seq = Some (se_seq s),
            pl_metrics = ws @ [bd_seq_metric (se_bd_seq s) ts]\<rparr>) ms, s'))"

fun ndata_loop :: "session_cfg \<Rightarrow> nat \<Rightarrow> raw_tag list \<Rightarrow> alias_table
    \<Rightarrow> (session_error + wire_metric list) \<times> alias_table" where
  "ndata_loop cfg ts [] al = (Inr [], al)"
| "ndata_loop cfg ts (t # tags) al =
     (case sc_resolve cfg (rt_metric t) of
        None \<Rightarrow> ndata_loop cfg ts tags al
      | Some (n, dt) \<Rightarrow>
          let (a, _, al1) = alias_of n al
          in case set_value n dt (rt_value t) of
               Inl e \<Rightarrow> (Inl e, al1)
             | Inr v \<Rightarrow> (case ndata_loop cfg ts tags al1 of
                   (Inl e, al2) \<Rightarrow> (Inl e, al2)
                 | (Inr ws, al2) \<Rightarrow>
                     (Inr (empty_metric\<lparr>wm_alias := Some a, wm_timestamp := Some (tag_ts t ts), wm_value := v\<rparr> # ws), al2)))"

definition build_ndata :: "session_cfg \<Rightarrow> raw_tag list \<Rightarrow> session \<Rightarrow> (session_error + payload) \<times> session" where
  "build_ndata cfg dirty s0 =
     (let s = s0\<lparr>se_seq := next_mod256 (se_seq s0)\<rparr>;
          ts = max_ts dirty;
          (ms, al) = ndata_loop cfg ts dirty (se_aliases s)
      in (map_sum id (\<lambda>ws. \<lparr>pl_timestamp = Some ts, pl_seq = Some (se_seq s), pl_metrics = ws\<rparr>) ms,
          s\<lparr>se_aliases := al\<rparr>))"

definition build_ndeath :: "session \<Rightarrow> payload" where
  "build_ndeath s = \<lparr>pl_timestamp = None, pl_seq = None, pl_metrics = [bd_seq_metric (se_bd_seq s) 0]\<rparr>"

definition needs_rebirth :: "session_cfg \<Rightarrow> raw_tag list \<Rightarrow> session \<Rightarrow> bool" where
  "needs_rebirth cfg tags s \<longleftrightarrow> list_ex (\<lambda>t. case sc_resolve cfg (rt_metric t) of
     None \<Rightarrow> False | Some (n, dt) \<Rightarrow> \<not> has_alias n (se_aliases s)) tags"

section \<open>The alias tables of the two sides\<close>

definition al_le :: "alias_table \<Rightarrow> alias_table \<Rightarrow> bool" where
  "al_le t t' \<longleftrightarrow> (\<forall>n a. al_by_name t n = Some a \<longrightarrow> al_by_name t' n = Some a)"

lemma al_le_refl [simp]: "al_le t t" by (simp add: al_le_def)
lemma al_le_trans: "al_le t u \<Longrightarrow> al_le u v \<Longrightarrow> al_le t v" by (simp add: al_le_def)
lemma al_le_alias_of: "al_le t (snd (snd (alias_of n t)))"
  by (simp add: al_le_def alias_of_stable)

text \<open>A birth metric carries the alias the table has for its name.\<close>

definition frozen :: "alias_table \<Rightarrow> wire_metric \<Rightarrow> bool" where
  "frozen t w \<longleftrightarrow> (\<exists>n a. wm_name w = Some n \<and> wm_alias w = Some a \<and> al_by_name t n = Some a)"

lemma frozen_mono: "al_le t u \<Longrightarrow> frozen t w \<Longrightarrow> frozen u w"
  by (auto simp: al_le_def frozen_def)

lemma birth_metric_frozen:
  "alias_of n t = (a, b, t') \<Longrightarrow> frozen t' (birth_metric_for cfg n a ts dt nl v)"
  using alias_of_lookup [of n t] by (simp add: frozen_def birth_metric_for_def)

lemma birth_all_loop_aliases:
  assumes "birth_all_loop cfg ts seen mms t = (r, t')" "alias_table_ok t"
  shows "alias_table_ok t' \<and> al_le t t' \<and>
    (\<forall>ws. r = Inr ws \<longrightarrow> list_all (frozen t') ws \<and> mm_name ` set mms = {n. \<exists>w\<in>set ws. wm_name w = Some n})"
  using assms
proof (induction mms arbitrary: t r t')
  case (Cons mm mms)
  obtain a b t1 where al: "alias_of (mm_name mm) t = (a, b, t1)" by (metis prod_cases3)
  have t1: "alias_table_ok t1" "al_le t t1"
    using alias_of_ok [OF Cons.prems(2), of "mm_name mm"] al_le_alias_of [of t "mm_name mm"] al by simp_all
  define m where "m = (case seen (mm_suffix mm) of
       Some tg \<Rightarrow> map_sum id (birth_metric_for cfg (mm_name mm) a (tag_ts tg ts) (mm_datatype mm) False)
          (set_value (mm_name mm) (mm_datatype mm) (rt_value tg))
     | None \<Rightarrow> Inr (birth_metric_for cfg (mm_name mm) a ts (mm_datatype mm) True NoValue))"
  have fr: "frozen t1 w" "wm_name w = Some (mm_name mm)" if "m = Inr w" for w
    using that birth_metric_frozen [OF al]
    by (auto simp: m_def birth_metric_for_def map_sum_def split: option.splits sum.splits)
  show ?case
  proof (cases m)
    case (Inl e)
    then show ?thesis using Cons.prems(1) t1 by (auto simp: al Let_def m_def [symmetric])
  next
    case (Inr w)
    obtain r2 t2 where rec: "birth_all_loop cfg ts seen mms t1 = (r2, t2)" by fastforce
    note ih = Cons.IH [OF rec t1(1)]
    have res: "t' = t2" "r = (case r2 of Inl e \<Rightarrow> Inl e | Inr ws \<Rightarrow> Inr (w # ws))"
      using Cons.prems(1) by (auto simp: al Let_def m_def [symmetric] Inr rec split: sum.splits)
    have "frozen t2 w" using fr(1) [OF Inr] ih frozen_mono by blast
    then show ?thesis using ih res fr(2) [OF Inr] al_le_trans [OF t1(2)]
      by (auto split: sum.splits)
  qed
qed simp

lemma birth_seen_loop_aliases:
  assumes "birth_seen_loop cfg ts tags t = (r, t')" "alias_table_ok t"
  shows "alias_table_ok t' \<and> al_le t t' \<and>
    (\<forall>ws. r = Inr ws \<longrightarrow> list_all (frozen t') ws \<and>
       {n. \<exists>tg\<in>set tags. \<exists>dt. sc_resolve cfg (rt_metric tg) = Some (n, dt)} = {n. \<exists>w\<in>set ws. wm_name w = Some n})"
  using assms
proof (induction tags arbitrary: t r t')
  case (Cons tg tags)
  show ?case
  proof (cases "sc_resolve cfg (rt_metric tg)")
    case None
    then show ?thesis using Cons by auto
  next
    case (Some nd)
    obtain n dt where nd: "nd = (n, dt)" by fastforce
    obtain a b t1 where al: "alias_of n t = (a, b, t1)" by (metis prod_cases3)
    have t1: "alias_table_ok t1" "al_le t t1"
      using alias_of_ok [OF Cons.prems(2), of n] al_le_alias_of [of t n] al by simp_all
    show ?thesis
    proof (cases "set_value n dt (rt_value tg)")
      case (Inl e)
      then show ?thesis using Cons.prems(1) t1 by (auto simp: Some nd al Let_def)
    next
      case (Inr v)
      obtain r2 t2 where rec: "birth_seen_loop cfg ts tags t1 = (r2, t2)" by fastforce
      note ih = Cons.IH [OF rec t1(1)]
      define w where "w = birth_metric_for cfg n a (tag_ts tg ts) dt False v"
      have res: "t' = t2" "r = (case r2 of Inl e \<Rightarrow> Inl e | Inr ws \<Rightarrow> Inr (w # ws))"
        using Cons.prems(1) by (auto simp: Some nd al Let_def Inr rec w_def split: sum.splits)
      have "frozen t2 w" using birth_metric_frozen [OF al] ih frozen_mono by (auto simp: w_def)
      moreover have "wm_name w = Some n" by (simp add: w_def birth_metric_for_def)
      moreover have "{m. \<exists>x\<in>set (tg # tags). \<exists>d. sc_resolve cfg (rt_metric x) = Some (m, d)}
          = insert n {m. \<exists>x\<in>set tags. \<exists>d. sc_resolve cfg (rt_metric x) = Some (m, d)}"
        using Some nd by auto
      ultimately show ?thesis using ih res al_le_trans [OF t1(2)]
        by (auto split: sum.splits)
    qed
  qed
qed simp

text \<open>Birth metrics carry the properties of their name.\<close>

lemma birth_seen_loop_props:
  assumes "birth_seen_loop cfg ts tags t = (Inr ws, t')" "w \<in> set ws"
  shows "\<exists>n. wm_name w = Some n \<and> wm_properties w = birth_properties cfg n"
  using assms
proof (induction tags arbitrary: t ws)
  case (Cons tg tags)
  show ?case
  proof (cases "sc_resolve cfg (rt_metric tg)")
    case None
    then show ?thesis using Cons by auto
  next
    case (Some nd)
    obtain n dt where nd: "nd = (n, dt)" by fastforce
    obtain a b t1 where al: "alias_of n t = (a, b, t1)" by (metis prod_cases3)
    from Cons.prems(1) obtain v ws' where "birth_seen_loop cfg ts tags t1 = (Inr ws', t')"
      "ws = birth_metric_for cfg n a (tag_ts tg ts) dt False v # ws'"
      by (auto simp: Some nd al Let_def split: sum.splits prod.splits)
    then show ?thesis using Cons.IH [of t1 ws'] Cons.prems(2) by (auto simp: birth_metric_for_def)
  qed
qed simp

end
