(* ===== verification/SessionProps.thy ===== *)
theory SessionProps
  imports Session
begin

text \<open>
  The two halves of SparkPlug together: what the agent's session builds, the decoder's
  alias table resolves. Readings survive with their names and values, the sequence never
  shows a gap, deaths pair with births, and a birth declaration built from opaque device
  keys validates. The failure side: one value that does not fit its datatype blocks the
  birth, and a birth that fails part-way leaves aliases behind that no birth announced.
\<close>

section \<open>The decoder's table after a birth\<close>

lemma birth_aliases_snoc:
  "birth_aliases (ws @ [w]) = (case wm_alias w of None \<Rightarrow> birth_aliases ws
     | Some a \<Rightarrow> (birth_aliases ws)(a \<mapsto> \<lparr>ae_name = get_or [] (wm_name w), ae_datatype = get_or 0 (wm_datatype w)\<rparr>))"
  by (simp add: birth_aliases_def split: option.split)

lemma birth_aliases_frozen:
  assumes "alias_table_ok al" "\<forall>w\<in>set ws. frozen al w \<or> wm_alias w = None"
  shows "(\<forall>a e. birth_aliases ws a = Some e \<longrightarrow> al_by_name al (ae_name e) = Some a)
    \<and> (\<forall>w\<in>set ws. \<forall>a. wm_alias w = Some a \<longrightarrow> birth_aliases ws a \<noteq> None)"
  using assms(2)
proof (induction ws rule: rev_induct)
  case Nil
  then show ?case by (simp add: birth_aliases_def)
next
  case (snoc w ws)
  then have ih: "\<forall>a e. birth_aliases ws a = Some e \<longrightarrow> al_by_name al (ae_name e) = Some a"
    "\<forall>w\<in>set ws. \<forall>a. wm_alias w = Some a \<longrightarrow> birth_aliases ws a \<noteq> None" by simp_all
  have "frozen al w \<or> wm_alias w = None" using snoc.prems by simp
  then show ?case using ih by (auto simp: birth_aliases_snoc frozen_def split: if_splits)
qed

text \<open>What the decoder's publisher state knows of the names in \<open>ns\<close>.\<close>

definition knows :: "alias_table \<Rightarrow> publisher_state \<Rightarrow> string set \<Rightarrow> bool" where
  "knows al pst ns \<longleftrightarrow> (\<forall>n\<in>ns. \<exists>a e. al_by_name al n = Some a \<and> pst_aliases pst a = Some e \<and> ae_name e = n)"

lemma knows_mono: "knows al pst ns \<Longrightarrow> ms \<subseteq> ns \<Longrightarrow> knows al pst ms"
  by (auto simp: knows_def)

lemma knows_after_birth:
  assumes "alias_table_ok al" "list_all (frozen al) ws" "ns \<subseteq> {n. \<exists>w\<in>set ws. wm_name w = Some n}"
    "pst_aliases pst = birth_aliases (ws @ [bd_seq_metric bd ts])"
  shows "knows al pst ns"
proof -
  have bd: "birth_aliases (ws @ [bd_seq_metric bd ts]) = birth_aliases ws"
    by (simp add: birth_aliases_snoc bd_seq_metric_def empty_metric_def)
  have fr: "\<forall>w\<in>set ws. frozen al w \<or> wm_alias w = None" using assms(2) by (auto simp: list_all_iff)
  note b = birth_aliases_frozen [OF assms(1) fr]
  show ?thesis unfolding knows_def
  proof
    fix n assume "n \<in> ns"
    then obtain w where w: "w \<in> set ws" "wm_name w = Some n" using assms(3) by auto
    then obtain a where a: "wm_alias w = Some a" "al_by_name al n = Some a"
      using assms(2) by (auto simp: list_all_iff frozen_def)
    then obtain e where e: "birth_aliases ws a = Some e" using b w(1) by blast
    then have "al_by_name al (ae_name e) = Some a" using b by blast
    then have "ae_name e = n" using a(2) assms(1) by (auto simp: alias_table_ok_def)
    then show "\<exists>a e. al_by_name al n = Some a \<and> pst_aliases pst a = Some e \<and> ae_name e = n"
      using a(2) e by (simp add: assms(4) bd)
  qed
qed

text \<open>The names a set of tags resolves to, and the readings they carry.\<close>

definition tag_names :: "session_cfg \<Rightarrow> raw_tag list \<Rightarrow> string set" where
  "tag_names cfg tags = {n. \<exists>t\<in>set tags. \<exists>dt. sc_resolve cfg (rt_metric t) = Some (n, dt)}"

fun readings :: "session_cfg \<Rightarrow> raw_tag list \<Rightarrow> (string \<times> go_value) list" where
  "readings cfg [] = []"
| "readings cfg (t # tags) =
     (case sc_resolve cfg (rt_metric t) of None \<Rightarrow> readings cfg tags
      | Some (n, dt) \<Rightarrow> (case set_value n dt (rt_value t) of
            Inl e \<Rightarrow> readings cfg tags | Inr v \<Rightarrow> (n, extract_value v) # readings cfg tags))"

definition settable :: "session_cfg \<Rightarrow> raw_tag \<Rightarrow> bool" where
  "settable cfg t \<longleftrightarrow> (case sc_resolve cfg (rt_metric t) of None \<Rightarrow> True
     | Some (n, dt) \<Rightarrow> (case set_value n dt (rt_value t) of Inl e \<Rightarrow> False | Inr v \<Rightarrow> True))"

lemma ndata_loop_known:
  assumes "knows al pst (tag_names cfg tags)" "\<forall>t\<in>set tags. settable cfg t"
  shows "\<exists>ws rs. ndata_loop cfg ts tags al = (Inr ws, al) \<and> resolve_metrics key (pst_aliases pst) ws = Inr rs
    \<and> map (\<lambda>r. (rm_name r, rm_value r)) rs = readings cfg tags"
  using assms
proof (induction tags)
  case (Cons t tags)
  have k: "knows al pst (tag_names cfg tags)"
    by (rule knows_mono [OF Cons.prems(1)]) (auto simp: tag_names_def)
  obtain ws rs where ih: "ndata_loop cfg ts tags al = (Inr ws, al)" "resolve_metrics key (pst_aliases pst) ws = Inr rs"
    "map (\<lambda>r. (rm_name r, rm_value r)) rs = readings cfg tags"
    using Cons.IH [OF k] Cons.prems(2) by auto
  show ?case
  proof (cases "sc_resolve cfg (rt_metric t)")
    case None
    then show ?thesis using ih by simp
  next
    case (Some nd)
    obtain n dt where nd: "nd = (n, dt)" by fastforce
    obtain v where v: "set_value n dt (rt_value t) = Inr v"
      using Cons.prems(2) by (auto simp: settable_def Some nd split: sum.splits)
    obtain a e where a: "al_by_name al n = Some a" "pst_aliases pst a = Some e" "ae_name e = n"
      using Cons.prems(1) Some nd by (auto simp: knows_def tag_names_def)
    then have al: "alias_of n al = (a, False, al)" by (simp add: alias_of_def)
    show ?thesis using ih a by (simp add: Some nd al v empty_metric_def)
  qed
qed simp

section \<open>A birth and the data after it\<close>

lemma build_nbirth_born:
  assumes "build_nbirth cfg snap s = (Inr p, s')" "alias_table_ok (se_aliases s)"
  shows "alias_table_ok (se_aliases s') \<and> se_seq s' = 0 \<and> se_bd_seq s' = se_bd_seq s \<and> pl_seq p = Some 0 \<and>
    (\<exists>ws. pl_metrics p = ws @ [bd_seq_metric (se_bd_seq s) (max_ts snap)] \<and> list_all (frozen (se_aliases s')) ws \<and>
      {n. \<exists>w\<in>set ws. wm_name w = Some n} =
        (case all_mapped_set cfg of Some mms \<Rightarrow> mm_name ` set mms | None \<Rightarrow> tag_names cfg snap))"
proof (cases "all_mapped_set cfg")
  case None
  obtain r al where l: "birth_seen_loop cfg (max_ts snap) snap (se_aliases s) = (r, al)" by fastforce
  note b = birth_seen_loop_aliases [OF l assms(2)]
  show ?thesis using assms(1) b l
    by (cases r) (auto simp: build_nbirth_def None Let_def tag_names_def)
next
  case (Some mms)
  obtain r al where l: "birth_all_loop cfg (max_ts snap) (map_of (rev (map (\<lambda>t. (rt_metric t, t)) snap))) mms (se_aliases s) = (r, al)"
    by fastforce
  note b = birth_all_loop_aliases [OF l assms(2)]
  show ?thesis using assms(1) b l
    by (cases r) (auto simp: build_nbirth_def Some Let_def)
qed

definition born_names :: "session_cfg \<Rightarrow> raw_tag list \<Rightarrow> string set" where
  "born_names cfg snap = (case all_mapped_set cfg of Some mms \<Rightarrow> mm_name ` set mms | None \<Rightarrow> tag_names cfg snap)"

text \<open>The link in step: same sequence on both sides, all the given names known.\<close>

definition in_step :: "string set \<Rightarrow> publisher_key \<Rightarrow> session \<Rightarrow> state_store \<Rightarrow> bool" where
  "in_step ns key s st \<longleftrightarrow> (\<exists>pst. st key = Some pst \<and> pst_last_seq pst = se_seq s \<and> knows (se_aliases s) pst ns)"

lemma birth_in_step:
  assumes "build_nbirth cfg snap s = (Inr p, s')" "alias_table_ok (se_aliases s)"
  shows "in_step (born_names cfg snap) key s' (snd (snd (ingest now key ''NBIRTH'' p st)))"
proof -
  obtain ws where b: "alias_table_ok (se_aliases s')" "se_seq s' = 0" "pl_seq p = Some 0"
    "pl_metrics p = ws @ [bd_seq_metric (se_bd_seq s) (max_ts snap)]" "list_all (frozen (se_aliases s')) ws"
    "{n. \<exists>w\<in>set ws. wm_name w = Some n} = born_names cfg snap"
    using build_nbirth_born [OF assms] by (auto simp: born_names_def)
  have "knows (se_aliases s') \<lparr>pst_aliases = birth_aliases (pl_metrics p), pst_last_seq = 0,
      pst_last_birth_at = now, pst_last_message_at = now\<rparr> (born_names cfg snap)"
    by (rule knows_after_birth [OF b(1,5)]) (use b in auto)
  then show ?thesis using b by (simp add: in_step_def ingest_def apply_birth_def)
qed

text \<open>One tick of the agent and the decoder's handling of what it sends.\<close>

definition deliver :: "session_cfg \<Rightarrow> publisher_key \<Rightarrow> raw_tag list \<Rightarrow> session \<Rightarrow> state_store
    \<Rightarrow> (ingest_error + resolved_payload option) list \<times> seq_gap list \<times> session \<times> state_store" where
  "deliver cfg key dirty s st =
     (case build_ndata cfg dirty s of
        (Inl e, s') \<Rightarrow> ([], [], s', st)
      | (Inr p, s') \<Rightarrow> (case ingest 0 key ''NDATA'' p st of (r, gaps, st') \<Rightarrow> ([r], gaps, s', st')))"

fun deliver_all :: "session_cfg \<Rightarrow> publisher_key \<Rightarrow> raw_tag list list \<Rightarrow> session \<Rightarrow> state_store
    \<Rightarrow> (ingest_error + resolved_payload option) list \<times> seq_gap list \<times> session \<times> state_store" where
  "deliver_all cfg key [] s st = ([], [], s, st)"
| "deliver_all cfg key (d # ds) s st =
     (case deliver cfg key d s st of (rs, gs, s', st') \<Rightarrow>
      case deliver_all cfg key ds s' st' of (rs', gs', s'', st'') \<Rightarrow> (rs @ rs', gs @ gs', s'', st''))"

definition received :: "(ingest_error + resolved_payload option) \<Rightarrow> (string \<times> go_value) list option" where
  "received r = (case r of Inr (Some rp) \<Rightarrow> Some (map (\<lambda>m. (rm_name m, rm_value m)) (rp_metrics rp)) | _ \<Rightarrow> None)"

lemma deliver_in_step:
  assumes "in_step ns key s st" "tag_names cfg d \<subseteq> ns" "\<forall>t\<in>set d. settable cfg t"
  shows "map received (fst (deliver cfg key d s st)) = [Some (readings cfg d)]
    \<and> fst (snd (deliver cfg key d s st)) = []
    \<and> in_step ns key (fst (snd (snd (deliver cfg key d s st)))) (snd (snd (snd (deliver cfg key d s st))))"
proof -
  obtain pst where pst: "st key = Some pst" "pst_last_seq pst = se_seq s" "knows (se_aliases s) pst ns"
    using assms(1) by (auto simp: in_step_def)
  obtain ws rs where l: "ndata_loop cfg (max_ts d) d (se_aliases s) = (Inr ws, se_aliases s)"
    "resolve_metrics key (pst_aliases pst) ws = Inr rs" "map (\<lambda>r. (rm_name r, rm_value r)) rs = readings cfg d"
    using ndata_loop_known [OF knows_mono [OF pst(3) assms(2)] assms(3), of "max_ts d" key] by blast
  have "build_ndata cfg d s = (Inr \<lparr>pl_timestamp = Some (max_ts d), pl_seq = Some (next_mod256 (se_seq s)), pl_metrics = ws\<rparr>,
      s\<lparr>se_seq := next_mod256 (se_seq s)\<rparr>)"
    using l(1) by (simp add: build_ndata_def Let_def)
  then show ?thesis
    using pst l by (simp add: deliver_def ingest_def apply_data_def Let_def received_def in_step_def knows_def)
qed

lemma deliver_all_in_step:
  assumes "in_step ns key s st" "\<forall>d\<in>set ds. tag_names cfg d \<subseteq> ns \<and> (\<forall>t\<in>set d. settable cfg t)"
  shows "map received (fst (deliver_all cfg key ds s st)) = map (\<lambda>d. Some (readings cfg d)) ds
    \<and> fst (snd (deliver_all cfg key ds s st)) = []"
  using assms
proof (induction ds arbitrary: s st)
  case (Cons d ds)
  obtain rs gs s' st' where dl: "deliver cfg key d s st = (rs, gs, s', st')" by (metis prod_cases4)
  have one: "map received rs = [Some (readings cfg d)]" "gs = []" "in_step ns key s' st'"
    using deliver_in_step [OF Cons.prems(1), of cfg d] Cons.prems(2) dl by simp_all
  show ?case using Cons.IH [OF one(3)] Cons.prems(2) one by (simp add: dl split_beta)
qed simp

text \<open>
  C22: After the decoder has ingested the agent's birth, every later data message built from
  tags whose names were born is decoded without a sequence gap, and yields exactly the
  readings of its tags, in order, under their full names and with their values: the alias
  compression loses and confuses nothing.
\<close>

theorem birth_data_roundtrip:
  assumes "build_nbirth cfg snap s = (Inr p, s')" "alias_table_ok (se_aliases s)"
    "\<forall>d\<in>set ds. tag_names cfg d \<subseteq> born_names cfg snap \<and> (\<forall>t\<in>set d. settable cfg t)"
  shows "map received (fst (deliver_all cfg key ds s' (snd (snd (ingest now key ''NBIRTH'' p st)))))
      = map (\<lambda>d. Some (readings cfg d)) ds
    \<and> fst (snd (deliver_all cfg key ds s' (snd (snd (ingest now key ''NBIRTH'' p st))))) = []"
  by (rule deliver_all_in_step [OF birth_in_step [OF assms(1,2)] assms(3)])

text \<open>Data for the witnesses: a box with one speed, one count and one text tag.\<close>

definition demo_entries :: "tag_map_entry list" where
  "demo_entries = [\<lparr>te_suffix = ''/S'', te_name = [], te_type = ''double'', te_device_key = [], te_role = []\<rparr>,
     \<lparr>te_suffix = ''/C'', te_name = [], te_type = ''long'', te_device_key = [], te_role = []\<rparr>]"

definition demo_cfg :: session_cfg where
  "demo_cfg = \<lparr>sc_resolve = resolver_resolve (new_resolver ''P'' demo_entries), sc_all_mapped = None, sc_definitive = False,
     sc_device_keys = Map.empty, sc_roles = Map.empty, sc_birth_all_mapped = False\<rparr>"

definition demo_tag :: "string \<Rightarrow> scalar \<Rightarrow> raw_tag" where
  "demo_tag m v = \<lparr>rt_endpoint = ''e'', rt_metric = m, rt_value = v, rt_type = [], rt_ts = 5, rt_quality = True, rt_param = 0\<rparr>"

lemma demo_resolve [simp]:
  "sc_resolve demo_cfg ''/S'' = Some (''P/S'', DT_Double)" "sc_resolve demo_cfg ''/C'' = Some (''P/C'', DT_Int64)"
  by (simp_all add: demo_cfg_def resolver_resolve_def new_resolver_def demo_entries_def full_name_def datatype_of_def)

lemma demo_cfg_simps [simp]: "all_mapped_set demo_cfg = None" "rt_metric (demo_tag m v) = m" "rt_value (demo_tag m v) = v"
  by (simp_all add: all_mapped_set_def demo_cfg_def demo_tag_def)

lemma birth_data_roundtrip_witness:
  "map received (fst (deliver_all demo_cfg demo_key [[demo_tag ''/C'' (ScNum (Fin 7))]]
      (snd (build_nbirth demo_cfg [demo_tag ''/C'' ScNull, demo_tag ''/S'' ScNull] new_session))
      (snd (snd (ingest 0 demo_key ''NBIRTH'' (projr (fst (build_nbirth demo_cfg [demo_tag ''/C'' ScNull, demo_tag ''/S'' ScNull] new_session)))
         new_state_store)))))
   = [Some [(''P/C'', VUint64 7)]]"
proof -
  obtain p s' where b: "build_nbirth demo_cfg [demo_tag ''/C'' ScNull, demo_tag ''/S'' ScNull] new_session = (Inr p, s')"
    by (simp add: build_nbirth_def Let_def set_value_def split_beta)
  have "tag_names demo_cfg [demo_tag ''/C'' (ScNum (Fin 7))] = {''P/C''}"
    "''P/C'' \<in> tag_names demo_cfg [demo_tag ''/C'' ScNull, demo_tag ''/S'' ScNull]"
    by (auto simp: tag_names_def)
  moreover have "alias_table_ok (se_aliases new_session)" by (simp add: new_session_def)
  ultimately show ?thesis
    using birth_data_roundtrip [OF b, of "[[demo_tag ''/C'' (ScNum (Fin 7))]]" demo_key 0 new_state_store]
    by (simp add: b born_names_def settable_def set_value_def trunc_rat_def in64_def)
qed


section \<open>Birth completeness\<close>

text \<open>
  In the birth-all-mapped posture with the agent's own resolver, one successful birth
  makes every tag the box can ever report known: no set of tags asks for a rebirth any more,
  and every name they resolve to was born, so idle lines are decodable from their first
  reading on.
\<close>

theorem birth_all_mapped_complete:
  assumes "sc_resolve cfg = resolver_resolve (new_resolver prefix es)"
    "sc_all_mapped cfg = Some (resolver_all_mapped (new_resolver prefix es))" "sc_birth_all_mapped cfg"
    "build_nbirth cfg snap s = (Inr p, s')" "alias_table_ok (se_aliases s)"
  shows "\<not> needs_rebirth cfg tags s' \<and> tag_names cfg tags \<subseteq> born_names cfg snap"
proof -
  have all_mm: "all_mapped_set cfg = Some (resolver_all_mapped (new_resolver prefix es))"
    using assms(2,3) by (simp add: all_mapped_set_def)
  have sub: "tag_names cfg ts \<subseteq> born_names cfg snap" for ts
  proof
    fix n assume "n \<in> tag_names cfg ts"
    then obtain t :: raw_tag and dt where "resolver_resolve (new_resolver prefix es) (rt_metric t) = Some (n, dt)"
      by (auto simp: tag_names_def assms(1))
    from agent_resolver.resolve_mapped [OF this] show "n \<in> born_names cfg snap"
      by (simp add: born_names_def all_mm)
  qed
  obtain ws :: "wire_metric list" where ws: "list_all (frozen (se_aliases s')) ws"
    "{n. \<exists>w\<in>set ws. wm_name w = Some n} = born_names cfg snap"
    using build_nbirth_born [OF assms(4,5), folded born_names_def] by blast
  have "has_alias n (se_aliases s')" if "n \<in> born_names cfg snap" for n
  proof -
    have "n \<in> {n. \<exists>w\<in>set ws. wm_name w = Some n}" using that by (simp only: ws(2))
    then obtain w where "w \<in> set ws" "wm_name w = Some n" by blast
    then show ?thesis using ws(1) by (auto simp: list_all_iff frozen_def has_alias_def)
  qed
  then have al: "has_alias n (se_aliases s')" if "n \<in> tag_names cfg tags" for n using sub [of tags] that by blast
  have "\<not> needs_rebirth cfg tags s'"
    using al by (auto simp: needs_rebirth_def list_ex_iff tag_names_def split: option.splits)
  then show ?thesis using sub by blast
qed

definition demo_all_cfg :: session_cfg where
  "demo_all_cfg = demo_cfg\<lparr>sc_all_mapped := Some (resolver_all_mapped (new_resolver ''P'' demo_entries)),
     sc_birth_all_mapped := True\<rparr>"

lemma birth_all_mapped_complete_witness:
  "\<not> needs_rebirth demo_all_cfg [demo_tag ''/S'' (ScNum (Fin 1))] (snd (build_nbirth demo_all_cfg [] new_session))"
proof -
  have nulls: "\<exists>ws al'. birth_all_loop cfg ts Map.empty mms al = (Inr ws, al')" for cfg ts mms al
    by (induction mms arbitrary: al) (auto simp: Let_def split_beta, metis fst_conv snd_conv sum.simps(6))
  obtain ws al where "birth_all_loop demo_all_cfg 0 Map.empty (resolver_all_mapped (new_resolver ''P'' demo_entries))
      (se_aliases new_session) = (Inr ws, al)" using nulls by blast
  then obtain p s' where "build_nbirth demo_all_cfg [] new_session = (Inr p, s')"
    by (simp add: build_nbirth_def all_mapped_set_def demo_all_cfg_def max_ts_def Let_def)
  then show ?thesis
    using birth_all_mapped_complete [of demo_all_cfg "''P''" demo_entries "[]" new_session p s'
      "[demo_tag ''/S'' (ScNum (Fin 1))]"]
    by (simp add: demo_all_cfg_def demo_cfg_def new_session_def)
qed

section \<open>Births, deaths and connections\<close>

datatype session_op = OpBirth "raw_tag list" | OpData "raw_tag list"

fun session_run :: "session_cfg \<Rightarrow> session_op list \<Rightarrow> session \<Rightarrow> session" where
  "session_run cfg [] s = s"
| "session_run cfg (OpBirth snap # ops) s = session_run cfg ops (snd (build_nbirth cfg snap s))"
| "session_run cfg (OpData d # ops) s = session_run cfg ops (snd (build_ndata cfg d s))"

lemma build_keeps [simp]:
  "se_bd_seq (snd (build_nbirth cfg snap s)) = se_bd_seq s" "se_started (snd (build_nbirth cfg snap s)) = se_started s"
  "se_bd_seq (snd (build_ndata cfg d s)) = se_bd_seq s" "se_started (snd (build_ndata cfg d s)) = se_started s"
  by (simp_all add: build_nbirth_def build_ndata_def Let_def split: prod.split)

lemma session_run_keeps [simp]: "se_bd_seq (session_run cfg ops s) = se_bd_seq s"
  "se_started (session_run cfg ops s) = se_started s"
  by (induction cfg ops s rule: session_run.induct) auto

fun connect_times :: "session_cfg \<Rightarrow> session_op list list \<Rightarrow> session \<Rightarrow> session" where
  "connect_times cfg [] s = s"
| "connect_times cfg (ops # cs) s = connect_times cfg cs (session_run cfg ops (snd (new_connection s)))"

lemma connect_times_bd:
  "se_started s \<Longrightarrow> se_bd_seq s < 256 \<Longrightarrow> se_bd_seq (connect_times cfg cs s) = (se_bd_seq s + length cs) mod 256
     \<and> se_started (connect_times cfg cs s)"
proof (induction cs arbitrary: s)
  case (Cons c cs)
  have "se_bd_seq (session_run cfg c (snd (new_connection s))) = next_mod256 (se_bd_seq s)"
    "se_started (session_run cfg c (snd (new_connection s)))"
    using Cons.prems by (simp_all add: new_connection_def Let_def)
  then show ?case using Cons.IH [of "session_run cfg c (snd (new_connection s))"]
    by (simp add: next_mod256_def mod_simps)
qed simp

text \<open>
  The n-th connection of a process has the birth/death sequence n modulo 256 (the first
  one 0), and whatever is born and sent during it, every birth of that connection ends with
  the same bdSeq metric value its Last-Will was registered with, so a death can always be
  matched to its birth.
\<close>

theorem bd_seq_pairs_death_with_birth:
  assumes "new_connection (connect_times cfg cs new_session) = (bd, s1)"
    "build_nbirth cfg snap (session_run cfg ops s1) = (Inr p, s2)"
  shows "bd = length cs mod 256
    \<and> pl_metrics (build_ndeath s1) = [bd_seq_metric bd 0]
    \<and> (\<exists>ts. last (pl_metrics p) = bd_seq_metric bd ts)"
proof -
  have bd: "bd = length cs mod 256"
  proof (cases cs)
    case Nil
    then show ?thesis using assms(1) by (simp add: new_connection_def new_session_def)
  next
    case (Cons c cs')
    define s0 where "s0 = session_run cfg c (snd (new_connection new_session))"
    have "se_started s0" "se_bd_seq s0 = 0"
      by (simp_all add: s0_def new_connection_def new_session_def)
    from connect_times_bd [of s0 cfg cs'] this
    have "se_bd_seq (connect_times cfg cs new_session) = length cs' mod 256" "se_started (connect_times cfg cs new_session)"
      by (simp_all add: Cons s0_def)
    then show ?thesis using assms(1) by (auto simp: new_connection_def Let_def Cons next_mod256_def mod_simps)
  qed
  have s1: "se_bd_seq s1 = bd" using assms(1) by (auto simp: new_connection_def Let_def)
  have "\<exists>ts. last (pl_metrics p) = bd_seq_metric (se_bd_seq (session_run cfg ops s1)) ts"
    using assms(2) by (auto simp: build_nbirth_def Let_def map_sum_def split: prod.splits sum.splits)
  then show ?thesis using bd s1 by (simp add: build_ndeath_def)
qed

lemma bd_seq_pairs_death_with_birth_witness:
  "\<exists>ts. last (pl_metrics (projr (fst (build_nbirth demo_cfg [] (session_run demo_cfg [OpData []]
      (snd (new_connection (connect_times demo_cfg [[], [OpData []]] new_session)))))))) = bd_seq_metric 2 ts"
proof -
  obtain bd s1 where c: "new_connection (connect_times demo_cfg [[], [OpData []]] new_session) = (bd, s1)" by fastforce
  obtain p s2 where b: "build_nbirth demo_cfg [] (session_run demo_cfg [OpData []] s1) = (Inr p, s2)"
    by (simp add: build_nbirth_def Let_def)
  have "length [[], [OpData []]] mod 256 = 2" by simp
  then show ?thesis
    using bd_seq_pairs_death_with_birth [OF c b] unfolding c snd_conv b fst_conv sum.sel by metis
qed

section \<open>What blocks a birth\<close>

lemma birth_seen_blocked:
  assumes "t \<in> set tags" "\<not> settable cfg t"
  shows "\<exists>e. fst (birth_seen_loop cfg ts tags al) = Inl e"
  using assms
proof (induction tags arbitrary: al)
  case (Cons x tags)
  show ?case
  proof (cases "x = t")
    case True
    then show ?thesis using Cons.prems(2)
      by (auto simp: settable_def Let_def split_beta split: option.splits prod.splits sum.splits)
  next
    case False
    then have ih: "\<exists>e. fst (birth_seen_loop cfg ts tags al') = Inl e" for al' using Cons by auto
    show ?thesis
    proof (cases "sc_resolve cfg (rt_metric x)")
      case None
      then show ?thesis using ih by simp
    next
      case (Some nd)
      obtain n dt where nd: "nd = (n, dt)" by fastforce
      obtain a b al' where al': "alias_of n al = (a, b, al')" by (metis prod_cases3)
      obtain e al'' where "birth_seen_loop cfg ts tags al' = (Inl e, al'')" using ih [of al'] by (metis prod.collapse)
      then show ?thesis by (auto simp: Some nd al' Let_def split: sum.split)
    qed
  qed
qed simp

text \<open>
  One stored tag whose value does not fit its configured datatype (text on a number, a
  number on a boolean) makes every birth of the seen-only posture fail, whatever the other
  tags are, until that tag gets another value: the whole edge node stays unborn.
\<close>

theorem bad_value_blocks_birth:
  assumes "all_mapped_set cfg = None" "t \<in> set snap" "\<not> settable cfg t"
  shows "\<exists>e s'. build_nbirth cfg snap s = (Inl e, s')"
proof -
  obtain e al where "birth_seen_loop cfg (max_ts snap) snap (se_aliases s) = (Inl e, al)"
    using birth_seen_blocked [OF assms(2,3), of "max_ts snap" "se_aliases s"] by (metis prod.collapse)
  then show ?thesis by (simp add: build_nbirth_def assms(1) Let_def)
qed

lemma bad_value_blocks_birth_witness:
  "\<exists>e s'. build_nbirth demo_cfg [demo_tag ''/S'' (ScNum (Fin 3)), demo_tag ''/C'' (ScStr ''x'')] new_session = (Inl e, s')"
  by (rule bad_value_blocks_birth [of _ "demo_tag ''/C'' (ScStr ''x'')"])
    (simp_all add: settable_def set_value_def)

text \<open>
  A birth that fails part-way has already given an alias to the tags before the
  failure, so the rebirth test no longer asks for one; but no birth announced the alias,
  and a decoder that does not know it rejects the data message.
\<close>

theorem failed_birth_hides_new_tag:
  assumes "all_mapped_set cfg = None" "sc_resolve cfg (rt_metric t) = Some (n, dt)" "settable cfg t"
    "build_nbirth cfg (t # snap) s = (Inl e, s')" "alias_table_ok (se_aliases s)"
    "st key = Some pst" "\<forall>a. al_by_name (se_aliases s') n = Some a \<longrightarrow> pst_aliases pst a = None"
  shows "\<not> needs_rebirth cfg [t] s'
    \<and> (\<exists>a. fst (deliver cfg key [t] s' st) = [Inl (UnknownAlias key a)])"
proof -
  obtain v where v: "set_value n dt (rt_value t) = Inr v"
    using assms(2,3) by (auto simp: settable_def split: sum.splits)
  obtain a b al1 where al1: "alias_of n (se_aliases s) = (a, b, al1)" by (metis prod_cases3)
  obtain r al2 where l: "birth_seen_loop cfg (max_ts (t # snap)) snap al1 = (r, al2)" by fastforce
  have ok1: "alias_table_ok al1" using alias_of_ok [OF assms(5), of n] by (simp add: al1)
  have n1: "al_by_name al1 n = Some a" using alias_of_lookup [of n "se_aliases s"] by (simp add: al1)
  have n2: "al_by_name al2 n = Some a"
    using birth_seen_loop_aliases [OF l ok1] n1 by (simp add: al_le_def)
  have s': "se_aliases s' = al2"
    using assms(4) by (cases r) (auto simp: build_nbirth_def assms(1,2) Let_def al1 v l)
  have unk: "pst_aliases pst a = None" using assms(7) n2 s' by simp
  have al: "alias_of n al2 = (a, False, al2)" using n2 by (simp add: alias_of_def)
  have "\<not> needs_rebirth cfg [t] s'"
    using n2 by (simp add: needs_rebirth_def assms(2) s' has_alias_def)
  moreover have "fst (deliver cfg key [t] s' st) = [Inl (UnknownAlias key a)]"
    using assms(6) unk
    by (simp add: deliver_def build_ndata_def Let_def assms(2) s' al v ingest_def apply_data_def empty_metric_def)
  ultimately show ?thesis by blast
qed

lemma failed_birth_hides_new_tag_witness:
  "\<exists>a. fst (deliver demo_cfg demo_key [demo_tag ''/C'' (ScNum (Fin 7))]
     (snd (build_nbirth demo_cfg [demo_tag ''/C'' (ScNum (Fin 7)), demo_tag ''/S'' (ScStr ''x'')] new_session))
     (apply_birth 0 demo_key \<lparr>pl_timestamp = None, pl_seq = Some 0, pl_metrics = []\<rparr> new_state_store)) = [Inl (UnknownAlias demo_key a)]"
proof -
  define s' where "s' = snd (build_nbirth demo_cfg [demo_tag ''/C'' (ScNum (Fin 7)), demo_tag ''/S'' (ScStr ''x'')] new_session)"
  obtain e where b: "build_nbirth demo_cfg [demo_tag ''/C'' (ScNum (Fin 7)), demo_tag ''/S'' (ScStr ''x'')] new_session = (Inl e, s')"
    by (simp add: s'_def build_nbirth_def Let_def set_value_def split_beta)
  have "\<exists>a. fst (deliver demo_cfg demo_key [demo_tag ''/C'' (ScNum (Fin 7))] s'
     (apply_birth 0 demo_key \<lparr>pl_timestamp = None, pl_seq = Some 0, pl_metrics = []\<rparr> new_state_store)) = [Inl (UnknownAlias demo_key a)]"
    using failed_birth_hides_new_tag [OF demo_cfg_simps(1) _ _ b, of "''P/C''" DT_Int64
      "apply_birth 0 demo_key \<lparr>pl_timestamp = None, pl_seq = Some 0, pl_metrics = []\<rparr> new_state_store" demo_key]
    by (simp add: settable_def set_value_def new_session_def apply_birth_def birth_aliases_def)
  then show ?thesis by (simp add: s'_def)
qed

section \<open>Declarations\<close>

text \<open>
  With the definitive birth on, a built birth whose counters all have an opaque declared
  device key projects to a declaration that passes validation, as soon as the group and the
  node are named and at least one born name is a counter leaf.
\<close>

theorem definitive_birth_validates:
  assumes "build_nbirth cfg snap s = (Inr p, s')" "alias_table_ok (se_aliases s)" "all_mapped_set cfg = None"
    "sc_definitive cfg" "trim_space g \<noteq> []" "trim_space node \<noteq> []"
    "\<forall>n\<in>tag_names cfg snap. parse_counter_leaf n \<noteq> None \<longrightarrow> opaque_device_key (get_or [] (sc_device_keys cfg n))"
    "\<exists>n\<in>tag_names cfg snap. parse_counter_leaf n \<noteq> None"
  shows "validate_declaration (declaration_from_nbirth g node p) = None"
proof -
  obtain r al where l: "birth_seen_loop cfg (max_ts snap) snap (se_aliases s) = (r, al)" by fastforce
  obtain ws where ws: "r = Inr ws" "pl_metrics p = ws @ [bd_seq_metric (se_bd_seq s) (max_ts snap)]"
    using assms(1) l by (cases r) (auto simp: build_nbirth_def assms(3) Let_def)
  note b = birth_seen_loop_aliases [OF l assms(2)]
  have names: "{n. \<exists>w\<in>set ws. wm_name w = Some n} = tag_names cfg snap" and fr: "list_all (frozen al) ws"
    and ok: "alias_table_ok al" using b ws(1) by (auto simp: tag_names_def)
  have props: "wm_properties w = metric_props n (get_or [] (sc_device_keys cfg n)) (get_or [] (sc_roles cfg n))"
    if "w \<in> set ws" "wm_name w = Some n" for w n
    using birth_seen_loop_props [OF l [unfolded ws(1)] that(1)] that(2) assms(4) by (simp add: birth_properties_def)
  have bd: "read_props (bd_seq_metric (se_bd_seq s) (max_ts snap)) = None"
    by (simp add: read_props_def bd_seq_metric_def empty_metric_def)
  have good: "\<forall>m\<in>set (pl_metrics p). \<forall>bp. read_props m = Some bp \<longrightarrow>
      opaque_device_key (bp_device_key bp) \<and> bp_role bp \<in> set valid_roles \<and> 1 \<le> get_or 0 (wm_alias m)"
  proof (intro ballI allI impI)
    fix m bp assume m: "m \<in> set (pl_metrics p)" "read_props m = Some bp"
    then have w: "m \<in> set ws" using bd by (auto simp: ws)
    then obtain n a where na: "wm_name m = Some n" "wm_alias m = Some a" "al_by_name al n = Some a"
      using fr by (auto simp: list_all_iff frozen_def)
    have n: "n \<in> tag_names cfg snap" using names w na by blast
    from m(2) obtain leaf where leaf: "parse_counter_leaf n = Some leaf"
      "bp = \<lparr>bp_role = lf_role leaf, bp_source_ref = lf_source_ref leaf,
         bp_device_key = trim_space (get_or [] (sc_device_keys cfg n))\<rparr>"
      unfolding read_props_metric_props [OF props [OF w na(1)]] by (auto split: option.splits)
    have "opaque_device_key (get_or [] (sc_device_keys cfg n))" using assms(7) n leaf(1) by simp
    then show "opaque_device_key (bp_device_key bp) \<and> bp_role bp \<in> set valid_roles \<and> 1 \<le> get_or 0 (wm_alias m)"
      using leaf parse_counter_leaf_role [OF leaf(1)] na ok by (auto simp: opaque_key_trim alias_table_ok_def)
  qed
  obtain n where n: "n \<in> tag_names cfg snap" "parse_counter_leaf n \<noteq> None" using assms(8) by blast
  then obtain w where w: "w \<in> set ws" "wm_name w = Some n" using names by blast
  have "read_props w \<noteq> None"
    unfolding read_props_metric_props [OF props [OF w]] using n(2) by auto
  then have ne: "dc_devices (declaration_from_nbirth g node p) \<noteq> []"
    unfolding declaration_from_nbirth_def using w(1) fold_devices_neq_Nil [of "[]" "pl_metrics p"] by (auto simp: ws)
  have "list_all good_device (dc_devices (declaration_from_nbirth g node p))"
    unfolding declaration_from_nbirth_def using declaration_devices_good [OF good, of "[]"] by simp
  then show ?thesis using ne assms(5,6) validate_devices_good
    by (simp add: validate_declaration_def declaration_from_nbirth_def)
qed

definition demo_birth_cfg :: session_cfg where
  "demo_birth_cfg = \<lparr>sc_resolve = (\<lambda>s. if s = ''C'' then Some (''E/L/Admin/ProdConsumedCount/61/Unit'', DT_Int64) else None),
     sc_all_mapped = None, sc_definitive = True,
     sc_device_keys = [''E/L/Admin/ProdConsumedCount/61/Unit'' \<mapsto> ''dk_0123456789abcdef0123456789abcdef''],
     sc_roles = Map.empty, sc_birth_all_mapped = False\<rparr>"

lemma definitive_birth_validates_witness:
  "\<exists>p s'. build_nbirth demo_birth_cfg [demo_tag ''C'' (ScNum (Fin 7))] new_session = (Inr p, s')
     \<and> validate_declaration (declaration_from_nbirth ''G'' ''N'' p) = None"
proof -
  obtain p s' where b: "build_nbirth demo_birth_cfg [demo_tag ''C'' (ScNum (Fin 7))] new_session = (Inr p, s')"
    by (simp add: build_nbirth_def Let_def set_value_def split_beta all_mapped_set_def demo_birth_cfg_def)
  have n: "tag_names demo_birth_cfg [demo_tag ''C'' (ScNum (Fin 7))] = {''E/L/Admin/ProdConsumedCount/61/Unit''}"
    by (auto simp: tag_names_def demo_birth_cfg_def)
  have leaf: "parse_counter_leaf ''E/L/Admin/ProdConsumedCount/61/Unit'' \<noteq> None" by code_simp
  have key: "opaque_device_key ''dk_0123456789abcdef0123456789abcdef''" by code_simp
  have tr: "trim_space ''G'' \<noteq> []" "trim_space ''N'' \<noteq> []" by code_simp+
  have cfg: "sc_device_keys demo_birth_cfg ''E/L/Admin/ProdConsumedCount/61/Unit'' = Some ''dk_0123456789abcdef0123456789abcdef''"
    "sc_definitive demo_birth_cfg" "all_mapped_set demo_birth_cfg = None"
    by (simp_all add: demo_birth_cfg_def all_mapped_set_def)
  have "validate_declaration (declaration_from_nbirth ''G'' ''N'' p) = None"
    by (rule definitive_birth_validates [OF b _ _ _ tr])
      (use leaf key cfg in \<open>simp_all add: n new_session_def\<close>)
  with b show ?thesis by blast
qed

end
