(* ===== verification/CalcTypes.thy ===== *)
theory CalcTypes
  imports CalcProps
begin

text \<open>
  Type safety of the calculation: every integer it stores or emits is an \<open>int64\<close> and every
  float it puts on a metric is finite, for any message and any topic.
\<close>

definition ints_ok :: "mem_state \<Rightarrow> bool" where
  "ints_ok s \<longleftrightarrow> (\<forall>k v. ms_ints s k = Some v \<longrightarrow> in64 v)"

fun write_ok :: "state_write \<Rightarrow> bool" where
  "write_ok (SetInt k v) = in64 v" | "write_ok w = True"

definition writes_ok :: "state_write list \<Rightarrow> bool" where
  "writes_ok ws \<longleftrightarrow> (\<forall>w\<in>set ws. write_ok w)"

definition metric_ok :: "metric \<Rightarrow> bool" where
  "metric_ok m \<longleftrightarrow> in64 (mt_value m) \<and> in64 (mt_counter m) \<and> finite_f64 (mt_curspeed m)"

definition muts_ok :: "state_mutation list \<Rightarrow> bool" where
  "muts_ok us \<longleftrightarrow> (\<forall>m\<in>set us. write_ok (mut_write m))"

fun in64_triple :: "triple \<Rightarrow> bool" where
  "in64_triple (p, c, d) \<longleftrightarrow> in64 p \<and> in64 c \<and> in64 d"

lemma muts_ok_simps [simp]: "muts_ok []" "muts_ok (m # us) \<longleftrightarrow> write_ok (mut_write m) \<and> muts_ok us"
  "muts_ok (us @ vs) \<longleftrightarrow> muts_ok us \<and> muts_ok vs"
  by (auto simp: muts_ok_def)

lemma writes_ok_Nil [simp]: "writes_ok []"
  by (simp add: writes_ok_def)

lemma ints_ok_int0 [simp]: "ints_ok s \<Longrightarrow> in64 (int0 s k)"
  by (cases "ms_ints s k") (auto simp: int0_def ints_ok_def)

lemma ints_ok_write: "ints_ok s \<Longrightarrow> write_ok w \<Longrightarrow> ints_ok (apply_write w s)"
  by (cases w) (auto simp: ints_ok_def mem_set_defs)

lemma ints_ok_writes: "ints_ok s \<Longrightarrow> (\<forall>w\<in>set ws. write_ok w) \<Longrightarrow> ints_ok (fold apply_write ws s)"
  by (induction ws arbitrary: s) (auto simp: ints_ok_write)

lemma round_finite [simp]: "finite_f64 (round1 x)" "finite_f64 (round2 x)"
proof -
  have "in64 (to_int64 y)" for y by (cases y) (auto simp: in64_def)
  then show "finite_f64 (round1 x)" "finite_f64 (round2 x)"
    by (simp_all add: round1_def round2_def fdiv_int_finite)
qed

lemma to_int64_in64 [simp]: "in64 (to_int64 y)"
  by (cases y) (auto simp: in64_def)

lemma clamp_in64: "in64 i \<Longrightarrow> in64 (fst (clamp_spike_increment i r t m))"
  by (simp add: clamp_spike_increment_def Let_def)

lemma in64_65536 [simp]: "in64 65536" by (simp add: in64_def)

lemma phase0_in64: "in64 (m_payload msg) \<Longrightarrow> in64 (payload_of msg)"
  by (auto simp: payload_of_def calc_phase0_def normalize_uint16_def)

lemma advance_in64: "in64 p \<Longrightarrow> in64 (fst (advance_counter p c cm cfg))"
  by (auto simp: advance_counter_def rollover_adjusted_prev_def handle_counter_drop_def split: bool.split)

lemma in64_if: "in64 x \<Longrightarrow> in64 y \<Longrightarrow> in64 (if b then x else y)"
  by simp

lemma trig_in64:
  assumes "in64_triple (p, c, d)" "in64_triple (pp, pc, pd)" "ints_ok s"
  shows "in64_triple (fst (apply_trig_corrections p c d pp pc pd fl s tc td))"
    and "\<forall>w\<in>set (snd (apply_trig_corrections p c d pp pc pd fl s tc td)). write_ok w"
proof -
  have i: "in64 p" "in64 c" "in64 d" "in64 pp" "in64 pc" "in64 pd" "in64 (int0 s k)" for k using assms by simp_all
  show "in64_triple (fst (apply_trig_corrections p c d pp pc pd fl s tc td))"
    unfolding apply_trig_corrections_def Let_def
    by (cases "trig_co fl"; simp only: if_True if_False fst_conv in64_triple.simps; intro conjI in64_if in64_ops in64_0 i)
  show "\<forall>w\<in>set (snd (apply_trig_corrections p c d pp pc pd fl s tc td)). write_ok w"
    unfolding apply_trig_corrections_def Let_def
    by (cases "trig_co fl"; simp only: if_True if_False snd_conv list.set ball_simps write_ok.simps simp_thms;
      intro conjI in64_if in64_ops in64_0 i)
qed

lemma phase4_in64:
  assumes "in64_triple (cx_cur cx)" "in64_triple (cx_prev cx)" "ints_ok s"
  shows "in64_triple (fst (calc_phase4 cx s))" "\<forall>w\<in>set (snd (calc_phase4 cx s)). write_ok w"
  using assms trig_in64 by (cases "cx_cur cx"; cases "cx_prev cx"; simp add: calc_phase4_def)+

lemma spike_in64:
  assumes "in64_triple incr"
  shows "in64_triple (fst (spike_guard cx s incr enr))" "muts_ok (snd (snd (spike_guard cx s incr enr)))"
  using assms clamp_in64 by (cases incr; simp add: spike_guard_def Let_def split_beta)+

lemma phase5_in64:
  assumes "in64_triple cur" "ints_ok s"
  shows "muts_ok (calc_phase5 cx s cur ic)"
  using assms by (cases cur) (simp add: calc_phase5_def write_non_negative_def Let_def)

lemma speed_in64: "muts_ok (snd (compute_speed s un ts ic))"
  by (simp add: compute_speed_def Let_def)

lemma multiplier_in64: "in64_triple i \<Longrightarrow> in64_triple (fst (apply_multiplier s un i sp))"
  by (cases i) (auto simp: apply_multiplier_def split: option.split)

lemma unit_metric_ok [simp]: "metric_ok (unit_metric cx n v c) \<longleftrightarrow> in64 v \<and> in64 c"
  "metric_ok (unit_metric cx n v c\<lparr>mt_curspeed := x\<rparr>) \<longleftrightarrow> in64 v \<and> in64 c \<and> finite_f64 x"
  by (auto simp: metric_ok_def unit_metric_def)

lemma phase8_in64:
  assumes "in64_triple cur" "in64_triple incr" "m \<in> set (p8_metrics (calc_phase8 cx s cur incr sp ms b))"
  shows "metric_ok m"
  using assms by (cases cur; cases incr)
    (auto simp: calc_phase8_def Let_def split: if_splits)

definition metrics_ok :: "metric list \<Rightarrow> bool" where
  "metrics_ok ms \<longleftrightarrow> (\<forall>m\<in>set ms. metric_ok m)"

lemma metrics_ok_simps [simp]: "metrics_ok []" "metrics_ok (m # ms) \<longleftrightarrow> metric_ok m \<and> metrics_ok ms"
  "metrics_ok (ms @ ns) \<longleftrightarrow> metrics_ok ms \<and> metrics_ok ns"
  by (auto simp: metrics_ok_def)

lemma line_metric_ok [simp]: "metric_ok (line_metric p n v c) \<longleftrightarrow> in64 v \<and> in64 c"
  "metric_ok (line_metric p n v c\<lparr>mt_curspeed := x\<rparr>) \<longleftrightarrow> in64 v \<and> in64 c \<and> finite_f64 x"
  by (auto simp: metric_ok_def line_metric_def)

lemma phase9_blocks_in64:
  assumes "in64 (p9_cons_incr p)" "in64 (p9_proc_incr p)" "in64 (p9_cur_consumed p)" "in64 (p9_cur_processed p)" "ints_ok s"
  shows "metrics_ok (fst (phase9_first p s l))" "muts_ok (snd (phase9_first p s l))"
    "metrics_ok (fst (phase9_last p s l b))" "muts_ok (snd (phase9_last p s l b))"
    "metrics_ok (fst (phase9_defective p s l))" "muts_ok (snd (phase9_defective p s l))"
  using assms by (simp_all add: phase9_first_def phase9_last_def phase9_defective_def Let_def split: option.split)

lemma phase9_candidate_in64:
  assumes "in64 (p9_cons_incr p)" "in64 (p9_proc_incr p)" "in64 (p9_cur_consumed p)" "in64 (p9_cur_processed p)" "ints_ok s"
  shows "metrics_ok (fst (phase9_candidate p s i l))" "muts_ok (snd (phase9_candidate p s i l))"
  using phase9_blocks_in64 [OF assms]
  by (cases "ms_strings s (l @ ''/Status/Parameter30700'')"; simp add: phase9_candidate_def Let_def split_beta)+

lemma phase9_in64:
  assumes "in64 (p9_cons_incr p)" "in64 (p9_proc_incr p)" "in64 (p9_cur_consumed p)" "in64 (p9_cur_processed p)" "ints_ok s"
  shows "\<forall>m\<in>set (fst (run_phase9 p s)). metric_ok m" "muts_ok (snd (run_phase9 p s))"
proof -
  note c = phase9_candidate_in64 [OF assms]
  have mu: "write_ok (mut_write m)" if "m \<in> set (snd (phase9_candidate p s i l))" for m i l
    using c(2) that by (auto simp: muts_ok_def)
  have me: "metric_ok m" if "m \<in> set (fst (phase9_candidate p s i l))" for m i l
    using c(1) that by (auto simp: metrics_ok_def)
  show "\<forall>m\<in>set (fst (run_phase9 p s)). metric_ok m" using me by (auto simp: run_phase9_def Let_def)
  show "muts_ok (snd (run_phase9 p s))" using mu by (auto simp: muts_ok_def run_phase9_def Let_def)
qed

lemma phase10_in64: "\<forall>m\<in>set (fst (calc_phase10 cx s t)). metric_ok m" "muts_ok (snd (calc_phase10 cx s t))"
  by (auto simp: calc_phase10_def status_metric_for_def register_status_topic_def metric_ok_def Let_def
      in64_def split: option.split)

lemma pick_in64: "in64_triple t \<Longrightarrow> in64 (pick k t)"
  by (cases t; cases k) auto

lemma set_triple_in64: "in64_triple t \<Longrightarrow> in64 v \<Longrightarrow> in64_triple (set_triple k v t)"
  by (cases t; cases k) auto

lemma increments_in64 [simp]: "in64_triple (increments a b)"
  by (cases a; cases b) (simp add: increments_def)

section \<open>The whole call\<close>

lemma calc_count_metrics_shape:
  "m \<in> set (metrics (fst (calc_count cx enr us0 s0))) \<Longrightarrow>
   \<exists>s cur incr sp ms b p st. s = fold apply_write (snd (calc_phase4 cx s0)) s0 \<and> cur = fst (calc_phase4 cx s0)
     \<and> in64_triple incr
     \<and> p9_cons_incr p = pick Consumed incr \<and> p9_proc_incr p = pick Processed incr
     \<and> p9_cur_consumed p = pick Consumed cur \<and> p9_cur_processed p = pick Processed cur
     \<and> (m \<in> set (p8_metrics (calc_phase8 cx s cur incr sp ms b)) \<or> m \<in> set (fst (run_phase9 p s))
        \<or> m \<in> set (fst (calc_phase10 cx s st)))"
proof -
  define s where "s = fold apply_write (snd (calc_phase4 cx s0)) s0"
  define cur where "cur = fst (calc_phase4 cx s0)"
  obtain x0 e0 u0 where sg: "spike_guard cx s (increments cur (cx_prev cx)) (debug_fields (cx_cur cx) (cx_prev cx)
      (increments (cx_cur cx) (cx_prev cx)) enr) = (x0, e0, u0)" by (metis prod_cases3)
  have x0: "in64_triple x0" using spike_in64(1) [of "increments cur (cx_prev cx)" cx s] by (metis fst_conv sg increments_in64)
  define incr where "incr = fst (apply_multiplier s (cx_unit cx) x0 (fst (compute_speed s (cx_unit cx) (cx_ts cx) (pick Consumed x0))))"
  have "in64_triple incr" unfolding incr_def by (rule multiplier_in64 [OF x0])
  assume "m \<in> set (metrics (fst (calc_count cx enr us0 s0)))"
  then have "\<exists>sp ms b p st. p9_cons_incr p = pick Consumed incr \<and> p9_proc_incr p = pick Processed incr
     \<and> p9_cur_consumed p = pick Consumed cur \<and> p9_cur_processed p = pick Processed cur
     \<and> (m \<in> set (p8_metrics (calc_phase8 cx s cur incr sp ms b)) \<or> m \<in> set (fst (run_phase9 p s))
        \<or> m \<in> set (fst (calc_phase10 cx s st)))"
    unfolding calc_count_def Let_def split_beta
    by (simp add: sg flip: s_def cur_def incr_def) (metis phase9_input.select_convs)
  then show ?thesis using \<open>in64_triple incr\<close> unfolding s_def cur_def by blast
qed

lemma calc_count_in64:
  assumes "in64_triple (cx_cur cx)" "in64_triple (cx_prev cx)" "ints_ok s0" "muts_ok us0"
  shows "metrics_ok (metrics (fst (calc_count cx enr us0 s0)))" "muts_ok (updates (fst (calc_count cx enr us0 s0)))"
    "writes_ok (snd (calc_count cx enr us0 s0))"
proof -
  note p4 = phase4_in64 [OF assms(1-3)]
  show "writes_ok (snd (calc_count cx enr us0 s0))"
    using p4(2) unfolding calc_count_def Let_def split_beta by (simp add: writes_ok_def)
  define s where "s = fold apply_write (snd (calc_phase4 cx s0)) s0"
  have s: "ints_ok s" unfolding s_def by (rule ints_ok_writes [OF assms(3) p4(2)])
  show "metrics_ok (metrics (fst (calc_count cx enr us0 s0)))"
    unfolding metrics_ok_def
  proof
    fix m assume "m \<in> set (metrics (fst (calc_count cx enr us0 s0)))"
    from calc_count_metrics_shape [OF this] obtain incr sp ms b p st where i: "in64_triple incr"
      "p9_cons_incr p = pick Consumed incr" "p9_proc_incr p = pick Processed incr"
      "p9_cur_consumed p = pick Consumed (fst (calc_phase4 cx s0))"
      "p9_cur_processed p = pick Processed (fst (calc_phase4 cx s0))"
      and m: "m \<in> set (p8_metrics (calc_phase8 cx s (fst (calc_phase4 cx s0)) incr sp ms b)) \<or> m \<in> set (fst (run_phase9 p s))
        \<or> m \<in> set (fst (calc_phase10 cx s st))" unfolding s_def by blast
    have "\<forall>m\<in>set (fst (run_phase9 p s)). metric_ok m"
      by (rule phase9_in64(1)) (simp_all add: i pick_in64 p4(1) s)
    then show "metric_ok m" using m phase8_in64 [OF p4(1) i(1)] phase10_in64(1) by blast
  qed
  define incr0 where "incr0 = increments (fst (calc_phase4 cx s0)) (cx_prev cx)"
  define en where "en = debug_fields (cx_cur cx) (cx_prev cx) (increments (cx_cur cx) (cx_prev cx)) enr"
  have sg: "in64_triple (fst (spike_guard cx s incr0 en))" "muts_ok (snd (snd (spike_guard cx s incr0 en)))"
    by (simp_all add: spike_in64 incr0_def)
  have p9: "muts_ok (snd (run_phase9 p s))" if "in64 (p9_cons_incr p)" "in64 (p9_proc_incr p)"
    "in64 (p9_cur_consumed p)" "in64 (p9_cur_processed p)" for p by (rule phase9_in64(2) [OF that s])
  show "muts_ok (updates (fst (calc_count cx enr us0 s0)))"
    unfolding calc_count_def Let_def split_beta
    by (simp add: assms(4) sg phase5_in64 [OF p4(1)] s speed_in64 phase10_in64(2) flip: s_def incr0_def en_def)
      (rule p9; simp add: pick_in64 multiplier_in64 sg p4(1))
qed

lemma metrics_ok_decisions [simp]: "muts_ok (updates (seed_decision enr us kd reason key v)) \<longleftrightarrow> muts_ok us \<and> in64 (if v < 0 then 0 else v)"
  by (simp add: seed_updates)

text \<open>Any message keeps the State typed and emits well-typed metrics.\<close>

lemma calc_in64:
  assumes "ints_ok s" "in64 (m_payload msg)"
  shows "metrics_ok (metrics (fst (calc_with_config cfg now msg s)))" "muts_ok (updates (fst (calc_with_config cfg now msg s)))"
    "writes_ok (snd (calc_with_config cfg now msg s))"
proof -
  obtain msg' enr where p0: "calc_phase0 msg = (msg', enr)" by fastforce
  have pay: "in64 (m_payload msg')" using phase0_in64 [OF assms(2)] by (simp add: payload_of_def p0)
  have "metrics_ok (metrics (fst (calc_with_config cfg now msg s))) \<and> muts_ok (updates (fst (calc_with_config cfg now msg s)))
    \<and> writes_ok (snd (calc_with_config cfg now msg s))"
  proof (cases "parse_topic_full (m_topic msg')")
    case None
    then show ?thesis by (simp add: calc_with_config_def p0 seed_updates)
  next
    case (Some r)
    obtain un k fl where r: "r = (un, k, fl)" by (metis prod_cases3)
    define tops where "tops = sibling_topics (strip_trigger_suffix (m_topic msg')) k"
    define prev where "prev = (int0 s (pick Processed tops), int0 s (pick Consumed tops), int0 s (pick Defective tops))"
    have prev: "in64_triple prev" using assms(1) by (simp add: prev_def)
    obtain np send reset where adv: "advance_counter (pick k prev) (m_payload msg')
        (int0 s (un @ ''/Status/CounterMax'')) cfg = (np, send, reset)" by (metis prod_cases3)
    have np: "in64 np" using advance_in64 [OF pick_in64 [OF prev], of k "m_payload msg'"] adv by (metis fst_conv)
    show ?thesis
      unfolding calc_with_config_def p0
      using set_triple_in64 [OF prev pay, of k] set_triple_in64 [OF prev np, of k] pay
      by (simp add: Some r Let_def adv seed_updates calc_count_in64 assms(1) flip: tops_def prev_def)
  qed
  then show "metrics_ok (metrics (fst (calc_with_config cfg now msg s)))" "muts_ok (updates (fst (calc_with_config cfg now msg s)))"
    "writes_ok (snd (calc_with_config cfg now msg s))" by blast+
qed



end
