(* ===== verification/EdgeProps.thy ===== *)
theory EdgeProps
  imports EdgeTransformer SessionProps CalcTypes
begin

text \<open>
  The message handler end to end: what reaches the analytics flow, how it relates to the
  movement of the machine's totalizer, and the three ways a delta can be lost or falsified
  between a correct calculation and the queue.
\<close>

section \<open>Counters through the handler\<close>

lemma counter_topic_kind:
  assumes "good_unit u" "k \<noteq> KindUnknown"
  shows "is_counter_metric_name (counter_topic u k) = k"
  using counter_topic_contains [OF assms, of Processed] counter_topic_contains [OF assms, of Consumed]
    counter_topic_contains [OF assms, of Defective] assms(2)
  by (cases k) (simp_all add: is_counter_metric_name_def)

lemma counter_topic_last: "last (counter_topic u k) = CHR ''t''"
  by (simp add: counter_topic_expand path_Cons)

lemma has_suffix_last: "has_suffix s t \<Longrightarrow> s \<noteq> [] \<Longrightarrow> last t = last s"
  by (auto simp: has_suffix_def) (metis append_take_drop_id diff_diff_cancel last_appendR)

lemma counter_not_seed: "rm_name m = counter_topic u k \<Longrightarrow> seed_from_metric m = None"
proof -
  assume n: "rm_name m = counter_topic u k"
  have "\<not> has_suffix s (counter_topic u k)" if "s \<noteq> []" "last s \<noteq> CHR ''t''" for s
    using has_suffix_last [OF _ that(1)] counter_topic_last that(2) by metis
  then show ?thesis by (simp add: seed_from_metric_def n Let_def)
qed

text \<open>A configuration without per-unit rates and margins: the messages it builds are plain.\<close>

definition plain_hooks :: "calc_hooks \<Rightarrow> string \<Rightarrow> bool" where
  "plain_hooks h name \<longleftrightarrow> ch_on h \<and> ch_durable h \<and> ch_cfg h = rules_off \<and> ch_ideal_rates h = []
     \<and> ch_spike_margin_default h = Fin 0 \<and> ch_spike_margins h = Map.empty
     \<and> name \<notin> set (ch_uint16_counters h) \<and> ch_reset_heal h \<and> ch_no_speed_guard_fallback h"

lemma shadow_message_plain:
  assumes "plain_hooks h (counter_topic u k)" "0 < v" "in64 v"
  shows "plain_message u k (shadow_message h tenant (counter_topic u k) v ts)"
    and "m_payload (shadow_message h tenant (counter_topic u k) v ts) = v"
  using assms by (auto simp: plain_hooks_def shadow_message_def plain_message_def Let_def positive_entry_def
      split: option.split)

definition counter_reading :: "unit_id \<Rightarrow> counter_kind \<Rightarrow> resolved_metric \<Rightarrow> bool" where
  "counter_reading u k m \<longleftrightarrow> rm_name m = counter_topic u k
     \<and> (\<exists>v. metric_as_int (rm_value m) = Some v \<and> 0 < v \<and> in64 v)"

definition reading_of :: "resolved_metric \<Rightarrow> int" where
  "reading_of m = get_or 0 (metric_as_int (rm_value m))"

definition messages_of :: "calc_hooks \<Rightarrow> string \<Rightarrow> resolved_metric list \<Rightarrow> message list" where
  "messages_of h tenant ms = map (\<lambda>m. shadow_message h tenant (rm_name m) (reading_of m) (source_time m)) ms"

lemma shadow_all_run:
  assumes "good_unit u" "k \<noteq> KindUnknown" "list_all (counter_reading u k) ms"
  shows "shadow_all h now tenant ms t = tracked_calc_run (ch_cfg h) now (messages_of h tenant ms) t"
  using assms(3)
proof (induction ms arbitrary: t)
  case (Cons m ms)
  then have m: "rm_name m = counter_topic u k" "metric_as_int (rm_value m) = Some (reading_of m)"
    by (auto simp: counter_reading_def reading_of_def)
  have "run_shadow h now tenant m (source_time m) t
      = tracked_calc_step (ch_cfg h) now (shadow_message h tenant (rm_name m) (reading_of m) (source_time m)) t"
    using m(2) assms(2) by (simp add: run_shadow_def counter_not_seed [OF m(1)] m(1) counter_topic_kind [OF assms(1,2)])
  then show ?case using Cons by (simp add: messages_of_def)
qed (simp add: messages_of_def)

lemma messages_of_plain:
  assumes "plain_hooks h (counter_topic u k)" "list_all (counter_reading u k) ms"
  shows "\<forall>m\<in>set (messages_of h tenant ms). plain_message u k m"
    "map m_payload (messages_of h tenant ms) = map reading_of ms"
proof -
  have each: "plain_message u k (shadow_message h tenant (rm_name m) (reading_of m) (source_time m))
      \<and> m_payload (shadow_message h tenant (rm_name m) (reading_of m) (source_time m)) = reading_of m"
    if "m \<in> set ms" for m
  proof -
    have "rm_name m = counter_topic u k" "0 < reading_of m" "in64 (reading_of m)"
      using assms(2) that by (auto simp: list_all_iff counter_reading_def reading_of_def)
    then show ?thesis using shadow_message_plain [OF assms(1)] by simp
  qed
  then show "\<forall>m\<in>set (messages_of h tenant ms). plain_message u k m"
    "map m_payload (messages_of h tenant ms) = map reading_of ms"
    by (auto simp: messages_of_def)
qed

section \<open>The analytics envelope\<close>

text \<open>What an envelope counts for a counter: the values of the metrics under its topic.\<close>

definition env_count :: "string \<Rightarrow> env_metric list \<Rightarrow> int" where
  "env_count name ms = sum_list (map (\<lambda>m. get_or 0 (metric_as_int (em_value m))) (filter (\<lambda>m. em_name m = name) ms))"

lemma env_count_append [simp]: "env_count n (xs @ ys) = env_count n xs + env_count n ys"
  by (simp add: env_count_def)

lemma env_count_cutover:
  assumes "good_unit u" "k \<noteq> KindUnknown"
  shows "env_count (counter_topic u k) (build_cutover_metrics False ms rs) = own_sum u k ms"
proof -
  have "filter (\<lambda>m. em_name m = counter_topic u k) (map raw_env_metric (filter (\<lambda>m. is_counter_metric_name (rm_name m) = KindUnknown) rs)) = []"
    using counter_topic_kind [OF assms] assms(2) by (auto simp: filter_empty_conv raw_env_metric_def)
  moreover have "sum_list (map (\<lambda>m. get_or 0 (metric_as_int (em_value m)))
      (filter (\<lambda>m. em_name m = counter_topic u k) (map calc_env_metric (filter (\<lambda>m. \<not> mt_line_aggregated m) ms)))) = own_sum u k ms"
    unfolding own_sum_def by (induction ms) (auto simp: calc_env_metric_def)
  ultimately show ?thesis by (simp add: build_cutover_metrics_def env_count_def)
qed

text \<open>Stamping touches neither names nor values, so neither counts nor encodability.\<close>

definition same_content :: "env_metric \<Rightarrow> env_metric \<Rightarrow> bool" where
  "same_content m m' \<longleftrightarrow> em_name m' = em_name m \<and> em_value m' = em_value m \<and> em_counter m' = em_counter m
     \<and> em_curspeed m' = em_curspeed m"

lemma stamp_content: "list_all2 same_content (ev_metrics env) (ev_metrics (stamp b t key env))"
proof (cases b)
  case None
  then show ?thesis by (simp add: stamp_def same_content_def list.rel_refl)
next
  case (Some r)
  let ?lk = "lookup_name t (pk_group key) (pk_node key)"
  obtain ms ent n mx where loop: "stamp_loop ?lk (ev_metrics env) 0 0 False = (ms, ent, n, mx)" by (metis prod_cases4)
  have "list_all2 (\<lambda>m m'. case ?lk (em_name m) of None \<Rightarrow> m' = m
      | Some b \<Rightarrow> m' = m\<lparr>em_id_equipment := Some (bn_id_equipment b), em_role := bn_declared b\<rparr>) (ev_metrics env) ms"
    using stamp_loop_spec [OF loop] by blast
  then have "list_all2 same_content (ev_metrics env) ms"
    by (rule list_all2_mono) (auto simp: same_content_def split: option.splits)
  moreover from this have "list_all2 same_content (ev_metrics env) (map (\<lambda>m. m\<lparr>em_id_equipment := None, em_role := []\<rparr>) ms)"
    unfolding list_all2_map2 by (rule list_all2_mono) (simp add: same_content_def)
  ultimately show ?thesis by (simp add: stamp_def Some loop)
qed

lemma content_count: "list_all2 same_content xs ys \<Longrightarrow> env_count n ys = env_count n xs"
  by (induction xs ys rule: list_all2_induct) (auto simp: env_count_def same_content_def)

lemma content_json:
  "list_all2 same_content (ev_metrics e) (ev_metrics e') \<Longrightarrow> json_ok e' = json_ok e"
proof -
  have "list_all2 same_content xs ys \<Longrightarrow> list_all P ys = list_all P xs"
    if "\<And>m m'. same_content m m' \<Longrightarrow> P m' = P m" for xs ys P
    by (induction xs ys rule: list_all2_induct) (auto simp: that)
  then show "list_all2 same_content (ev_metrics e) (ev_metrics e') \<Longrightarrow> json_ok e' = json_ok e"
    by (simp add: json_ok_def same_content_def)
qed

lemma calc_env_json:
  "metrics_ok ms \<Longrightarrow> list_all (counter_reading u k) rs \<Longrightarrow> good_unit u \<Longrightarrow> k \<noteq> KindUnknown \<Longrightarrow>
   json_ok (build_envelope st ts (build_cutover_metrics agg ms rs))"
proof -
  assume a: "metrics_ok ms" "list_all (counter_reading u k) rs" "good_unit u" "k \<noteq> KindUnknown"
  have "filter (\<lambda>m. is_counter_metric_name (rm_name m) = KindUnknown) rs = []"
    using a counter_topic_kind by (auto simp: filter_empty_conv list_all_iff counter_reading_def)
  then show ?thesis using a(1)
    by (auto simp: json_ok_def build_envelope_def build_cutover_metrics_def list_all_iff metrics_ok_def metric_ok_def
        calc_env_metric_def of_int64_fin)
qed

section \<open>One data message\<close>

text \<open>The configuration of the cut-over analytics flow alone.\<close>

definition cutover_only :: "edge_config \<Rightarrow> bool" where
  "cutover_only cfg \<longleftrightarrow> \<not> ec_emit_go cfg \<and> ec_emit_refactored cfg \<and> \<not> ec_emit_production cfg
     \<and> ec_cutover_refactored cfg \<and> \<not> ec_phase9_line_agg cfg"

lemma edge_batch_cutover:
  assumes "cutover_only cfg" "ch_on (ec_hooks cfg)" "metrics_ok ms" "list_all (counter_reading u k) (rp_metrics rp)"
    "good_unit u" "k \<noteq> KindUnknown"
  shows "\<exists>m. edge_batch cfg mid binds key ms rp = [m]
    \<and> env_count (counter_topic u k) (ev_metrics (oe_body (om_payload m))) = own_sum u k ms"
proof -
  define env where "env = build_envelope ''refactored'' (wrap64 (int (rp_timestamp rp))) (build_cutover_metrics False ms (rp_metrics rp))"
  have flow: "flow_envelope cfg binds key ms rp ''refactored'' = stamp (ec_binder cfg) binds key env"
    using assms(1,2) by (simp add: flow_envelope_def env_def cutover_only_def)
  note st = stamp_content [of env "ec_binder cfg" binds key]
  have "json_ok (stamp (ec_binder cfg) binds key env)"
    using content_json [OF st] calc_env_json [OF assms(3-6)] by (simp add: env_def)
  moreover have "env_count (counter_topic u k) (ev_metrics (stamp (ec_binder cfg) binds key env)) = own_sum u k ms"
    using content_count [OF st] env_count_cutover [OF assms(5,6)] by (simp add: env_def build_envelope_def)
  ultimately show ?thesis using assms(1)
    by (simp add: edge_batch_def emitted_source_types_def cutover_only_def Let_def flow)
qed

lemma tracked_run_metrics_ok:
  assumes "ints_ok (ts_inner t)" "\<forall>m\<in>set msgs. in64 (m_payload m)"
  shows "metrics_ok (fst (tracked_calc_run cfg now msgs t))"
  using assms
proof (induction msgs arbitrary: t)
  case (Cons m ms)
  have "in64 (m_payload m)" using Cons.prems by simp
  from calc_in64 [OF Cons.prems(1) this, of cfg now]
  have "metrics_ok (fst (tracked_calc_step cfg now m t))" "ints_ok (ts_inner (snd (tracked_calc_step cfg now m t)))"
    using Cons.prems(1)
    by (simp_all add: tracked_calc_step_def split_beta writes_ok_def muts_ok_def)
      (intro ints_ok_writes; simp add: ints_ok_writes)
  then show ?case using Cons by (simp add: split_beta)
qed simp

lemma edge_request_rebirth_frame:
  "edge_request_rebirth now key es = (cmds, es') \<Longrightarrow> es_store es' = es_store es \<and> es_tracked es' = es_tracked es
     \<and> es_outbox es' = es_outbox es \<and> es_binds es' = es_binds es"
  by (auto simp: edge_request_rebirth_def split: option.splits prod.splits)

text \<open>A data message whose aliases are known, in terms of the calculation and the commit.\<close>

lemma handler_data:
  assumes "mt = ''NDATA'' \<or> mt = ''DDATA''" "es_store es key = Some pst"
    "resolve_metrics key (pst_aliases pst) (pl_metrics p) = Inr rs" "ch_on (ec_hooks cfg)"
    "shadow_all (ec_hooks cfg) now (pk_group key) rs (es_tracked es) = (ms, t1)"
    "sparkplug_handler cfg now mid ok key mt (Some p) es = (res, cmds, es')"
  shows "res = HandlerOk \<and> (\<exists>rp. rp_metrics rp = rs
     \<and> (es_tracked es', es_outbox es') = edge_commit (ec_hooks cfg) now ok
         (edge_batch cfg mid (es_binds es) key ms rp) (t1, es_outbox es))"
proof -
  obtain rp gaps st' where ing: "ingest now key mt p (es_store es) = (Inr (Some rp), gaps, st')" "rp_metrics rp = rs"
    using assms(1-3) by (auto simp: ingest_def apply_data_def Let_def)
  define es0 where "es0 = es\<lparr>es_store := st'\<rparr>"
  obtain c es1 where g: "(if gaps = [] then ([], es0) else edge_request_rebirth now key es0) = (c, es1)" by fastforce
  have es1: "es_tracked es1 = es_tracked es" "es_outbox es1 = es_outbox es" "es_binds es1 = es_binds es"
    using g edge_request_rebirth_frame [of now key es0 c es1] by (auto simp: es0_def split: if_splits)
  obtain t2 ob where cm: "edge_commit (ec_hooks cfg) now ok (edge_batch cfg mid (es_binds es) key ms rp) (t1, es_outbox es) = (t2, ob)"
    by fastforce
  have "sparkplug_handler cfg now mid ok key mt (Some p) es = (HandlerOk, c, es1\<lparr>es_tracked := t2, es_outbox := ob\<rparr>)"
  proof (cases "gaps = []")
    case True
    then have "c = []" "es1 = es0" using g by simp_all
    then show ?thesis using True es1 by (simp add: sparkplug_handler_def ing Let_def assms(4,5) cm flip: es0_def)
  next
    case False
    then have "edge_request_rebirth now key es0 = (c, es1)" using g by simp
    then show ?thesis using False by (simp add: sparkplug_handler_def ing Let_def es1 assms(4,5) cm flip: es0_def)
  qed
  then show ?thesis using assms(6) cm ing(2) by auto
qed

text \<open>The row appended, and the checkpoint.\<close>

lemma handler_delivers:
  assumes "good_unit u" "k \<noteq> KindUnknown" "plain_hooks (ec_hooks cfg) (counter_topic u k)" "cutover_only cfg"
    "mt = ''NDATA'' \<or> mt = ''DDATA''" "es_store es key = Some pst"
    "resolve_metrics key (pst_aliases pst) (pl_metrics p) = Inr rs" "list_all (counter_reading u k) rs"
    "plain_state u (ts_inner (es_tracked es))" "ints_ok (ts_inner (es_tracked es))"
    "ms_ints (ts_inner (es_tracked es)) (counter_topic u k) = Some v0" "0 \<le> v0"
    "checkpointed (es_tracked es) (es_outbox es)" "outbox_ok (es_outbox es)"
    "sparkplug_handler cfg now mid True key mt (Some p) es = (res, cmds, es')"
  shows "res = HandlerOk
    \<and> (\<exists>n row. db_rows (os_db (es_outbox es')) = drop n (db_rows (os_db (es_outbox es))) @ [row]
         \<and> env_count (counter_topic u k) (ev_metrics (oe_body (or_payload row))) = total_movement v0 (map reading_of rs))
    \<and> ms_ints (ts_inner (fst (restart (es_outbox es')))) (counter_topic u k) = Some (last (v0 # map reading_of rs))"
proof -
  let ?h = "ec_hooks cfg" and ?t = "es_tracked es"
  have h: "ch_on ?h" "ch_durable ?h" "ch_cfg ?h = rules_off" using assms(3) by (simp_all add: plain_hooks_def)
  define msgs where "msgs = messages_of ?h (pk_group key) rs"
  have pm: "\<forall>m\<in>set msgs. plain_message u k m" "map m_payload msgs = map reading_of rs"
    using messages_of_plain [OF assms(3,8)] by (simp_all add: msgs_def)
  obtain ms t1 where run: "tracked_calc_run rules_off now msgs ?t = (ms, t1)" by fastforce
  have sh: "shadow_all ?h now (pk_group key) rs ?t = (ms, t1)"
    using shadow_all_run [OF assms(1,2,8), of ?h now "pk_group key" ?t] run by (simp add: msgs_def h)
  have inner: "ms = fst (calc_run rules_off now msgs (ts_inner ?t))" "ts_inner t1 = snd (calc_run rules_off now msgs (ts_inner ?t))"
    using tracked_calc_run_inner [of rules_off now msgs ?t] by (simp_all add: run)
  have v0: "in64 v0" using assms(10,11) by (auto simp: ints_ok_def)
  note pr = plain_run [OF assms(1,2) pm(1) assms(9,11,12) v0, of now]
  have mok: "metrics_ok ms" using tracked_run_metrics_ok [OF assms(10), of msgs rules_off now] pm(1) by (simp add: run plain_message_def)
  have cp: "checkpointed t1 (es_outbox es)" using checkpointed_run [OF assms(13), of rules_off now msgs] by (simp add: run)
  obtain rp where rp: "rp_metrics rp = rs" "res = HandlerOk" "(es_tracked es', es_outbox es') =
      edge_commit ?h now True (edge_batch cfg mid (es_binds es) key ms rp) (t1, es_outbox es)"
    using handler_data [OF assms(5-7) h(1) sh assms(15)] by blast
  obtain m where m: "edge_batch cfg mid (es_binds es) key ms rp = [m]"
    "env_count (counter_topic u k) (ev_metrics (oe_body (om_payload m))) = own_sum u k ms"
    using edge_batch_cutover [OF assms(4) h(1) mok, of u k rp mid "es_binds es" key] rp(1) assms(1,2,8) by auto
  have cm: "commit_outbox_batch now True [m] (t1, es_outbox es) = (es_tracked es', es_outbox es')"
    using rp(3) by (simp add: edge_commit_def h m)
  obtain taken t2 where td: "take_dirty t1 = (taken, t2)" by fastforce
  obtain r st2 where enq: "enqueue_batch now True [m] (calc_state_to_rows taken) (es_outbox es) = (r, st2)" by fastforce
  obtain new where new: "db_rows (os_db st2) = drop (nat (int (depth (es_outbox es)) - (os_cap (es_outbox es) - int (length [m])))) (db_rows (os_db (es_outbox es))) @ new"
    "map or_payload new = map om_payload [m]" "r = Some (map or_id new)"
    using enqueue_batch_rows [OF assms(14) _ enq] by blast
  have "es_outbox es' = st2" using cm by (simp add: commit_outbox_batch_def td enq new(3))
  moreover obtain row where row: "new = [row]" "or_payload row = om_payload m" using new(2) by (cases new) auto
  moreover have "ms_ints (ts_inner (fst (restart (es_outbox es')))) = ms_ints (ts_inner t1)"
    by (rule restart_state(1) [OF cp assms(14) cm])
  ultimately show ?thesis
    using rp(2) new(1) m(2) pr pm(2) by (auto simp: inner)
qed

text \<open>
  C1: One data message end to end. When the decoder knows the node's aliases and a message
  carries readings of one counter, the handler succeeds and appends exactly one row to the
  outbox, whose envelope counts for that counter exactly the movement of the totalizer since
  the stored baseline; the raw totalizer never appears as a count; and the checkpoint written
  in the same transaction restores the last reading as the next baseline.
\<close>

theorem handler_delivers_movement:
  assumes "good_unit u" "k \<noteq> KindUnknown" "plain_hooks (ec_hooks cfg) (counter_topic u k)" "cutover_only cfg"
    "mt = ''NDATA'' \<or> mt = ''DDATA''" "es_store es key = Some pst"
    "resolve_metrics key (pst_aliases pst) (pl_metrics p) = Inr rs" "list_all (counter_reading u k) rs"
    "plain_state u (ts_inner (es_tracked es))" "ints_ok (ts_inner (es_tracked es))"
    "ms_ints (ts_inner (es_tracked es)) (counter_topic u k) = Some v0" "0 \<le> v0"
    "checkpointed (es_tracked es) (es_outbox es)" "outbox_ok (es_outbox es)"
    "sparkplug_handler cfg now mid True key mt (Some p) es = (res, cmds, es')"
  shows "res = HandlerOk
    \<and> (\<exists>n row. db_rows (os_db (es_outbox es')) = drop n (db_rows (os_db (es_outbox es))) @ [row]
         \<and> env_count (counter_topic u k) (ev_metrics (oe_body (or_payload row))) = total_movement v0 (map reading_of rs))
    \<and> ms_ints (ts_inner (fst (restart (es_outbox es')))) (counter_topic u k) = Some (last (v0 # map reading_of rs))"
  using handler_delivers [OF assms] .

definition demo_hooks :: calc_hooks where
  "demo_hooks = \<lparr>ch_on = True, ch_durable = True, ch_cfg = rules_off, ch_counters_only = False,
     ch_counters_only_from_db = False, ch_ideal_rates = [], ch_spike_margin_default = Fin 0,
     ch_spike_margins = Map.empty, ch_spike_rated_speeds = Map.empty, ch_uint16_counters = [],
     ch_reset_heal = True, ch_no_speed_guard_fallback = True\<rparr>"

definition demo_edge_cfg :: edge_config where
  "demo_edge_cfg = \<lparr>ec_hooks = demo_hooks, ec_emit_go = False, ec_emit_refactored = True, ec_emit_production = False,
     ec_cutover_refactored = True, ec_per_tenant_routing = True, ec_phase9_line_agg = False, ec_binder = None\<rparr>"

definition demo_pst :: publisher_state where
  "demo_pst = \<lparr>pst_aliases = [5 \<mapsto> \<lparr>ae_name = counter_topic demo_unit Consumed, ae_datatype = 4\<rparr>],
     pst_last_seq = 6, pst_last_birth_at = 0, pst_last_message_at = 0\<rparr>"

definition demo_data :: "64 word list \<Rightarrow> payload" where
  "demo_data vs = \<lparr>pl_timestamp = Some 2000, pl_seq = Some 7,
     pl_metrics = map (\<lambda>v. empty_metric\<lparr>wm_alias := Some 5, wm_timestamp := Some 2000, wm_value := LongValue v\<rparr>) vs\<rparr>"

definition demo_edge :: "int \<Rightarrow> edge_state" where
  "demo_edge v = \<lparr>es_store = [demo_key \<mapsto> demo_pst],
     es_tracked = tracked_set_int (counter_topic demo_unit Consumed) v (new_tracked_state new_mem_state),
     es_outbox = \<lparr>os_db = empty_db, os_cap = 100\<rparr>, es_rebirth = None, es_binds = Map.empty\<rparr>"

lemma demo_edge_state:
  "ts_inner (es_tracked (demo_edge v)) = demo_state Consumed v"
  "checkpointed (es_tracked (demo_edge v)) (es_outbox (demo_edge v))" "outbox_ok (es_outbox (demo_edge v))"
proof -
  show "ts_inner (es_tracked (demo_edge v)) = demo_state Consumed v"
    by (simp add: demo_edge_def tracked_set_int_def mark_def new_tracked_state_def demo_state_def)
  show "outbox_ok (es_outbox (demo_edge v))" by (simp add: demo_edge_def outbox_ok_def empty_db_def)
  have "checkpointed (tracked_write (SetInt (counter_topic demo_unit Consumed) v) (new_tracked_state new_mem_state))
      (es_outbox (demo_edge v))"
    by (rule checkpointed_write, rule checkpointed_boot) (simp add: demo_edge_def empty_db_def)
  then show "checkpointed (es_tracked (demo_edge v)) (es_outbox (demo_edge v))" by (simp add: demo_edge_def)
qed

lemma handler_delivers_movement_witness:
  "\<exists>row. db_rows (os_db (es_outbox (snd (snd (sparkplug_handler demo_edge_cfg 0 (\<lambda>st. ''m'') True demo_key ''NDATA''
       (Some (demo_data [710, 735])) (demo_edge 700)))))) = [row]
     \<and> env_count (counter_topic demo_unit Consumed) (ev_metrics (oe_body (or_payload row))) = 35"
proof -
  obtain res cmds es' where h: "sparkplug_handler demo_edge_cfg 0 (\<lambda>st. ''m'') True demo_key ''NDATA''
       (Some (demo_data [710, 735])) (demo_edge 700) = (res, cmds, es')" by (metis prod_cases3)
  define rm where "rm v = \<lparr>rm_name = counter_topic demo_unit Consumed, rm_alias = 5, rm_timestamp = 2000, rm_datatype = 4,
     rm_value = VUint64 v\<rparr>" for v :: "64 word"
  have st: "es_store (demo_edge 700) demo_key = Some demo_pst" by (simp add: demo_edge_def)
  have res: "resolve_metrics demo_key (pst_aliases demo_pst) (pl_metrics (demo_data [710, 735])) = Inr [rm 710, rm 735]"
    by (simp add: demo_data_def demo_pst_def rm_def empty_metric_def)
  have hooks: "plain_hooks (ec_hooks demo_edge_cfg) (counter_topic demo_unit Consumed)" "cutover_only demo_edge_cfg"
    by (simp_all add: demo_edge_cfg_def demo_hooks_def plain_hooks_def cutover_only_def)
  have rd: "reading_of (rm 710) = 710" "reading_of (rm 735) = 735" by (simp_all add: rm_def reading_of_def in64_def)
  have ok: "list_all (counter_reading demo_unit Consumed) [rm 710, rm 735]"
    by (simp add: rm_def counter_reading_def in64_def)
  have io: "ints_ok (ts_inner (es_tracked (demo_edge 700)))"
    by (simp add: demo_edge_state ints_ok_def demo_state_def mem_set_int_def new_mem_state_def in64_def)
  have rows: "db_rows (os_db (es_outbox (demo_edge 700))) = []" by (simp add: demo_edge_def empty_db_def)
  show ?thesis
    using handler_delivers_movement [OF demo_good _ hooks _ st res ok _ io _ _ demo_edge_state(2,3) h]
    unfolding h snd_conv by (simp add: demo_edge_state rows rd counter_movement_def)
qed

section \<open>How a delta can be lost or falsified\<close>

lemma shadow_all_append:
  "shadow_all h now tenant (xs @ ys) t =
     (case shadow_all h now tenant xs t of (out, t') \<Rightarrow> case shadow_all h now tenant ys t' of (out', t'') \<Rightarrow> (out @ out', t''))"
  by (induction xs arbitrary: t) (auto split: prod.split)

text \<open>A metric Calc ignores and JSON cannot encode: an infinite or NaN float.\<close>

definition unencodable :: "resolved_metric \<Rightarrow> bool" where
  "unencodable m \<longleftrightarrow> \<not> json_value_ok (rm_value m) \<and> seed_from_metric m = None \<and> is_counter_metric_name (rm_name m) = KindUnknown"

lemma unencodable_batch:
  assumes "cutover_only cfg" "m \<in> set (rp_metrics rp)" "unencodable m"
  shows "edge_batch cfg mid binds key ms rp = []"
proof -
  have "\<not> json_ok (flow_envelope cfg binds key ms rp ''refactored'')"
  proof -
    define body where "body = (if ch_on (ec_hooks cfg) then build_cutover_metrics False ms (rp_metrics rp) else map raw_env_metric (rp_metrics rp))"
    have "raw_env_metric m \<in> set body"
      using assms(2,3) by (auto simp: body_def build_cutover_metrics_def unencodable_def)
    moreover have "\<not> json_value_ok (em_value (raw_env_metric m))"
      using assms(3) by (simp add: raw_env_metric_def unencodable_def)
    ultimately have "\<not> json_ok (build_envelope ''refactored'' (wrap64 (int (rp_timestamp rp))) body)"
      unfolding json_ok_def build_envelope_def list_all_iff by auto
    moreover have "flow_envelope cfg binds key ms rp ''refactored''
        = stamp (ec_binder cfg) binds key (build_envelope ''refactored'' (wrap64 (int (rp_timestamp rp))) body)"
      using assms(1) by (simp add: flow_envelope_def body_def cutover_only_def)
    ultimately show ?thesis using content_json [OF stamp_content] by metis
  qed
  then show ?thesis using assms(1)
    by (simp add: edge_batch_def emitted_source_types_def cutover_only_def Let_def)
qed

text \<open>
  C37: One infinite or NaN float in a payload loses the production of the whole payload. The
  envelope cannot be encoded and is skipped, the handler still succeeds, and the counter
  baselines computed from the same payload are committed: the movement since the old baseline
  is never counted, not even after a restart.
\<close>

theorem unencodable_metric_loses_delta:
  assumes "good_unit u" "k \<noteq> KindUnknown" "plain_hooks (ec_hooks cfg) (counter_topic u k)" "cutover_only cfg"
    "mt = ''NDATA'' \<or> mt = ''DDATA''" "es_store es key = Some pst"
    "resolve_metrics key (pst_aliases pst) (pl_metrics p) = Inr (rs @ [bad])" "list_all (counter_reading u k) rs" "unencodable bad"
    "plain_state u (ts_inner (es_tracked es))" "ints_ok (ts_inner (es_tracked es))"
    "ms_ints (ts_inner (es_tracked es)) (counter_topic u k) = Some v0" "0 \<le> v0"
    "checkpointed (es_tracked es) (es_outbox es)" "outbox_ok (es_outbox es)"
    "sparkplug_handler cfg now mid True key mt (Some p) es = (res, cmds, es')"
  shows "res = HandlerOk \<and> db_rows (os_db (es_outbox es')) = db_rows (os_db (es_outbox es))
    \<and> ms_ints (ts_inner (es_tracked es')) (counter_topic u k) = Some (last (v0 # map reading_of rs))
    \<and> ms_ints (ts_inner (fst (restart (es_outbox es')))) (counter_topic u k) = Some (last (v0 # map reading_of rs))"
proof -
  let ?h = "ec_hooks cfg" and ?t = "es_tracked es"
  have h: "ch_on ?h" "ch_durable ?h" "ch_cfg ?h = rules_off" using assms(3) by (simp_all add: plain_hooks_def)
  define msgs where "msgs = messages_of ?h (pk_group key) rs"
  have pm: "\<forall>m\<in>set msgs. plain_message u k m" "map m_payload msgs = map reading_of rs"
    using messages_of_plain [OF assms(3,8)] by (simp_all add: msgs_def)
  obtain ms t1 where run: "tracked_calc_run rules_off now msgs ?t = (ms, t1)" by fastforce
  have "shadow_all ?h now (pk_group key) rs ?t = (ms, t1)"
    using shadow_all_run [OF assms(1,2,8), of ?h now "pk_group key" ?t] run by (simp add: msgs_def h)
  then have sh: "shadow_all ?h now (pk_group key) (rs @ [bad]) ?t = (ms, t1)"
    using assms(9) by (simp add: shadow_all_append unencodable_def run_shadow_def)
  have inner: "ts_inner t1 = snd (calc_run rules_off now msgs (ts_inner ?t))"
    using tracked_calc_run_inner [of rules_off now msgs ?t] by (simp add: run)
  have v0: "in64 v0" using assms(11,12) by (auto simp: ints_ok_def)
  have base: "ms_ints (ts_inner t1) (counter_topic u k) = Some (last (v0 # map reading_of rs))"
    using plain_run(2) [OF assms(1,2) pm(1) assms(10,12,13) v0, of now] pm(2) by (simp add: inner)
  have cp: "checkpointed t1 (es_outbox es)" using checkpointed_run [OF assms(14), of rules_off now msgs] by (simp add: run)
  obtain rp where rp: "rp_metrics rp = rs @ [bad]" "res = HandlerOk" "(es_tracked es', es_outbox es') =
      edge_commit ?h now True (edge_batch cfg mid (es_binds es) key ms rp) (t1, es_outbox es)"
    using handler_data [OF assms(5-7) h(1) sh assms(16)] by blast
  have "edge_batch cfg mid (es_binds es) key ms rp = []"
    by (rule unencodable_batch [OF assms(4) _ assms(9)]) (simp add: rp(1))
  then have cm: "commit_outbox_batch now True [] (t1, es_outbox es) = (es_tracked es', es_outbox es')"
    using rp(3) by (simp add: edge_commit_def h)
  have "db_rows (os_db (es_outbox es')) = db_rows (os_db (es_outbox es))"
    using cm by (auto simp: commit_outbox_batch_def enqueue_batch_def Let_def dest!: sym [where t = "es_outbox es'"]
        split: prod.splits if_splits option.splits)
  then show ?thesis
    using rp(2) base restart_state(1) [OF cp assms(15) cm] commit_keeps_checkpointed(3) [OF cp assms(15) cm] by simp
qed

lemma unencodable_metric_loses_delta_witness:
  "\<exists>es'. snd (snd (sparkplug_handler demo_edge_cfg 0 (\<lambda>st. ''m'') True demo_key ''NDATA''
       (Some (demo_data [710]\<lparr>pl_metrics := pl_metrics (demo_data [710]) @ [empty_metric\<lparr>wm_name := Some ''X/Temp'', wm_value := FloatValue PInf\<rparr>]\<rparr>))
       (demo_edge 700))) = es'
     \<and> db_rows (os_db (es_outbox es')) = [] \<and> ms_ints (ts_inner (es_tracked es')) (counter_topic demo_unit Consumed) = Some 710"
proof -
  define p where "p = demo_data [710]\<lparr>pl_metrics := pl_metrics (demo_data [710]) @ [empty_metric\<lparr>wm_name := Some ''X/Temp'', wm_value := FloatValue PInf\<rparr>]\<rparr>"
  obtain res cmds es' where h: "sparkplug_handler demo_edge_cfg 0 (\<lambda>st. ''m'') True demo_key ''NDATA'' (Some p) (demo_edge 700)
      = (res, cmds, es')" by (metis prod_cases3)
  define rm where "rm = \<lparr>rm_name = counter_topic demo_unit Consumed, rm_alias = 5, rm_timestamp = 2000, rm_datatype = 4,
     rm_value = VUint64 710\<rparr>"
  define bad where "bad = \<lparr>rm_name = ''X/Temp'', rm_alias = 0, rm_timestamp = 0, rm_datatype = 0, rm_value = VFloat32 PInf\<rparr>"
  have st: "es_store (demo_edge 700) demo_key = Some demo_pst" by (simp add: demo_edge_def)
  have res: "resolve_metrics demo_key (pst_aliases demo_pst) (pl_metrics p) = Inr ([rm] @ [bad])"
    by (simp add: p_def demo_data_def demo_pst_def rm_def bad_def empty_metric_def)
  have hooks: "plain_hooks (ec_hooks demo_edge_cfg) (counter_topic demo_unit Consumed)" "cutover_only demo_edge_cfg"
    by (simp_all add: demo_edge_cfg_def demo_hooks_def plain_hooks_def cutover_only_def)
  have ok: "list_all (counter_reading demo_unit Consumed) [rm]" "reading_of rm = 710"
    by (simp_all add: rm_def counter_reading_def reading_of_def in64_def)
  have ub: "unencodable bad"
    by (simp add: unencodable_def bad_def seed_from_metric_def has_suffix_def is_counter_metric_name_def str_contains_def has_prefix_def)
  have io: "ints_ok (ts_inner (es_tracked (demo_edge 700)))"
    by (simp add: demo_edge_state ints_ok_def demo_state_def mem_set_int_def new_mem_state_def in64_def)
  have rows: "db_rows (os_db (es_outbox (demo_edge 700))) = []" by (simp add: demo_edge_def empty_db_def)
  show ?thesis
    using unencodable_metric_loses_delta [OF demo_good _ hooks _ st res ok(1) ub _ io _ _ demo_edge_state(2,3) h]
    unfolding p_def [symmetric] h snd_conv by (simp add: demo_edge_state rows ok(2))
qed

end
