(* ===== verification/Dedup.thy ===== *)
theory Dedup
  imports Prelude
begin

text \<open>
  The bounded sets of seen keys with FIFO eviction: \<open>dedupStore\<close> of internal/command/dedup.go
  and \<open>memSeenSet\<close> of internal/erpconnector/dedup.go. Both implement one abstract
  specification, the window of the most recent distinct keys; the locale \<open>seen_set\<close> states it
  and proves once how far apart two acceptances of one key are. Locks are not modelled: every
  method is one atomic step.
\<close>

section \<open>The specification\<close>

text \<open>The last \<open>n\<close> elements.\<close>

definition last_n :: "nat \<Rightarrow> 'a list \<Rightarrow> 'a list" where
  "last_n n xs = drop (length xs - n) xs"

lemma length_last_n [simp]: "length (last_n n xs) = min n (length xs)"
  by (simp add: last_n_def)

lemma last_n_snoc_last_n: "last_n n (last_n n xs @ [x]) = last_n n (xs @ [x])"
  by (cases "n \<le> length xs") (simp_all add: last_n_def Suc_diff_le)

lemma in_last_n: "x \<in> set (last_n n xs) \<longleftrightarrow> (\<exists>i<length xs. length xs - n \<le> i \<and> xs ! i = x)"
proof
  assume "x \<in> set (last_n n xs)"
  then obtain i where "i < length xs - (length xs - n)" "xs ! (length xs - n + i) = x"
    by (auto simp: last_n_def in_set_conv_nth)
  then show "\<exists>i<length xs. length xs - n \<le> i \<and> xs ! i = x" by (intro exI [of _ "length xs - n + i"]) auto
next
  assume "\<exists>i<length xs. length xs - n \<le> i \<and> xs ! i = x"
  then obtain i where "i < length xs" "length xs - n \<le> i" "xs ! i = x" by blast
  then show "x \<in> set (last_n n xs)"
    unfolding last_n_def in_set_conv_nth by (intro exI [of _ "i - (length xs - n)"]) auto
qed

lemma in_last_n_snoc: "0 < n \<Longrightarrow> x \<in> set (last_n n (xs @ [x]))"
  unfolding in_last_n by (rule exI [of _ "length xs"]) auto

text \<open>Any two occurrences of a key are more than \<open>n\<close> places apart.\<close>

definition spaced :: "nat \<Rightarrow> 'a list \<Rightarrow> bool" where
  "spaced n xs \<longleftrightarrow> (\<forall>j<length xs. \<forall>i<j. xs ! i = xs ! j \<longrightarrow> n < j - i)"

lemma spaced_Nil [simp]: "spaced n []"
  by (simp add: spaced_def)

lemma spaced_snoc: "spaced n xs \<Longrightarrow> x \<notin> set (last_n n xs) \<Longrightarrow> spaced n (xs @ [x])"
proof -
  assume sp: "spaced n xs" and x: "x \<notin> set (last_n n xs)"
  have "n < length xs - i" if "i < length xs" "xs ! i = x" for i
  proof (rule ccontr)
    assume "\<not> n < length xs - i"
    then have "length xs - n \<le> i" by arith
    with that x show False by (auto simp: in_last_n)
  qed
  with sp show ?thesis by (auto simp: spaced_def nth_append less_Suc_eq)
qed

lemma spaced_distinct: "spaced n xs \<Longrightarrow> length xs \<le> Suc n \<Longrightarrow> distinct xs"
proof -
  assume sp: "spaced n xs" and len: "length xs \<le> Suc n"
  have "xs ! i \<noteq> xs ! j" if "i < j" "j < length xs" for i j
  proof
    assume "xs ! i = xs ! j"
    then have "n < j - i" using sp that by (simp add: spaced_def)
    with that len show False by linarith
  qed
  then show ?thesis unfolding distinct_conv_nth by (metis linorder_neqE_nat)
qed

locale seen_set =
  fixes mark :: "string \<Rightarrow> 'd \<Rightarrow> bool \<times> 'd" and window :: "'d \<Rightarrow> string list"
    and capacity :: "'d \<Rightarrow> nat" and ok :: "'d \<Rightarrow> bool"
  assumes mark_result: "ok d \<Longrightarrow> fst (mark k d) \<longleftrightarrow> k \<notin> set (window d)"
    and mark_window: "ok d \<Longrightarrow> window (snd (mark k d)) =
      (if k \<in> set (window d) then window d else last_n (capacity d) (window d @ [k]))"
    and mark_ok: "ok d \<Longrightarrow> ok (snd (mark k d))"
    and mark_capacity: "capacity (snd (mark k d)) = capacity d"
begin

lemma marked: "ok d \<Longrightarrow> 0 < capacity d \<Longrightarrow> k \<in> set (window (snd (mark k d)))"
  using mark_window [of d k] in_last_n_snoc [of "capacity d" k "window d"] by simp

text \<open>The window after accepting the keys \<open>xs\<close> since it was empty.\<close>

definition tracks :: "string list \<Rightarrow> 'd \<Rightarrow> bool" where
  "tracks xs d \<longleftrightarrow> ok d \<and> window d = last_n (capacity d) xs \<and> spaced (capacity d) xs"

lemma tracks_empty: "ok d \<Longrightarrow> window d = [] \<Longrightarrow> tracks [] d"
  by (simp add: tracks_def last_n_def)

lemma tracks_mark: "tracks xs d \<Longrightarrow> tracks (if fst (mark k d) then xs @ [k] else xs) (snd (mark k d))"
  using mark_result [of d k] mark_window [of d k] mark_ok [of d k] mark_capacity [of k d]
  by (auto simp: tracks_def last_n_snoc_last_n spaced_snoc)

lemma tracks_known: "tracks xs d \<Longrightarrow> k \<in> set (last_n (capacity d) xs) \<Longrightarrow> mark k d = (False, snd (mark k d))"
  using mark_result [of d k] by (simp add: tracks_def prod_eq_iff)

end

section \<open>The store\<close>

record dedup_store =
  dd_cap :: nat
  dd_seen :: "string set"
  dd_order :: "string list"

definition new_dedup_store :: "int \<Rightarrow> dedup_store" where
  "new_dedup_store capacity = \<lparr>dd_cap = nat (if capacity \<le> 0 then 4096 else capacity), dd_seen = {}, dd_order = []\<rparr>"

definition mark_if_new :: "string \<Rightarrow> dedup_store \<Rightarrow> bool \<times> dedup_store" where
  "mark_if_new key d =
     (if key \<in> dd_seen d then (False, d)
      else let seen = insert key (dd_seen d); order = dd_order d @ [key]
      in if dd_cap d < length order
         then (True, d\<lparr>dd_seen := seen - {hd order}, dd_order := tl order\<rparr>)
         else (True, d\<lparr>dd_seen := seen, dd_order := order\<rparr>))"

definition dedup_has :: "string \<Rightarrow> dedup_store \<Rightarrow> bool" where
  "dedup_has key d \<longleftrightarrow> key \<in> dd_seen d"

definition dedup_ok :: "dedup_store \<Rightarrow> bool" where
  "dedup_ok d \<longleftrightarrow> 0 < dd_cap d \<and> dd_seen d = set (dd_order d) \<and> distinct (dd_order d) \<and> length (dd_order d) \<le> dd_cap d"

lemma new_dedup_store_ok [simp]: "dedup_ok (new_dedup_store c)" "dd_order (new_dedup_store c) = []"
  by (simp_all add: dedup_ok_def new_dedup_store_def)

lemma mark_if_new_spec:
  assumes "dedup_ok d"
  shows "mark_if_new k d = (k \<notin> set (dd_order d), snd (mark_if_new k d))"
    "dd_order (snd (mark_if_new k d)) = (if k \<in> set (dd_order d) then dd_order d else last_n (dd_cap d) (dd_order d @ [k]))"
    "dedup_ok (snd (mark_if_new k d))" "dd_cap (snd (mark_if_new k d)) = dd_cap d"
proof -
  have d: "dd_seen d = set (dd_order d)" "distinct (dd_order d)" "length (dd_order d) \<le> dd_cap d" "0 < dd_cap d"
    using assms by (simp_all add: dedup_ok_def)
  show "mark_if_new k d = (k \<notin> set (dd_order d), snd (mark_if_new k d))" "dd_cap (snd (mark_if_new k d)) = dd_cap d"
    by (auto simp: mark_if_new_def d Let_def)
  show "dd_order (snd (mark_if_new k d)) = (if k \<in> set (dd_order d) then dd_order d else last_n (dd_cap d) (dd_order d @ [k]))"
  proof (cases "dd_cap d < length (dd_order d @ [k])")
    case True
    then have "dd_cap d = length (dd_order d)" using d(3) by simp
    then show ?thesis using d(4)
      by (cases "dd_order d") (simp_all add: mark_if_new_def d(1) Let_def last_n_def)
  next
    case False
    then show ?thesis by (simp add: mark_if_new_def d(1) Let_def last_n_def)
  qed
  show "dedup_ok (snd (mark_if_new k d))"
    using d by (cases "dd_order d") (auto simp: mark_if_new_def Let_def dedup_ok_def)
qed

interpretation dedup: seen_set mark_if_new dd_order dd_cap dedup_ok
proof unfold_locales
  fix d k assume "dedup_ok d"
  from mark_if_new_spec [OF this, of k]
  show "fst (mark_if_new k d) \<longleftrightarrow> k \<notin> set (dd_order d)" "dedup_ok (snd (mark_if_new k d))"
    "dd_order (snd (mark_if_new k d)) = (if k \<in> set (dd_order d) then dd_order d else last_n (dd_cap d) (dd_order d @ [k]))"
    by (metis fst_conv, blast, blast)
next
  show "dd_cap (snd (mark_if_new k d)) = dd_cap d" for k d by (simp add: mark_if_new_def Let_def)
qed

lemma mark_if_new_has: "dedup_ok d \<Longrightarrow> dedup_has k (snd (mark_if_new k d))"
  using dedup.marked [of d k] dedup.mark_ok [of d k] by (simp add: dedup_has_def dedup_ok_def)

text \<open>\<open>NewMemSeenSet\<close> and \<open>MarkIfNew\<close>: the same shape with another default capacity.\<close>

definition new_mem_seen_set :: "int \<Rightarrow> dedup_store" where
  "new_mem_seen_set capacity = \<lparr>dd_cap = nat (if capacity \<le> 0 then 8192 else capacity), dd_seen = {}, dd_order = []\<rparr>"

definition seen_mark_if_new :: "string \<Rightarrow> dedup_store \<Rightarrow> bool \<times> dedup_store" where
  "seen_mark_if_new key d =
     (if key \<in> dd_seen d then (False, d)
      else let d1 = d\<lparr>dd_seen := insert key (dd_seen d), dd_order := dd_order d @ [key]\<rparr>
      in (True, if dd_cap d1 < length (dd_order d1)
                then d1\<lparr>dd_order := tl (dd_order d1), dd_seen := dd_seen d1 - {hd (dd_order d1)}\<rparr> else d1))"

lemma seen_mark_eq: "seen_mark_if_new k d = mark_if_new k d"
  by (simp add: seen_mark_if_new_def mark_if_new_def Let_def)

lemma new_mem_seen_set_ok [simp]: "dedup_ok (new_mem_seen_set c)" "dd_order (new_mem_seen_set c) = []"
  by (simp_all add: dedup_ok_def new_mem_seen_set_def)

interpretation erp_seen: seen_set seen_mark_if_new dd_order dd_cap dedup_ok
  unfolding seen_mark_eq by (rule dedup.seen_set_axioms)

end
