(* ===== verification/GoFormat.thy ===== *)
theory GoFormat
  imports Float64 GoStrings
begin

text \<open>
  Rounding and number formatting of Go's \<open>math\<close> and \<open>strconv\<close>: \<open>Floor\<close>, \<open>Trunc\<close>,
  \<open>FormatInt\<close> in base ten and \<open>FormatFloat(v, 'f', -1, 64)\<close>, the decimal with the fewest
  places that still denotes the float.
\<close>

section \<open>Rounding to whole numbers\<close>

fun ffloor :: "f64 \<Rightarrow> f64" where
  "ffloor (Fin x) = Fin (of_int \<lfloor>x\<rfloor>)" | "ffloor v = v"

fun ftrunc :: "f64 \<Rightarrow> f64" where
  "ftrunc (Fin x) = Fin (of_int (if 0 \<le> x then \<lfloor>x\<rfloor> else \<lceil>x\<rceil>))" | "ftrunc v = v"

section \<open>Integers\<close>

definition digit_char :: "nat \<Rightarrow> char" where
  "digit_char d = char_of (48 + d)"

fun nat_digits :: "nat \<Rightarrow> string" where
  "nat_digits n = (if n < 10 then [digit_char n] else nat_digits (n div 10) @ [digit_char (n mod 10)])"

declare nat_digits.simps [simp del]

definition itoa :: "int \<Rightarrow> string" where
  "itoa v = (if v < 0 then ''-'' @ nat_digits (nat (- v)) else nat_digits (nat v))"

lemma digit_char_code: "d < 10 \<Longrightarrow> (of_char (digit_char d) :: int) = 48 + int d"
proof -
  assume "d < 10"
  then have "(of_char (digit_char d) :: nat) = 48 + d" by (simp add: digit_char_def)
  then show ?thesis by (metis of_nat_of_char of_nat_add of_nat_numeral)
qed

lemma digit_val_char [simp]: "d < 10 \<Longrightarrow> digit_val (digit_char d) = Some (int d)"
  by (simp add: digit_val_def digit_char_code)

lemma digits_val_append:
  "digits_val acc (xs @ ys) = (case digits_val acc xs of None \<Rightarrow> None | Some a \<Rightarrow> digits_val a ys)"
  by (induction xs arbitrary: acc) (auto split: option.split)

lemma digits_val_nat_digits: "\<exists>p. \<forall>acc. digits_val acc (nat_digits n) = Some (acc * 10 ^ p + int n)"
proof (induction n rule: nat_digits.induct)
  case (1 n)
  show ?case
  proof (cases "n < 10")
    case True
    then show ?thesis by (intro exI [of _ 1]) (simp add: nat_digits.simps [of n] algebra_simps)
  next
    case False
    then obtain p where "\<And>acc. digits_val acc (nat_digits (n div 10)) = Some (acc * 10 ^ p + int (n div 10))"
      using 1 by blast
    moreover have "int n = 10 * int (n div 10) + int (n mod 10)"
      by (metis mult_div_mod_eq of_nat_add of_nat_mult of_nat_numeral)
    ultimately show ?thesis using False
      by (intro exI [of _ "Suc p"]) (simp add: nat_digits.simps [of n] digits_val_append algebra_simps)
  qed
qed

lemma nat_digits_head: "\<exists>d ds. d < 10 \<and> nat_digits n = digit_char d # ds"
proof (induction n rule: nat_digits.induct)
  case (1 n)
  show ?case
  proof (cases "n < 10")
    case False
    then obtain d ds where "d < 10" "nat_digits (n div 10) = digit_char d # ds" using 1 by blast
    with False show ?thesis by (subst nat_digits.simps) auto
  qed (subst nat_digits.simps, auto)
qed

lemma digit_char_not_sign: "d < 10 \<Longrightarrow> digit_char d \<noteq> CHR ''-'' \<and> digit_char d \<noteq> CHR ''+''"
proof -
  assume "d < 10"
  then have "(of_char (digit_char d) :: int) = 48 + int d" by (rule digit_char_code)
  then show ?thesis by (auto simp: of_char_def)
qed

lemma atoi_itoa: "in64 v \<Longrightarrow> atoi (itoa v) = Some v"
proof -
  assume v: "in64 v"
  obtain p where ds: "\<And>acc. digits_val acc (nat_digits (nat \<bar>v\<bar>)) = Some (acc * 10 ^ p + int (nat \<bar>v\<bar>))"
    using digits_val_nat_digits by blast
  obtain d l where h: "d < 10" "nat_digits (nat \<bar>v\<bar>) = digit_char d # l" using nat_digits_head by blast
  have ns: "\<not> has_prefix ''-'' (nat_digits (nat \<bar>v\<bar>))" "\<not> has_prefix ''+'' (nat_digits (nat \<bar>v\<bar>))"
    using digit_char_not_sign [OF h(1)] by (simp_all add: has_prefix_def h(2))
  show ?thesis
  proof (cases "v < 0")
    case True
    then show ?thesis using v ds [of 0] h(2) by (simp add: atoi_def itoa_def has_prefix_def in64_def)
  next
    case False
    then show ?thesis using v ds [of 0] ns h(2) by (simp add: atoi_def itoa_def in64_def)
  qed
qed

section \<open>Floats\<close>

text \<open>
  With \<open>p\<close> decimal places the candidates are the two neighbours of \<open>r\<close>; the nearer one that
  rounds to the float is taken. A double has at most 1074 places, so the fuel suffices.
\<close>

definition decimal_at :: "rat \<Rightarrow> nat \<Rightarrow> int option" where
  "decimal_at r p =
     (let q = r * 10 ^ p; lo = \<lfloor>q\<rfloor>; hi = \<lceil>q\<rceil>;
          fits = (\<lambda>m. round64 (of_int m / 10 ^ p) = Fin r)
      in if fits lo \<and> (\<not> fits hi \<or> q - of_int lo \<le> of_int hi - q) then Some lo
         else if fits hi then Some hi else None)"

fun shortest_decimal :: "nat \<Rightarrow> rat \<Rightarrow> nat \<Rightarrow> int \<times> nat" where
  "shortest_decimal 0 r p = (\<lfloor>r * 10 ^ p\<rfloor>, p)"
| "shortest_decimal (Suc f) r p = (case decimal_at r p of Some m \<Rightarrow> (m, p) | None \<Rightarrow> shortest_decimal f r (Suc p))"

definition format_float :: "f64 \<Rightarrow> string" where
  "format_float v = (case v of NaN \<Rightarrow> ''NaN'' | PInf \<Rightarrow> ''+Inf'' | NInf \<Rightarrow> ''-Inf''
     | Fin r \<Rightarrow> (case shortest_decimal 1074 \<bar>r\<bar> 0 of (m, p) \<Rightarrow>
         let ds = nat_digits (nat m);
             padded = replicate (Suc p - length ds) (CHR ''0'') @ ds
         in (if r < 0 then ''-'' else []) @ take (length padded - p) padded
            @ (if p = 0 then [] else ''.'' @ drop (length padded - p) padded)))"

end
