(* ===== verification/Command.thy ===== *)
theory Command
  imports Dedup SparkplugB GoFormat
begin

text \<open>
  The edge command channel (internal/command: types.go, dcmd.go, executor.go and
  \<open>handleDelivery\<close> of consumer.go; \<open>RetryCount\<close> of internal/amqp/retry.go): a typed command is
  translated into one SparkPlug write and published to the machine at most once per
  idempotency key. A message body is the decoded command, \<open>None\<close> when the JSON is malformed;
  the answers of the device broker and of the AMQP channel are arguments. Texts of reasons are
  represented by constructors; logs and counters are not modelled.
\<close>

section \<open>Commands\<close>

text \<open>A decoded JSON value or a Go value of the types the accessors accept; \<open>PvNumber\<close>
  is a \<open>json.Number\<close> with the result of its \<open>Float64\<close>.\<close>

datatype param_value =
  PvString string | PvFloat64 f64 | PvFloat32 f64 | PvInt int | PvInt64 int
| PvNumber string "f64 option" | PvOther

record command =
  cd_tenant :: string
  cd_equipment :: int
  cd_topic :: string
  cd_verb :: string
  cd_params :: "string \<rightharpoonup> param_value"
  cd_key :: string

text \<open>How \<open>encoding/json\<close> decodes a number into an \<open>any\<close>: the nearest \<open>float64\<close>.\<close>

definition json_number :: "rat \<Rightarrow> param_value option" where
  "json_number r = (case round64 r of Fin x \<Rightarrow> Some (PvFloat64 (Fin x)) | _ \<Rightarrow> None)"

section \<open>Translation\<close>

datatype dcmd_error = UnknownVerb | MissingParam | BadTopic

definition param_string :: "(string \<rightharpoonup> param_value) \<Rightarrow> string \<Rightarrow> string option" where
  "param_string p key = (case p key of Some (PvString s) \<Rightarrow> Some s | _ \<Rightarrow> None)"

definition param_float :: "(string \<rightharpoonup> param_value) \<Rightarrow> string \<Rightarrow> f64 option" where
  "param_float p key = (case p key of
     Some (PvFloat64 v) \<Rightarrow> Some v
   | Some (PvFloat32 v) \<Rightarrow> Some v
   | Some (PvInt v) \<Rightarrow> Some (of_int64 v)
   | Some (PvInt64 v) \<Rightarrow> Some (of_int64 v)
   | Some (PvNumber s f) \<Rightarrow> f
   | _ \<Rightarrow> None)"

definition param_scalar_string :: "(string \<rightharpoonup> param_value) \<Rightarrow> string \<Rightarrow> string option" where
  "param_scalar_string p key = (case p key of
     Some (PvString s) \<Rightarrow> Some s
   | Some (PvFloat64 v) \<Rightarrow>
       Some (if feq v (ftrunc v) \<and> v \<noteq> PInf \<and> v \<noteq> NInf then itoa (to_int64 v) else format_float v)
   | Some (PvInt v) \<Rightarrow> Some (itoa v)
   | Some (PvInt64 v) \<Rightarrow> Some (itoa v)
   | Some (PvNumber s f) \<Rightarrow> Some s
   | _ \<Rightarrow> None)"

text \<open>\<open>strings.SplitN(t, "/", 2)[0]\<close> is the part before the first slash.\<close>

definition sparkplug_group :: "string \<Rightarrow> string option" where
  "sparkplug_group packml_topic =
     (let t = trim_right (CHR ''/'') (trim_left (CHR ''/'') (trim_space packml_topic));
          grp = takeWhile ((\<noteq>) (CHR ''/'')) t
      in if t = [] \<or> grp = [] then None else Some grp)"

definition join_topic :: "string \<Rightarrow> string \<Rightarrow> string" where
  "join_topic base leaf = trim_right (CHR ''/'') base @ ''/'' @ trim_left (CHR ''/'') leaf"

definition double_metric :: "string \<Rightarrow> f64 \<Rightarrow> wire_metric" where
  "double_metric name v = empty_metric\<lparr>wm_name := Some name, wm_datatype := Some 10, wm_value := DoubleValue v\<rparr>"

definition string_metric :: "string \<Rightarrow> string \<Rightarrow> wire_metric" where
  "string_metric name v = empty_metric\<lparr>wm_name := Some name, wm_datatype := Some 12, wm_value := StringValue v\<rparr>"

record dcmd =
  dc_topic :: string
  dc_body :: payload
  dc_metric :: string

text \<open>The payload stands for its protobuf encoding, which cannot fail on these metrics.\<close>

definition build_dcmd :: "nat \<Rightarrow> command \<Rightarrow> string \<Rightarrow> dcmd_error + dcmd" where
  "build_dcmd now cmd edge_node =
     (case sparkplug_group (cd_topic cmd) of
        None \<Rightarrow> Inl BadTopic
      | Some grp \<Rightarrow>
        (let finish = (\<lambda>name m. Inr \<lparr>dc_topic = ''spBv1.0/'' @ grp @ ''/DCMD/'' @ edge_node,
               dc_body = \<lparr>pl_timestamp = Some now, pl_seq = None, pl_metrics = [m]\<rparr>, dc_metric = name\<rparr>)
         in if cd_verb cmd = ''param_write'' then
              (case param_string (cd_params cmd) ''parameter'' of
                 None \<Rightarrow> Inl MissingParam
               | Some leaf \<Rightarrow>
                 if leaf = [] then Inl MissingParam
                 else (case param_float (cd_params cmd) ''value'' of
                     None \<Rightarrow> Inl MissingParam
                   | Some v \<Rightarrow> let name = join_topic (cd_topic cmd) leaf in finish name (double_metric name v)))
            else if cd_verb cmd = ''po_setup'' then
              (case param_scalar_string (cd_params cmd) ''poNumber'' of
                 None \<Rightarrow> Inl MissingParam
               | Some po \<Rightarrow>
                 if po = [] then Inl MissingParam
                 else let name = join_topic (cd_topic cmd) ''Status/Parameter30700'' in finish name (string_metric name po))
            else Inl UnknownVerb))"

section \<open>The executor\<close>

datatype outcome = Delivered | Rejected

datatype reject_reason = MalformedEnvelope | MissingTenant | MissingKey | VerbNotAllowed | Untranslatable dcmd_error

record exec_result =
  er_outcome :: outcome
  er_reason :: "reject_reason option"
  er_duplicate :: bool
  er_command :: "command option"
  er_dcmd_topic :: string

record ack_message =
  ak_key :: string
  ak_tenant :: string
  ak_equipment :: int
  ak_verb :: string
  ak_status :: outcome
  ak_reason :: "reject_reason option"
  ak_dcmd_topic :: string
  ak_duplicate :: bool
  ak_timestamp :: nat

definition to_ack :: "nat \<Rightarrow> command \<Rightarrow> exec_result \<Rightarrow> ack_message" where
  "to_ack now cmd r = \<lparr>ak_key = cd_key cmd, ak_tenant = cd_tenant cmd, ak_equipment = cd_equipment cmd,
     ak_verb = cd_verb cmd, ak_status = er_outcome r, ak_reason = er_reason r, ak_dcmd_topic = er_dcmd_topic r,
     ak_duplicate = er_duplicate r, ak_timestamp = now\<rparr>"

record executor_cfg =
  xc_allowed :: "string list"
  xc_exchange :: string
  xc_edge_node :: string
  xc_has_acks :: bool

text \<open>What leaves the executor: a write to the machine with the broker's answer, or an ack.\<close>

datatype exec_event = DcmdPublish string payload bool | AckPublish string ack_message

definition publish_ack :: "executor_cfg \<Rightarrow> nat \<Rightarrow> exec_result \<Rightarrow> exec_event list" where
  "publish_ack cfg now r = (case er_command r of None \<Rightarrow> []
     | Some cmd \<Rightarrow> if xc_has_acks cfg \<and> cd_tenant cmd \<noteq> []
         then [AckPublish (xc_exchange cfg @ ''.'' @ cd_tenant cmd @ ''.ack'') (to_ack now cmd r)] else [])"

definition reject :: "executor_cfg \<Rightarrow> nat \<Rightarrow> command \<Rightarrow> reject_reason \<Rightarrow> exec_result \<times> exec_event list" where
  "reject cfg now cmd why =
     (let r = \<lparr>er_outcome = Rejected, er_reason = Some why, er_duplicate = False, er_command = Some cmd, er_dcmd_topic = []\<rparr>
      in (r, publish_ack cfg now r))"

text \<open>\<open>Execute\<close>: \<open>None\<close> is a transient error. \<open>sent\<close> is the broker's answer to the write.\<close>

definition execute :: "executor_cfg \<Rightarrow> nat \<Rightarrow> bool \<Rightarrow> command option \<Rightarrow> dedup_store
    \<Rightarrow> exec_result option \<times> exec_event list \<times> dedup_store" where
  "execute cfg now sent body d =
     (case body of
        None \<Rightarrow> (Some \<lparr>er_outcome = Rejected, er_reason = Some MalformedEnvelope, er_duplicate = False,
                   er_command = None, er_dcmd_topic = []\<rparr>, [], d)
      | Some cmd \<Rightarrow>
        let refuse = (\<lambda>why. case reject cfg now cmd why of (r, evs) \<Rightarrow> (Some r, evs, d))
        in if cd_tenant cmd = [] then refuse MissingTenant
        else if cd_key cmd = [] then refuse MissingKey
        else if cd_verb cmd \<notin> set (xc_allowed cfg) then refuse VerbNotAllowed
        else (case build_dcmd now cmd (xc_edge_node cfg) of
            Inl e \<Rightarrow> refuse (Untranslatable e)
          | Inr dc \<Rightarrow>
            if dedup_has (cd_key cmd) d then
              (let r = \<lparr>er_outcome = Delivered, er_reason = None, er_duplicate = True, er_command = Some cmd,
                         er_dcmd_topic = dc_topic dc\<rparr>
               in (Some r, publish_ack cfg now r, d))
            else if \<not> sent then (None, [DcmdPublish (dc_topic dc) (dc_body dc) False], d)
            else (let r = \<lparr>er_outcome = Delivered, er_reason = None, er_duplicate = False, er_command = Some cmd,
                            er_dcmd_topic = dc_topic dc\<rparr>
                  in (Some r, DcmdPublish (dc_topic dc) (dc_body dc) True # publish_ack cfg now r,
                      snd (mark_if_new (cd_key cmd) d)))))"

section \<open>One delivery\<close>

text \<open>An entry of the \<open>x-death\<close> header: reason, queue and count, each if it has its type.\<close>

record death =
  de_reason :: "string option"
  de_queue :: "string option"
  de_count :: "int option"

definition retry_count :: "death list \<Rightarrow> string \<Rightarrow> int" where
  "retry_count deaths queue = sum_list (map (\<lambda>e. get_or 0 (de_count e))
     (filter (\<lambda>e. get_or [] (de_reason e) = ''rejected'' \<and> \<not> (queue \<noteq> [] \<and> get_or [] (de_queue e) \<noteq> queue)) deaths))"

definition retries_exhausted :: "int \<Rightarrow> int \<Rightarrow> bool" where
  "retries_exhausted retries max_retries \<longleftrightarrow> max_retries < retries"

text \<open>The broker's view: acknowledged, sent to the retry queue, and copied to the failed queue.\<close>

datatype broker_answer = BrokerAck | BrokerNack

definition dead_letter :: "bool \<Rightarrow> command option \<Rightarrow> broker_answer \<times> command option list" where
  "dead_letter failed_ok body = (if failed_ok then (BrokerAck, [body]) else (BrokerNack, []))"

definition handle_delivery :: "executor_cfg \<Rightarrow> int \<Rightarrow> string \<Rightarrow> nat \<Rightarrow> bool \<Rightarrow> bool \<Rightarrow> death list \<Rightarrow> command option
    \<Rightarrow> dedup_store \<Rightarrow> broker_answer \<times> command option list \<times> exec_event list \<times> dedup_store" where
  "handle_delivery cfg max_retries queue now sent failed_ok deaths body d =
     (if retries_exhausted (retry_count deaths queue) max_retries
      then (case dead_letter failed_ok body of (a, dl) \<Rightarrow> (a, dl, [], d))
      else (case execute cfg now sent body d of
          (None, evs, d') \<Rightarrow> (BrokerNack, [], evs, d')
        | (Some r, evs, d') \<Rightarrow>
            (case er_outcome r of
               Rejected \<Rightarrow> (case dead_letter failed_ok body of (a, dl) \<Rightarrow> (a, dl, evs, d'))
             | Delivered \<Rightarrow> (BrokerAck, [], evs, d'))))"

end
