(* ===== verification/CommandProps.thy ===== *)
theory CommandProps
  imports Command
begin

text \<open>
  Properties of the command channel: at most one confirmed write per idempotency key within
  the dedup window, what a write may touch, the number of runs of a command the machine never
  answers, and two ways a command is falsified.
\<close>

section \<open>Steps of the executor\<close>

fun confirmed :: "exec_event \<Rightarrow> bool" where
  "confirmed (DcmdPublish t p ok) = ok" | "confirmed (AckPublish k a) = False"

fun is_write :: "exec_event \<Rightarrow> bool" where
  "is_write (DcmdPublish t p ok) = True" | "is_write (AckPublish k a) = False"

lemma publish_ack_no_write [simp]:
  "filter is_write (publish_ack cfg now r) = []" "filter confirmed (publish_ack cfg now r) = []"
  by (auto simp: publish_ack_def split: option.split)

text \<open>The four ways a call can end.\<close>

lemma execute_cases:
  assumes "execute cfg now sent body d = (r, evs, d')"
  obtains
    (rejected) res where "r = Some res" "er_outcome res = Rejected" "filter is_write evs = []" "d' = d"
  | (duplicate) cmd dc res where "body = Some cmd" "build_dcmd now cmd (xc_edge_node cfg) = Inr dc"
      "dedup_has (cd_key cmd) d" "r = Some res" "er_outcome res = Delivered" "er_duplicate res"
      "filter is_write evs = []" "d' = d"
  | (transient) cmd dc where "body = Some cmd" "cd_tenant cmd \<noteq> []" "cd_key cmd \<noteq> []" "cd_verb cmd \<in> set (xc_allowed cfg)"
      "build_dcmd now cmd (xc_edge_node cfg) = Inr dc"
      "\<not> dedup_has (cd_key cmd) d" "\<not> sent" "r = None" "evs = [DcmdPublish (dc_topic dc) (dc_body dc) False]" "d' = d"
  | (written) cmd dc res where "body = Some cmd" "cd_tenant cmd \<noteq> []" "cd_key cmd \<noteq> []" "cd_verb cmd \<in> set (xc_allowed cfg)"
      "build_dcmd now cmd (xc_edge_node cfg) = Inr dc"
      "\<not> dedup_has (cd_key cmd) d" "sent" "r = Some res" "er_outcome res = Delivered" "\<not> er_duplicate res"
      "evs = DcmdPublish (dc_topic dc) (dc_body dc) True # publish_ack cfg now res" "d' = snd (mark_if_new (cd_key cmd) d)"
proof (cases body)
  case None
  then show thesis using assms rejected by (auto simp: execute_def)
next
  case (Some cmd)
  note ex = assms [unfolded execute_def Some option.case Let_def reject_def prod.case]
  show thesis
  proof (cases "cd_tenant cmd = [] \<or> cd_key cmd = [] \<or> cd_verb cmd \<notin> set (xc_allowed cfg)")
    case True
    then show thesis using ex rejected by (auto split: if_splits)
  next
    case ok: False
    show thesis
    proof (cases "build_dcmd now cmd (xc_edge_node cfg)")
      case (Inl e)
      then show thesis using ex ok rejected by auto
    next
      case (Inr dc)
      show thesis
      proof (cases "dedup_has (cd_key cmd) d")
        case True
        then show thesis using ex ok Inr duplicate [OF Some Inr] by auto
      next
        case False
        then show thesis using ex ok Inr transient [OF Some _ _ _ Inr] written [OF Some _ _ _ Inr] by (cases sent) auto
      qed
    qed
  qed
qed

section \<open>At most once\<close>

text \<open>What the broker hands over: death entries, clock, answers of the device and of the
  failed exchange, and the body.\<close>

record delivery =
  dv_deaths :: "death list"
  dv_now :: nat
  dv_sent :: bool
  dv_failed_ok :: bool
  dv_body :: "command option"

fun deliveries :: "executor_cfg \<Rightarrow> int \<Rightarrow> string \<Rightarrow> delivery list \<Rightarrow> dedup_store
    \<Rightarrow> (command option \<times> exec_event list) list \<times> dedup_store" where
  "deliveries cfg mx q [] d = ([], d)"
| "deliveries cfg mx q (v # vs) d =
     (case handle_delivery cfg mx q (dv_now v) (dv_sent v) (dv_failed_ok v) (dv_deaths v) (dv_body v) d of
        (a, dl, evs, d') \<Rightarrow> (case deliveries cfg mx q vs d' of (out, d'') \<Rightarrow> ((dv_body v, evs) # out, d'')))"

text \<open>The keys whose write the machine's broker confirmed, in order.\<close>

definition written_keys :: "(command option \<times> exec_event list) list \<Rightarrow> string list" where
  "written_keys out = concat (map (\<lambda>(body, evs). case body of None \<Rightarrow> []
     | Some cmd \<Rightarrow> map (\<lambda>e. cd_key cmd) (filter confirmed evs)) out)"

lemma written_keys_Nil [simp]: "written_keys [] = []"
  by (simp add: written_keys_def)

lemma written_keys_Cons: "written_keys (x # out) = written_keys [x] @ written_keys out"
  by (simp add: written_keys_def)

lemma confirmed_is_write: "filter is_write evs = [] \<Longrightarrow> filter confirmed evs = []"
  by (simp add: filter_empty_conv) (metis confirmed.simps(2) is_write.elims(3))

lemma execute_tracks:
  assumes "execute cfg now sent body d = (r, evs, d')" "dedup.tracks ks d"
  shows "dedup.tracks (ks @ written_keys [(body, evs)]) d' \<and> dd_cap d' = dd_cap d"
  using assms(1)
proof (cases rule: execute_cases)
  case (written cmd dc res)
  have "dedup_ok d" using assms(2) by (simp add: dedup.tracks_def)
  then have new: "fst (mark_if_new (cd_key cmd) d)"
    using written by (simp add: mark_if_new_def dedup_has_def Let_def)
  from dedup.tracks_mark [OF assms(2), of "cd_key cmd"] new written show ?thesis
    by (simp add: written_keys_def dedup.mark_capacity)
qed (use assms(2) confirmed_is_write in \<open>auto simp: written_keys_def split: option.splits\<close>)

lemma handle_delivery_tracks:
  assumes "handle_delivery cfg mx q now sent fok deaths body d = (a, dl, evs, d')" "dedup.tracks ks d"
  shows "dedup.tracks (ks @ written_keys [(body, evs)]) d' \<and> dd_cap d' = dd_cap d"
proof (cases "retries_exhausted (retry_count deaths q) mx")
  case True
  then have "evs = []" "d' = d" using assms(1) by (auto simp: handle_delivery_def split: prod.splits)
  then show ?thesis using assms(2) by (simp add: written_keys_def split: option.split)
next
  case False
  obtain r evs' d1 where e: "execute cfg now sent body d = (r, evs', d1)" by (metis prod_cases3)
  have "evs = evs'" "d' = d1" using assms(1) False
    by (auto simp: handle_delivery_def e split: option.splits outcome.splits prod.splits)
  then show ?thesis using execute_tracks [OF e assms(2)] by simp
qed

lemma deliveries_tracks:
  "deliveries cfg mx q vs d = (out, d') \<Longrightarrow> dedup.tracks ks d \<Longrightarrow>
     dedup.tracks (ks @ written_keys out) d' \<and> dd_cap d' = dd_cap d"
proof (induction vs arbitrary: ks d out)
  case (Cons v vs)
  obtain a dl evs d1 where h: "handle_delivery cfg mx q (dv_now v) (dv_sent v) (dv_failed_ok v) (dv_deaths v) (dv_body v) d
      = (a, dl, evs, d1)" by (metis prod_cases4)
  obtain out1 where r: "deliveries cfg mx q vs d1 = (out1, d')" "out = (dv_body v, evs) # out1"
    using Cons.prems(1) by (auto simp: h split: prod.splits)
  from handle_delivery_tracks [OF h Cons.prems(2)] Cons.IH [OF r(1), of "ks @ written_keys [(dv_body v, evs)]"]
  show ?case unfolding r(2) written_keys_Cons [of _ out1] by simp
qed simp

text \<open>
  C26: At most one machine write per idempotency key. Whatever sequence of commands and
  redeliveries the executor sees and however the brokers answer, two confirmed writes with the
  same key have at least as many confirmed writes of other keys between them as the dedup
  window holds; up to one more than that many writes, no key is ever written twice.
\<close>

theorem command_at_most_once:
  assumes "deliveries cfg mx q vs (new_dedup_store cap) = (out, d)"
  shows "spaced (dd_cap (new_dedup_store cap)) (written_keys out)
    \<and> (length (written_keys out) \<le> Suc (dd_cap (new_dedup_store cap)) \<longrightarrow> distinct (written_keys out))"
proof -
  have "dedup.tracks [] (new_dedup_store cap)" by (rule dedup.tracks_empty) simp_all
  from deliveries_tracks [OF assms this]
  have "spaced (dd_cap (new_dedup_store cap)) (written_keys out)" unfolding dedup.tracks_def append_Nil by metis
  with spaced_distinct show ?thesis by blast
qed

definition demo_exec_cfg :: executor_cfg where
  "demo_exec_cfg = \<lparr>xc_allowed = [''po_setup'', ''param_write''], xc_exchange = ''edge.commands'', xc_edge_node = ''plc'', xc_has_acks = True\<rparr>"

definition demo_command :: "string \<Rightarrow> f64 \<Rightarrow> command" where
  "demo_command tenant v = \<lparr>cd_tenant = tenant, cd_equipment = 7, cd_topic = ''CPACK/A'', cd_verb = ''param_write'',
     cd_params = [''parameter'' \<mapsto> PvString ''Status/MachSpeed'', ''value'' \<mapsto> PvFloat64 v], cd_key = ''k1''\<rparr>"

definition demo_delivery :: "bool \<Rightarrow> delivery" where
  "demo_delivery sent = \<lparr>dv_deaths = [], dv_now = 5, dv_sent = sent, dv_failed_ok = True, dv_body = Some (demo_command ''cpack'' (Fin 90))\<rparr>"

lemmas demo_exec = demo_exec_cfg_def demo_command_def build_dcmd_def sparkplug_group_def trim_space_def is_space_def
  trim_left_def trim_right_def join_topic_def param_string_def param_float_def Let_def

text \<open>A delivery that fails, its retry, and a stray third copy: one confirmed write.\<close>

lemma command_at_most_once_witness:
  "written_keys (fst (deliveries demo_exec_cfg 5 ''q'' (map demo_delivery [False, True, True]) (new_dedup_store 0))) = [''k1'']
    \<and> distinct (written_keys (fst (deliveries demo_exec_cfg 5 ''q'' (map demo_delivery [False, True, True]) (new_dedup_store 0))))"
proof -
  define r where "r = deliveries demo_exec_cfg 5 ''q'' (map demo_delivery [False, True, True]) (new_dedup_store 0)"
  have w: "written_keys (fst r) = [''k1'']"
    by (simp add: r_def demo_delivery_def handle_delivery_def retry_count_def retries_exhausted_def execute_def demo_exec
        new_dedup_store_def dedup_has_def mark_if_new_def publish_ack_def to_ack_def written_keys_def Let_def)
  have "deliveries demo_exec_cfg 5 ''q'' (map demo_delivery [False, True, True]) (new_dedup_store 0) = (fst r, snd r)"
    by (simp add: r_def)
  from command_at_most_once [OF this] w show ?thesis unfolding r_def [symmetric] by (simp add: new_dedup_store_def)
qed

section \<open>What a write may touch\<close>

lemma sparkplug_group_Some:
  assumes "sparkplug_group t = Some g"
  shows "g \<noteq> [] \<and> CHR ''/'' \<notin> set g"
proof -
  obtain u where "g = takeWhile ((\<noteq>) (CHR ''/'')) u" "g \<noteq> []"
    using assms by (auto simp: sparkplug_group_def Let_def split: if_splits)
  then show ?thesis using set_takeWhileD [of "CHR ''/''" "(\<noteq>) (CHR ''/'')" u] by blast
qed

text \<open>The write a command asks for: its own group's DCMD topic, one metric below its own PackML
  topic, and the number or order number it carries.\<close>

definition requested_value :: "command \<Rightarrow> wire_value \<Rightarrow> bool" where
  "requested_value cmd w \<longleftrightarrow>
     cd_verb cmd = ''param_write'' \<and> (\<exists>v. param_float (cd_params cmd) ''value'' = Some v \<and> w = DoubleValue v)
   \<or> cd_verb cmd = ''po_setup'' \<and> (\<exists>po. param_scalar_string (cd_params cmd) ''poNumber'' = Some po \<and> po \<noteq> [] \<and> w = StringValue po)"

definition requested_write :: "executor_cfg \<Rightarrow> command \<Rightarrow> string \<Rightarrow> payload \<Rightarrow> bool" where
  "requested_write cfg cmd topic p \<longleftrightarrow> cd_verb cmd \<in> set (xc_allowed cfg) \<and> cd_tenant cmd \<noteq> [] \<and> cd_key cmd \<noteq> []
     \<and> (\<exists>g. g \<noteq> [] \<and> CHR ''/'' \<notin> set g \<and> sparkplug_group (cd_topic cmd) = Some g
          \<and> topic = ''spBv1.0/'' @ g @ ''/DCMD/'' @ xc_edge_node cfg)
     \<and> (\<exists>m name. pl_metrics p = [m] \<and> wm_name m = Some name
          \<and> has_prefix (trim_right (CHR ''/'') (cd_topic cmd) @ ''/'') name \<and> requested_value cmd (wm_value m))"

lemma build_dcmd_requested:
  assumes "build_dcmd now cmd (xc_edge_node cfg) = Inr dc" "cd_tenant cmd \<noteq> []" "cd_key cmd \<noteq> []" "cd_verb cmd \<in> set (xc_allowed cfg)"
  shows "requested_write cfg cmd (dc_topic dc) (dc_body dc)"
proof -
  obtain g where g: "sparkplug_group (cd_topic cmd) = Some g" using assms(1) by (auto simp: build_dcmd_def split: option.splits)
  from assms(1) have "dc_topic dc = ''spBv1.0/'' @ g @ ''/DCMD/'' @ xc_edge_node cfg
    \<and> (\<exists>m name. pl_metrics (dc_body dc) = [m] \<and> wm_name m = Some name
        \<and> has_prefix (trim_right (CHR ''/'') (cd_topic cmd) @ ''/'') name \<and> requested_value cmd (wm_value m))"
    by (auto simp: build_dcmd_def g Let_def join_topic_def double_metric_def string_metric_def has_prefix_def requested_value_def
        split: option.splits if_splits)
  then show ?thesis using assms(2-4) sparkplug_group_Some [OF g] by (simp add: requested_write_def g)
qed

text \<open>
  A command writes only what it asks for. Every write the executor attempts comes from a
  decoded command with a tenant, a key and an allowed verb that is not a duplicate; it goes to
  the DCMD topic of the command's own group, which has no slash, and sets exactly one metric,
  below the command's own PackML topic, to exactly the number or order number of the command.
  A refused or duplicate command writes nothing, and only a confirmed write enters the dedup
  set, so a redelivered command whose write was not confirmed is written again.
\<close>

theorem command_writes_requested:
  assumes "execute cfg now sent body d = (r, evs, d')" "dedup_ok d"
  shows "(filter is_write evs = [] \<and> r \<noteq> None \<and> d' = d)
    \<or> (\<exists>cmd topic p. filter is_write evs = [DcmdPublish topic p sent] \<and> body = Some cmd \<and> requested_write cfg cmd topic p
         \<and> \<not> dedup_has (cd_key cmd) d \<and> (r = None \<longleftrightarrow> \<not> sent) \<and> (dedup_has (cd_key cmd) d' \<longleftrightarrow> sent) \<and> (d' = d \<or> sent))"
  using assms(1)
proof (cases rule: execute_cases)
  case (transient cmd dc)
  from build_dcmd_requested [OF transient(5,2,3,4)] transient show ?thesis by simp
next
  case (written cmd dc res)
  from build_dcmd_requested [OF written(5,2,3,4)] mark_if_new_has [OF assms(2), of "cd_key cmd"] written show ?thesis by simp
qed simp_all

lemma command_writes_requested_witness:
  "\<exists>topic p. filter is_write (fst (snd (execute demo_exec_cfg 5 True (Some (demo_command ''cpack'' (Fin 90))) (new_dedup_store 0))))
      = [DcmdPublish topic p True] \<and> requested_write demo_exec_cfg (demo_command ''cpack'' (Fin 90)) topic p"
proof -
  obtain r evs d' where e: "execute demo_exec_cfg 5 True (Some (demo_command ''cpack'' (Fin 90))) (new_dedup_store 0) = (r, evs, d')"
    by (metis prod_cases3)
  have "filter is_write evs \<noteq> []"
    using arg_cong [OF e, of "\<lambda>x. filter is_write (fst (snd x))"]
    by (simp add: execute_def demo_exec new_dedup_store_def dedup_has_def publish_ack_def Let_def split: if_splits)
      (metis list.discI)
  with command_writes_requested [OF e] e show ?thesis by auto
qed

section \<open>Redelivery\<close>

text \<open>
  The life of one command whose refused deliveries come back from the retry queue. \<open>hdr n\<close> is
  the x-death header the broker has written after \<open>n\<close> refusals; \<open>env n\<close> gives the clock and the
  device's answer at the next run. \<open>None\<close> means the fuel ran out.
\<close>

fun redeliver :: "nat \<Rightarrow> executor_cfg \<Rightarrow> int \<Rightarrow> string \<Rightarrow> (nat \<Rightarrow> death list) \<Rightarrow> (nat \<Rightarrow> nat \<times> bool) \<Rightarrow> command \<Rightarrow> nat
    \<Rightarrow> dedup_store \<Rightarrow> (exec_event list \<times> command option list \<times> dedup_store) option" where
  "redeliver 0 cfg mx q hdr env cmd n d = None"
| "redeliver (Suc f) cfg mx q hdr env cmd n d =
     (case handle_delivery cfg mx q (fst (env n)) (snd (env n)) True (hdr n) (Some cmd) d of
        (BrokerAck, dl, evs, d') \<Rightarrow> Some (evs, dl, d')
      | (BrokerNack, dl, evs, d') \<Rightarrow>
          map_option (\<lambda>(evs', dl', d''). (evs @ evs', dl @ dl', d'')) (redeliver f cfg mx q hdr env cmd (Suc n) d'))"

text \<open>Whether a command can be translated does not depend on the clock.\<close>

lemma build_dcmd_now: "build_dcmd now cmd node = Inr dc \<Longrightarrow> \<exists>dc'. build_dcmd now' cmd node = Inr dc'"
  by (auto simp: build_dcmd_def Let_def split: option.splits if_splits)

definition executable_command :: "executor_cfg \<Rightarrow> command \<Rightarrow> bool" where
  "executable_command cfg cmd \<longleftrightarrow> cd_tenant cmd \<noteq> [] \<and> cd_key cmd \<noteq> [] \<and> cd_verb cmd \<in> set (xc_allowed cfg)
     \<and> (case build_dcmd 0 cmd (xc_edge_node cfg) of Inl e \<Rightarrow> False | Inr dc \<Rightarrow> True)"

lemma execute_new:
  assumes "executable_command cfg cmd" "\<not> dedup_has (cd_key cmd) d"
  obtains t p evs where "execute cfg now True (Some cmd) d = (Some \<lparr>er_outcome = Delivered, er_reason = None, er_duplicate = False,
      er_command = Some cmd, er_dcmd_topic = t\<rparr>, DcmdPublish t p True # evs, snd (mark_if_new (cd_key cmd) d))"
    "filter is_write evs = []" "execute cfg now False (Some cmd) d = (None, [DcmdPublish t p False], d)"
proof -
  obtain dc0 where "build_dcmd 0 cmd (xc_edge_node cfg) = Inr dc0"
    using assms(1) by (auto simp: executable_command_def split: sum.splits)
  then obtain dc where dc: "build_dcmd now cmd (xc_edge_node cfg) = Inr dc" using build_dcmd_now by blast
  show thesis
    by (rule that [of "dc_topic dc" "dc_body dc" "publish_ack cfg now \<lparr>er_outcome = Delivered, er_reason = None,
        er_duplicate = False, er_command = Some cmd, er_dcmd_topic = dc_topic dc\<rparr>"], insert assms dc)
      (simp_all add: execute_def executable_command_def Let_def)
qed

lemma redeliver_runs:
  assumes "executable_command cfg cmd" "\<not> dedup_has (cd_key cmd) d" "\<And>n. retry_count (hdr n) q = int n" "n \<le> Suc N"
  shows "\<exists>evs dl d'. redeliver (Suc (Suc N - n)) cfg (int N) q hdr env cmd n d = Some (evs, dl, d')
    \<and> (case find (\<lambda>i. snd (env i)) [n..<Suc N] of
         Some i \<Rightarrow> length (filter is_write evs) = Suc (i - n) \<and> length (filter confirmed evs) = 1 \<and> dl = []
       | None \<Rightarrow> length (filter is_write evs) = Suc N - n \<and> filter confirmed evs = [] \<and> dl = [Some cmd] \<and> d' = d)"
  using assms(4)
proof (induction "Suc N - n" arbitrary: n)
  case 0
  then have "n = Suc N" by simp
  then show ?case by (simp add: handle_delivery_def retries_exhausted_def assms(3) dead_letter_def)
next
  case (Suc k)
  then have n: "n \<le> N" by simp
  obtain t p evs where e: "execute cfg (fst (env n)) True (Some cmd) d = (Some \<lparr>er_outcome = Delivered, er_reason = None, er_duplicate = False,
      er_command = Some cmd, er_dcmd_topic = t\<rparr>, DcmdPublish t p True # evs, snd (mark_if_new (cd_key cmd) d))"
    "filter is_write evs = []" "execute cfg (fst (env n)) False (Some cmd) d = (None, [DcmdPublish t p False], d)"
    using execute_new [OF assms(1,2)] by metis
  have open_: "\<not> retries_exhausted (retry_count (hdr n) q) (int N)" using n by (simp add: retries_exhausted_def assms(3))
  have upt: "[n..<Suc N] = n # [Suc n..<Suc N]" using n by (simp add: upt_rec)
  show ?case
  proof (cases "snd (env n)")
    case True
    then show ?thesis using open_ e(1,2) confirmed_is_write [OF e(2)]
      by (simp add: handle_delivery_def upt del: upt_Suc)
  next
    case False
    have "k = Suc N - Suc n" "Suc n \<le> Suc N" using Suc.hyps(2) n by simp_all
    from Suc.hyps(1) [OF this] obtain evs1 dl1 d1 where
      ih: "redeliver (Suc (Suc N - Suc n)) cfg (int N) q hdr env cmd (Suc n) d = Some (evs1, dl1, d1)"
      "case find (\<lambda>i. snd (env i)) [Suc n..<Suc N] of
         Some i \<Rightarrow> length (filter is_write evs1) = Suc (i - Suc n) \<and> length (filter confirmed evs1) = 1 \<and> dl1 = []
       | None \<Rightarrow> length (filter is_write evs1) = Suc N - Suc n \<and> filter confirmed evs1 = [] \<and> dl1 = [Some cmd] \<and> d1 = d"
      by blast
    have step: "redeliver (Suc (Suc N - n)) cfg (int N) q hdr env cmd n d = Some (DcmdPublish t p False # evs1, dl1, d1)"
      using open_ e(3) False ih(1) n by (simp add: handle_delivery_def Suc_diff_le)
    have gt: "Suc n \<le> i" if "find (\<lambda>i. snd (env i)) [Suc n..<Suc N] = Some i" for i
      using that by (auto simp: find_Some_iff simp del: upt_Suc)
    show ?thesis unfolding step upt using ih(2) False n gt
      by (auto split: option.splits simp del: upt_Suc simp: Suc_diff_le)
  qed
qed

text \<open>
  C32: An unanswered command is retried a bounded number of times and never lost. With
  \<open>MAX_RETRIES = N\<close>, a valid new command is written until the machine's broker first confirms it
  within \<open>N + 1\<close> runs, exactly once confirmed and never dead-lettered; if no run is confirmed,
  there are exactly \<open>N + 1\<close> attempts and then exactly one copy reaches the failed queue. The one
  fact used of the broker is that after \<open>n\<close> refusals its header counts \<open>n\<close> rejections of this queue.
\<close>

theorem command_retry_bound:
  assumes "executable_command cfg cmd" "\<not> dedup_has (cd_key cmd) d" "\<And>n. retry_count (hdr n) q = int n"
  shows "\<exists>evs dl d'. redeliver (N + 2) cfg (int N) q hdr env cmd 0 d = Some (evs, dl, d')
    \<and> (case find (\<lambda>i. snd (env i)) [0..<Suc N] of
         Some i \<Rightarrow> length (filter is_write evs) = Suc i \<and> length (filter confirmed evs) = 1 \<and> dl = []
       | None \<Rightarrow> length (filter is_write evs) = Suc N \<and> filter confirmed evs = [] \<and> dl = [Some cmd] \<and> d' = d)"
proof -
  obtain evs dl d' where r: "redeliver (Suc (Suc N - 0)) cfg (int N) q hdr env cmd 0 d = Some (evs, dl, d')"
    "case find (\<lambda>i. snd (env i)) [0..<Suc N] of
         Some i \<Rightarrow> length (filter is_write evs) = Suc (i - 0) \<and> length (filter confirmed evs) = 1 \<and> dl = []
       | None \<Rightarrow> length (filter is_write evs) = Suc N - 0 \<and> filter confirmed evs = [] \<and> dl = [Some cmd] \<and> d' = d"
    using redeliver_runs [OF assms, of 0 N env] by blast
  then show ?thesis by (cases "find (\<lambda>i. snd (env i)) [0..<Suc N]") (simp_all del: upt_Suc redeliver.simps)
qed

text \<open>The header RabbitMQ writes: one entry for our refusals, one for the retry queue's expiries.\<close>

definition demo_header :: "nat \<Rightarrow> death list" where
  "demo_header n = (if n = 0 then [] else
     [\<lparr>de_reason = Some ''rejected'', de_queue = Some ''q'', de_count = Some (int n)\<rparr>,
      \<lparr>de_reason = Some ''expired'', de_queue = Some ''q-retry-30s'', de_count = Some (int n)\<rparr>])"

lemma command_retry_bound_witness:
  "\<exists>evs dl d'. redeliver 7 demo_exec_cfg 5 ''q'' demo_header (\<lambda>n. (n, False)) (demo_command ''cpack'' (Fin 90)) 0 (new_dedup_store 0)
      = Some (evs, dl, d') \<and> length (filter is_write evs) = 6 \<and> dl = [Some (demo_command ''cpack'' (Fin 90))]"
proof -
  have "executable_command demo_exec_cfg (demo_command ''cpack'' (Fin 90))"
    by (simp add: executable_command_def demo_exec)
  moreover have "\<not> dedup_has (cd_key (demo_command ''cpack'' (Fin 90))) (new_dedup_store 0)"
    by (simp add: dedup_has_def new_dedup_store_def)
  moreover have "retry_count (demo_header n) ''q'' = int n" for n by (simp add: demo_header_def retry_count_def)
  ultimately show ?thesis
    using command_retry_bound [of demo_exec_cfg "demo_command ''cpack'' (Fin 90)" "new_dedup_store 0" demo_header "''q''" 5 "\<lambda>n. (n, False)"]
    by (simp add: find_None_iff del: redeliver.simps upt_Suc split: option.splits)
qed

section \<open>Two ways a command is falsified\<close>

text \<open>
  The dedup set is keyed by the idempotency key alone, for all tenants, verbs and
  equipments. After one confirmed write, any other executable command that carries the same
  key is reported delivered to its own tenant although nothing was written for it.
\<close>

theorem duplicate_key_swallows_command:
  assumes "executable_command cfg c1" "executable_command cfg c2" "cd_key c1 = cd_key c2" "dedup_ok d" "xc_has_acks cfg"
    "execute cfg now1 True (Some c1) d = (r1, evs1, d1)" "execute cfg now2 sent (Some c2) d1 = (r2, evs2, d2)"
  shows "filter is_write evs2 = [] \<and> (\<exists>a. evs2 = [AckPublish (xc_exchange cfg @ ''.'' @ cd_tenant c2 @ ''.ack'') a]
     \<and> ak_tenant a = cd_tenant c2 \<and> ak_equipment a = cd_equipment c2 \<and> ak_verb a = cd_verb c2 \<and> ak_status a = Delivered)"
proof -
  have known: "dedup_has (cd_key c2) d1"
  proof (cases "dedup_has (cd_key c1) d")
    case True
    from assms(6) True have "d1 = d" by (cases rule: execute_cases) auto
    with True assms(3) show ?thesis by simp
  next
    case False
    from execute_new [OF assms(1) False, of now1] assms(6) have "d1 = snd (mark_if_new (cd_key c1) d)" by (metis prod.inject)
    with mark_if_new_has [OF assms(4), of "cd_key c1"] assms(3) show ?thesis by simp
  qed
  obtain dc0 where "build_dcmd 0 c2 (xc_edge_node cfg) = Inr dc0"
    using assms(2) by (auto simp: executable_command_def split: sum.splits)
  then obtain dc where dc: "build_dcmd now2 c2 (xc_edge_node cfg) = Inr dc" using build_dcmd_now by blast
  show ?thesis using assms(2,5,7) known dc
    by (auto simp: execute_def executable_command_def publish_ack_def to_ack_def Let_def)
qed

lemma duplicate_key_swallows_command_witness:
  "filter is_write (fst (snd (execute demo_exec_cfg 6 True (Some (demo_command ''incoplast'' (Fin 200)))
     (snd (snd (execute demo_exec_cfg 5 True (Some (demo_command ''cpack'' (Fin 90))) (new_dedup_store 0))))))) = []"
proof -
  let ?c1 = "demo_command ''cpack'' (Fin 90)" and ?c2 = "demo_command ''incoplast'' (Fin 200)"
  obtain r1 e1 d1 where 1: "execute demo_exec_cfg 5 True (Some ?c1) (new_dedup_store 0) = (r1, e1, d1)" by (metis prod_cases3)
  obtain r2 e2 d2 where 2: "execute demo_exec_cfg 6 True (Some ?c2) d1 = (r2, e2, d2)" by (metis prod_cases3)
  have ex: "executable_command demo_exec_cfg ?c1" "executable_command demo_exec_cfg ?c2"
    by (simp_all add: executable_command_def demo_exec)
  have "cd_key ?c1 = cd_key ?c2" "xc_has_acks demo_exec_cfg" by (simp_all add: demo_command_def demo_exec_cfg_def)
  from duplicate_key_swallows_command [OF ex this(1) new_dedup_store_ok(1) this(2) 1 2] show ?thesis by (simp add: 1 2)
qed

lemma round64_big_ints:
  "round64 9007199254740993 = Fin 9007199254740992" "round64 10000000000000000000 = Fin 10000000000000000000"
  by code_simp+

lemma to_int64_big_ints: "to_int64 (Fin 9007199254740992) = 9007199254740992"
  "to_int64 (Fin 10000000000000000000) = - 9223372036854775808"
  by code_simp+

lemma itoa_big_ints: "itoa 9007199254740992 = ''9007199254740992''" "itoa (- 9223372036854775808) = ''-9223372036854775808''"
  by (simp_all add: itoa_def nat_digits.simps digit_char_def) code_simp+

text \<open>
  A numeric order number is decoded as a float and printed back as an integer, so the machine
  is sent another number than the one requested, without an error: 9007199254740993 becomes
  9007199254740992, and ten to the nineteenth becomes the smallest 64-bit integer. The translation
  is documented to reject what it cannot map exactly.
\<close>

theorem po_number_falsified:
  assumes "cd_verb cmd = ''po_setup''" "sparkplug_group (cd_topic cmd) = Some g"
    "cd_params cmd ''poNumber'' = json_number n" "(n, sent_po) \<in> {(9007199254740993, ''9007199254740992''),
       (10000000000000000000, ''-9223372036854775808'')}"
  shows "\<exists>dc m. build_dcmd now cmd node = Inr dc \<and> pl_metrics (dc_body dc) = [m] \<and> wm_value m = StringValue sent_po"
proof -
  have "\<exists>x. json_number n = Some (PvFloat64 (Fin (of_int x))) \<and> itoa (to_int64 (Fin (of_int x))) = sent_po"
  proof (cases "n = 9007199254740993")
    case True
    then show ?thesis using assms(4) by (intro exI [of _ 9007199254740992])
      (auto simp: json_number_def round64_big_ints to_int64_big_ints itoa_big_ints simp del: to_int64.simps)
  next
    case False
    then show ?thesis using assms(4) by (intro exI [of _ 10000000000000000000])
      (auto simp: json_number_def round64_big_ints to_int64_big_ints itoa_big_ints simp del: to_int64.simps)
  qed
  then have "param_scalar_string (cd_params cmd) ''poNumber'' = Some sent_po"
    using assms(3) by (auto simp: param_scalar_string_def)
  moreover have "sent_po \<noteq> []" using assms(4) by auto
  ultimately show ?thesis using assms(1,2) by (simp add: build_dcmd_def Let_def string_metric_def)
qed

lemma po_number_falsified_witness:
  "\<exists>dc m. build_dcmd 0 ((demo_command ''cpack'' (Fin 1))\<lparr>cd_verb := ''po_setup'',
      cd_params := (\<lambda>k. if k = ''poNumber'' then json_number 9007199254740993 else None)\<rparr>) ''plc'' = Inr dc
    \<and> pl_metrics (dc_body dc) = [m] \<and> wm_value m = StringValue ''9007199254740992''"
  by (rule po_number_falsified [where g = "''CPACK''" and n = 9007199254740993]) (simp_all add: demo_exec)

end
