(* ===== verification/ErpConnector.thy ===== *)
theory ErpConnector
  imports Dedup GoStrings
begin

text \<open>
  The ERP connector (internal/erpconnector): SQL templates confined to one directory
  (templates.go), DSNs by secret reference only (secrets.go), event writes with declarative
  dedup and table reads (connector.go), and the manager that validates and opens the declared
  integrations (manager.go). The disk is a map from paths to contents, the database's answers
  are arguments, and values of parameters and cells are of any type \<open>'v\<close> with the text
  \<open>fmt.Sprintf("%v")\<close> gives them as the argument \<open>show\<close>. Paths are Unix paths.
\<close>

section \<open>Paths: \<open>Clean\<close>, \<open>Join\<close> and \<open>Rel\<close> of path/filepath\<close>

fun clean_parts :: "bool \<Rightarrow> string list \<Rightarrow> string list \<Rightarrow> string list" where
  "clean_parts rooted out [] = rev out"
| "clean_parts rooted out (p # ps) =
     (if p = [] \<or> p = ''.'' then clean_parts rooted out ps
      else if p = ''..'' then
        (if out \<noteq> [] \<and> hd out \<noteq> ''..'' then clean_parts rooted (tl out) ps
         else if rooted then clean_parts rooted out ps
         else clean_parts rooted (p # out) ps)
      else clean_parts rooted (p # out) ps)"

text \<open>A cleaned path: whether it is absolute, and its elements; \<open>(False, [])\<close> is \<open>"."\<close>.\<close>

type_synonym clean_path = "bool \<times> string list"

definition path_clean :: "string \<Rightarrow> clean_path" where
  "path_clean s = (let rooted = has_prefix ''/'' s in (rooted, clean_parts rooted [] (split_on (CHR ''/'') s)))"

definition path_string :: "clean_path \<Rightarrow> string" where
  "path_string p = (case p of (rooted, ps) \<Rightarrow>
     if rooted then ''/'' @ join_with ''/'' ps else if ps = [] then ''.'' else join_with ''/'' ps)"

text \<open>\<open>Join\<close> leaves empty elements out.\<close>

definition path_join :: "string \<Rightarrow> string \<Rightarrow> clean_path" where
  "path_join a b = path_clean (if a = [] then b else if b = [] then a else a @ ''/'' @ b)"

fun strip_common :: "string list \<Rightarrow> string list \<Rightarrow> string list \<times> string list" where
  "strip_common (b # bs) (t # ts) = (if b = t then strip_common bs ts else (b # bs, t # ts))"
| "strip_common bs ts = (bs, ts)"

definition path_rel :: "clean_path \<Rightarrow> clean_path \<Rightarrow> string list option" where
  "path_rel base targ =
     (if fst base \<noteq> fst targ then None
      else case strip_common (snd base) (snd targ) of (bs, ts) \<Rightarrow>
        if bs \<noteq> [] \<and> hd bs = ''..'' then None else Some (replicate (length bs) ''..'' @ ts))"

section \<open>Templates\<close>

record template_store =
  tp_root :: string
  tp_cache :: "string \<rightharpoonup> string"

datatype template_error = EmptyReference | AbsoluteReference | EscapesRoot | Unreadable

definition template_resolve :: "string \<Rightarrow> string \<Rightarrow> template_error + clean_path" where
  "template_resolve root ref =
     (let clean = path_clean ref
      in if fst clean then Inl AbsoluteReference
         else let full = path_join root (path_string clean)
         in case path_rel (path_clean root) full of
              None \<Rightarrow> Inl EscapesRoot
            | Some rel \<Rightarrow> if rel \<noteq> [] \<and> hd rel = ''..'' then Inl EscapesRoot else Inr full)"

definition template_load :: "(string \<rightharpoonup> string) \<Rightarrow> string \<Rightarrow> template_store \<Rightarrow> (template_error + string) \<times> template_store" where
  "template_load disk ref t =
     (if trim_space ref = [] then (Inl EmptyReference, t)
      else case tp_cache t ref of
        Some sql \<Rightarrow> (Inr sql, t)
      | None \<Rightarrow> (case template_resolve (tp_root t) ref of
            Inl e \<Rightarrow> (Inl e, t)
          | Inr full \<Rightarrow> (case disk (path_string full) of
                None \<Rightarrow> (Inl Unreadable, t)
              | Some sql \<Rightarrow> (Inr sql, t\<lparr>tp_cache := (tp_cache t)(ref \<mapsto> sql)\<rparr>))))"

section \<open>Secrets\<close>

datatype secret_error = EmptySecretRef string | LiteralSecret string string

definition redact :: "string \<Rightarrow> string" where
  "redact val = (if length val \<le> 4 then ''****'' else take 2 val @ [CHR 0xE2, CHR 0x80, CHR 0xA6] @ ''****'')"

definition require_secret_ref :: "string \<Rightarrow> string \<Rightarrow> secret_error option" where
  "require_secret_ref field val =
     (if has_prefix ''secret://'' val then None
      else if trim_space val = [] then Some (EmptySecretRef field)
      else Some (LiteralSecret field (redact val)))"

definition env_char :: "char \<Rightarrow> bool" where
  "env_char c \<longleftrightarrow> (let n = (of_char c :: nat) in 65 \<le> n \<and> n \<le> 90 \<or> 48 \<le> n \<and> n \<le> 57)"

fun env_name_loop :: "bool \<Rightarrow> string \<Rightarrow> string" where
  "env_name_loop prev [] = []"
| "env_name_loop prev (c # cs) =
     (if env_char c then c # env_name_loop False cs
      else if prev then env_name_loop True cs else CHR ''_'' # env_name_loop True cs)"

definition env_var_name :: "string \<Rightarrow> string \<Rightarrow> string" where
  "env_var_name prefix ref =
     (let path = (if has_prefix ''secret://'' ref then drop 9 ref else ref)
      in (if prefix = [] then ''ERP_SECRET_'' else prefix) @ env_name_loop False (to_upper path))"

section \<open>The connector\<close>

record 'v erp_event =
  ee_params :: "string \<rightharpoonup> 'v option"   \<comment> \<open>\<open>Some None\<close> is a nil value\<close>

record connector =
  cn_dedup_key :: string
  cn_seen :: dedup_store

definition dedup_value :: "('v \<Rightarrow> string) \<Rightarrow> connector \<Rightarrow> 'v erp_event \<Rightarrow> string" where
  "dedup_value show c ev =
     (if cn_dedup_key c = [] then []
      else case ee_params ev (cn_dedup_key c) of Some (Some v) \<Rightarrow> show v | _ \<Rightarrow> [])"

text \<open>\<open>WriteFailed None\<close> is a statement the database refused.\<close>

datatype write_result = Written | Skipped | WriteFailed "template_error option"

text \<open>
  \<open>Write\<close>: the result, the statements that took effect, the template store (shared by all
  connectors) and the connector.
\<close>

definition erp_write :: "('v \<Rightarrow> string) \<Rightarrow> (string \<rightharpoonup> string) \<Rightarrow> bool \<Rightarrow> string \<Rightarrow> 'v erp_event \<Rightarrow> template_store \<Rightarrow> connector
    \<Rightarrow> write_result \<times> (string \<times> (string \<rightharpoonup> 'v option)) list \<times> template_store \<times> connector" where
  "erp_write show disk exec_ok ref ev ts c =
     (let key = dedup_value show c ev;
          (fresh, seen) = (if key = [] then (True, cn_seen c) else seen_mark_if_new (ref @ [CHR 0x00] @ key) (cn_seen c));
          c1 = c\<lparr>cn_seen := seen\<rparr>
      in if \<not> fresh then (Skipped, [], ts, c1)
         else case template_load disk ref ts of
           (Inl e, ts') \<Rightarrow> (WriteFailed (Some e), [], ts', c1)
         | (Inr query, ts') \<Rightarrow>
             if exec_ok then (Written, [(query, ee_params ev)], ts', c1) else (WriteFailed None, [], ts', c1))"

text \<open>\<open>scanRows\<close>: one map per row, a repeated column name keeping its last cell; \<open>cell\<close> is \<open>normalizeCell\<close>.\<close>

definition scan_rows :: "('v \<Rightarrow> 'v) \<Rightarrow> string list \<Rightarrow> 'v list list \<Rightarrow> (string \<rightharpoonup> 'v) list" where
  "scan_rows cell cols rows = map (\<lambda>cells. map_of (rev (zip cols (map cell cells)))) rows"

text \<open>\<open>Read\<close>: \<open>answer\<close> is the database's, \<open>None\<close> for an error of the query or the scan.\<close>

definition erp_read :: "('v \<Rightarrow> 'v) \<Rightarrow> (string \<rightharpoonup> string) \<Rightarrow> (string \<Rightarrow> (string list \<times> 'v list list) option) \<Rightarrow> string
    \<Rightarrow> template_store \<Rightarrow> (string \<rightharpoonup> 'v) list option \<times> template_store" where
  "erp_read cell disk answer ref ts =
     (case template_load disk ref ts of
        (Inl e, ts') \<Rightarrow> (None, ts')
      | (Inr query, ts') \<Rightarrow> (map_option (\<lambda>(cols, rows). scan_rows cell cols rows) (answer query), ts'))"

section \<open>The manager\<close>

record integration =
  ig_type :: string
  ig_driver :: string
  ig_dsn_ref :: string
  ig_dedup_key :: string
  ig_reads :: "string list"

datatype manager_error = BadSecret secret_error | NoDriver string | NoResolver | NoTemplates | OpenFailed string

fun manager_specs :: "(string \<Rightarrow> bool) \<Rightarrow> integration list \<Rightarrow> manager_error + integration list" where
  "manager_specs drivers [] = Inr []"
| "manager_specs drivers (i # is) =
     (if ig_type i \<noteq> ''database'' then manager_specs drivers is
      else case require_secret_ref ''dsn_ref'' (ig_dsn_ref i) of
        Some e \<Rightarrow> Inl (BadSecret e)
      | None \<Rightarrow> if \<not> drivers (ig_driver i) then Inl (NoDriver (ig_driver i))
          else map_sum id ((#) i) (manager_specs drivers is))"

definition new_manager :: "(string \<Rightarrow> bool) \<Rightarrow> bool \<Rightarrow> bool \<Rightarrow> integration list \<Rightarrow> manager_error + integration list" where
  "new_manager drivers has_resolver has_templates is =
     (case manager_specs drivers is of
        Inl e \<Rightarrow> Inl e
      | Inr specs \<Rightarrow> if specs \<noteq> [] \<and> \<not> has_resolver then Inl NoResolver
          else if specs \<noteq> [] \<and> \<not> has_templates then Inl NoTemplates else Inr specs)"

text \<open>\<open>open\<close>: \<open>resolve\<close> is the secret store and \<open>dial\<close> whether a driver reaches a DSN. The
  connectors opened before a failure stay in the list.\<close>

fun manager_open :: "(string \<rightharpoonup> string) \<Rightarrow> (string \<Rightarrow> string \<Rightarrow> bool) \<Rightarrow> int \<Rightarrow> integration list
    \<Rightarrow> connector list \<Rightarrow> manager_error option \<times> connector list" where
  "manager_open resolve dial cap [] opened = (None, opened)"
| "manager_open resolve dial cap (i # is) opened =
     (case require_secret_ref ''dsn_ref'' (ig_dsn_ref i) of
        Some e \<Rightarrow> (Some (BadSecret e), opened)
      | None \<Rightarrow> (case resolve (ig_dsn_ref i) of
            None \<Rightarrow> (Some (OpenFailed (ig_driver i)), opened)
          | Some dsn \<Rightarrow>
              if \<not> dial (ig_driver i) dsn then (Some (OpenFailed (ig_driver i)), opened)
              else manager_open resolve dial cap is
                (opened @ [\<lparr>cn_dedup_key = ig_dedup_key i, cn_seen = new_mem_seen_set cap\<rparr>])))"

end
