(* ===== verification/ErpProps.thy ===== *)
theory ErpProps
  imports ErpConnector
begin

text \<open>
  Properties of the ERP connector: templates never leave their directory, only declared
  database integrations with a secret reference are opened, and the dedup mark set before a
  write loses the event when the write fails.
\<close>

section \<open>Confinement of templates\<close>

lemma clean_parts_shape:
  assumes "\<exists>n good. out = good @ replicate n ''..'' \<and> ''..'' \<notin> set good \<and> (rooted \<longrightarrow> n = 0)"
  shows "\<exists>n good. clean_parts rooted out ps = replicate n ''..'' @ good \<and> ''..'' \<notin> set good \<and> (rooted \<longrightarrow> n = 0)"
  using assms
proof (induction rooted out ps rule: clean_parts.induct)
  case (1 rooted out)
  then obtain n good where "out = good @ replicate n ''..''" "''..'' \<notin> set good" "rooted \<longrightarrow> n = 0" by blast
  then show ?case by (intro exI [of _ n] exI [of _ "rev good"]) simp
next
  case (2 rooted out p ps)
  obtain n good where o: "out = good @ replicate n ''..''" "''..'' \<notin> set good" "rooted \<longrightarrow> n = 0" using "2.prems" by blast
  consider "p = [] \<or> p = ''.''" | "p = ''..''" "out \<noteq> []" "hd out \<noteq> ''..''" | "p = ''..''" "out = [] \<or> hd out = ''..''" "rooted"
    | "p = ''..''" "out = [] \<or> hd out = ''..''" "\<not> rooted" | "p \<noteq> []" "p \<noteq> ''.''" "p \<noteq> ''..''" by blast
  then show ?case
  proof cases
    case 1
    then show ?thesis using "2.IH"(1) "2.prems" by simp
  next
    case 2
    then have "good \<noteq> []" using o(1) by (cases good; cases n) auto
    then have "tl out = tl good @ replicate n ''..''" "''..'' \<notin> set (tl good)" using o by (auto dest: list.set_sel(2))
    with "2.IH"(2) 2 o(3) show ?thesis by simp blast
  next
    case 3
    then have "\<not> (out \<noteq> [] \<and> hd out \<noteq> ''..'')" by blast
    with "2.IH"(3) "2.prems" 3(1,3) show ?thesis by auto
  next
    case 4
    then have "good = []" using o by (cases good) auto
    then have out: "p # out = [] @ replicate (Suc n) ''..''" using o(1) 4(1) by simp
    have "\<not> (out \<noteq> [] \<and> hd out \<noteq> ''..'')" using 4 by blast
    moreover have "\<exists>n good. p # out = good @ replicate n ''..'' \<and> ''..'' \<notin> set good \<and> (rooted \<longrightarrow> n = 0)"
      using out 4(3) by (intro exI [of _ "Suc n"] exI [of _ "[]"]) simp
    ultimately show ?thesis using "2.IH"(4) 4(1,3) by auto
  next
    case 5
    then have "\<exists>n good. p # out = good @ replicate n ''..'' \<and> ''..'' \<notin> set good \<and> (rooted \<longrightarrow> n = 0)"
      using o by (intro exI [of _ n] exI [of _ "p # good"]) auto
    with "2.IH"(5) 5 show ?thesis by simp
  qed
qed

lemma path_clean_shape:
  "\<exists>n good. snd (path_clean s) = replicate n ''..'' @ good \<and> ''..'' \<notin> set good \<and> (fst (path_clean s) \<longrightarrow> n = 0)"
  using clean_parts_shape [of "[]" "has_prefix ''/'' s" "split_on (CHR ''/'') s"] by (simp add: path_clean_def Let_def)

lemma strip_common_prefix: "strip_common bs ts = ([], rest) \<Longrightarrow> ts = bs @ rest"
  by (induction bs ts rule: strip_common.induct) (auto split: if_splits)

lemma dots_prefix:
  "replicate n d @ good = bs @ ts \<Longrightarrow> d \<notin> set good \<Longrightarrow> ts = [] \<or> hd ts \<noteq> d \<Longrightarrow> d \<notin> set ts"
proof -
  assume e: "replicate n d @ good = bs @ ts" and g: "d \<notin> set good" and h: "ts = [] \<or> hd ts \<noteq> d"
  from e obtain us where "replicate n d = bs @ us \<and> us @ good = ts \<or> replicate n d @ us = bs \<and> good = us @ ts"
    by (auto simp: append_eq_append_conv2)
  then show "d \<notin> set ts"
  proof (elim disjE conjE)
    assume r: "replicate n d = bs @ us" and ts: "us @ good = ts"
    have "us = []"
    proof (cases us)
      case (Cons x xs)
      then have "x = d" using r by (metis in_set_conv_decomp in_set_replicate)
      with Cons ts h show ?thesis by auto
    qed simp
    with g ts show ?thesis by simp
  qed (use g in simp)
qed

lemma template_resolve_inside:
  assumes "template_resolve root ref = Inr full"
  shows "\<exists>rest. full = (fst (path_clean root), snd (path_clean root) @ rest) \<and> ''..'' \<notin> set rest"
proof -
  define x where "x = path_join root (path_string (path_clean ref))"
  obtain bs ts where s: "strip_common (snd (path_clean root)) (snd x) = (bs, ts)" by fastforce
  have f: "full = x" "fst x = fst (path_clean root)" "bs = []" "ts = [] \<or> hd ts \<noteq> ''..''"
    using assms by (auto simp: template_resolve_def Let_def path_rel_def s hd_append simp flip: x_def split: if_splits)
  have t: "snd x = snd (path_clean root) @ ts" using strip_common_prefix s f(3) by simp
  obtain n good where "snd x = replicate n ''..'' @ good" "''..'' \<notin> set good"
    using path_clean_shape by (metis x_def path_join_def)
  with dots_prefix [of n "''..''" good "snd (path_clean root)" ts] f(4) t have "''..'' \<notin> set ts" by metis
  moreover have "full = (fst (path_clean root), snd (path_clean root) @ ts)" using f(1,2) t by (simp add: prod_eq_iff)
  ultimately show ?thesis by blast
qed

text \<open>The text is that of a file below the root.\<close>

definition confined :: "(string \<rightharpoonup> string) \<Rightarrow> string \<Rightarrow> string \<Rightarrow> bool" where
  "confined disk root sql \<longleftrightarrow> (\<exists>rest. ''..'' \<notin> set rest
     \<and> disk (path_string (fst (path_clean root), snd (path_clean root) @ rest)) = Some sql)"

fun template_loads :: "(string \<rightharpoonup> string) \<Rightarrow> string list \<Rightarrow> template_store \<Rightarrow> (template_error + string) list \<times> template_store" where
  "template_loads disk [] t = ([], t)"
| "template_loads disk (r # rs) t = (case template_load disk r t of (x, t') \<Rightarrow>
     case template_loads disk rs t' of (xs, t'') \<Rightarrow> (x # xs, t''))"

lemma template_load_confined:
  assumes "template_load disk ref t = (x, t')" "\<forall>sql\<in>ran (tp_cache t). confined disk (tp_root t) sql"
  shows "tp_root t' = tp_root t \<and> (\<forall>sql\<in>ran (tp_cache t'). confined disk (tp_root t) sql)
    \<and> (case x of Inl e \<Rightarrow> True | Inr sql \<Rightarrow> confined disk (tp_root t) sql)"
proof -
  have "confined disk (tp_root t) sql" if "template_resolve (tp_root t) ref = Inr full" "disk (path_string full) = Some sql" for full sql
    using template_resolve_inside [OF that(1)] that(2) unfolding confined_def by metis
  with assms show ?thesis
    by (auto simp: template_load_def ran_map_upd ranI split: if_splits option.splits sum.splits)
qed

text \<open>
  SQL comes only from the reviewed directory. Whatever references a descriptor names and in
  whatever order they are loaded, every text the store hands out is the content of a file whose
  path is the cleaned root followed by elements none of which is \<open>".."\<close>.
\<close>

theorem templates_confined:
  "list_all (\<lambda>x. case x of Inl e \<Rightarrow> True | Inr sql \<Rightarrow> confined disk root sql)
     (fst (template_loads disk refs \<lparr>tp_root = root, tp_cache = Map.empty\<rparr>))"
proof -
  have "list_all (\<lambda>x. case x of Inl e \<Rightarrow> True | Inr sql \<Rightarrow> confined disk root sql) (fst (template_loads disk refs t))"
    if "tp_root t = root" "\<forall>sql\<in>ran (tp_cache t). confined disk root sql" for t
    using that
  proof (induction refs arbitrary: t)
    case (Cons r rs)
    obtain x t' where l: "template_load disk r t = (x, t')" by fastforce
    from template_load_confined [OF l] Cons.prems
    have "tp_root t' = root" "\<forall>sql\<in>ran (tp_cache t'). confined disk root sql"
      "case x of Inl e \<Rightarrow> True | Inr sql \<Rightarrow> confined disk root sql" by auto
    with Cons.IH [of t'] show ?case by (simp add: l split_beta)
  qed simp
  then show ?thesis by simp
qed

text \<open>The guard at work: a climbing reference is refused, a nested one is read.\<close>

lemma template_resolve_examples:
  "template_resolve ''/etc/t'' ''../passwd'' = Inl EscapesRoot"
  "template_resolve ''/etc/t'' ''a/../../x'' = Inl EscapesRoot"
  "template_resolve ''/etc/t'' ''/etc/t/x'' = Inl AbsoluteReference"
  "template_resolve ''/etc/t'' ''sql/./read.sql'' = Inr (True, [''etc'', ''t'', ''sql'', ''read.sql''])"
  by (simp_all add: template_resolve_def path_clean_def path_join_def path_rel_def path_string_def has_prefix_def Let_def)

section \<open>Secrets by reference\<close>

lemma manager_specs_ok:
  "manager_specs drivers is = Inr specs \<Longrightarrow>
     specs = filter (\<lambda>i. ig_type i = ''database'') is
     \<and> (\<forall>i\<in>set specs. has_prefix ''secret://'' (ig_dsn_ref i) \<and> drivers (ig_driver i))"
  by (induction "is" arbitrary: specs)
    (auto simp: require_secret_ref_def split: if_splits option.splits sum.splits, (case_tac "manager_specs drivers is"; auto)+)

section \<open>A failed write\<close>

text \<open>
  The dedup mark is set before the write. When a write fails, for a transient database error
  or an unreadable template, its key stays marked, so the retry of the same event is skipped
  without an error and the event never reaches the ERP.
\<close>

theorem erp_failed_write_lost:
  assumes "dedup_value show c ev \<noteq> []" "dedup_ok (cn_seen c)"
    "erp_write show disk False ref ev ts c = (res, out, ts1, c1)"
    "erp_write show disk' exec_ok ref ev ts1 c1 = (res', out', ts2, c2)"
  shows "out = [] \<and> res' = Skipped \<and> out' = []"
proof -
  let ?k = "ref @ [CHR 0x00] @ dedup_value show c ev"
  obtain fresh seen where m: "seen_mark_if_new ?k (cn_seen c) = (fresh, seen)" by fastforce
  have known: "dedup_has ?k seen" using mark_if_new_has [OF assms(2), of ?k] m by (simp add: seen_mark_eq)
  have "out = []" "c1 = c\<lparr>cn_seen := seen\<rparr>"
    using assms(1,3) m by (auto simp: erp_write_def Let_def split: if_splits prod.splits sum.splits)
  moreover from this have "dedup_value show c1 ev = dedup_value show c ev" by (simp add: dedup_value_def split: option.split)
  ultimately show ?thesis using assms(1,4) known
    by (simp add: erp_write_def Let_def seen_mark_if_new_def dedup_has_def)
qed

definition demo_connector :: connector where
  "demo_connector = \<lparr>cn_dedup_key = ''id'', cn_seen = new_mem_seen_set 0\<rparr>"

definition demo_templates :: template_store where
  "demo_templates = \<lparr>tp_root = ''/t'', tp_cache = Map.empty\<rparr>"

lemma erp_failed_write_lost_witness:
  "fst (erp_write id [''/t/w.sql'' \<mapsto> ''INSERT''] True ''w.sql'' \<lparr>ee_params = [''id'' \<mapsto> Some ''7'']\<rparr> demo_templates demo_connector) = Written
   \<and> (case erp_write id [''/t/w.sql'' \<mapsto> ''INSERT''] False ''w.sql'' \<lparr>ee_params = [''id'' \<mapsto> Some ''7'']\<rparr> demo_templates demo_connector of
       (res, out, ts, c) \<Rightarrow> fst (erp_write id [''/t/w.sql'' \<mapsto> ''INSERT''] True ''w.sql'' \<lparr>ee_params = [''id'' \<mapsto> Some ''7'']\<rparr> ts c) = Skipped)"
proof -
  let ?d = "[''/t/w.sql'' \<mapsto> ''INSERT'']" and ?e = "\<lparr>ee_params = [''id'' \<mapsto> Some ''7'']\<rparr> :: string erp_event"
  obtain res out ts c where 1: "erp_write id ?d False ''w.sql'' ?e demo_templates demo_connector = (res, out, ts, c)" by (metis prod_cases4)
  obtain res' out' ts' c' where 2: "erp_write id ?d True ''w.sql'' ?e ts c = (res', out', ts', c')" by (metis prod_cases4)
  have "dedup_value id demo_connector ?e \<noteq> []" "dedup_ok (cn_seen demo_connector)"
    by (simp_all add: dedup_value_def demo_connector_def)
  from erp_failed_write_lost [OF this 1 2] have "res' = Skipped" by simp
  moreover have "fst (erp_write id ?d True ''w.sql'' ?e demo_templates demo_connector) = Written"
    by (simp add: erp_write_def dedup_value_def demo_connector_def demo_templates_def new_mem_seen_set_def seen_mark_if_new_def
        template_load_def template_resolve_def path_clean_def path_join_def path_rel_def path_string_def has_prefix_def
        trim_space_def is_space_def Let_def)
  ultimately show ?thesis by (simp add: 1 2)
qed

end
