(* ===== verification/Deriver.thy ===== *)
theory Deriver
  imports AgentTags GoFormat
begin

text \<open>
  The agent's derive stage (internal/agent/deriver): canonical counts computed from a time
  integral of a rate, from a sum of registers, or from an expression over sibling tags. The
  expression evaluator is a third-party package: \<open>compile\<close> and the compiled program are
  arguments, a program taking the value of every variable and failing with \<open>None\<close>. Go visits
  the touched expression rules in an unspecified order; here it is the order of the rules.
\<close>

section \<open>Rules and state\<close>

type_synonym program = "(string \<Rightarrow> f64) \<Rightarrow> f64 option"

record integral_source =
  isrc_source :: string
  isrc_conversion :: f64
  isrc_clamp_min :: f64
  isrc_max_rate :: f64

record expr_source =
  xsrc_expr :: string
  xsrc_vars :: "(string \<times> string) list"   \<comment> \<open>variable, arriving suffix\<close>
  xsrc_consume :: "string list"

record derived_rule =
  dr_emit :: "string list"
  dr_type :: string
  dr_integral :: "integral_source option"
  dr_sum :: "string list option"
  dr_expr :: "expr_source option"

record integral_state =
  it_conversion :: f64
  it_clamp_min :: f64
  it_max_rate :: f64
  it_emit :: "string list"
  it_last_ts :: int
  it_accum :: f64
  it_seeded :: bool

record sum_state =
  su_addends :: "string list"
  su_emit :: "string list"
  su_latest :: "string \<rightharpoonup> f64"

record expr_state =
  xp_prog :: program
  xp_vars :: "(string \<times> string) list"
  xp_consume :: "string list"
  xp_emit :: "string list"
  xp_type :: string
  xp_latest :: "string \<rightharpoonup> f64"

record deriver =
  dv_integrals :: "(string \<times> integral_state) list"   \<comment> \<open>by source\<close>
  dv_sums :: "sum_state list"
  dv_exprs :: "expr_state list"

definition new_rule :: "(string \<Rightarrow> string list \<Rightarrow> program option) \<Rightarrow> derived_rule \<Rightarrow> deriver \<Rightarrow> deriver" where
  "new_rule compile r d =
     (case dr_integral r of
        Some i \<Rightarrow> d\<lparr>dv_integrals := AList.update (isrc_source i)
          \<lparr>it_conversion = isrc_conversion i, it_clamp_min = isrc_clamp_min i, it_max_rate = isrc_max_rate i,
           it_emit = dr_emit r, it_last_ts = 0, it_accum = Fin 0, it_seeded = False\<rparr> (dv_integrals d)\<rparr>
      | None \<Rightarrow> (case dr_sum r of
          Some addends \<Rightarrow> d\<lparr>dv_sums := dv_sums d @
            [\<lparr>su_addends = addends, su_emit = dr_emit r, su_latest = Map.empty\<rparr>]\<rparr>
        | None \<Rightarrow> (case dr_expr r of
            None \<Rightarrow> d
          | Some x \<Rightarrow> (case compile (xsrc_expr x) (map fst (xsrc_vars x)) of
                None \<Rightarrow> d
              | Some prog \<Rightarrow> d\<lparr>dv_exprs := dv_exprs d @
                  [\<lparr>xp_prog = prog, xp_vars = xsrc_vars x, xp_consume = xsrc_consume x, xp_emit = dr_emit r,
                    xp_type = dr_type r, xp_latest = Map.empty\<rparr>]\<rparr>))))"

definition new_deriver :: "(string \<Rightarrow> string list \<Rightarrow> program option) \<Rightarrow> derived_rule list \<Rightarrow> deriver" where
  "new_deriver compile rules = fold (new_rule compile) rules \<lparr>dv_integrals = [], dv_sums = [], dv_exprs = []\<rparr>"

definition deriver_empty :: "deriver \<Rightarrow> bool" where
  "deriver_empty d \<longleftrightarrow> dv_integrals d = [] \<and> dv_sums d = [] \<and> dv_exprs d = []"

section \<open>One sample\<close>

fun derive_float :: "scalar \<Rightarrow> f64 option" where
  "derive_float (ScNum f) = Some f" | "derive_float _ = None"

definition synth_tag :: "f64 \<Rightarrow> int \<Rightarrow> string \<Rightarrow> raw_tag" where
  "synth_tag v ts leaf = \<lparr>rt_endpoint = [], rt_metric = leaf, rt_value = ScNum v, rt_type = [], rt_ts = ts,
     rt_quality = True, rt_param = 0\<rparr>"

text \<open>The rate after the clamp, \<open>None\<close> when the spike guard drops the sample.\<close>

definition integral_rate :: "integral_state \<Rightarrow> f64 \<Rightarrow> f64 option" where
  "integral_rate st v =
     (let rate0 = fmul v (it_conversion st);
          rate = (if flt rate0 (it_clamp_min st) then it_clamp_min st else rate0)
      in if flt (Fin 0) (it_max_rate st) \<and> flt (it_max_rate st) rate then None else Some rate)"

definition integral_step :: "f64 \<Rightarrow> int \<Rightarrow> integral_state \<Rightarrow> raw_tag list \<times> integral_state" where
  "integral_step v ts st =
     (case integral_rate st v of
        None \<Rightarrow> ([], st)
      | Some rate \<Rightarrow>
        if \<not> it_seeded st then (map (synth_tag (Fin 0) ts) (it_emit st), st\<lparr>it_last_ts := ts, it_seeded := True\<rparr>)
        else let dt0 = fdiv (of_int64 (sub64 ts (it_last_ts st))) (Fin 1000);
                 dt = (if flt dt0 (Fin 0) then Fin 0 else dt0);
                 accum = fadd (it_accum st) (fmul rate dt)
             in (map (synth_tag (ffloor accum) ts) (it_emit st), st\<lparr>it_accum := accum, it_last_ts := ts\<rparr>))"

definition sum_warmed_up :: "sum_state \<Rightarrow> bool" where
  "sum_warmed_up st = list_all (\<lambda>a. su_latest st a \<noteq> None) (su_addends st)"

definition sum_total :: "sum_state \<Rightarrow> f64" where
  "sum_total st = fold (\<lambda>a acc. fadd acc (get_or (Fin 0) (su_latest st a))) (su_addends st) (Fin 0)"

text \<open>An addend listed twice is routed, and emits, twice.\<close>

definition sum_step :: "string \<Rightarrow> f64 \<Rightarrow> int \<Rightarrow> sum_state \<Rightarrow> raw_tag list \<times> sum_state" where
  "sum_step metric v ts st =
     (let n = count_list (su_addends st) metric
      in if n = 0 then ([], st)
         else let st' = st\<lparr>su_latest := (su_latest st)(metric \<mapsto> v)\<rparr>
              in (if sum_warmed_up st'
                  then concat (replicate n (map (synth_tag (ffloor (sum_total st')) ts) (su_emit st')))
                  else [], st'))"

fun sum_steps :: "string \<Rightarrow> f64 \<Rightarrow> int \<Rightarrow> sum_state list \<Rightarrow> raw_tag list \<times> sum_state list" where
  "sum_steps metric v ts [] = ([], [])"
| "sum_steps metric v ts (st # sts) = (case sum_step metric v ts st of (out, st') \<Rightarrow>
     case sum_steps metric v ts sts of (outs, sts') \<Rightarrow> (out @ outs, st' # sts'))"

definition is_addend :: "deriver \<Rightarrow> string \<Rightarrow> bool" where
  "is_addend d metric \<longleftrightarrow> list_ex (\<lambda>st. metric \<in> set (su_addends st)) (dv_sums d)"

section \<open>The two passes of \<open>Process\<close>\<close>

definition derive_tag :: "raw_tag \<Rightarrow> deriver \<Rightarrow> raw_tag list \<times> deriver" where
  "derive_tag t d =
     (if is_addend d (rt_metric t) then
        (case derive_float (rt_value t) of
           None \<Rightarrow> ([], d)
         | Some v \<Rightarrow> (case sum_steps (rt_metric t) v (rt_ts t) (dv_sums d) of (out, sts) \<Rightarrow> (out, d\<lparr>dv_sums := sts\<rparr>)))
      else (case map_of (dv_integrals d) (rt_metric t) of
          None \<Rightarrow> ([], d)
        | Some st \<Rightarrow> (case derive_float (rt_value t) of
            None \<Rightarrow> ([], d)
          | Some v \<Rightarrow> (case integral_step v (rt_ts t) st of (out, st') \<Rightarrow>
              (out, d\<lparr>dv_integrals := AList.update (rt_metric t) st' (dv_integrals d)\<rparr>)))))"

fun derive_tags :: "raw_tag list \<Rightarrow> deriver \<Rightarrow> raw_tag list \<times> deriver" where
  "derive_tags [] d = ([], d)"
| "derive_tags (t # ts) d = (case derive_tag t d of (out, d') \<Rightarrow>
     case derive_tags ts d' of (outs, d'') \<Rightarrow> (out @ outs, d''))"

text \<open>Latching the inputs of one expression rule: the newest timestamp of an input seen.\<close>

definition expr_bind :: "raw_tag \<Rightarrow> int option \<times> expr_state \<Rightarrow> int option \<times> expr_state" where
  "expr_bind t acc = (case acc of (touched, st) \<Rightarrow>
     (case (map fst (filter (\<lambda>(n, s). s = rt_metric t) (xp_vars st)), derive_float (rt_value t)) of
        ([], _) \<Rightarrow> (touched, st)
      | (_, None) \<Rightarrow> (touched, st)
      | (names, Some v) \<Rightarrow>
          (Some (case touched of None \<Rightarrow> rt_ts t | Some ts \<Rightarrow> if ts < rt_ts t then rt_ts t else ts),
           st\<lparr>xp_latest := fold (\<lambda>n m. m(n \<mapsto> v)) names (xp_latest st)\<rparr>)))"

definition expr_warmed_up :: "expr_state \<Rightarrow> bool" where
  "expr_warmed_up st = list_all (\<lambda>(n, s). xp_latest st n \<noteq> None) (xp_vars st)"

definition expr_emit :: "int \<Rightarrow> expr_state \<Rightarrow> raw_tag list" where
  "expr_emit ts st =
     (if \<not> expr_warmed_up st then []
      else case xp_prog st (\<lambda>n. get_or (Fin 0) (xp_latest st n)) of
        None \<Rightarrow> []
      | Some val \<Rightarrow> if \<not> finite_f64 val then []
          else map (synth_tag (if xp_type st = ''long'' \<or> xp_type st = ''int'' then ffloor val else val) ts) (xp_emit st))"

definition expr_step :: "raw_tag list \<Rightarrow> expr_state \<Rightarrow> raw_tag list \<times> expr_state" where
  "expr_step tags st = (case fold expr_bind tags (None, st) of
     (None, st') \<Rightarrow> ([], st')
   | (Some ts, st') \<Rightarrow> (expr_emit ts st', st'))"

definition expr_consumes :: "deriver \<Rightarrow> string \<Rightarrow> bool" where
  "expr_consumes d metric \<longleftrightarrow> list_ex (\<lambda>st. list_ex (\<lambda>(n, s). s = metric \<and> n \<in> set (xp_consume st)) (xp_vars st)) (dv_exprs d)"

text \<open>\<open>Process\<close>: the synthesized tags, the metrics to drop from the passthrough, the new state.\<close>

definition derive_process :: "raw_tag list \<Rightarrow> deriver \<Rightarrow> raw_tag list \<times> (string \<Rightarrow> bool) \<times> deriver" where
  "derive_process tags d =
     (if deriver_empty d then ([], (\<lambda>m. False), d)
      else case derive_tags tags d of (out1, d1) \<Rightarrow>
        let steps = map (expr_step tags) (dv_exprs d1)
        in (out1 @ concat (map fst steps),
            (\<lambda>m. m \<in> rt_metric ` set tags \<and> (is_addend d m \<or> expr_consumes d m)),
            d1\<lparr>dv_exprs := map snd steps\<rparr>))"

end
