(* ===== verification/CounterDerive.thy ===== *)
theory CounterDerive
  imports Deriver
begin

text \<open>
  The agent's counter-derive stage (internal/agent/counterderive): the gross, net and scrap
  counts a machine does not sense are filled in from the ones it does. A Go map that is
  iterated is a list; Go's order of the groups in the output is unspecified.
\<close>

section \<open>Modes\<close>

datatype count_role = RoleGross | RoleNet | RoleScrap

type_synonym counts = "count_role \<Rightarrow> f64"

text \<open>\<open>max(x, 0)\<close> as the source computes it.\<close>

definition floor0 :: "f64 \<Rightarrow> f64" where
  "floor0 x = (if flt x (Fin 0) then Fin 0 else x)"

text \<open>\<open>Apply\<close> on (gross, net, scrap); \<open>None\<close> is the unknown mode.\<close>

definition apply_derive :: "string \<Rightarrow> f64 \<times> f64 \<times> f64 \<Rightarrow> (f64 \<times> f64 \<times> f64) option" where
  "apply_derive mode c = (case c of (gross, net, scrap) \<Rightarrow>
     if mode = [] \<or> mode = ''full'' \<or> mode = ''none'' then Some (gross, net, scrap)
     else if mode = ''outfeed_only'' then Some (gross, gross, Fin 0)
     else if mode = ''infeed_only'' then Some (net, net, Fin 0)
     else if mode = ''scrap_derived'' then Some (gross, net, floor0 (fsub gross net))
     else if mode = ''gross_derived'' then Some (fadd net scrap, net, scrap)
     else if mode = ''outfeed_derived'' then Some (gross, floor0 (fsub gross scrap), scrap)
     else if mode = ''processed_is_gross'' then Some (net, floor0 (fsub net scrap), scrap)
     else None)"

text \<open>\<open>modeSpecs\<close>: the sensed and the derived roles of a mode.\<close>

definition mode_spec :: "string \<Rightarrow> (count_role list \<times> count_role list) option" where
  "mode_spec mode =
     (if mode = ''outfeed_only'' then Some ([RoleGross], [RoleNet, RoleScrap])
      else if mode = ''infeed_only'' then Some ([RoleNet], [RoleGross, RoleScrap])
      else if mode = ''scrap_derived'' then Some ([RoleGross, RoleNet], [RoleScrap])
      else if mode = ''gross_derived'' then Some ([RoleNet, RoleScrap], [RoleGross])
      else if mode = ''outfeed_derived'' then Some ([RoleGross, RoleScrap], [RoleNet])
      else if mode = ''processed_is_gross'' then Some ([RoleNet, RoleScrap], [RoleGross, RoleNet])
      else None)"

section \<open>Count leaves\<close>

fun leaf_word :: "count_role \<Rightarrow> string" where
  "leaf_word RoleGross = ''Consumed''" | "leaf_word RoleNet = ''Processed''" | "leaf_word RoleScrap = ''Defective''"

definition role_of_segment :: "string \<Rightarrow> count_role option" where
  "role_of_segment s =
     (if s = ''ProdConsumedCount'' then Some RoleGross
      else if s = ''ProdProcessedCount'' then Some RoleNet
      else if s = ''ProdDefectiveCount'' then Some RoleScrap else None)"

text \<open>The regular expression \<open>^(.*)/Prod(Consumed|Processed|Defective)Count/(\d+)/Unit$\<close>, whose
  dot does not match a newline.\<close>

definition parse_count_leaf :: "string \<Rightarrow> (string \<times> count_role \<times> string) option" where
  "parse_count_leaf suffix =
     (case rev (split_on (CHR ''/'') suffix) of
        u # idx # seg # h # hs \<Rightarrow>
          (case role_of_segment seg of
             None \<Rightarrow> None
           | Some r \<Rightarrow>
               let head = join_with ''/'' (rev (h # hs))
               in if u = ''Unit'' \<and> idx \<noteq> [] \<and> list_all (\<lambda>c. digit_val c \<noteq> None) idx \<and> CHR 0x0A \<notin> set head
                  then Some (head, r, idx) else None)
      | _ \<Rightarrow> None)"

definition sibling_suffix :: "string \<Rightarrow> count_role \<Rightarrow> string \<Rightarrow> string" where
  "sibling_suffix head r idx = head @ ''/Prod'' @ leaf_word r @ ''Count/'' @ idx @ ''/Unit''"

section \<open>The stage\<close>

record derive_group =
  dg_mode :: string
  dg_head :: string
  dg_idx :: string

definition group_suffix :: "derive_group \<Rightarrow> count_role \<Rightarrow> string" where
  "group_suffix g r = sibling_suffix (dg_head g) r (dg_idx g)"

definition add_entry :: "string \<times> string \<Rightarrow> derive_group list \<Rightarrow> derive_group list" where
  "add_entry e gs = (case e of (suffix, mode) \<Rightarrow>
     (case mode_spec mode of
        None \<Rightarrow> gs
      | Some spec \<Rightarrow> (case parse_count_leaf suffix of
          None \<Rightarrow> gs
        | Some (head, r, idx) \<Rightarrow>
            if list_ex (\<lambda>g. dg_head g = head \<and> dg_idx g = idx) gs then gs
            else gs @ [\<lparr>dg_mode = mode, dg_head = head, dg_idx = idx\<rparr>])))"

definition new_stage :: "(string \<times> string) list \<Rightarrow> derive_group list" where
  "new_stage entries = fold add_entry entries []"

definition all_roles :: "count_role list" where "all_roles = [RoleGross, RoleNet, RoleScrap]"

text \<open>\<open>bySuffix\<close>.\<close>

definition suffix_ref :: "derive_group list \<Rightarrow> string \<Rightarrow> (derive_group \<times> count_role) option" where
  "suffix_ref gs metric = find (\<lambda>(g, r). group_suffix g r = metric) (List.product gs all_roles)"

definition stage_overrides :: "derive_group list \<Rightarrow> string \<Rightarrow> bool" where
  "stage_overrides gs metric =
     (case suffix_ref gs metric of
        None \<Rightarrow> False
      | Some (g, r) \<Rightarrow> (case mode_spec (dg_mode g) of None \<Rightarrow> False
          | Some (sensed, derived) \<Rightarrow> r \<in> set sensed \<and> r \<in> set derived))"

text \<open>The first pass for one group: the last numeric value of each role, and the newest timestamp.\<close>

record present =
  pr_val :: "count_role \<rightharpoonup> f64"
  pr_ts :: int

definition collect :: "derive_group list \<Rightarrow> derive_group \<Rightarrow> raw_tag \<Rightarrow> present \<Rightarrow> present" where
  "collect gs g t p =
     (case suffix_ref gs (rt_metric t) of
        None \<Rightarrow> p
      | Some (g', r) \<Rightarrow>
          if g' \<noteq> g then p
          else (case derive_float (rt_value t) of
              None \<Rightarrow> p
            | Some v \<Rightarrow> \<lparr>pr_val = (pr_val p)(r \<mapsto> v), pr_ts = (if pr_ts p < rt_ts t then rt_ts t else pr_ts p)\<rparr>))"

fun count_of :: "count_role \<Rightarrow> f64 \<times> f64 \<times> f64 \<Rightarrow> f64" where
  "count_of RoleGross (g, n, s) = g" | "count_of RoleNet (g, n, s) = n" | "count_of RoleScrap (g, n, s) = s"

definition group_synth :: "derive_group \<Rightarrow> present \<Rightarrow> raw_tag list" where
  "group_synth g p =
     (case mode_spec (dg_mode g) of
        None \<Rightarrow> []
      | Some (sensed, derived) \<Rightarrow>
          if \<not> list_all (\<lambda>r. pr_val p r \<noteq> None) sensed then []
          else (case apply_derive (dg_mode g) (get_or (Fin 0) (pr_val p RoleGross), get_or (Fin 0) (pr_val p RoleNet),
                    get_or (Fin 0) (pr_val p RoleScrap)) of
              None \<Rightarrow> []
            | Some out \<Rightarrow> map (\<lambda>r. synth_tag (ffloor (count_of r out)) (pr_ts p) (group_suffix g r)) derived))"

text \<open>\<open>Process\<close>; a group no tag of the batch belongs to has no sensed count and emits nothing.\<close>

definition stage_process :: "derive_group list \<Rightarrow> raw_tag list \<Rightarrow> raw_tag list" where
  "stage_process gs tags =
     concat (map (\<lambda>g. group_synth g (fold (collect gs g) tags \<lparr>pr_val = Map.empty, pr_ts = 0\<rparr>)) gs)"

end
