(* ===== verification/AgentIngest.thy ===== *)
theory AgentIngest
  imports CounterDerive Session
begin

text \<open>
  The agent's ingest closure (cmd/sparkplug-agent/main.go, \<open>p.ingest\<close>): derive, counter-derive,
  drop what a derivation replaces, rewrite bare parameters (tenantprofile), resolve against the
  tag map and store; and the translation of numeric counters into raw tags (agent/numeric).
  Live capture and the counters of drops are not modelled.
\<close>

section \<open>Parameter decomposition\<close>

record parameter_rule =
  pd_source_leaf :: string
  pd_params :: "(int \<times> string) list"

definition decompose_parameter :: "parameter_rule \<Rightarrow> string \<Rightarrow> int \<Rightarrow> string option" where
  "decompose_parameter d suffix param_id =
     (if pd_source_leaf d = [] \<or> param_id = 0 \<or> \<not> has_suffix (pd_source_leaf d) suffix then None
      else map_option (\<lambda>leaf. take (length suffix - length (pd_source_leaf d)) suffix @ leaf)
             (map_of (pd_params d) param_id))"

section \<open>The ingest closure\<close>

record ingest_cfg =
  ic_resolver :: agent_resolver
  ic_decomposer :: "parameter_rule option"
  ic_stage :: "derive_group list option"

definition stage_drops :: "derive_group list option \<Rightarrow> string \<Rightarrow> bool" where
  "stage_drops stage m = (case stage of None \<Rightarrow> False | Some gs \<Rightarrow> stage_overrides gs m)"

definition decompose_tag :: "parameter_rule option \<Rightarrow> raw_tag \<Rightarrow> raw_tag" where
  "decompose_tag dec t = (case dec of None \<Rightarrow> t
     | Some d \<Rightarrow> if rt_param t = 0 then t
         else (case decompose_parameter d (rt_metric t) (rt_param t) of None \<Rightarrow> t | Some s \<Rightarrow> t\<lparr>rt_metric := s\<rparr>))"

text \<open>Resolve one tag and store it: whether it was accepted.\<close>

definition ingest_one :: "agent_resolver \<Rightarrow> raw_tag \<Rightarrow> tag_store \<Rightarrow> bool \<times> tag_store" where
  "ingest_one r t s = (if resolver_resolve r (rt_metric t) = None then (False, s) else (True, snd (tag_apply t s)))"

fun ingest_all :: "agent_resolver \<Rightarrow> raw_tag list \<Rightarrow> tag_store \<Rightarrow> nat \<times> tag_store" where
  "ingest_all r [] s = (0, s)"
| "ingest_all r (t # ts) s = (case ingest_one r t s of (ok, s') \<Rightarrow>
     case ingest_all r ts s' of (n, s'') \<Rightarrow> ((if ok then Suc n else n), s''))"

text \<open>The result is (accepted, total), the store and the deriver.\<close>

definition agent_ingest :: "ingest_cfg \<Rightarrow> raw_tag list \<Rightarrow> deriver option \<times> tag_store
    \<Rightarrow> (nat \<times> nat) \<times> deriver option \<times> tag_store" where
  "agent_ingest cfg tags ds =
     (case ds of (dv, s0) \<Rightarrow>
      let (synth, consumed, dv') = (case dv of None \<Rightarrow> ([], (\<lambda>m. False), None)
            | Some d \<Rightarrow> (case derive_process tags d of (out, c, d') \<Rightarrow> (out, c, Some d')));
          counter_synth = (case ic_stage cfg of None \<Rightarrow> [] | Some gs \<Rightarrow> stage_process gs tags);
          passed = filter (\<lambda>t. \<not> consumed (rt_metric t) \<and> \<not> stage_drops (ic_stage cfg) (rt_metric t)) tags;
          (accepted, s1) = ingest_all (ic_resolver cfg) (map (decompose_tag (ic_decomposer cfg)) passed) s0;
          (_, s2) = ingest_all (ic_resolver cfg) synth s1;
          (_, s3) = ingest_all (ic_resolver cfg) counter_synth s2
      in ((accepted, length tags), dv', s3))"

section \<open>Numeric counters\<close>

record numeric_counter =
  nc_id :: int
  nc_value :: f64
  nc_q :: "bool option"
  nc_ts :: int

record numeric_target =
  nt_suffix :: string
  nt_type :: string

definition count_index_of :: "string \<Rightarrow> int option" where
  "count_index_of suffix =
     (case rev (split_on (CHR ''/'') suffix) of
        u # idx # leaf # rest \<Rightarrow>
          if u \<noteq> ''Unit'' \<or> \<not> has_suffix ''Count'' leaf then None
          else (case atoi idx of None \<Rightarrow> None | Some i \<Rightarrow> if i < 0 then None else Some i)
      | _ \<Rightarrow> None)"

text \<open>\<open>BuildIndexFromTagMap\<close>: an index claimed twice is an error.\<close>

fun build_index :: "tag_map_entry list \<Rightarrow> (int \<times> numeric_target) list \<Rightarrow> int + (int \<times> numeric_target) list" where
  "build_index [] m = Inr m"
| "build_index (e # es) m =
     (case count_index_of (te_suffix e) of
        None \<Rightarrow> build_index es m
      | Some i \<Rightarrow> if i \<in> fst ` set m then Inl i
          else build_index es (m @ [(i, \<lparr>nt_suffix = te_suffix e, nt_type = te_type e\<rparr>)]))"

text \<open>\<open>Translate\<close>: the tags, and the unmapped ids sorted without repetition.\<close>

definition translate_counter :: "string \<Rightarrow> int \<Rightarrow> numeric_counter \<Rightarrow> numeric_target \<Rightarrow> raw_tag" where
  "translate_counter endpoint scan_ts c t =
     \<lparr>rt_endpoint = endpoint, rt_metric = nt_suffix t, rt_value = ScNum (nc_value c), rt_type = nt_type t,
      rt_ts = (if nc_ts c = 0 then scan_ts else nc_ts c), rt_quality = get_or True (nc_q c), rt_param = 0\<rparr>"

definition translate :: "(int \<times> numeric_target) list \<Rightarrow> numeric_counter list \<Rightarrow> string \<Rightarrow> int \<Rightarrow> raw_tag list \<times> int list" where
  "translate m cs endpoint scan_ts =
     (List.map_filter (\<lambda>c. map_option (translate_counter endpoint scan_ts c) (map_of m (nc_id c))) cs,
      sort (remdups (map nc_id (filter (\<lambda>c. map_of m (nc_id c) = None) cs))))"

record numeric_envelope =
  ne_timestamp :: int
  ne_scan_ts :: int
  ne_counter_data :: "numeric_counter list"
  ne_counters :: "(string \<times> numeric_counter list) list"

definition numeric_decode :: "numeric_envelope \<Rightarrow> numeric_counter list" where
  "numeric_decode env = ne_counter_data env @ concat (map snd (ne_counters env))"

definition numeric_ts :: "numeric_envelope \<Rightarrow> int" where
  "numeric_ts env = (if ne_timestamp env \<noteq> 0 then ne_timestamp env else ne_scan_ts env)"

end
