(* ===== verification/FloatMono.thy ===== *)
theory FloatMono
  imports GoFormat
begin

text \<open>
  Order facts of binary64 rounding on non-negative values: rounding is monotone, it fixes the
  representable values, and so adding a non-negative value to an accumulator never decreases it.
\<close>

section \<open>Rounding to even\<close>

lemma round_even_mono: "p \<le> q \<Longrightarrow> round_even p \<le> round_even q"
proof -
  assume pq: "p \<le> q"
  have near: "round_even r = \<lfloor>r\<rfloor> \<or> round_even r = \<lfloor>r\<rfloor> + 1" for r by (simp add: round_even_def Let_def)
  have lo: "\<lfloor>p\<rfloor> \<le> \<lfloor>q\<rfloor>" using pq by (rule floor_mono)
  show ?thesis
  proof (cases "\<lfloor>p\<rfloor> = \<lfloor>q\<rfloor>")
    case True
    with pq show ?thesis by (auto simp: round_even_def Let_def)
  next
    case False
    with lo near [of p] near [of q] show ?thesis by linarith
  qed
qed

lemma round_even_le: "q \<le> of_int n \<Longrightarrow> round_even q \<le> n"
  using round_even_mono [of q "of_int n"] by simp

lemma round_even_ge: "of_int n \<le> q \<Longrightarrow> n \<le> round_even q"
  using round_even_mono [of "of_int n" q] by simp

section \<open>The rounding of a positive value\<close>

definition rexp :: "rat \<Rightarrow> int" where
  "rexp x = max (ilog2 x - 52) (- 1074)"

definition rnd :: "rat \<Rightarrow> rat" where
  "rnd x = of_int (round_even (x / 2 powi rexp x)) * 2 powi rexp x"

lemma round64_rnd: "0 < x \<Longrightarrow> round64 x = (if 2 ^ 1024 \<le> rnd x then PInf else Fin (rnd x))"
proof -
  assume x: "0 < x"
  have "0 \<le> rnd x" unfolding rnd_def using x by (intro mult_nonneg_nonneg) (simp_all add: round_even_nonneg)
  with x show ?thesis by (simp add: round64_def Let_def rnd_def rexp_def)
qed

lemma ilog2_mono: "0 < x \<Longrightarrow> x \<le> y \<Longrightarrow> ilog2 x \<le> ilog2 y"
proof -
  assume x: "0 < x" "x \<le> y"
  then have "2 powi ilog2 x < (2::rat) powi (ilog2 y + 1)"
    using ilog2_bounds(1) [OF x(1)] ilog2_bounds(2) [of y] by linarith
  then show ?thesis by (simp only: pow2_less_cancel)
qed

lemma pow2_int: "0 \<le> k \<Longrightarrow> (2::rat) powi k = of_int (2 ^ nat k)"
  by (simp add: power_int_def)

lemma pow2_split: "(2::rat) powi (m - e) * 2 powi e = 2 powi m"
  by (simp flip: power_int_add)

lemma rnd_le_pow: "x \<le> 2 powi m \<Longrightarrow> rexp x \<le> m \<Longrightarrow> rnd x \<le> 2 powi m"
proof -
  assume x: "x \<le> 2 powi m" "rexp x \<le> m"
  have "x / 2 powi rexp x \<le> 2 powi (m - rexp x)" using x(1) pow2_split [of m "rexp x"] by (simp add: pos_divide_le_eq)
  then have "x / 2 powi rexp x \<le> of_int (2 ^ nat (m - rexp x))" using x(2) by (simp add: pow2_int)
  from round_even_le [OF this] have "(of_int (round_even (x / 2 powi rexp x)) :: rat) \<le> 2 powi (m - rexp x)"
    using x(2) by (subst pow2_int) (simp_all only: of_int_le_iff diff_ge_0_iff_ge)
  then have "rnd x \<le> 2 powi (m - rexp x) * 2 powi rexp x" unfolding rnd_def by (rule mult_right_mono) simp
  then show ?thesis by (simp only: pow2_split)
qed

lemma rnd_ge_pow: "2 powi m \<le> x \<Longrightarrow> rexp x \<le> m \<Longrightarrow> 2 powi m \<le> rnd x"
proof -
  assume x: "2 powi m \<le> x" "rexp x \<le> m"
  have "2 powi (m - rexp x) \<le> x / 2 powi rexp x" using x(1) pow2_split [of m "rexp x"] by (simp add: pos_le_divide_eq)
  then have "of_int (2 ^ nat (m - rexp x)) \<le> x / 2 powi rexp x" using x(2) by (simp add: pow2_int)
  from round_even_ge [OF this] have "2 powi (m - rexp x) \<le> (of_int (round_even (x / 2 powi rexp x)) :: rat)"
    using x(2) by (subst pow2_int) (simp_all only: of_int_le_iff diff_ge_0_iff_ge)
  then have "2 powi (m - rexp x) * 2 powi rexp x \<le> rnd x" unfolding rnd_def by (rule mult_right_mono) simp
  then show ?thesis by (simp only: pow2_split)
qed

lemma rnd_mono: assumes "0 < x" "x \<le> y" shows "rnd x \<le> rnd y"
proof -
  have il: "ilog2 x \<le> ilog2 y" by (rule ilog2_mono [OF assms])
  show ?thesis
  proof (cases "rexp x = rexp y")
    case True
    have "x / 2 powi rexp y \<le> y / 2 powi rexp y" using assms by (simp add: divide_right_mono)
    then have "(of_int (round_even (x / 2 powi rexp y)) :: rat) \<le> of_int (round_even (y / 2 powi rexp y))"
      by (simp add: round_even_mono)
    then show ?thesis unfolding rnd_def True by (rule mult_right_mono) simp
  next
    case False
    define m where "m = max (ilog2 x + 1) (rexp x)"
    have ey: "rexp y = ilog2 y - 52" "rexp x < rexp y" using False il by (auto simp: rexp_def max_def split: if_splits)
    have my: "m \<le> ilog2 y" using ey by (auto simp: m_def rexp_def max_def split: if_splits)
    have "x \<le> 2 powi m"
      using ilog2_bounds(2) [OF assms(1)] power_int_increasing [of "ilog2 x + 1" m "2::rat"] by (simp add: m_def)
    then have "rnd x \<le> 2 powi m" by (rule rnd_le_pow) (simp add: m_def)
    also have "\<dots> \<le> 2 powi ilog2 y" using my by (intro power_int_increasing) simp_all
    also have "\<dots> \<le> rnd y" using assms ilog2_bounds(1) [of y] by (intro rnd_ge_pow) (simp_all add: ey)
    finally show ?thesis .
  qed
qed

section \<open>Representable values\<close>

definition repr :: "rat \<Rightarrow> bool" where
  "repr r \<longleftrightarrow> (\<exists>n e. r = of_int n * 2 powi e \<and> 0 \<le> n \<and> n \<le> 2 ^ 53 \<and> - 1074 \<le> e)"

lemma repr_0 [simp]: "repr 0"
  unfolding repr_def by (intro exI [of _ 0]) simp

lemma repr_rnd: "0 < x \<Longrightarrow> repr (rnd x)"
proof -
  assume x: "0 < x"
  have "ilog2 x + 1 \<le> 53 + rexp x" by (simp add: rexp_def)
  then have "x \<le> 2 powi (53 + rexp x)"
    using ilog2_bounds(2) [OF x] power_int_increasing [of "ilog2 x + 1" "53 + rexp x" "2::rat"] by simp
  then have "x / 2 powi rexp x \<le> of_int (2 ^ 53)" by (simp add: pos_divide_le_eq power_int_add)
  then show ?thesis unfolding repr_def rnd_def using x
    by (intro exI conjI) (rule refl, simp add: round_even_nonneg, erule round_even_le, simp add: rexp_def)
qed

lemma rnd_repr: "repr r \<Longrightarrow> 0 < r \<Longrightarrow> rnd r = r"
proof -
  assume "repr r" and r0: "0 < r"
  then obtain n k where r: "r = of_int n * 2 powi k" "0 \<le> n" "n \<le> 2 ^ 53" "- 1074 \<le> k" by (auto simp: repr_def)
  have "\<exists>m. r / 2 powi rexp r = of_int m"
  proof (cases "rexp r \<le> k")
    case True
    have "r = of_int n * (2 powi (k - rexp r) * 2 powi rexp r)" by (simp only: r(1) pow2_split)
    then have "r = of_int (n * 2 ^ nat (k - rexp r)) * 2 powi rexp r"
      using True by (simp add: pow2_int mult.assoc)
    then have "r / 2 powi rexp r = of_int (n * 2 ^ nat (k - rexp r))"
      by (subst nonzero_divide_eq_eq) simp_all
    then show ?thesis by blast
  next
    case False
    then have e: "rexp r = ilog2 r - 52" using r(4) by (simp add: rexp_def max_def split: if_splits)
    have "(of_int n :: rat) \<le> 2 ^ 53" using r(3) by (metis of_int_le_iff of_int_numeral of_int_power)
    then have "r \<le> 2 ^ 53 * 2 powi k" unfolding r(1) by (rule mult_right_mono) simp
    then have rle: "r \<le> 2 powi (53 + k)" by (simp add: power_int_add)
    have ge: "2 powi (rexp r + 52) \<le> r" using ilog2_bounds(1) [OF r0] by (simp add: e)
    have "rexp r + 52 \<le> 53 + k"
    proof (rule ccontr)
      assume "\<not> rexp r + 52 \<le> 53 + k"
      then have "(2::rat) powi (53 + k) < 2 powi (rexp r + 52)" by (subst pow2_less_cancel) simp
      with rle ge show False by simp
    qed
    with False have k: "rexp r = k + 1" by simp
    with ge rle have "r = 2 powi (53 + k)" by (simp add: add.commute)
    then have "r / 2 powi rexp r = 2 powi 52" unfolding k
      using pow2_split [of "53 + k" "k + 1"] by (simp add: field_simps)
    then have "r / 2 powi rexp r = of_int (2 ^ 52)" by (simp add: pow2_int)
    then show ?thesis by blast
  qed
  then obtain m where m: "r / 2 powi rexp r = of_int m" by blast
  then show ?thesis by (simp add: rnd_def) (simp add: field_simps)
qed

text \<open>A non-negative float, and one that is a rounding result.\<close>

fun nonneg64 :: "f64 \<Rightarrow> bool" where
  "nonneg64 (Fin x) = (0 \<le> x)" | "nonneg64 PInf = True" | "nonneg64 NInf = False" | "nonneg64 NaN = False"

fun repr64 :: "f64 \<Rightarrow> bool" where
  "repr64 (Fin x) = repr x" | "repr64 PInf = True" | "repr64 NInf = False" | "repr64 NaN = False"

lemma repr_nonneg: "repr r \<Longrightarrow> 0 \<le> r"
  by (auto simp: repr_def)

lemma repr64_nonneg: "repr64 a \<Longrightarrow> nonneg64 a"
  by (cases a) (auto simp: repr_nonneg)

lemma fle_Fin [simp]: "fle (Fin x) (Fin y) \<longleftrightarrow> x \<le> y"
  by (auto simp: fle_def)

lemma fle_PInf [simp]: "fle x PInf \<longleftrightarrow> x \<noteq> NaN"
  by (cases x) (auto simp: fle_def)

lemma fle_refl: "x \<noteq> NaN \<Longrightarrow> fle x x"
  by (cases x) (auto simp: fle_def)

lemma fle_trans: "fle x y \<Longrightarrow> fle y z \<Longrightarrow> fle x z"
  by (cases x; cases y; cases z) (auto simp: fle_def)

lemma round64_nonneg: "0 \<le> x \<Longrightarrow> repr64 (round64 x)"
  by (cases "x = 0") (auto simp: round64_rnd repr_rnd)

lemma round64_above: "repr r \<Longrightarrow> r \<le> x \<Longrightarrow> fle (Fin r) (round64 x)"
proof -
  assume r: "repr r" "r \<le> x"
  show ?thesis
  proof (cases "0 < r")
    case True
    with r have "r \<le> rnd x" using rnd_mono [of r x] rnd_repr [of r] by simp
    with True r(2) show ?thesis by (simp add: round64_rnd)
  next
    case False
    then have "r = 0" using repr_nonneg [OF r(1)] by simp
    moreover from this have "repr64 (round64 x)" using r(2) by (simp add: round64_nonneg)
    ultimately show ?thesis by (cases "round64 x") (auto simp: repr_nonneg)
  qed
qed

text \<open>Adding a non-negative value.\<close>

lemma fadd_increases:
  assumes "repr64 a" "nonneg64 b"
  shows "fle a (fadd a b)" "repr64 (fadd a b)"
proof -
  show "fle a (fadd a b)" using assms repr_nonneg round64_above by (cases a; cases b) auto
  show "repr64 (fadd a b)" using assms by (cases a; cases b) (auto simp: repr_nonneg intro!: round64_nonneg)
qed

lemma nonneg_fmul: "nonneg64 (Fin x) \<Longrightarrow> nonneg64 (Fin y) \<Longrightarrow> nonneg64 (fmul (Fin x) (Fin y))"
  using repr64_nonneg [OF round64_nonneg] by simp

lemma ffloor_mono: "fle a b \<Longrightarrow> fle (ffloor a) (ffloor b)"
  by (cases a; cases b) (auto simp: floor_mono, simp_all add: fle_def)

end
