(* ===== verification/DeriveProps.thy ===== *)
theory DeriveProps
  imports AgentIngest FloatMono
begin

text \<open>
  Properties of the agent's derive stages and of its ingest: the virtual counter of an
  integral rule never goes back, a late sample makes it count an interval twice, derived counts
  balance, replaced readings are never stored, and numeric counters are never lost silently.
\<close>

section \<open>Integrals\<close>

fun integral_run :: "(f64 \<times> int) list \<Rightarrow> integral_state \<Rightarrow> raw_tag list \<times> integral_state" where
  "integral_run [] st = ([], st)"
| "integral_run ((v, ts) # xs) st = (case integral_step v ts st of (out, st') \<Rightarrow>
     case integral_run xs st' of (outs, st'') \<Rightarrow> (out @ outs, st''))"

definition tag_float :: "raw_tag \<Rightarrow> f64" where
  "tag_float t = get_or NaN (derive_float (rt_value t))"

lemma tag_float_synth [simp]: "tag_float (synth_tag v ts leaf) = v"
  by (simp add: tag_float_def synth_tag_def get_or_def)

text \<open>The clamp keeps rates non-negative; the accumulator is a rounding result, zero before the seed.\<close>

definition integral_ok :: "integral_state \<Rightarrow> bool" where
  "integral_ok st \<longleftrightarrow> (case it_clamp_min st of Fin c \<Rightarrow> 0 \<le> c | _ \<Rightarrow> False) \<and> repr64 (it_accum st)
     \<and> (\<not> it_seeded st \<longrightarrow> it_accum st = Fin 0)"

definition finite_rates :: "integral_state \<Rightarrow> (f64 \<times> int) list \<Rightarrow> bool" where
  "finite_rates st xs = list_all (\<lambda>(v, ts). finite_f64 (fmul v (it_conversion st))) xs"

lemma integral_dt_nonneg:
  "\<exists>y\<ge>0. (let dt0 = fdiv (of_int64 (sub64 a b)) (Fin 1000) in if flt dt0 (Fin 0) then Fin 0 else dt0) = Fin y"
proof -
  have "finite_f64 (fdiv (of_int64 (sub64 a b)) (Fin 1000))" by (rule fdiv_int_finite) simp_all
  then obtain z where "fdiv (of_int64 (sub64 a b)) (Fin 1000) = Fin z"
    by (cases "fdiv (of_int64 (sub64 a b)) (Fin 1000)") auto
  then show ?thesis by (simp add: Let_def)
qed

lemma integral_step_ok:
  assumes "integral_ok st" "finite_f64 (fmul v (it_conversion st))" "integral_step v ts st = (out, st')"
  shows "integral_ok st' \<and> it_conversion st' = it_conversion st \<and> fle (ffloor (it_accum st)) (ffloor (it_accum st'))
    \<and> (\<forall>t\<in>set out. tag_float t = ffloor (it_accum st'))"
proof (cases "integral_rate st v")
  case None
  have "it_accum st \<noteq> NaN" using assms(1) by (auto simp: integral_ok_def)
  then have "ffloor (it_accum st) \<noteq> NaN" by (cases "it_accum st") auto
  then show ?thesis using assms None by (simp add: integral_step_def fle_refl)
next
  case (Some rate)
  obtain c where c: "it_clamp_min st = Fin c" "0 \<le> c" using assms(1) by (auto simp: integral_ok_def split: f64.splits)
  obtain x where x: "fmul v (it_conversion st) = Fin x" using assms(2)
    by (cases "fmul v (it_conversion st)") auto
  obtain r where r: "rate = Fin r" "0 \<le> r"
    using Some c by (auto simp: integral_rate_def x Let_def split: if_splits)
  show ?thesis
  proof (cases "it_seeded st")
    case False
    then have "it_accum st = Fin 0" using assms(1) by (simp add: integral_ok_def)
    then show ?thesis using assms(1,3) Some False by (auto simp: integral_step_def integral_ok_def)
  next
    case True
    define dt where "dt = (let dt0 = fdiv (of_int64 (sub64 ts (it_last_ts st))) (Fin 1000) in if flt dt0 (Fin 0) then Fin 0 else dt0)"
    obtain y where y: "dt = Fin y" "0 \<le> y" using integral_dt_nonneg unfolding dt_def by blast
    have nn: "nonneg64 (fmul rate dt)" using nonneg_fmul r y by simp
    have ra: "repr64 (it_accum st)" using assms(1) by (simp add: integral_ok_def)
    note inc = fadd_increases [OF ra nn]
    have "out = map (synth_tag (ffloor (fadd (it_accum st) (fmul rate dt))) ts) (it_emit st)"
      "st' = st\<lparr>it_accum := fadd (it_accum st) (fmul rate dt), it_last_ts := ts\<rparr>"
      using assms(3) Some True by (simp_all add: integral_step_def dt_def Let_def)
    then show ?thesis using inc ffloor_mono [OF inc(1)] assms(1) True by (auto simp: integral_ok_def)
  qed
qed

lemma integral_run_sorted:
  assumes "integral_ok st" "finite_rates st xs"
  shows "(\<forall>t\<in>set (fst (integral_run xs st)). fle (ffloor (it_accum st)) (tag_float t))
    \<and> sorted_wrt (\<lambda>a b. fle (tag_float a) (tag_float b)) (fst (integral_run xs st))"
  using assms
proof (induction xs arbitrary: st)
  case (Cons x xs)
  obtain v ts where x: "x = (v, ts)" by fastforce
  obtain out st' where s: "integral_step v ts st = (out, st')" by fastforce
  have fin: "finite_f64 (fmul v (it_conversion st))" using Cons.prems(2) by (simp add: finite_rates_def x)
  note ok = integral_step_ok [OF Cons.prems(1) fin s]
  have "finite_rates st' xs" using Cons.prems(2) ok by (simp add: finite_rates_def)
  with Cons.IH ok have ih: "\<forall>t\<in>set (fst (integral_run xs st')). fle (ffloor (it_accum st')) (tag_float t)"
    "sorted_wrt (\<lambda>a b. fle (tag_float a) (tag_float b)) (fst (integral_run xs st'))" by blast+
  have refl: "fle (ffloor (it_accum st')) (ffloor (it_accum st'))"
    using ok by (cases "it_accum st'") (auto simp: integral_ok_def)
  have "sorted_wrt (\<lambda>a b. fle (tag_float a) (tag_float b)) out"
    using ok refl by (auto simp: sorted_wrt_iff_nth_less)
  then show ?case using ih ok fle_trans by (auto simp: x s sorted_wrt_append split_beta)
qed simp

text \<open>
  The virtual counter of an integral rule never goes back. From a fresh rule with a
  non-negative clamp, for samples with finite rates in any order of timestamps, the counts it
  emits form a non-decreasing sequence that starts at or above zero, so the cloud never reads
  them as a reset.
\<close>

theorem integral_counter_monotone:
  assumes "integral_ok st" "finite_rates st samples" "\<not> it_seeded st"
  shows "sorted_wrt (\<lambda>a b. fle (tag_float a) (tag_float b)) (fst (integral_run samples st))
    \<and> (\<forall>t\<in>set (fst (integral_run samples st)). fle (Fin 0) (tag_float t))"
proof -
  have "it_accum st = Fin 0" using assms(1,3) by (simp add: integral_ok_def)
  with integral_run_sorted [OF assms(1,2)] show ?thesis by simp
qed

definition demo_integral :: integral_state where
  "demo_integral = \<lparr>it_conversion = Fin 1, it_clamp_min = Fin 0, it_max_rate = Fin 0, it_emit = [''/L5/FLEXO/Admin/ProdConsumedCount/61/Unit''],
     it_last_ts = 0, it_accum = Fin 0, it_seeded = False\<rparr>"

lemma integral_counter_monotone_witness:
  "sorted_wrt (\<lambda>a b. fle (tag_float a) (tag_float b)) (fst (integral_run [(Fin 3, 1000), (Fin 2, 5000), (Fin 4, 3000)] demo_integral))"
proof -
  have "integral_ok demo_integral" "\<not> it_seeded demo_integral" by (simp_all add: integral_ok_def demo_integral_def)
  moreover have "finite_rates demo_integral [(Fin 3, 1000), (Fin 2, 5000), (Fin 4, 3000)]"
    by (simp add: finite_rates_def demo_integral_def)
  ultimately show ?thesis using integral_counter_monotone by blast
qed

text \<open>Float arithmetic on whole numbers of at most 53 bits is exact.\<close>

lemma fadd_ints: "\<bar>x + y\<bar> \<le> 9007199254740992 \<Longrightarrow> fadd (Fin (of_int x)) (Fin (of_int y)) = Fin (of_int (x + y))"
  using round64_of_int [of "x + y"] by simp

lemma fmul_ints: "\<bar>x * y\<bar> \<le> 9007199254740992 \<Longrightarrow> fmul (Fin (of_int x)) (Fin (of_int y)) = Fin (of_int (x * y))"
  using round64_of_int [of "x * y"] by simp

lemma fsub_ints: "\<bar>x - y\<bar> \<le> 9007199254740992 \<Longrightarrow> fsub (Fin (of_int x)) (Fin (of_int y)) = Fin (of_int (x - y))"
  using round64_of_int [of "x - y"] by (simp add: fsub_def)

lemma seconds_exact:
  assumes "0 \<le> a" "a \<le> 1000000000000" "0 \<le> b" "b \<le> 1000000000000"
  shows "fdiv (of_int64 (sub64 (1000 * b) (1000 * a))) (Fin 1000) = Fin (of_int (b - a))"
proof -
  have "sub64 (1000 * b) (1000 * a) = 1000 * (b - a)" using assms by (simp add: sub64_def in64_def algebra_simps)
  moreover have "of_int64 (1000 * (b - a)) = Fin (of_int (1000 * (b - a)))" using assms by (intro of_int64_exact) (simp add: abs_le_iff)
  moreover have "round64 (of_int (b - a)) = Fin (of_int (b - a))" using assms by (intro round64_of_int) (simp add: abs_le_iff)
  ultimately show ?thesis by (simp add: diff_divide_distrib)
qed

lemma integral_step_exact:
  assumes "it_conversion st = Fin 1" "it_clamp_min st = Fin 0" "it_max_rate st = Fin 0" "it_seeded st"
    "it_accum st = Fin (of_int n)" "it_last_ts st = 1000 * a" "0 \<le> v" "v \<le> 1000" "0 \<le> n" "n \<le> 1000000000000000"
    "0 \<le> a" "a \<le> 1000000000000" "0 \<le> b" "b \<le> 1000000000000"
  shows "integral_step (Fin (of_int v)) (1000 * b) st =
    (map (synth_tag (Fin (of_int (n + v * max 0 (b - a)))) (1000 * b)) (it_emit st),
     st\<lparr>it_accum := Fin (of_int (n + v * max 0 (b - a))), it_last_ts := 1000 * b\<rparr>)"
proof -
  have rate: "integral_rate st (Fin (of_int v)) = Some (Fin (of_int v))"
    using round64_of_int [of v] assms(1-3,7,8) by (simp add: integral_rate_def Let_def)
  have dt: "(if flt (fdiv (of_int64 (sub64 (1000 * b) (1000 * a))) (Fin 1000)) (Fin 0) then Fin 0
      else fdiv (of_int64 (sub64 (1000 * b) (1000 * a))) (Fin 1000)) = Fin (of_int (max 0 (b - a)))"
    using seconds_exact [OF assms(11-14)] by (auto simp: max_def)
  have "v * max 0 (b - a) \<le> 1000 * 1000000000000" using assms by (intro mult_mono) auto
  moreover have "0 \<le> v * max 0 (b - a)" using assms(7) by simp
  ultimately have "fmul (Fin (of_int v)) (Fin (of_int (max 0 (b - a)))) = Fin (of_int (v * max 0 (b - a)))"
    "fadd (Fin (of_int n)) (Fin (of_int (v * max 0 (b - a)))) = Fin (of_int (n + v * max 0 (b - a)))"
    using assms(9,10) by (intro fmul_ints fadd_ints; simp add: abs_le_iff)+
  then show ?thesis using assms(4-6) dt by (simp add: integral_step_def rate Let_def)
qed

text \<open>
  A late sample makes an integral rule count an interval twice. The step of an out-of-order
  sample is not integrated, but it moves the clock back, so the next sample integrates again
  from the late timestamp: at a constant rate of \<open>v\<close> per second, samples at seconds \<open>a\<close>, \<open>b\<close>,
  then \<open>c\<close> from before \<open>b\<close>, then \<open>d\<close> count \<open>v (b - c)\<close> more than the \<open>v (d - a)\<close> produced.
\<close>

theorem late_sample_counted_twice:
  assumes "it_conversion st = Fin 1" "it_clamp_min st = Fin 0" "it_max_rate st = Fin 0" "\<not> it_seeded st" "it_accum st = Fin 0"
    "it_emit st = [leaf]" "0 \<le> v" "v \<le> 100" "0 \<le> a" "a \<le> b" "0 \<le> c" "c \<le> b" "b \<le> d" "d \<le> 1000000000000"
  shows "map tag_float (fst (integral_run [(Fin (of_int v), 1000 * a), (Fin (of_int v), 1000 * b), (Fin (of_int v), 1000 * c),
       (Fin (of_int v), 1000 * d)] st))
     = [Fin 0, Fin (of_int (v * (b - a))), Fin (of_int (v * (b - a))), Fin (of_int (v * (d - a) + v * (b - c)))]"
proof -
  define s1 where "s1 = st\<lparr>it_last_ts := 1000 * a, it_seeded := True\<rparr>"
  define s2 where "s2 = s1\<lparr>it_accum := Fin (of_int (v * (b - a))), it_last_ts := 1000 * b\<rparr>"
  define s3 where "s3 = s2\<lparr>it_last_ts := 1000 * c\<rparr>"
  have "v * (b - a) \<le> 100 * 1000000000000" using assms by (intro mult_mono) auto
  then have n: "0 \<le> v * (b - a)" "v * (b - a) \<le> 1000000000000000" using assms by simp_all
  have rate: "integral_rate st (Fin (of_int v)) = Some (Fin (of_int v))"
    using round64_of_int [of v] assms(1-3,7,8) by (simp add: integral_rate_def Let_def)
  have 1: "integral_step (Fin (of_int v)) (1000 * a) st = ([synth_tag (Fin 0) (1000 * a) leaf], s1)"
    using assms(4,6) by (simp add: integral_step_def rate s1_def)
  have 2: "integral_step (Fin (of_int v)) (1000 * b) s1 = ([synth_tag (Fin (of_int (v * (b - a)))) (1000 * b) leaf], s2)"
    using integral_step_exact [of s1 0 a v b] assms by (simp add: s1_def s2_def)
  have 3: "integral_step (Fin (of_int v)) (1000 * c) s2 = ([synth_tag (Fin (of_int (v * (b - a)))) (1000 * c) leaf], s3)"
    using integral_step_exact [of s2 "v * (b - a)" b v c] assms n by (simp add: s1_def s2_def s3_def max_def)
  have "v * (b - a) + v * max 0 (d - c) = v * (d - a) + v * (b - c)" using assms by (simp add: algebra_simps)
  then have 4: "fst (integral_step (Fin (of_int v)) (1000 * d) s3) = [synth_tag (Fin (of_int (v * (d - a) + v * (b - c)))) (1000 * d) leaf]"
    using integral_step_exact [of s3 "v * (b - a)" c v d] assms n by (simp add: s1_def s2_def s3_def)
  show ?thesis using 4 by (simp add: 1 2 3 split_beta)
qed

lemma late_sample_counted_twice_witness:
  "map tag_float (fst (integral_run [(Fin (of_int 2), 1000 * 0), (Fin (of_int 2), 1000 * 10), (Fin (of_int 2), 1000 * 5),
     (Fin (of_int 2), 1000 * 10)] demo_integral)) = [Fin 0, Fin 20, Fin 20, Fin 30]"
proof -
  have "it_conversion demo_integral = Fin 1" "it_clamp_min demo_integral = Fin 0" "it_max_rate demo_integral = Fin 0"
    "\<not> it_seeded demo_integral" "it_accum demo_integral = Fin 0"
    "it_emit demo_integral = [''/L5/FLEXO/Admin/ProdConsumedCount/61/Unit'']" by (simp_all add: demo_integral_def)
  from late_sample_counted_twice [OF this, of 2 0 10 5 10] show ?thesis by simp
qed

section \<open>Derived counts\<close>

text \<open>The three counts a group ends up with, whole numbers, when all sensed ones are whole.\<close>

definition derived_counts :: "string \<Rightarrow> int \<Rightarrow> int \<Rightarrow> int \<Rightarrow> (f64 \<times> f64 \<times> f64) option" where
  "derived_counts mode g n s = map_option (\<lambda>(g, n, s). (ffloor g, ffloor n, ffloor s))
     (apply_derive mode (Fin (of_int g), Fin (of_int n), Fin (of_int s)))"

lemma floor0_int: "floor0 (Fin (of_int x)) = Fin (of_int (max 0 x))"
  by (simp add: floor0_def max_def)

text \<open>
  Derived counts balance. For every deriving mode and whole sensed counts, the three counts
  the group reports are non-negative and gross equals net plus scrap, except when more is
  reported to leave than to enter, where the derived count is zero; and a sensed count that
  the mode does not also derive is reported as it was read.
\<close>

theorem derived_counts_balance:
  assumes "mode_spec mode = Some (sensed, derived)" "0 \<le> g" "0 \<le> n" "0 \<le> s"
    "g \<le> 1000000000000000" "n \<le> 1000000000000000" "s \<le> 1000000000000000"
  shows "\<exists>g' n' s'. derived_counts mode g n s = Some (Fin (of_int g'), Fin (of_int n'), Fin (of_int s'))
    \<and> 0 \<le> g' \<and> 0 \<le> n' \<and> 0 \<le> s'
    \<and> (g' = n' + s' \<or> mode = ''scrap_derived'' \<and> g < n \<and> s' = 0
        \<or> mode = ''outfeed_derived'' \<and> g < s \<and> n' = 0 \<or> mode = ''processed_is_gross'' \<and> n < s \<and> n' = 0)
    \<and> (RoleGross \<in> set sensed - set derived \<longrightarrow> g' = g) \<and> (RoleNet \<in> set sensed - set derived \<longrightarrow> n' = n)
    \<and> (RoleScrap \<in> set sensed - set derived \<longrightarrow> s' = s)"
proof -
  have r: "round64 (of_int (n + s)) = Fin (of_int (n + s))" using assms by (intro round64_of_int) simp
  have add: "fadd (Fin (of_int n)) (Fin (of_int s)) = Fin (of_int (n + s))" using assms by (intro fadd_ints) simp
  have sub: "fsub (Fin (of_int g)) (Fin (of_int n)) = Fin (of_int (g - n))" "fsub (Fin (of_int g)) (Fin (of_int s)) = Fin (of_int (g - s))"
    "fsub (Fin (of_int n)) (Fin (of_int s)) = Fin (of_int (n - s))" using assms by (intro fsub_ints; simp add: abs_le_iff)+
  from assms(1) consider
      "mode = ''outfeed_only''" "sensed = [RoleGross]" "derived = [RoleNet, RoleScrap]"
    | "mode = ''infeed_only''" "sensed = [RoleNet]" "derived = [RoleGross, RoleScrap]"
    | "mode = ''scrap_derived''" "sensed = [RoleGross, RoleNet]" "derived = [RoleScrap]"
    | "mode = ''gross_derived''" "sensed = [RoleNet, RoleScrap]" "derived = [RoleGross]"
    | "mode = ''outfeed_derived''" "sensed = [RoleGross, RoleScrap]" "derived = [RoleNet]"
    | "mode = ''processed_is_gross''" "sensed = [RoleNet, RoleScrap]" "derived = [RoleGross, RoleNet]"
    by (auto simp: mode_spec_def split: if_splits)
  then show ?thesis
  proof cases
    case 1
    have "derived_counts mode g n s = Some (Fin (of_int g), Fin (of_int g), Fin (of_int 0))"
      by (simp add: 1 derived_counts_def apply_derive_def)
    then show ?thesis using assms by (intro exI [of _ g] exI [of _ g] exI [of _ 0]) (simp add: 1)
  next
    case 2
    have "derived_counts mode g n s = Some (Fin (of_int n), Fin (of_int n), Fin (of_int 0))"
      by (simp add: 2 derived_counts_def apply_derive_def)
    then show ?thesis using assms by (intro exI [of _ n] exI [of _ n] exI [of _ 0]) (simp add: 2)
  next
    case 3
    have "derived_counts mode g n s = Some (Fin (of_int g), Fin (of_int n), Fin (of_int (max 0 (g - n))))"
      by (simp add: 3 derived_counts_def apply_derive_def sub floor0_int del: of_int_diff)
    then show ?thesis using assms by (intro exI [of _ g] exI [of _ n] exI [of _ "max 0 (g - n)"]) (auto simp: 3)
  next
    case 4
    have "derived_counts mode g n s = Some (Fin (of_int (n + s)), Fin (of_int n), Fin (of_int s))"
      by (simp add: 4 derived_counts_def apply_derive_def add del: of_int_add fadd.simps)
    then show ?thesis using assms by (intro exI [of _ "n + s"] exI [of _ n] exI [of _ s]) (simp add: 4)
  next
    case 5
    have "derived_counts mode g n s = Some (Fin (of_int g), Fin (of_int (max 0 (g - s))), Fin (of_int s))"
      by (simp add: 5 derived_counts_def apply_derive_def sub floor0_int del: of_int_diff)
    then show ?thesis using assms by (intro exI [of _ g] exI [of _ "max 0 (g - s)"] exI [of _ s]) (auto simp: 5)
  next
    case 6
    have "derived_counts mode g n s = Some (Fin (of_int n), Fin (of_int (max 0 (n - s))), Fin (of_int s))"
      by (simp add: 6 derived_counts_def apply_derive_def sub floor0_int del: of_int_diff)
    then show ?thesis using assms by (intro exI [of _ n] exI [of _ "max 0 (n - s)"] exI [of _ s]) (auto simp: 6)
  qed
qed

lemma derived_counts_balance_witness:
  "\<exists>g' n' s'. derived_counts ''processed_is_gross'' 0 100 7 = Some (Fin (of_int g'), Fin (of_int n'), Fin (of_int s')) \<and> g' = n' + s' \<and> s' = 7"
  using derived_counts_balance [of "''processed_is_gross''" "[RoleNet, RoleScrap]" "[RoleGross, RoleNet]" 0 100 7]
  by (auto simp: mode_spec_def)

section \<open>What the ingest stores\<close>

lemma tag_apply_value:
  "map_of (tg_last (snd (tag_apply x s))) m = Some t \<Longrightarrow>
     (\<exists>old. map_of (tg_last s) m = Some old \<and> rt_value t = rt_value old) \<or> (rt_metric x = m \<and> rt_value t = rt_value x)"
  by (auto simp: tag_apply_def update_conv split: option.splits if_splits)

lemma ingest_all_value:
  "map_of (tg_last (snd (ingest_all r ts s))) m = Some t \<Longrightarrow>
     (\<exists>old. map_of (tg_last s) m = Some old \<and> rt_value t = rt_value old)
   \<or> (\<exists>x\<in>set ts. rt_metric x = m \<and> rt_value t = rt_value x)"
proof (induction ts arbitrary: s)
  case (Cons x ts)
  obtain ok s' where o: "ingest_one r x s = (ok, s')" by fastforce
  have "map_of (tg_last (snd (ingest_all r ts s'))) m = Some t" using Cons.prems by (simp add: o split_beta)
  from Cons.IH [OF this] show ?case
  proof (elim disjE exE conjE)
    fix old assume old: "map_of (tg_last s') m = Some old" "rt_value t = rt_value old"
    have "s' = s \<or> s' = snd (tag_apply x s)" using o by (auto simp: ingest_one_def split: if_splits)
    with old tag_apply_value [of x s m old] show ?thesis by auto
  qed auto
qed simp

text \<open>A reading some derivation takes the place of.\<close>

definition replaced :: "ingest_cfg \<Rightarrow> deriver option \<Rightarrow> string \<Rightarrow> bool" where
  "replaced cfg dv m \<longleftrightarrow> (case dv of None \<Rightarrow> False | Some d \<Rightarrow> is_addend d m \<or> expr_consumes d m) \<or> stage_drops (ic_stage cfg) m"

definition synthesized :: "ingest_cfg \<Rightarrow> deriver option \<Rightarrow> raw_tag list \<Rightarrow> raw_tag list" where
  "synthesized cfg dv tags = (case dv of None \<Rightarrow> [] | Some d \<Rightarrow> fst (derive_process tags d))
     @ (case ic_stage cfg of None \<Rightarrow> [] | Some gs \<Rightarrow> stage_process gs tags)"

text \<open>No other tag is rewritten to this metric.\<close>

definition not_rewritten_to :: "ingest_cfg \<Rightarrow> raw_tag list \<Rightarrow> string \<Rightarrow> bool" where
  "not_rewritten_to cfg tags m = list_all (\<lambda>t. rt_metric t = m \<or> rt_metric (decompose_tag (ic_decomposer cfg) t) \<noteq> m) tags"

lemma consumed_replaced:
  "fst (snd (derive_process tags d)) m \<longleftrightarrow> m \<in> rt_metric ` set tags \<and> (is_addend d m \<or> expr_consumes d m)"
  by (auto simp: derive_process_def deriver_empty_def is_addend_def expr_consumes_def Let_def split_beta)

text \<open>
  A reading that a derivation replaces is never stored raw. For a sum addend, a consumed
  expression input or a count the counter-derive stage re-derives, the value stored after the
  ingest of an envelope is the one stored before or that of a synthesized tag, so the raw
  totalizer never reaches the session and cannot be mistaken for a reset.
\<close>

theorem replaced_reading_never_stored:
  assumes "agent_ingest cfg tags (dv, s) = (counts, dv', s')" "replaced cfg dv m" "not_rewritten_to cfg tags m"
    "map_of (tg_last s') m = Some t"
  shows "(\<exists>old. map_of (tg_last s) m = Some old \<and> rt_value t = rt_value old)
    \<or> (\<exists>x. x \<in> set (synthesized cfg dv tags) \<and> rt_metric x = m \<and> rt_value t = rt_value x)"
proof -
  let ?syn = "case dv of None \<Rightarrow> [] | Some d \<Rightarrow> fst (derive_process tags d)"
  let ?cnt = "case ic_stage cfg of None \<Rightarrow> [] | Some gs \<Rightarrow> stage_process gs tags"
  define drop_it where "drop_it = (case dv of None \<Rightarrow> (\<lambda>m. False) | Some d \<Rightarrow> fst (snd (derive_process tags d)))"
  define passed where "passed = filter (\<lambda>t. \<not> drop_it (rt_metric t) \<and> \<not> stage_drops (ic_stage cfg) (rt_metric t)) tags"
  define s1 where "s1 = snd (ingest_all (ic_resolver cfg) (map (decompose_tag (ic_decomposer cfg)) passed) s)"
  define s2 where "s2 = snd (ingest_all (ic_resolver cfg) ?syn s1)"
  have s': "s' = snd (ingest_all (ic_resolver cfg) ?cnt s2)"
    using assms(1) by (cases dv) (auto simp: agent_ingest_def Let_def split_beta s1_def s2_def passed_def drop_it_def)
  have none: "rt_metric x \<noteq> m" if "x \<in> set (map (decompose_tag (ic_decomposer cfg)) passed)" for x
  proof -
    obtain y where y: "y \<in> set passed" "x = decompose_tag (ic_decomposer cfg) y" using \<open>x \<in> _\<close> by auto
    have "rt_metric y \<noteq> m"
    proof
      assume ym: "rt_metric y = m"
      have "y \<in> set tags" "\<not> drop_it m" "\<not> stage_drops (ic_stage cfg) m" using y(1) ym by (auto simp: passed_def)
      moreover from this ym have "m \<in> rt_metric ` set tags" by blast
      ultimately show False using assms(2) by (auto simp: replaced_def drop_it_def consumed_replaced split: option.splits)
    qed
    moreover have "y \<in> set tags" using y(1) by (simp add: passed_def)
    ultimately show ?thesis using assms(3) y(2) by (auto simp: not_rewritten_to_def list_all_iff)
  qed
  have st1: "\<exists>old. map_of (tg_last s) m = Some old \<and> rt_value t1 = rt_value old" if "map_of (tg_last s1) m = Some t1" for t1
    using ingest_all_value [OF that [unfolded s1_def]] none by auto
  from ingest_all_value [OF assms(4) [unfolded s']] show ?thesis
  proof (elim disjE exE conjE)
    fix t2 assume t2: "map_of (tg_last s2) m = Some t2" "rt_value t = rt_value t2"
    from ingest_all_value [OF t2(1) [unfolded s2_def]] show ?thesis
      using st1 t2(2) by (auto simp: synthesized_def)
  qed (auto simp: synthesized_def)
qed

definition demo_sum :: deriver where
  "demo_sum = \<lparr>dv_integrals = [], dv_sums = [\<lparr>su_addends = [''/A'', ''/B''], su_emit = [''/S''], su_latest = Map.empty\<rparr>], dv_exprs = []\<rparr>"

definition demo_raw :: "string \<Rightarrow> int \<Rightarrow> raw_tag" where
  "demo_raw m v = zero_raw_tag\<lparr>rt_metric := m, rt_value := ScNum (Fin (of_int v)), rt_ts := 5\<rparr>"

definition demo_ingest_cfg :: ingest_cfg where
  "demo_ingest_cfg = \<lparr>ic_resolver = [(''/A'', ''A'', DT_Int64), (''/S'', ''S'', DT_Int64)], ic_decomposer = None, ic_stage = None\<rparr>"

definition demo_store :: tag_store where
  "demo_store = \<lparr>tg_last = [(''/A'', demo_raw ''/A'' 3)], tg_dirty = []\<rparr>"

text \<open>The addend is mapped, yet only its sum is stored; what was there before stays.\<close>

lemma replaced_reading_never_stored_witness:
  "case agent_ingest demo_ingest_cfg [demo_raw ''/A'' 40, demo_raw ''/B'' 2] (Some demo_sum, demo_store) of
     (counts, dv', s') \<Rightarrow> (\<exists>t. map_of (tg_last s') ''/A'' = Some t \<and> rt_value t = ScNum (Fin 3))"
proof -
  let ?tags = "[demo_raw ''/A'' 40, demo_raw ''/B'' 2]"
  obtain counts dv' s' where i: "agent_ingest demo_ingest_cfg ?tags (Some demo_sum, demo_store) = (counts, dv', s')"
    by (metis prod_cases3)
  have syn: "synthesized demo_ingest_cfg (Some demo_sum) ?tags = [synth_tag (Fin 42) 5 ''/S'']"
    using fadd_ints [of 0 40] fadd_ints [of 40 2]
    by (simp add: synthesized_def demo_ingest_cfg_def derive_process_def demo_sum_def deriver_empty_def derive_tag_def is_addend_def
        demo_raw_def zero_raw_tag_def sum_step_def sum_warmed_up_def sum_total_def Let_def)
  have rep: "replaced demo_ingest_cfg (Some demo_sum) ''/A''" "not_rewritten_to demo_ingest_cfg ?tags ''/A''"
    by (simp_all add: replaced_def demo_sum_def is_addend_def not_rewritten_to_def demo_ingest_cfg_def decompose_tag_def)
  have old: "map_of (tg_last demo_store) ''/A'' = Some (demo_raw ''/A'' 3)" by (simp add: demo_store_def)
  have "map_of (tg_last (snd (tag_apply x s))) ''/A'' \<noteq> None" if "map_of (tg_last s) ''/A'' \<noteq> None" for x s
    using that by (auto simp: tag_apply_def update_conv split: option.splits)
  then have keep: "map_of (tg_last (snd (ingest_all r ts s))) ''/A'' \<noteq> None" if "map_of (tg_last s) ''/A'' \<noteq> None" for r ts s
    using that by (induction ts arbitrary: s) (auto simp: split_beta ingest_one_def)
  have "s' = snd (snd (agent_ingest demo_ingest_cfg ?tags (Some demo_sum, demo_store)))" by (simp add: i)
  then obtain t where t: "map_of (tg_last s') ''/A'' = Some t"
    using keep old by (fastforce simp: agent_ingest_def Let_def split_beta)
  from replaced_reading_never_stored [OF i rep t] old syn have "rt_value t = ScNum (Fin 3)"
    by (auto simp: synth_tag_def demo_raw_def)
  then show ?thesis unfolding i prod.case using t by blast
qed

section \<open>Numeric counters\<close>

lemma build_index_sound:
  "build_index es m = Inr m' \<Longrightarrow> (\<And>i t. (i, t) \<in> set m \<Longrightarrow> P i t) \<Longrightarrow>
   (\<And>e i. e \<in> set es \<Longrightarrow> count_index_of (te_suffix e) = Some i \<Longrightarrow> P i \<lparr>nt_suffix = te_suffix e, nt_type = te_type e\<rparr>) \<Longrightarrow>
   (i, t) \<in> set m' \<Longrightarrow> P i t"
proof (induction es arbitrary: m)
  case (Cons e es)
  show ?case
  proof (cases "count_index_of (te_suffix e)")
    case None
    with Cons.prems show ?thesis by (intro Cons.IH [of m]) auto
  next
    case (Some j)
    with Cons.prems show ?thesis
      by (intro Cons.IH [of "m @ [(j, \<lparr>nt_suffix = te_suffix e, nt_type = te_type e\<rparr>)]"]) (auto split: if_splits)
  qed
qed auto

lemma new_resolver_resolves: "e \<in> set es \<Longrightarrow> resolver_resolve (new_resolver prefix es) (te_suffix e) \<noteq> None"
proof -
  have gen: "e \<in> set es \<or> map_of r (te_suffix e) \<noteq> None \<Longrightarrow>
      map_of (fold (\<lambda>e. AList.update (te_suffix e) (f e)) es r) (te_suffix e) \<noteq> None"
    for f :: "tag_map_entry \<Rightarrow> string \<times> data_type" and r
    by (induction es arbitrary: r) (auto simp: update_conv)
  assume "e \<in> set es"
  then show ?thesis using gen [of "[]"] by (simp add: resolver_resolve_def new_resolver_def)
qed

text \<open>Every counter becomes a tag with its value and its own index, or its id is reported.\<close>

definition accounted :: "raw_tag list \<times> int list \<Rightarrow> numeric_counter \<Rightarrow> bool" where
  "accounted out c \<longleftrightarrow> nc_id c \<in> set (snd out)
     \<or> (\<exists>t\<in>set (fst out). rt_value t = ScNum (nc_value c) \<and> count_index_of (rt_metric t) = Some (nc_id c))"

text \<open>
  Numeric counters are translated totally and land on mapped metrics. With the table built
  from the agent's tag map, every counter of a payload either becomes a tag that carries its
  absolute value on the metric whose count index is its id, or its id is reported as unmapped;
  every translated tag resolves in the same tag map, so none is dropped later; and the reported
  ids are sorted and distinct.
\<close>

theorem numeric_translation_total:
  assumes "build_index es [] = Inr m"
  shows "list_all (accounted (translate m cs endpoint scan_ts)) cs
    \<and> list_all (\<lambda>t. resolver_resolve (new_resolver prefix es) (rt_metric t) \<noteq> None) (fst (translate m cs endpoint scan_ts))
    \<and> sorted (snd (translate m cs endpoint scan_ts)) \<and> distinct (snd (translate m cs endpoint scan_ts))"
proof -
  have tgt: "count_index_of (nt_suffix t) = Some i \<and> (\<exists>e\<in>set es. nt_suffix t = te_suffix e)" if "map_of m i = Some t" for i t
    using build_index_sound [OF assms, of "\<lambda>i t. count_index_of (nt_suffix t) = Some i \<and> (\<exists>e\<in>set es. nt_suffix t = te_suffix e)" i t]
      map_of_SomeD [OF that] by auto
  have acc: "accounted (translate m cs endpoint scan_ts) c" if "c \<in> set cs" for c
  proof (cases "map_of m (nc_id c)")
    case None
    then show ?thesis using that by (auto simp: accounted_def translate_def)
  next
    case (Some t)
    then have "translate_counter endpoint scan_ts c t \<in> set (fst (translate m cs endpoint scan_ts))"
      using that by (force simp: translate_def map_filter_def)
    then show ?thesis using tgt [OF Some] unfolding accounted_def by (force simp: translate_counter_def)
  qed
  have "resolver_resolve (new_resolver prefix es) (rt_metric x) \<noteq> None" if "x \<in> set (fst (translate m cs endpoint scan_ts))" for x
  proof -
    obtain c t where "map_of m (nc_id c) = Some t" "x = translate_counter endpoint scan_ts c t"
      using \<open>x \<in> _\<close> by (auto simp: translate_def map_filter_def split: if_splits)
    with tgt obtain e where "e \<in> set es" "rt_metric x = te_suffix e" by (auto simp: translate_counter_def)
    then show ?thesis using new_resolver_resolves by simp
  qed
  with acc show ?thesis by (simp add: list_all_iff) (simp add: translate_def)
qed

lemma numeric_translation_total_witness:
  "list_all (accounted (translate [(164, \<lparr>nt_suffix = ''/L1/ProdConsumedCount/164/Unit'', nt_type = ''long''\<rparr>)]
     [\<lparr>nc_id = 164, nc_value = Fin 9, nc_q = None, nc_ts = 0\<rparr>, \<lparr>nc_id = 7, nc_value = Fin 1, nc_q = None, nc_ts = 0\<rparr>] ''L1'' 5))
     [\<lparr>nc_id = 164, nc_value = Fin 9, nc_q = None, nc_ts = 0\<rparr>, \<lparr>nc_id = 7, nc_value = Fin 1, nc_q = None, nc_ts = 0\<rparr>]"
proof -
  have "build_index [\<lparr>te_suffix = ''/L1/ProdConsumedCount/164/Unit'', te_name = [], te_type = ''long'', te_device_key = [], te_role = []\<rparr>] []
      = Inr [(164, \<lparr>nt_suffix = ''/L1/ProdConsumedCount/164/Unit'', nt_type = ''long''\<rparr>)]"
    by (simp add: count_index_of_def has_suffix_def atoi_def has_prefix_def digit_val_def)
  from numeric_translation_total [OF this] show ?thesis by blast
qed

end
