(* ===== verification/AgentUplink.thy ===== *)
theory AgentUplink
  imports OutboxProps SessionProps
begin

text \<open>
  The agent's uplink (agent/uplink/uplink.go) and tick loop (cmd/sparkplug-agent): a tick
  drains the dirty tags, rebirths when a tag is new and otherwise buffers an encoded
  data payload; the drain publishes the buffered rows and stops at the first failure.
  The publish function answers \<open>True\<close> for an acknowledged publish. Encoding is a
  function from payloads to bytes and its failure is not modelled; the rows carry the
  payload itself. Within one drain the clock is read once.
\<close>

section \<open>The drain\<close>

record uplink_env =
  ue_publish :: "payload outbox_message \<Rightarrow> bool"
  ue_delete_ok :: "int \<Rightarrow> bool"
  ue_mark_ok :: bool

text \<open>The loop over one peeked batch: the published messages, whether it stopped on an error, the store.\<close>

fun uplink_batch :: "int \<Rightarrow> uplink_env \<Rightarrow> payload outbox_message list \<Rightarrow> payload outbox_store
    \<Rightarrow> payload outbox_message list \<times> bool \<times> payload outbox_store" where
  "uplink_batch now ue [] st = ([], False, st)"
| "uplink_batch now ue (m # ms) st =
     (if \<not> ue_publish ue m
      then ([], True, if ue_mark_ok ue then mark_attempt now (om_id m) 2000000000 st else st)
      else if \<not> (ue_delete_ok ue (om_id m) \<and> fst (delete_row (om_id m) st)) then ([m], True, st)
      else case uplink_batch now ue ms (snd (delete_row (om_id m) st)) of (out, err, st') \<Rightarrow> (m # out, err, st'))"

text \<open>The outer loop of \<open>drain\<close>, with fuel: peek and publish until empty or failed.\<close>

fun uplink_drain :: "nat \<Rightarrow> int \<Rightarrow> int \<Rightarrow> uplink_env \<Rightarrow> payload outbox_store
    \<Rightarrow> (payload outbox_message list \<times> bool \<times> payload outbox_store) option" where
  "uplink_drain 0 now n ue st = None"
| "uplink_drain (Suc f) now n ue st =
     (case peek now n st of
        [] \<Rightarrow> Some ([], False, st)
      | m # ms \<Rightarrow> (case uplink_batch now ue (m # ms) st of
            (out, True, st') \<Rightarrow> Some (out, True, st')
          | (out, False, st') \<Rightarrow> (case uplink_drain f now n ue st' of None \<Rightarrow> None
              | Some (outs, err, st'') \<Rightarrow> Some (out @ outs, err, st''))))"

section \<open>The agent\<close>

record agent_state =
  ag_tags :: tag_store
  ag_session :: session
  ag_outbox :: "payload outbox_store"
  ag_pending_rebirth :: bool
  ag_connected :: bool

definition enqueue_data :: "int \<Rightarrow> bool \<Rightarrow> string \<Rightarrow> string \<Rightarrow> payload \<Rightarrow> payload outbox_store \<Rightarrow> payload outbox_store" where
  "enqueue_data now ok grp topic body st = snd (enqueue now ok
     \<lparr>om_id = 0, om_tenant = grp, om_topic = topic, om_payload = body, om_enqueued_at = None, om_attempts = 0\<rparr> st)"

text \<open>\<open>Rebirth\<close>: the birth it published, if any. \<open>birth_ok\<close> is the publisher's answer.\<close>

definition agent_rebirth :: "session_cfg \<Rightarrow> bool \<Rightarrow> agent_state \<Rightarrow> payload option \<times> agent_state" where
  "agent_rebirth cfg birth_ok ag =
     (case build_nbirth cfg (tag_snapshot (ag_tags ag)) (ag_session ag) of
        (Inl e, s') \<Rightarrow> (None, ag\<lparr>ag_session := s'\<rparr>)
      | (Inr p, s') \<Rightarrow> (if ag_connected ag \<and> birth_ok then Some p else None, ag\<lparr>ag_session := s'\<rparr>))"

text \<open>One tick of \<open>runTickLoop\<close>.\<close>

definition agent_tick :: "session_cfg \<Rightarrow> string \<Rightarrow> string \<Rightarrow> int \<Rightarrow> bool \<Rightarrow> bool \<Rightarrow> agent_state \<Rightarrow> payload option \<times> agent_state" where
  "agent_tick cfg grp topic now birth_ok enqueue_ok ag =
     (case drain_dirty (ag_tags ag) of (dirty, tags') \<Rightarrow>
      let ag1 = ag\<lparr>ag_tags := tags'\<rparr>
      in if dirty = [] then (None, ag1)
         else if needs_rebirth cfg dirty (ag_session ag1) then agent_rebirth cfg birth_ok ag1
         else case build_ndata cfg dirty (ag_session ag1) of
           (Inl e, s') \<Rightarrow> (None, ag1\<lparr>ag_session := s'\<rparr>)
         | (Inr nd, s') \<Rightarrow> (None, ag1\<lparr>ag_session := s', ag_outbox := enqueue_data now enqueue_ok grp topic nd (ag_outbox ag1)\<rparr>))"

definition agent_on_connect :: "agent_state \<Rightarrow> agent_state" where
  "agent_on_connect ag = ag\<lparr>ag_connected := True, ag_pending_rebirth := True\<rparr>"

definition agent_on_connection_lost :: "agent_state \<Rightarrow> agent_state" where
  "agent_on_connection_lost ag = ag\<lparr>ag_connected := False\<rparr>"

definition agent_on_ncmd :: "payload option \<Rightarrow> agent_state \<Rightarrow> agent_state" where
  "agent_on_ncmd p ag = (if is_rebirth_request p then ag\<lparr>ag_pending_rebirth := True\<rparr> else ag)"

datatype uplink_event = PubBirth payload | PubData "payload outbox_message"

text \<open>One turn of \<open>drainLoop\<close>; \<open>rebirthThenDrain\<close> when a rebirth is pending.\<close>

definition agent_drain_turn :: "session_cfg \<Rightarrow> int \<Rightarrow> int \<Rightarrow> bool \<Rightarrow> uplink_env \<Rightarrow> agent_state
    \<Rightarrow> (uplink_event list \<times> agent_state) option" where
  "agent_drain_turn cfg now n birth_ok ue ag =
     (let f = Suc (depth (ag_outbox ag));
          drained = (\<lambda>a. map_option (\<lambda>(out, err, st'). (map PubData out, a\<lparr>ag_outbox := st'\<rparr>)) (uplink_drain f now n ue (ag_outbox a)))
      in if \<not> ag_connected ag then Some ([], ag)
         else if ag_pending_rebirth ag then
           (case agent_rebirth cfg birth_ok (ag\<lparr>ag_pending_rebirth := False\<rparr>) of
              (None, ag') \<Rightarrow> Some ([], ag')
            | (Some p, ag') \<Rightarrow> map_option (\<lambda>(evs, a). (PubBirth p # evs, a)) (drained ag'))
         else drained ag)"

section \<open>What a drain does\<close>

definition all_acked :: uplink_env where
  "all_acked = \<lparr>ue_publish = (\<lambda>m. True), ue_delete_ok = (\<lambda>i. True), ue_mark_ok = True\<rparr>"

definition set_rows :: "'p outbox_row list \<Rightarrow> 'p outbox_store \<Rightarrow> 'p outbox_store" where
  "set_rows rs st = st\<lparr>os_db := (os_db st)\<lparr>db_rows := rs\<rparr>\<rparr>"

lemma set_rows_simps [simp]: "db_rows (os_db (set_rows rs st)) = rs" "set_rows rs (set_rows rs' st) = set_rows rs st"
  "set_rows (db_rows (os_db st)) st = st" "depth (set_rows rs st) = length rs"
  by (simp_all add: set_rows_def depth_def)

lemma delete_row_rows: "snd (delete_row i st) = set_rows (filter (\<lambda>r. or_id r \<noteq> i) (db_rows (os_db st))) st"
  by (simp add: delete_row_def set_rows_def)

lemma uplink_batch_acked:
  assumes "distinct (map om_id ms)" "set (map om_id ms) \<subseteq> or_id ` set (db_rows (os_db st))"
  shows "uplink_batch now all_acked ms st =
    (ms, False, set_rows (filter (\<lambda>r. or_id r \<notin> set (map om_id ms)) (db_rows (os_db st))) st)"
  using assms
proof (induction ms arbitrary: st)
  case (Cons m ms)
  define st1 where "st1 = snd (delete_row (om_id m) st)"
  have st1: "st1 = set_rows (filter (\<lambda>r. or_id r \<noteq> om_id m) (db_rows (os_db st))) st"
    by (simp add: st1_def delete_row_rows)
  have sub: "set (map om_id ms) \<subseteq> or_id ` set (db_rows (os_db st1))"
  proof
    fix i assume i: "i \<in> set (map om_id ms)"
    then have "i \<noteq> om_id m" using Cons.prems(1) by (metis distinct.simps(2) list.simps(9))
    moreover obtain r where "r \<in> set (db_rows (os_db st))" "i = or_id r" using i Cons.prems(2) by auto
    ultimately show "i \<in> or_id ` set (db_rows (os_db st1))" by (auto simp: st1)
  qed
  have "fst (delete_row (om_id m) st)" using Cons.prems(2) by (auto simp: delete_row_def)
  moreover have "filter (\<lambda>r. or_id r \<notin> om_id ` set ms) (filter (\<lambda>r. or_id r \<noteq> om_id m) (db_rows (os_db st)))
      = filter (\<lambda>r. or_id r \<noteq> om_id m \<and> or_id r \<notin> om_id ` set ms) (db_rows (os_db st))"
    by simp
  ultimately show ?case using Cons.IH [OF _ sub] Cons.prems(1)
    by (simp add: all_acked_def st1_def [symmetric]) (simp add: st1 conj_commute)
qed simp

lemma outbox_ok_set_rows: "outbox_ok st \<Longrightarrow> outbox_ok (set_rows (filter P (db_rows (os_db st))) st)"
  using outbox_ok_filter [of st P] by (simp add: set_rows_def)

lemma uplink_drain_acked:
  assumes "outbox_ok st" "length (filter (\<lambda>r. or_next_attempt_at r \<le> now) (db_rows (os_db st))) < f"
  shows "uplink_drain f now n all_acked st =
    Some (map row_message (filter (\<lambda>r. or_next_attempt_at r \<le> now) (db_rows (os_db st))), False,
      set_rows (filter (\<lambda>r. \<not> or_next_attempt_at r \<le> now) (db_rows (os_db st))) st)"
  using assms
proof (induction f arbitrary: st)
  case (Suc f)
  define due where "due = filter (\<lambda>r. or_next_attempt_at r \<le> now) (db_rows (os_db st))"
  define k where "k = nat (if n \<le> 0 then 1 else n)"
  have k: "0 < k" by (simp add: k_def)
  have srt: "sorted_wrt (<) (map or_id due)" using Suc.prems(1) by (simp add: due_def outbox_ok_def sorted_wrt_filter_map)
  have pk: "peek now n st = map row_message (take k due)"
    by (simp add: peek_prefix [OF Suc.prems(1)] k_def due_def)
  show ?case
  proof (cases due)
    case Nil
    then have "filter (\<lambda>r. \<not> or_next_attempt_at r \<le> now) (db_rows (os_db st)) = db_rows (os_db st)"
      by (auto simp: due_def filter_empty_conv filter_id_conv)
    then show ?thesis using Nil by (simp add: pk) (simp add: due_def)
  next
    case (Cons r rs)
    define ms where "ms = map row_message (take k due)"
    have ids: "map om_id ms = map or_id (take k due)" by (simp add: ms_def row_message_def)
    have dist: "distinct (map om_id ms)"
      using srt unfolding ids by (simp add: strict_sorted_iff take_map [symmetric] distinct_take)
    have sub: "set (map om_id ms) \<subseteq> or_id ` set (db_rows (os_db st))"
      unfolding ids by (auto simp: due_def dest!: in_set_takeD)
    define st1 where "st1 = set_rows (filter (\<lambda>r. or_id r \<notin> set (map om_id ms)) (db_rows (os_db st))) st"
    have due1: "filter (\<lambda>r. or_next_attempt_at r \<le> now) (db_rows (os_db st1)) = drop k due"
      using filter_not_taken [OF srt, of k] unfolding st1_def set_rows_simps ids
      by (simp add: due_def conj_commute take_map)
    have dist_all: "distinct (map or_id (db_rows (os_db st)))"
      using Suc.prems(1) by (simp add: outbox_ok_def strict_sorted_iff)
    have undue: "or_id x \<notin> set (map om_id ms)" if "x \<in> set (db_rows (os_db st))" "\<not> or_next_attempt_at x \<le> now" for x
    proof
      assume "or_id x \<in> set (map om_id ms)"
      then obtain y where "y \<in> set due" "or_id y = or_id x" unfolding ids by (auto dest: in_set_takeD)
      then have "y = x" using dist_all that(1) by (auto simp: due_def distinct_map dest: inj_onD)
      with \<open>y \<in> set due\<close> that(2) show False by (simp add: due_def)
    qed
    have rest: "filter (\<lambda>r. \<not> or_next_attempt_at r \<le> now) (db_rows (os_db st1))
        = filter (\<lambda>r. \<not> or_next_attempt_at r \<le> now) (db_rows (os_db st))"
      unfolding st1_def set_rows_simps filter_filter by (rule filter_cong) (use undue in auto)
    have ok1: "outbox_ok st1" unfolding st1_def by (rule outbox_ok_set_rows [OF Suc.prems(1)])
    have "length (drop k due) < f" using Suc.prems(2) k Cons by (simp add: due_def [symmetric]) 
    then have ih: "uplink_drain f now n all_acked st1 = Some (map row_message (drop k due), False,
        set_rows (filter (\<lambda>r. \<not> or_next_attempt_at r \<le> now) (db_rows (os_db st))) st1)"
      using Suc.IH [OF ok1] by (simp add: due1 rest)
    obtain m ms' where m: "ms = m # ms'" using Cons k by (cases k) (auto simp: ms_def)
    have "uplink_batch now all_acked (m # ms') st = (ms, False, st1)"
      using uplink_batch_acked [OF dist sub] by (simp add: m st1_def)
    then have "uplink_drain (Suc f) now n all_acked st = Some (ms @ map row_message (drop k due), False,
        set_rows (filter (\<lambda>r. \<not> or_next_attempt_at r \<le> now) (db_rows (os_db st))) st)"
      using ih m pk by (simp add: ms_def [symmetric]) (simp add: st1_def)
    moreover have "ms @ map row_message (drop k due) = map row_message due" by (simp add: ms_def flip: map_append)
    ultimately show ?thesis by (simp add: due_def)
  qed
qed simp


section \<open>Drain properties\<close>

text \<open>
  C27: A drain with every publish acknowledged terminates, with fuel one more than the depth,
  and publishes exactly the due messages, each once and in the order they were enqueued;
  they leave the queue and nothing else does.
\<close>

theorem uplink_drain_complete:
  assumes "outbox_ok st" "depth st < f"
  shows "uplink_drain f now n all_acked st =
    Some (map row_message (filter (\<lambda>r. or_next_attempt_at r \<le> now) (db_rows (os_db st))), False,
      set_rows (filter (\<lambda>r. \<not> or_next_attempt_at r \<le> now) (db_rows (os_db st))) st)"
  by (rule uplink_drain_acked [OF assms(1)])
    (use assms(2) in \<open>auto simp: depth_def intro: le_less_trans [OF length_filter_le]\<close>)

definition demo_row :: "int \<Rightarrow> int \<Rightarrow> payload outbox_row" where
  "demo_row i due = \<lparr>or_id = i, or_tenant = ''t'', or_topic = ''d'',
     or_payload = \<lparr>pl_timestamp = None, pl_seq = Some (nat i), pl_metrics = []\<rparr>, or_enqueued_at = 0,
     or_attempts = 0, or_next_attempt_at = due\<rparr>"

definition demo_queue :: "payload outbox_store" where
  "demo_queue = \<lparr>os_db = \<lparr>db_rows = [demo_row 1 0, demo_row 2 0], db_seq = 2, db_state = []\<rparr>, os_cap = 10\<rparr>"

lemma demo_queue_facts [simp]: "outbox_ok demo_queue" "depth demo_queue = 2"
  "db_rows (os_db demo_queue) = [demo_row 1 0, demo_row 2 0]"
  by (simp_all add: demo_queue_def outbox_ok_def demo_row_def depth_def)

lemma demo_row_facts [simp]: "or_id (demo_row i d) = i" "or_next_attempt_at (demo_row i d) = d"
  by (simp_all add: demo_row_def)

lemma uplink_drain_complete_witness:
  "uplink_drain 3 5 64 all_acked demo_queue
   = Some ([row_message (demo_row 1 0), row_message (demo_row 2 0)], False, set_rows [] demo_queue)"
  using uplink_drain_complete [of demo_queue 3 5 64] by simp

text \<open>The publisher that refuses one message.\<close>

definition refuses :: "int \<Rightarrow> uplink_env" where
  "refuses i = \<lparr>ue_publish = (\<lambda>m. om_id m \<noteq> i), ue_delete_ok = (\<lambda>i. True), ue_mark_ok = True\<rparr>"

text \<open>
  The queue is not first-in first-out across a failure. When the publish of the oldest
  row fails, the drain stops and keeps the row, but its retry is two seconds away; a drain
  in between publishes all the later rows, and the oldest one is still waiting.
\<close>

theorem failed_publish_is_overtaken:
  assumes "outbox_ok st" "db_rows (os_db st) = r # rs" "\<forall>x\<in>set (r # rs). or_next_attempt_at x \<le> now"
    "0 \<le> now" "now \<le> later" "later < now + 2000000000" "now < 9000000000000000000" "depth st < f"
  shows "\<exists>st1. uplink_drain f now n (refuses (or_id r)) st = Some ([], True, st1)
    \<and> (\<exists>st2 r'. uplink_drain f later n all_acked st1 = Some (map row_message rs, False, st2)
         \<and> db_rows (os_db st2) = [r'] \<and> or_id r' = or_id r \<and> or_payload r' = or_payload r)"
proof -
  define st1 where "st1 = mark_attempt now (or_id r) 2000000000 st"
  have due: "filter (\<lambda>x. or_next_attempt_at x \<le> now) (db_rows (os_db st)) = r # rs"
    using assms(2,3) by (simp add: filter_id_conv)
  have "0 < nat (if n \<le> 0 then 1 else n)" by simp
  then obtain k where k: "nat (if n \<le> 0 then 1 else n) = Suc k" by (metis gr0_conv_Suc)
  have pk: "peek now n st = row_message r # map row_message (take k rs)"
    by (simp only: peek_prefix [OF assms(1)] due k take_Suc_Cons list.map)
  have "om_id (row_message r) = or_id r" by (simp add: row_message_def)
  then have first: "uplink_drain f now n (refuses (or_id r)) st = Some ([], True, st1)"
    using assms(8) pk by (cases f) (simp_all add: refuses_def st1_def)
  define r' where "r' = r\<lparr>or_attempts := or_attempts r + 1, or_next_attempt_at := now + 2000000000\<rparr>"
  have dist: "or_id x \<noteq> or_id r" if "x \<in> set rs" for x
    using assms(1,2) that by (auto simp: outbox_ok_def)
  have a: "add64 now 2000000000 = now + 2000000000" using assms(4,7) by (simp add: add64_def in64_def)
  have rows1: "db_rows (os_db st1) = r' # rs"
    using dist by (simp add: st1_def mark_attempt_def assms(2) r'_def a map_idI)
  have f1: "filter (\<lambda>x. or_next_attempt_at x \<le> later) (db_rows (os_db st1)) = rs"
    "filter (\<lambda>x. \<not> or_next_attempt_at x \<le> later) (db_rows (os_db st1)) = [r']"
    using assms(3,5,6) by (auto simp: rows1 r'_def filter_id_conv filter_empty_conv)
  have ok1: "outbox_ok st1" unfolding st1_def by (rule mark_attempt_ok [OF assms(1)])
  have "length rs < f" using assms(2,8) by (simp add: depth_def)
  then have "uplink_drain f later n all_acked st1 = Some (map row_message rs, False, set_rows [r'] st1)"
    using uplink_drain_acked [OF ok1, of later f n] by (simp only: f1)
  moreover have "or_id r' = or_id r" "or_payload r' = or_payload r" by (simp_all add: r'_def)
  ultimately show ?thesis using first by (metis set_rows_simps(1))
qed

lemma failed_publish_is_overtaken_witness:
  "\<exists>st1. uplink_drain 3 5 64 (refuses 1) demo_queue = Some ([], True, st1)
    \<and> (\<exists>st2 r'. uplink_drain 3 1000000005 64 all_acked st1 = Some ([row_message (demo_row 2 0)], False, st2)
         \<and> db_rows (os_db st2) = [r'] \<and> or_id r' = 1 \<and> or_payload r' = or_payload (demo_row 1 0))"
  using failed_publish_is_overtaken [of demo_queue "demo_row 1 0" "[demo_row 2 0]" 5 1000000005 3 64] by simp

section \<open>Nothing is lost in the drain of the edge-transformer\<close>

definition waiting :: "'p outbox_row \<Rightarrow> 'p outbox_store \<Rightarrow> bool" where
  "waiting r st \<longleftrightarrow> list_ex (\<lambda>x. or_id x = or_id r \<and> or_payload x = or_payload r) (db_rows (os_db st))"

lemma waiting_delete: "waiting r st \<Longrightarrow> or_id r \<noteq> i \<Longrightarrow> waiting r (snd (delete_row i st))"
  by (auto simp: waiting_def delete_row_def list_ex_iff)

lemma waiting_mark: "waiting r st \<Longrightarrow> waiting r (mark_attempt now i b st)"
proof -
  assume "waiting r st"
  then obtain x where x: "x \<in> set (db_rows (os_db st))" "or_id x = or_id r" "or_payload x = or_payload r"
    by (auto simp: waiting_def list_ex_iff)
  define y where "y = (if or_id x = i then x\<lparr>or_attempts := or_attempts x + 1, or_next_attempt_at := add64 now b\<rparr> else x)"
  have "y \<in> set (db_rows (os_db (mark_attempt now i b st)))" using x(1) by (simp add: mark_attempt_def y_def)
  moreover have "or_id y = or_id r" "or_payload y = or_payload r" using x by (simp_all add: y_def)
  ultimately show ?thesis by (auto simp: waiting_def list_ex_iff)
qed

lemma drain_rows_accounts:
  assumes "distinct (map or_id rows)" "r \<in> set rows" "\<forall>(m, a, b)\<in>set ms. \<exists>r0\<in>set rows. m = row_message r0" "waiting r st"
  shows "waiting r (snd (drain_rows now ms st)) \<or> or_payload r = None
    \<or> (\<exists>env. or_payload r = Some env \<and> env \<in> set (fst (drain_rows now ms st)))"
  using assms(3,4)
proof (induction ms arbitrary: st)
  case (Cons x ms)
  obtain m a b where x: "x = (m, a, b)" by (metis prod_cases3)
  obtain r0 where r0: "r0 \<in> set rows" "m = row_message r0" using Cons.prems(1) by (auto simp: x)
  have m: "om_id m = or_id r0" "om_payload m = or_payload r0" by (simp_all add: r0 row_message_def)
  obtain out st' where one: "drain_one now m a b st = (out, st')" by fastforce
  have "waiting r st' \<or> or_payload r = None \<or> (\<exists>env. or_payload r = Some env \<and> env \<in> set out)"
  proof (cases "or_id r = or_id r0")
    case False
    then have "waiting r st'" using one Cons.prems(2) waiting_delete [OF Cons.prems(2)] waiting_mark [OF Cons.prems(2)]
      by (auto simp: drain_one_def m split: option.splits if_splits)
    then show ?thesis by blast
  next
    case True
    then have "r = r0" using assms(1,2) r0(1) by (auto simp: distinct_map dest: inj_onD)
    then show ?thesis using one Cons.prems(2) waiting_mark [OF Cons.prems(2)]
      by (auto simp: drain_one_def m split: option.splits if_splits)
  qed
  moreover have "waiting r st' \<Longrightarrow> waiting r (snd (drain_rows now ms st')) \<or> or_payload r = None
      \<or> (\<exists>env. or_payload r = Some env \<and> env \<in> set (fst (drain_rows now ms st')))"
    using Cons.IH Cons.prems(1) by simp
  ultimately show ?case by (auto simp: x one split_beta)
qed simp

text \<open>
  C28: In one turn of the edge-transformer's drain, whatever the publisher and the database
  answer, every queued row is afterwards still queued with its payload, or its envelope was
  published and confirmed, or its payload cannot be read at all: no failure loses a message.
\<close>

theorem drain_turn_loses_nothing:
  assumes "outbox_ok st" "r \<in> set (db_rows (os_db st))"
  shows "waiting r (snd (outbox_drain_turn now answers st)) \<or> or_payload r = None
    \<or> (\<exists>env. or_payload r = Some env \<and> env \<in> set (fst (outbox_drain_turn now answers st)))"
  unfolding outbox_drain_turn_def
proof (rule drain_rows_accounts [of "db_rows (os_db st)"])
  show "distinct (map or_id (db_rows (os_db st)))" using assms(1) by (simp add: outbox_ok_def strict_sorted_iff)
  show "r \<in> set (db_rows (os_db st))" by (rule assms(2))
  show "waiting r st" using assms(2) by (auto simp: waiting_def list_ex_iff)
  show "\<forall>(m, a, b)\<in>set (map (\<lambda>m. (m, answers (om_id m))) (peek now 10 st)). \<exists>r0\<in>set (db_rows (os_db st)). m = row_message r0"
    by (auto simp: peek_prefix [OF assms(1)] dest!: in_set_takeD)
qed

definition demo_env_row :: "string outbox_envelope option outbox_row" where
  "demo_env_row = \<lparr>or_id = 1, or_tenant = ''t'', or_topic = ''d'',
     or_payload = Some \<lparr>oe_routing_key = ''sparkplug.data'', oe_message_id = ''m'', oe_body = ''b'', oe_traceparent = []\<rparr>,
     or_enqueued_at = 0, or_attempts = 0, or_next_attempt_at = 0\<rparr>"

lemma drain_turn_loses_nothing_witness:
  "waiting demo_env_row (snd (outbox_drain_turn 5 (\<lambda>i. (False, True))
      \<lparr>os_db = \<lparr>db_rows = [demo_env_row], db_seq = 1, db_state = []\<rparr>, os_cap = 10\<rparr>))
   \<or> 0 < length (fst (outbox_drain_turn 5 (\<lambda>i. (False, True))
      \<lparr>os_db = \<lparr>db_rows = [demo_env_row], db_seq = 1, db_state = []\<rparr>, os_cap = 10\<rparr>))"
proof -
  define st where "st = \<lparr>os_db = \<lparr>db_rows = [demo_env_row], db_seq = 1, db_state = []\<rparr>, os_cap = 10 :: int\<rparr>"
  have "outbox_ok st" "demo_env_row \<in> set (db_rows (os_db st))" "or_payload demo_env_row \<noteq> None"
    by (simp_all add: st_def outbox_ok_def demo_env_row_def)
  from drain_turn_loses_nothing [OF this(1,2), of 5 "\<lambda>i. (False, True)"] this(3)
  show ?thesis unfolding st_def by force
qed

end
