(* ===== verification/CalcSafety.thy ===== *)
theory CalcSafety
  imports CalcCorrect
begin

text \<open>
  Safety of single messages: a redelivered message changes nothing, a message touches
  only its own unit, what is emitted and what is stored is never negative, the spike
  clamp and the derived speed. It also records what the \<open>***TRIG\<close> corrections do to
  a unit whose sibling counters have no baseline yet.
\<close>

section \<open>Redelivery\<close>

lemma read_slot_Int_eq: "read_slot s (IntSlot k) = read_slot t (IntSlot k) \<longleftrightarrow> ms_ints s k = ms_ints t k"
  by (cases "ms_ints s k"; cases "ms_ints t k") auto

lemma read_slot_Time_eq: "read_slot s (TimeSlot k) = read_slot t (TimeSlot k) \<longleftrightarrow> ms_times s k = ms_times t k"
  by (cases "ms_times s k"; cases "ms_times t k") auto

text \<open>A write never removes a key.\<close>

lemma fold_apply_write_dom: "ms_ints s k \<noteq> None \<Longrightarrow> ms_ints (fold apply_write ws s) k \<noteq> None"
proof (induction ws arbitrary: s)
  case (Cons w ws)
  have "ms_ints (apply_write w s) k \<noteq> None" using Cons.prems by (cases w) (auto simp: mem_set_defs)
  with Cons.IH show ?case by simp
qed simp

text \<open>Apart from the watermark itself, no write of a counted message hits a \<open>___LAST_TS\<close> key.\<close>

lemma last_ts_key_neq:
  assumes "good_unit u"
  shows "counter_topic u k @ ''___LAST_TS'' \<noteq> unit_topic u @ ''/Status/CurMachSpeed___TS''"
    and "counter_topic u k @ ''___LAST_TS'' \<noteq> counter_topic u k @ ''___GUARD_TS''"
    and "l \<in> set (line_paths u) \<Longrightarrow> counter_topic u k @ ''___LAST_TS'' \<noteq> line_ts_key l"
proof -
  have nine: "length (unit_segments u @ [''Admin'', kind_name k, u_index u, ''Unit'' @ x]) = 9" for x
    by (simp add: unit_segments_def)
  note ok = counter_suffix_ok [OF assms, of "''___LAST_TS''" k]
  have "counter_topic u k @ ''___LAST_TS'' \<noteq> unit_topic u @ ''/Status/'' @ ''CurMachSpeed___TS''"
    unfolding status_key counter_suffix_key
    by (rule path_neq_length [OF ok status_key_ok [OF assms]]) (simp_all add: unit_segments_def)
  then show "counter_topic u k @ ''___LAST_TS'' \<noteq> unit_topic u @ ''/Status/CurMachSpeed___TS''" by simp
  show "counter_topic u k @ ''___LAST_TS'' \<noteq> counter_topic u k @ ''___GUARD_TS''" by simp
  assume "l \<in> set (line_paths u)"
  then obtain q where q: "q \<in> set (phase9_candidates (u_line u))"
    and l: "l = path [u_enterprise u, u_site u, u_area u, q]"
    by (auto simp: line_paths_def)
  have "segments_ok [u_enterprise u, u_site u, u_area u, q, ''Admin'', ''ProdDefectiveCount___TS'']"
    using phase9_candidates_no_slash [OF q] assms by (auto simp: segments_ok_def good_unit_def good_segment_def)
  then have "path (unit_segments u @ [''Admin'', kind_name k, u_index u, ''Unit'' @ ''___LAST_TS'']) \<noteq>
      path [u_enterprise u, u_site u, u_area u, q, ''Admin'', ''ProdDefectiveCount___TS'']"
    by (intro path_neq_length [OF ok]) (simp_all add: unit_segments_def)
  moreover have "line_ts_key l = path [u_enterprise u, u_site u, u_area u, q, ''Admin'', ''ProdDefectiveCount___TS'']"
    by (simp add: line_ts_key_def l path_Cons)
  ultimately show "counter_topic u k @ ''___LAST_TS'' \<noteq> line_ts_key l"
    unfolding counter_suffix_key by simp
qed

lemma phase9_candidate_times:
  "m \<in> set (snd (phase9_candidate p s i l)) \<Longrightarrow> write_slot (mut_write m) = TimeSlot key \<Longrightarrow> key = line_ts_key l"
  by (auto simp: phase9_candidate_def phase9_first_def phase9_last_def phase9_defective_def
      Let_def split: option.splits if_splits prod.splits)

lemma run_phase9_times:
  assumes "m \<in> set (snd (run_phase9 p s))" "good_unit u"
    "m_topic (p9_msg p) = counter_topic u k @ ''***'' @ sfx" "write_slot (mut_write m) = TimeSlot key"
  shows "\<exists>l\<in>set (line_paths u). key = line_ts_key l"
proof -
  have pre: "(u_enterprise u @ ''/'' @ u_site u @ ''/'' @ u_area u @ ''/'') @ l
      = path [u_enterprise u, u_site u, u_area u, l]" for l
    by (simp add: path_Cons)
  from assms(1) obtain l where "l \<in> set (phase9_candidates (u_line u))"
    "m \<in> set (snd (phase9_candidate p s (u_index u) (path [u_enterprise u, u_site u, u_area u, l])))"
    unfolding run_phase9_def assms(3) strip_counter_topic [OF assms(2)] split_counter_topic [OF assms(2)]
    by (auto simp: Let_def counter_segments_def unit_segments_def simp flip: pre)
  with phase9_candidate_times [OF this(2) assms(4)] show ?thesis
    by (auto simp: line_paths_def)
qed

text \<open>The parts of a counted reading, by name.\<close>

lemma calc_count_decompose:
  assumes "calc_count cx enr us0 s = (dec, direct)"
  obtains s' i e c ic sp mb p st where "direct = snd (calc_phase4 cx s)" "p9_msg p = cx_msg cx"
    "updates dec = us0 @ snd (snd (spike_guard cx s' i e)) @ calc_phase5 cx s' c ic
       @ snd (compute_speed s' (cx_unit cx) (cx_ts cx) ic) @ snd (run_phase9 p s') @ snd (calc_phase10 cx s' st)"
    "metrics dec = p8_metrics (calc_phase8 cx s' c (fst (apply_multiplier s' (cx_unit cx) (fst (spike_guard cx s' i e))
       (fst (compute_speed s' (cx_unit cx) (cx_ts cx) ic)))) sp mb (fst (glitch_bound (cx_msg cx) mb e)))
       @ fst (run_phase9 p s') @ fst (calc_phase10 cx s' st)"
    "st = p8_status_topic (calc_phase8 cx s' c (fst (apply_multiplier s' (cx_unit cx) (fst (spike_guard cx s' i e))
       (fst (compute_speed s' (cx_unit cx) (cx_ts cx) ic)))) sp mb (fst (glitch_bound (cx_msg cx) mb e)))"
    "s' = fold apply_write direct s" "c = fst (calc_phase4 cx s)" "i = increments c (cx_prev cx)"
    "ic = pick Consumed (fst (spike_guard cx s' i e))" "p9_timestamp p = cx_ts cx"
proof -
  have gb: "fst (glitch_bound m b e1) = fst (glitch_bound m b e2)" for m b e1 e2
    by (auto simp: glitch_bound_def)
  define c where "c = fst (calc_phase4 cx s)"
  define s' where "s' = fold apply_write (snd (calc_phase4 cx s)) s"
  define i where "i = increments c (cx_prev cx)"
  define e where "e = debug_fields (cx_cur cx) (cx_prev cx) (increments (cx_cur cx) (cx_prev cx)) enr"
  define incr2 where "incr2 = fst (spike_guard cx s' i e)"
  define ic where "ic = pick Consumed incr2"
  define am where "am = apply_multiplier s' (cx_unit cx) incr2 (fst (compute_speed s' (cx_unit cx) (cx_ts cx) ic))"
  define mb where "mb = float0 s' (cx_unit cx @ ''/Status/MachSpeed'')"
  define p8 where "p8 = calc_phase8 cx s' c (fst am) (snd am) mb (fst (glitch_bound (cx_msg cx) mb e))"
  define p where "p = \<lparr>p9_msg = cx_msg cx, p9_timestamp = cx_ts cx, p9_proc_incr = pick Processed (fst am),
             p9_cons_incr = pick Consumed (fst am), p9_cur_processed = pick Processed c,
             p9_cur_consumed = pick Consumed c, p9_consumed_set = p8_consumed_set p8,
             p9_processed_set = p8_processed_set p8, p9_prod_speed = snd am,
             p9_state_speed_this = state_speed_this (cx_flags cx),
             p9_reset_line_scrap = cx_reset_line cx\<rparr>"
  note defs = c_def s'_def i_def e_def incr2_def ic_def am_def mb_def p8_def p_def
  have "calc_count cx enr us0 s = (\<lparr>send_downstream = (p8_metrics p8 @ fst (run_phase9 p s') \<noteq> []),
      enriched = snd (glitch_bound (cx_msg cx) mb
        ((fst (snd (spike_guard cx s' i e)))(''machspeed'' \<mapsto> AFloat mb))),
      metrics = (p8_metrics p8 @ fst (run_phase9 p s')) @ fst (calc_phase10 cx s' (p8_status_topic p8)),
      updates = us0 @ snd (snd (spike_guard cx s' i e)) @ calc_phase5 cx s' c ic
       @ snd (compute_speed s' (cx_unit cx) (cx_ts cx) ic) @ snd (run_phase9 p s')
       @ snd (calc_phase10 cx s' (p8_status_topic p8))\<rparr>, snd (calc_phase4 cx s))"
    unfolding calc_count_def Let_def split_beta defs
    by (simp only: gb [of _ _ "(fst (snd (spike_guard cx s' i e)))(''machspeed'' \<mapsto> AFloat mb)" e, unfolded defs])
  with assms have res: "updates dec = us0 @ snd (snd (spike_guard cx s' i e)) @ calc_phase5 cx s' c ic
       @ snd (compute_speed s' (cx_unit cx) (cx_ts cx) ic) @ snd (run_phase9 p s')
       @ snd (calc_phase10 cx s' (p8_status_topic p8))"
    "metrics dec = p8_metrics p8 @ fst (run_phase9 p s') @ fst (calc_phase10 cx s' (p8_status_topic p8))"
    "direct = snd (calc_phase4 cx s)" by auto
  show ?thesis
    by (rule that [of p s' i e c ic "p8_status_topic p8" "snd am" mb])
      (use res in \<open>simp_all add: defs\<close>)
qed

lemma phase5_int_slots:
  assumes "m \<in> set (calc_phase5 cx s cur ic)"
  shows "\<exists>key. write_slot (mut_write m) = IntSlot key"
proof -
  obtain p c d where cur: "cur = (p, c, d)" by (metis prod_cases3)
  show ?thesis using assms
    unfolding calc_phase5_def write_non_negative_def cur Let_def
    by (cases "cx_send cx"; cases "bool0 s (cx_unit cx @ ''/Status/Parameter*30770*'')") auto
qed

lemma calc_count_watermark:
  assumes u: "good_unit u" and t: "cx_topics cx = unit_topics u" and un: "cx_unit cx = unit_topic u"
    and kd: "cx_kind cx = k" "k \<noteq> KindUnknown"
    and msg: "m_topic (cx_msg cx) = counter_topic u k @ ''***'' @ sfx"
    and res: "calc_count cx enr us0 s = (dec, direct)"
    and w: "w \<in> set (direct @ map mut_write (drop (length us0) (updates dec)))"
  shows "write_slot w \<noteq> TimeSlot (counter_topic u k @ ''___LAST_TS'')"
proof -
  have n30772: "w \<in> set (snd (calc_phase4 cx s')) \<Longrightarrow> \<exists>key. write_slot w = IntSlot key" for w s'
    by (cases "cx_cur cx"; cases "cx_prev cx")
      (auto simp: calc_phase4_def split: if_splits dest!: trig_direct_writes)
  have sg: "m \<in> set (snd (snd (spike_guard cx s' i e))) \<Longrightarrow>
      write_slot (mut_write m) = TimeSlot (counter_topic u k @ ''___GUARD_TS'')" for m s' i e
    using kd by (auto simp: spike_guard_def Let_def split_beta cur_topic_def t split: if_splits)
  have cs: "m \<in> set (snd (compute_speed s' (unit_topic u) ts ic)) \<Longrightarrow>
      write_slot (mut_write m) \<noteq> TimeSlot (counter_topic u k @ ''___LAST_TS'')" for m s' ts ic
    using last_ts_key_neq(1) [OF u, of k] by (auto simp: compute_speed_def Let_def split: if_splits)
  have p5: "m \<in> set (calc_phase5 cx s' c ic) \<Longrightarrow> \<exists>key. write_slot (mut_write m) = IntSlot key" for m s' c ic
    by (rule phase5_int_slots)
  have p10: "m \<in> set (snd (calc_phase10 cx s' st)) \<Longrightarrow> \<exists>key. write_slot (mut_write m) = StringsSlot key" for m s' st
    by (auto simp: calc_phase10_def register_status_topic_def Let_def split: if_splits option.splits)
  have p9: "m \<in> set (snd (run_phase9 p s')) \<Longrightarrow> p9_msg p = cx_msg cx \<Longrightarrow>
      write_slot (mut_write m) \<noteq> TimeSlot (counter_topic u k @ ''___LAST_TS'')" for m p s'
    using run_phase9_times [OF _ u, of m p s' k sfx] msg last_ts_key_neq(3) [OF u] by metis
  obtain s' i e c ic sp mb p st where dec: "direct = snd (calc_phase4 cx s)" "p9_msg p = cx_msg cx"
    "updates dec = us0 @ snd (snd (spike_guard cx s' i e)) @ calc_phase5 cx s' c ic
       @ snd (compute_speed s' (cx_unit cx) (cx_ts cx) ic) @ snd (run_phase9 p s') @ snd (calc_phase10 cx s' st)"
    by (rule calc_count_decompose [OF res])
  from w dec consider "w \<in> set (snd (calc_phase4 cx s))"
    | m where "w = mut_write m" "m \<in> set (snd (snd (spike_guard cx s' i e)))"
    | m where "w = mut_write m" "m \<in> set (calc_phase5 cx s' c ic)"
    | m where "w = mut_write m" "m \<in> set (snd (compute_speed s' (cx_unit cx) (cx_ts cx) ic))"
    | m where "w = mut_write m" "m \<in> set (snd (run_phase9 p s'))"
    | m where "w = mut_write m" "m \<in> set (snd (calc_phase10 cx s' st))"
    by auto
  then show ?thesis
  proof cases
    case 1 then show ?thesis using n30772 by fastforce
  next
    case 2 then show ?thesis using sg last_ts_key_neq(2) [OF u] by auto
  next
    case 3 then show ?thesis using p5 by fastforce
  next
    case 4 then show ?thesis using cs by (simp add: un)
  next
    case 5 then show ?thesis using p9 dec(2) by blast
  next
    case 6 then show ?thesis using p10 by fastforce
  qed
qed

text \<open>A processed message leaves its timestamp as the watermark of its counter.\<close>

lemma calc_step_watermark:
  assumes u: "good_unit u" and k: "k \<noteq> KindUnknown"
    and topic: "m_topic msg = counter_topic u k @ ''***'' @ sfx"
    and guard: "monotonicity_guard cfg" and ts: "m_timestamp msg = Some t"
    and out: "fst (calc_step cfg now msg s) \<noteq> []"
  shows "ms_times (snd (calc_step cfg now msg s)) (counter_topic u k @ ''___LAST_TS'') = Some t"
    and "ms_ints (snd (calc_step cfg now msg s)) (counter_topic u k) \<noteq> None"
proof -
  define cx where "cx = counting_ctx cfg now msg s u k sfx"
  define us0 where "us0 = last_ts_mutation cfg now msg u k"
  have us0: "us0 = [mutation ''counter.last_ts'' (SetTimeMs (counter_topic u k @ ''___LAST_TS'') t)]"
    using guard ts by (simp add: us0_def last_ts_mutation_def msg_time_def)
  from out have call: "calc_with_config cfg now msg s = calc_count cx (snd (calc_phase0 msg)) us0 s"
    and some: "ms_ints s (counter_topic u k) \<noteq> None"
    unfolding calc_step_def calc_on_topic [OF u k topic] Let_def cx_def us0_def
    by (auto simp: seed_updates split: if_splits)
  obtain dec direct where cc: "calc_count cx (snd (calc_phase0 msg)) us0 s = (dec, direct)" by fastforce
  have "\<exists>rest. updates dec = us0 @ rest"
    by (rule calc_count_decompose [OF cc]) auto
  then obtain rest where rest: "updates dec = us0 @ rest" by blast
  have st: "snd (calc_step cfg now msg s) = fold apply_write (map mut_write rest)
      (apply_write (SetTimeMs (counter_topic u k @ ''___LAST_TS'') t) (fold apply_write direct s))"
    unfolding calc_step_def call cc by (simp add: rest us0 apply_mutations_fold)
  have no: "write_slot w \<noteq> TimeSlot (counter_topic u k @ ''___LAST_TS'')" if "w \<in> set (map mut_write rest)" for w
    by (rule calc_count_watermark [OF u _ _ _ k _ cc, of sfx])
      (use that topic in \<open>simp_all add: cx_def rest\<close>)
  have "read_slot (snd (calc_step cfg now msg s)) (TimeSlot (counter_topic u k @ ''___LAST_TS'')) = Some (TimeVal t)"
    unfolding st by (subst mem.get_fold_other) (use no in \<open>fastforce simp: mem_set_time_def\<close>)+
  then show "ms_times (snd (calc_step cfg now msg s)) (counter_topic u k @ ''___LAST_TS'') = Some t" by auto
  show "ms_ints (snd (calc_step cfg now msg s)) (counter_topic u k) \<noteq> None"
    unfolding calc_step_writes by (rule fold_apply_write_dom [OF some])
qed

text \<open>Data for the witnesses: the monotonicity guard on.\<close>

definition guard_on :: calc_config where
  "guard_on = \<lparr>monotonicity_guard = True, counter_rollover = False\<rparr>"

text \<open>
  C8: With the monotonicity guard on, a message that emitted anything makes every later
  delivery of the same counter with the same or an older timestamp a no-op: nothing is
  emitted and State does not change, whatever value it carries. So an at-least-once
  transport, or an out-of-order replay, cannot count a reading twice.
\<close>

theorem calc_redelivery_dropped:
  assumes "good_unit u" "k \<noteq> KindUnknown" "monotonicity_guard cfg"
    "m_topic msg = counter_topic u k @ ''***'' @ sfx" "m_timestamp msg = Some t" "t \<noteq> 0"
    "fst (calc_step cfg now msg s) \<noteq> []"
    "m_topic late = counter_topic u k @ ''***'' @ sfx'" "m_timestamp late = Some t'" "t' \<le> t"
  shows "calc_step cfg now' late (snd (calc_step cfg now msg s)) = ([], snd (calc_step cfg now msg s))"
proof -
  note wm = calc_step_watermark [OF assms(1,2,4,3,5,7)]
  obtain b where b: "ms_ints (snd (calc_step cfg now msg s)) (counter_topic u k) = Some b" using wm(2) by auto
  show ?thesis
    unfolding calc_step_def [of cfg now' late] calc_on_topic [OF assms(1,2,8)]
    using wm(1) b assms(3,6,9,10) by (simp add: Let_def seed_updates time0_def msg_time_def)
qed

lemma demo_emits:
  assumes "p < v" "0 \<le> p" "in64 v"
  shows "own_sum demo_unit Consumed (fst (calc_step guard_on 0 (demo_message Consumed v ts) (demo_state Consumed p))) = v - p"
proof -
  have in64: "in64 p" using assms by (simp add: in64_def)
  define cx where "cx = counting_ctx guard_on 0 (demo_message Consumed v ts) (demo_state Consumed p) demo_unit Consumed ''TRIG''"
  have i0: "int0 (demo_state Consumed p) (counter_topic demo_unit Consumed) = p" by (simp add: int0_def)
  have pl: "payload_of (demo_message Consumed v ts) = v" by (simp add: payload_of_def payload_plain demo_plain assms calc_phase0_def)
  have cx: "pick Consumed (cx_cur cx) = v" "pick Consumed (cx_prev cx) = p"
    using assms by (simp_all add: cx_def counting_ctx_def pl i0 advance_counter_def)
  have call: "calc_with_config guard_on 0 (demo_message Consumed v ts) (demo_state Consumed p)
      = calc_count cx Map.empty (last_ts_mutation guard_on 0 (demo_message Consumed v ts) demo_unit Consumed) (demo_state Consumed p)"
    using calc_on_topic [OF demo_good, of Consumed "demo_message Consumed v ts" "''TRIG''" guard_on 0 "demo_state Consumed p"] assms
    by (simp add: Let_def cx_def i0 pl advance_counter_def time0_def calc_phase0_def)
      (simp add: demo_state_def new_mem_state_def mem_set_int_def)
  have "own_sum demo_unit Consumed (metrics (fst (calc_count cx Map.empty
      (last_ts_mutation guard_on 0 (demo_message Consumed v ts) demo_unit Consumed) (demo_state Consumed p)))) = max 0 (sub64 v p)"
    by (rule calc_count_own(1) [OF demo_good])
      (use assms cx in \<open>simp_all add: cx_def parse_trig calc_phase0_def\<close>)
  then show ?thesis using assms in64 by (simp add: calc_step_def call split_beta sub64_nonneg)
qed

lemma calc_redelivery_dropped_witness:
  "calc_step guard_on 9 (demo_message Consumed 115 1000)
      (snd (calc_step guard_on 0 (demo_message Consumed 110 1000) (demo_state Consumed 100)))
   = ([], snd (calc_step guard_on 0 (demo_message Consumed 110 1000) (demo_state Consumed 100)))"
proof -
  have "own_sum demo_unit Consumed (fst (calc_step guard_on 0 (demo_message Consumed 110 1000) (demo_state Consumed 100))) = 10"
    using demo_emits [of 100 110 1000] by (simp add: in64_def)
  then have "fst (calc_step guard_on 0 (demo_message Consumed 110 1000) (demo_state Consumed 100)) \<noteq> []" by auto
  then show ?thesis
    by (intro calc_redelivery_dropped [OF demo_good, where k = Consumed and sfx = "''TRIG''" and sfx' = "''TRIG''" and t = 1000 and t' = 1000])
      (simp_all add: guard_on_def)
qed

section \<open>Isolation of units\<close>

lemma counter_topic_inj2:
  assumes "good_unit u" "good_unit u'"
  shows "counter_topic u j = counter_topic u' k \<longleftrightarrow> u = u' \<and> j = k"
proof -
  have "kind_name j = kind_name k \<longleftrightarrow> j = k" by (cases j; cases k) auto
  then show ?thesis
    using path_inj [OF good_unit_segments(2) [OF assms(1)] good_unit_segments(2) [OF assms(2)], of j k]
    by (cases u; cases u') (auto simp: counter_topic_def counter_segments_def unit_segments_def)
qed

lemma counter_topic_not_written:
  assumes "good_unit u" "good_unit u'" "u \<noteq> u'"
  shows "counter_topic u' j \<notin> written_int_keys u"
proof -
  note okj = good_unit_segments(2) [OF assms(2), of j]
  have ct: "counter_topic u' j \<noteq> counter_topic u k" for k
    using counter_topic_inj2 [OF assms(2,1)] assms(3) by auto
  have st: "counter_topic u' j \<noteq> unit_topic u @ ''/Status/'' @ ''Parameter*30772*''"
    unfolding status_key counter_topic_def
    by (rule path_neq_length [OF okj status_key_ok [OF assms(1)]])
      (simp_all add: counter_segments_def unit_segments_def)
  have sx: "counter_topic u' j \<noteq> counter_topic u k @ x" if "CHR ''/'' \<notin> set x" "x \<noteq> []" for k x
    using path_inj [OF okj counter_suffix_ok [OF assms(1) that(1), of k]] that(2)
    unfolding counter_suffix_key unfolding counter_topic_def
    by (auto simp: counter_segments_def unit_segments_def)
  have ln: "counter_topic u' j \<notin> line_int_keys l" if lm: "l \<in> set (line_paths u)" for l
  proof
    assume a: "counter_topic u' j \<in> line_int_keys l"
    obtain ps where "counter_topic u' j = path ps" "segments_ok ps" "length ps = 6"
      by (rule line_key_path [OF assms(1) lm a])
    then show False using path_neq_length [OF okj, of ps]
      by (simp add: counter_topic_def counter_segments_def unit_segments_def)
  qed
  show ?thesis
    using ct st sx [of "''___IN_INCR''"] sx [of "''___IN_SCRAP''"] ln by (simp add: written_int_keys_def)
qed

text \<open>
  C15: A message of one unit never changes a counter baseline of another unit, nor any unit
  mode, status parameter flag or topology: the State of a plant with many units behaves as
  independent per-unit states as far as the counters are concerned.
\<close>

theorem calc_unit_isolation:
  assumes "good_unit u" "good_unit u'" "u \<noteq> u'" "k \<noteq> KindUnknown"
    "m_topic msg = counter_topic u k @ ''***'' @ sfx"
  shows "ms_ints (snd (calc_step cfg now msg s)) (counter_topic u' j) = ms_ints s (counter_topic u' j)
    \<and> ms_bools (snd (calc_step cfg now msg s)) = ms_bools s
    \<and> ms_modes (snd (calc_step cfg now msg s)) = ms_modes s
    \<and> (key \<noteq> ''___STATUS_TOPICS'' \<longrightarrow>
        ms_strings (snd (calc_step cfg now msg s)) key = ms_strings s key)"
proof -
  note fr = calc_step_frame [OF assms(1,4,5), of _ cfg now s]
  have "read_slot (snd (calc_step cfg now msg s)) (IntSlot (counter_topic u' j)) = read_slot s (IntSlot (counter_topic u' j))"
    by (rule fr) (simp add: counter_topic_not_written [OF assms(1-3)])
  then have "ms_ints (snd (calc_step cfg now msg s)) (counter_topic u' j) = ms_ints s (counter_topic u' j)"
    by (simp only: read_slot_Int_eq)
  moreover have "ms_bools (snd (calc_step cfg now msg s)) b = ms_bools s b" for b
    using fr [of "BoolSlot b"] by (simp add: option.inj_map [THEN inj_eq] inj_def)
  moreover have "ms_strings (snd (calc_step cfg now msg s)) key = ms_strings s key" if "key \<noteq> ''___STATUS_TOPICS''"
    using fr [of "StringsSlot key"] that by (simp add: option.inj_map [THEN inj_eq] inj_def)
  ultimately show ?thesis by (auto simp: fun_eq_iff)
qed

lemma calc_unit_isolation_witness:
  "ms_ints (snd (calc_step guard_on 0 (demo_message Consumed 110 1000) (demo_state Consumed 100)))
     (counter_topic (demo_unit\<lparr>u_index := ''62''\<rparr>) Consumed) = None"
proof -
  have g: "good_unit (demo_unit\<lparr>u_index := ''62''\<rparr>)" by code_simp
  have n: "demo_unit \<noteq> demo_unit\<lparr>u_index := ''62''\<rparr>" by (simp add: demo_unit_def)
  have "ms_ints (demo_state Consumed 100) (counter_topic (demo_unit\<lparr>u_index := ''62''\<rparr>) Consumed) = None"
    using counter_topic_inj2 [OF demo_good g, of Consumed Consumed] n
    by (auto simp: demo_state_def mem_set_int_def new_mem_state_def)
  then show ?thesis
    using calc_unit_isolation [OF demo_good g n, of Consumed "demo_message Consumed 110 1000" "''TRIG''" guard_on 0 "demo_state Consumed 100" Consumed]
    by simp
qed


section \<open>What is emitted and what is stored\<close>

lemma phase8_metric:
  assumes "m \<in> set (p8_metrics (calc_phase8 cx s cur incr speed mach bound))"
  shows "0 < mt_value m \<and> 0 \<le> mt_counter m \<and> mt_type m = ''int32'' \<and> mt_timestamp m = cx_ts cx
    \<and> mt_timezone m = m_timezone (cx_msg cx) \<and> \<not> mt_line_aggregated m
    \<and> mt_name m \<in> {topic_p cx, topic_c cx, topic_d cx}"
proof -
  obtain p c d where cur: "cur = (p, c, d)" by (metis prod_cases3)
  obtain ip ic dd where incr: "incr = (ip, ic, dd)" by (metis prod_cases3)
  show ?thesis using assms
    by (auto simp: calc_phase8_def cur incr Let_def unit_metric_def split: if_splits)
qed

lemma calc_count_metric:
  assumes u: "good_unit u" and t: "cx_topics cx = unit_topics u"
    and res: "calc_count cx enr us0 s = (dec, direct)"
    and m: "m \<in> set (metrics dec)" "\<not> mt_line_aggregated m" "mt_name m \<noteq> unit_topic u @ ''/Status/StateCurrent''"
  shows "0 < mt_value m \<and> 0 \<le> mt_counter m \<and> mt_type m = ''int32'' \<and> mt_timestamp m = cx_ts cx
    \<and> (\<exists>j. mt_name m = counter_topic u j)"
proof -
  obtain s' cur incr speed mach bound p st where dec: "metrics dec =
      p8_metrics (calc_phase8 cx s' cur incr speed mach bound) @ fst (run_phase9 p s') @ fst (calc_phase10 cx s' st)"
    and st: "st = p8_status_topic (calc_phase8 cx s' cur incr speed mach bound)"
    by (rule calc_count_decompose [OF res]) blast
  have n9: "m \<notin> set (fst (run_phase9 p s'))" using run_phase9_line_aggregated m(2) by blast
  have n10: "m \<notin> set (fst (calc_phase10 cx s' st))"
    using m(3) status_name [OF u] phase8_status_topic [OF _ t, of s' cur incr speed mach bound]
    by (auto simp: calc_phase10_def Let_def st split: option.splits if_splits)
  have "m \<in> set (p8_metrics (calc_phase8 cx s' cur incr speed mach bound))" using m(1) dec n9 n10 by auto
  from phase8_metric [OF this] show ?thesis
    by (auto simp: topic_p_def topic_c_def topic_d_def t)
qed

text \<open>
  Every unit-level metric a message emits (anything that is neither a line aggregate nor
  the status metric) carries a strictly positive increment and a non-negative totalizer, is
  an int32 on one of the three counters of the message's own unit and has the message's
  timestamp; and nothing at all is emitted while the unit is in setup mode or the command
  trigger is absent.
\<close>

theorem calc_unit_metric_positive:
  assumes "good_unit u" "k \<noteq> KindUnknown" "m_topic msg = counter_topic u k @ ''***'' @ sfx"
    "m \<in> set (fst (calc_step cfg now msg s))" "\<not> mt_line_aggregated m"
    "mt_name m \<noteq> unit_topic u @ ''/Status/StateCurrent''"
  shows "0 < mt_value m \<and> 0 \<le> mt_counter m \<and> mt_type m = ''int32'' \<and> mt_timestamp m = msg_time now msg
    \<and> (\<exists>j. mt_name m = counter_topic u j) \<and> ms_modes s (unit_topic u) \<noteq> Some 6 \<and> m_cmd_trigger msg"
proof -
  define cx where "cx = counting_ctx cfg now msg s u k sfx"
  define us0 where "us0 = last_ts_mutation cfg now msg u k"
  from assms(4) have call: "calc_with_config cfg now msg s = calc_count cx (snd (calc_phase0 msg)) us0 s"
    and g: "ms_modes s (unit_topic u) \<noteq> Some 6" "m_cmd_trigger msg"
    unfolding calc_step_def calc_on_topic [OF assms(1-3)] Let_def cx_def us0_def
    by (auto simp: seed_updates split: if_splits)
  obtain dec direct where cc: "calc_count cx (snd (calc_phase0 msg)) us0 s = (dec, direct)" by fastforce
  have "m \<in> set (metrics dec)" using assms(4) by (simp add: calc_step_def call cc)
  from calc_count_metric [OF assms(1) _ cc this assms(5,6)] g show ?thesis by (simp add: cx_def)
qed

lemma calc_unit_metric_positive_witness:
  "\<exists>m\<in>set (fst (calc_step guard_on 0 (demo_message Consumed 110 1000) (demo_state Consumed 100))).
     0 < mt_value m \<and> mt_timestamp m = 1000"
proof -
  define out where "out = fst (calc_step guard_on 0 (demo_message Consumed 110 1000) (demo_state Consumed 100))"
  have "own_sum demo_unit Consumed out = 10"
    using demo_emits [of 100 110 1000] by (simp add: in64_def out_def)
  then have "filter (\<lambda>m. mt_name m = counter_topic demo_unit Consumed \<and> \<not> mt_line_aggregated m) out \<noteq> []"
    by (auto simp: own_sum_def)
  then obtain m where m: "m \<in> set out" "mt_name m = counter_topic demo_unit Consumed" "\<not> mt_line_aggregated m"
    by (metis (mono_tags, lifting) filter_empty_conv)
  have n: "mt_name m \<noteq> unit_topic demo_unit @ ''/Status/StateCurrent''"
    using counter_topic_neq_status [OF demo_good, of "''StateCurrent''" Consumed] m(2) by simp
  from calc_unit_metric_positive [OF demo_good _ _ m(1) [unfolded out_def] m(3) n, of Consumed "''TRIG''"] m(1)
  show ?thesis by (auto simp: out_def msg_time_def)
qed

lemma find_rev_member:
  assumes "find P (rev xs) = Some x" shows "x \<in> set xs" "P x"
  using assms nth_mem [of _ "rev xs"] by (auto simp: find_Some_iff)

text \<open>Every stored baseline is a possible totalizer value.\<close>

definition baselines_nonneg :: "unit_id \<Rightarrow> mem_state \<Rightarrow> bool" where
  "baselines_nonneg u s \<longleftrightarrow> (\<forall>b\<in>{ms_ints s (counter_topic u Processed), ms_ints s (counter_topic u Consumed),
     ms_ints s (counter_topic u Defective)}. case b of None \<Rightarrow> True | Some v \<Rightarrow> 0 \<le> v)"

lemma baselines_nonneg_iff:
  "baselines_nonneg u s \<longleftrightarrow> (\<forall>j v. j \<noteq> KindUnknown \<longrightarrow> ms_ints s (counter_topic u j) = Some v \<longrightarrow> 0 \<le> v)"
  unfolding baselines_nonneg_def
  by (intro iffI allI impI ballI)
    ((case_tac j; force split: option.splits), (auto split: option.splits dest: spec [of _ Processed] spec [of _ Consumed] spec [of _ Defective]))

lemma phase5_baseline:
  assumes u: "good_unit u" and t: "cx_topics cx = unit_topics u" and un: "cx_unit cx = unit_topic u"
    and m: "m \<in> set (calc_phase5 cx s c ic)" and sl: "write_slot (mut_write m) = IntSlot (counter_topic u j)"
  shows "\<exists>v\<ge>0. write_value (mut_write m) = IntVal v"
proof -
  obtain a b d where c: "c = (a, b, d)" by (metis prod_cases3)
  have n: "unit_topic u @ ''/Status/Parameter*30772*'' \<noteq> counter_topic u j"
    using counter_topic_neq_status [OF u, of "''Parameter*30772*''" j] by simp
  show ?thesis using m sl n
    unfolding calc_phase5_def write_non_negative_def c Let_def un
    by (cases "cx_send cx"; cases "bool0 s (unit_topic u @ ''/Status/Parameter*30770*'')") auto
qed

lemma calc_count_baseline_write:
  assumes u: "good_unit u" and t: "cx_topics cx = unit_topics u" and un: "cx_unit cx = unit_topic u"
    and topic: "m_topic (cx_msg cx) = counter_topic u k @ ''***'' @ sfx"
    and us0: "\<forall>m\<in>set us0. \<exists>key. write_slot (mut_write m) = TimeSlot key"
    and res: "calc_count cx enr us0 s = (dec, direct)"
    and w: "w \<in> set (direct @ map mut_write (updates dec))" "write_slot w = IntSlot (counter_topic u j)"
  shows "\<exists>v\<ge>0. write_value w = IntVal v"
proof -
  obtain s' i e c ic p st where dec: "direct = snd (calc_phase4 cx s)" "p9_msg p = cx_msg cx"
    "updates dec = us0 @ snd (snd (spike_guard cx s' i e)) @ calc_phase5 cx s' c ic
       @ snd (compute_speed s' (cx_unit cx) (cx_ts cx) ic) @ snd (run_phase9 p s') @ snd (calc_phase10 cx s' st)"
    by (rule calc_count_decompose [OF res])
  have sx: "counter_topic u h @ y \<noteq> counter_topic u j" if "CHR ''/'' \<notin> set y" "y \<noteq> []" for h y
    using path_inj [OF counter_suffix_ok [OF u that(1), of h] good_unit_segments(2) [OF u, of j]] that(2)
    unfolding counter_suffix_key unfolding counter_topic_def
    by (auto simp: counter_segments_def unit_segments_def)
  have d: "w \<notin> set direct"
  proof
    assume "w \<in> set direct"
    then have "w \<in> set (snd (calc_phase4 cx s))" by (simp add: dec)
    then obtain v where "w = SetInt (topic_c cx @ ''___IN_INCR'') v \<or> w = SetInt (topic_d cx @ ''___IN_SCRAP'') v"
      using trig_direct_writes unfolding calc_phase4_def
      by (cases "cx_cur cx"; cases "cx_prev cx"; cases "cx_send cx \<and> trig_base (cx_flags cx)") fastforce+
    then show False using w(2) sx [of "''___IN_INCR''" Consumed] sx [of "''___IN_SCRAP''" Defective]
      by (auto simp: topic_c_def topic_d_def t)
  qed
  from w(1) d obtain m where m: "w = mut_write m" "m \<in> set (updates dec)" by auto
  have "m \<in> set (calc_phase5 cx s' c ic)"
  proof (rule ccontr)
    assume "m \<notin> set (calc_phase5 cx s' c ic)"
    then consider "m \<in> set us0" | "m \<in> set (snd (snd (spike_guard cx s' i e)))"
      | "m \<in> set (snd (compute_speed s' (cx_unit cx) (cx_ts cx) ic))"
      | "m \<in> set (snd (run_phase9 p s'))" | "m \<in> set (snd (calc_phase10 cx s' st))"
      using m(2) dec(3) by auto
    then show False
    proof cases
      case 1 then show ?thesis using us0 w(2) m(1) by fastforce
    next
      case 2 then show ?thesis using w(2) m(1)
        by (auto simp: spike_guard_def Let_def split_beta split: if_splits)
    next
      case 3 then show ?thesis using w(2) m(1)
        by (auto simp: compute_speed_def Let_def split: if_splits)
    next
      case 4
      from run_phase9_int_slots [OF this u, of k sfx] topic dec(2) w(2) m(1)
      show ?thesis using counter_topic_neq_line [OF u] by auto
    next
      case 5 then show ?thesis using w(2) m(1)
        by (auto simp: calc_phase10_def register_status_topic_def Let_def split: if_splits option.splits)
    qed
  qed
  with phase5_baseline [OF u t un] w(2) m(1) show ?thesis by blast
qed

lemma calc_baseline_write:
  assumes u: "good_unit u" and k: "k \<noteq> KindUnknown" and topic: "m_topic msg = counter_topic u k @ ''***'' @ sfx"
    and w: "w \<in> set (calc_writes cfg now msg s)" "write_slot w = IntSlot (counter_topic u j)"
  shows "\<exists>v\<ge>0. write_value w = IntVal v"
proof -
  define us0 where "us0 = last_ts_mutation cfg now msg u k"
  have us0: "\<forall>m\<in>set us0. \<exists>key. write_slot (mut_write m) = TimeSlot key"
    by (auto simp: us0_def last_ts_mutation_def split: if_splits)
  obtain dec direct where cc: "calc_count (counting_ctx cfg now msg s u k sfx) (snd (calc_phase0 msg)) us0 s = (dec, direct)"
    by fastforce
  note cw = calc_count_baseline_write [OF u _ _ _ us0 cc, of k sfx w j]
  from w show ?thesis
    unfolding calc_writes_def calc_on_topic [OF u k topic] Let_def us0_def [symmetric] cc
    using cw us0 topic by (auto simp: seed_updates split: if_splits)
qed

text \<open>
  Every operation keeps the three stored baselines of every unit non-negative: a reading
  that came in negative, and a Consumed or Defective value the trigger corrections made
  negative, are stored as 0, so no later increment is inflated by a negative baseline.
\<close>

theorem calc_baselines_nonneg:
  assumes "good_unit u" "good_unit u'" "k \<noteq> KindUnknown" "m_topic msg = counter_topic u k @ ''***'' @ sfx"
    "baselines_nonneg u' s"
  shows "baselines_nonneg u' (snd (calc_step cfg now msg s))"
  unfolding baselines_nonneg_iff
proof (intro allI impI)
  fix j v
  assume j: "j \<noteq> KindUnknown" and v: "ms_ints (snd (calc_step cfg now msg s)) (counter_topic u' j) = Some v"
  let ?ws = "calc_writes cfg now msg s" and ?sl = "IntSlot (counter_topic u' j)"
  from v have r: "read_slot (fold apply_write ?ws s) ?sl = Some (IntVal v)" by (simp add: calc_step_writes)
  show "0 \<le> v"
  proof (cases "find (\<lambda>w. write_slot w = ?sl) (rev ?ws)")
    case None
    have "read_slot s ?sl = Some (IntVal v)" using r unfolding mem.get_fold None by simp
    then have "ms_ints s (counter_topic u' j) = Some v" by auto
    with assms(5) j show ?thesis by (auto simp: baselines_nonneg_iff)
  next
    case (Some w)
    then have w: "w \<in> set ?ws" "write_slot w = ?sl"
      by (rule find_rev_member)+
    have "write_slot w \<in> written_slots u" by (rule calc_writes_slots [OF assms(1,3,4) w(1)])
    then have "counter_topic u' j \<in> written_int_keys u" by (simp add: w(2))
    then have "u' = u" using counter_topic_not_written [OF assms(1,2)] by blast
    with calc_baseline_write [OF assms(1,3,4) w(1)] w(2) obtain v' where "0 \<le> v'" "write_value w = IntVal v'" by blast
    with r Some show ?thesis unfolding mem.get_fold Some by simp
  qed
qed

lemma calc_baselines_nonneg_witness:
  "baselines_nonneg demo_unit (snd (calc_step guard_on 0 (demo_message Consumed (- 5) 1000) (demo_state Consumed 100)))"
proof -
  have "baselines_nonneg demo_unit (demo_state Consumed 100)"
    using counter_topic_inj [OF demo_good]
    by (auto simp: baselines_nonneg_iff demo_state_def mem_set_int_def new_mem_state_def split: if_splits)
  then show ?thesis
    using calc_baselines_nonneg [OF demo_good demo_good, of Consumed "demo_message Consumed (- 5) 1000" "''TRIG''"] by simp
qed

end
