(* ===== verification/CalcBounds.thy ===== *)
theory CalcBounds
  imports CalcSafety
begin

text \<open>
  Bounds on one reading: the derived speed, the spike clamp as seen on the emitted
  metrics, the configured counter rollover, and what the \<open>***TRIG\<close> corrections do to a
  unit whose sibling counters have no baseline yet.
\<close>

section \<open>The derived speed\<close>

text \<open>Go's \<open>(a + d/2) / d\<close> is the nearest integer to \<open>a/d\<close>.\<close>

lemma round_half_up:
  assumes "0 < d" "0 \<le> (a::int)"
  shows "2 * \<bar>(a + d div 2) div d * d - a\<bar> \<le> d"
proof -
  define q where "q = (a + d div 2) div d"
  define r where "r = (a + d div 2) mod d"
  define h where "h = d div 2"
  have "q * d + r = a + h" unfolding q_def r_def h_def by simp
  moreover have "0 \<le> r" "r < d" unfolding r_def using assms(1) by simp_all
  moreover have "2 * h \<le> d" "d \<le> 2 * h + 1" unfolding h_def by presburger+
  ultimately have e: "q * d - a = h - r" and b: "2 * h - 2 * r \<le> d" "2 * r - 2 * h \<le> d" by linarith+
  have "2 * \<bar>q * d - a\<bar> \<le> d" unfolding e using b by (simp only: abs_le_iff abs_if) auto
  then show ?thesis by (simp add: q_def)
qed

definition speed_pieces :: "int \<Rightarrow> int \<Rightarrow> int" where
  "speed_pieces incr delta = (incr * 60000 + delta div 2) div delta"

text \<open>
  Without a speed sensor, and when the sums do not overflow, the speed derived from an
  increment over the time since the previous one is the number of pieces per minute rounded
  to the nearest whole number, exactly represented, and it is what the State keeps as
  \<open>CurMachSpeed\<close>, together with the timestamp of the reading as the next reference.
\<close>

theorem compute_speed_nearest:
  assumes "\<not> bool0 s (unit @ ''/Status/Parameter*30761*'')" "0 < incr" "incr \<le> 100000000000"
    "ms_times s (unit @ ''/Status/CurMachSpeed___TS'') = Some last_ts" "0 < last_ts" "last_ts < ts"
    "ts \<le> 9007199254740992"
  shows "fst (compute_speed s unit ts incr) = Fin (of_int (speed_pieces incr (ts - last_ts)))
    \<and> 2 * \<bar>speed_pieces incr (ts - last_ts) * (ts - last_ts) - incr * 60000\<bar> \<le> ts - last_ts
    \<and> snd (compute_speed s unit ts incr) =
       [mutation ''speed.ts'' (SetTimeMs (unit @ ''/Status/CurMachSpeed___TS'') ts),
        mutation ''speed.value'' (SetFloat (unit @ ''/Status/CurMachSpeed'')
          (Fin (of_int (speed_pieces incr (ts - last_ts)))))]"
proof -
  define d where "d = ts - last_ts"
  have d: "0 < d" "d \<le> 9007199254740992" using assms by (simp_all add: d_def)
  have s1: "sub64 ts last_ts = d" using assms by (simp add: d_def go_int in64_def)
  have d2: "0 \<le> d div 2" "d div 2 \<le> d" using d by simp_all
  have ops: "div64 d 2 = d div 2" "mul64 incr 60000 = incr * 60000"
    "add64 (incr * 60000) (d div 2) = incr * 60000 + d div 2"
    using d d2 assms(2,3) by (simp_all add: div64_nonneg in64_def mul64_def add64_def)
  have q: "div64 (incr * 60000 + d div 2) d = speed_pieces incr d"
    unfolding speed_pieces_def by (rule div64_nonneg) (use d d2 assms(2,3) in \<open>simp_all add: in64_def\<close>)
  have "0 \<le> speed_pieces incr d" unfolding speed_pieces_def
    using d d2 assms(2) by (simp add: pos_imp_zdiv_nonneg_iff)
  moreover have "speed_pieces incr d \<le> 9007199254740992"
  proof -
    have "d div 2 \<le> d * 1" using d2 by simp
    then have "incr * 60000 + d div 2 \<le> d * (incr * 60000 + 1)"
      using d(1) assms(2) by (simp add: algebra_simps) (smt (verit) mult_le_cancel_right1 mult_pos_pos)
    then have "speed_pieces incr d \<le> incr * 60000 + 1"
      unfolding speed_pieces_def using d(1) zdiv_mono1 [of "incr * 60000 + d div 2" "d * (incr * 60000 + 1)" d] by simp
    then show ?thesis using assms(3) by simp
  qed
  ultimately have f: "of_int64 (speed_pieces incr d) = Fin (of_int (speed_pieces incr d))"
    by (intro of_int64_exact) simp
  have "2 * \<bar>speed_pieces incr d * d - incr * 60000\<bar> \<le> d"
    unfolding speed_pieces_def using round_half_up [of d "incr * 60000"] d assms(2) by simp
  then show ?thesis
    using assms d unfolding compute_speed_def Let_def time0_def
    by (simp add: s1 ops q f flip: d_def)
qed

lemma compute_speed_nearest_witness:
  "fst (compute_speed (mem_set_time (''U'' @ ''/Status/CurMachSpeed___TS'') 1000 new_mem_state) ''U'' 46000 41) = Fin 55"
  using compute_speed_nearest [of "mem_set_time (''U'' @ ''/Status/CurMachSpeed___TS'') 1000 new_mem_state" "''U''" 41 1000 46000]
  by (simp add: bool0_def mem_set_time_def new_mem_state_def speed_pieces_def)

section \<open>The spike clamp on the emitted metrics\<close>

definition spike_ceiling :: "message \<Rightarrow> int \<Rightarrow> int" where
  "spike_ceiling msg interval = to_int64 (fdiv (fmul (fmul (m_counter_spike_margin msg)
     (spike_guard_rate (m_ideal_rate msg) (m_guard_rated_speed msg))) (of_int64 interval)) (Fin 60000))"

lemma flt_not_fle: "flt a b \<Longrightarrow> \<not> fle b a"
  by (cases a; cases b) (auto simp: fle_def)

lemma clamp_to_ceiling:
  assumes "flt (Fin 0) margin" "flt (Fin 0) rate" "0 < i"
    "0 < to_int64 (fdiv (fmul (fmul margin rate) (of_int64 i)) (Fin 60000))"
  shows "fst (clamp_spike_increment incr rate i margin) \<le> to_int64 (fdiv (fmul (fmul margin rate) (of_int64 i)) (Fin 60000))"
  using assms by (auto simp: clamp_spike_increment_def Let_def dest: flt_not_fle)

lemma spike_guard_clamps:
  assumes k: "cx_kind cx \<noteq> KindUnknown" "j \<noteq> KindUnknown" and t: "cur_topic cx \<noteq> []"
    and on: "flt (Fin 0) (m_counter_spike_margin (cx_msg cx))"
      "flt (Fin 0) (spike_guard_rate (m_ideal_rate (cx_msg cx)) (m_guard_rated_speed (cx_msg cx)))"
    and ts: "time0 s (cur_topic cx @ ''___GUARD_TS'') = t0" "0 < t0" "t0 < cx_ts cx" "in64 (cx_ts cx)"
    and c: "0 < spike_ceiling (cx_msg cx) (cx_ts cx - t0)"
  shows "pick j (fst (spike_guard cx s incr enr)) \<le> spike_ceiling (cx_msg cx) (cx_ts cx - t0)"
proof -
  obtain ip ic dd where i: "incr = (ip, ic, dd)" by (metis prod_cases3)
  have iv: "sub64 (cx_ts cx) t0 = cx_ts cx - t0" using ts by (intro sub64_nonneg) (auto simp: in64_def)
  note cl = clamp_to_ceiling [OF on, of "cx_ts cx - t0"]
  show ?thesis
    using k(2) t on ts c cl unfolding spike_guard_def spike_ceiling_def i Let_def
    by (cases j) (simp_all add: iv split_beta)
qed

lemma phase8_own_le:
  assumes u: "good_unit u" and k: "k \<noteq> KindUnknown" and t: "cx_topics cx = unit_topics u"
  shows "own_sum u k (p8_metrics (calc_phase8 cx s cur incr speed ms bound)) \<le> max 0 (pick k incr)"
proof -
  obtain p c d where cur': "cur = (p, c, d)" by (metis prod_cases3)
  obtain ip ic dd where incr': "incr = (ip, ic, dd)" by (metis prod_cases3)
  have tp: "topic_p cx = counter_topic u Processed" "topic_c cx = counter_topic u Consumed"
    "topic_d cx = counter_topic u Defective"
    by (simp_all add: topic_p_def topic_c_def topic_d_def t)
  show ?thesis
    using k
    by (cases k) (auto simp: calc_phase8_def cur' incr' Let_def tp own_sum_def unit_metric_def
        counter_topic_inj [OF u] max_def)
qed

lemma direct_writes_times: "ms_times (fold apply_write (snd (calc_phase4 cx s)) s) = ms_times s"
proof -
  have w: "\<exists>key v. w = SetInt key v" if "w \<in> set (snd (calc_phase4 cx s))" for w
    using that by (cases "cx_cur cx"; cases "cx_prev cx")
      (auto simp: calc_phase4_def split: if_splits dest!: trig_direct_writes)
  have "ms_times (fold apply_write ws s) = ms_times s" if "\<forall>w\<in>set ws. \<exists>key v. w = SetInt key v" for ws s
    using that by (induction ws arbitrary: s) (auto simp: mem_set_int_def)
  with w show ?thesis by blast
qed

text \<open>
  With the spike clamp configured (a margin and a rate), once a counter has a previous
  reading, no message emits more on any of its unit's counters than margin times rate over
  the elapsed time, whatever jump the totalizer made, when that bound is at least one
  piece and the unit has no counter multiplier.
\<close>

theorem calc_spike_bound:
  assumes u: "good_unit u" and k: "k \<noteq> KindUnknown" "j \<noteq> KindUnknown"
    and topic: "m_topic msg = counter_topic u k @ ''***'' @ sfx"
    and on: "flt (Fin 0) (m_counter_spike_margin msg)" "flt (Fin 0) (spike_guard_rate (m_ideal_rate msg) (m_guard_rated_speed msg))"
    and ts: "m_timestamp msg = Some t" "ms_times s (counter_topic u k @ ''___GUARD_TS'') = Some t0" "0 < t0" "t0 < t" "in64 t"
    and c: "0 < spike_ceiling msg (t - t0)"
    and mult: "ms_ints s (unit_topic u @ ''/Status/Parameter*30710*'') = None"
  shows "own_sum u j (fst (calc_step cfg now msg s)) \<le> spike_ceiling msg (t - t0)"
proof -
  define cx where "cx = counting_ctx cfg now msg s u k sfx"
  define us0 where "us0 = last_ts_mutation cfg now msg u k"
  obtain dec direct where cc: "calc_count cx (snd (calc_phase0 msg)) us0 s = (dec, direct)" by fastforce
  have "own_sum u j (metrics dec) \<le> spike_ceiling msg (t - t0)"
  proof -
    obtain s' i e c' ic sp mb p st where dec: "direct = snd (calc_phase4 cx s)" "s' = fold apply_write direct s"
      "metrics dec = p8_metrics (calc_phase8 cx s' c' (fst (apply_multiplier s' (cx_unit cx) (fst (spike_guard cx s' i e))
       (fst (compute_speed s' (cx_unit cx) (cx_ts cx) ic)))) sp mb (fst (glitch_bound (cx_msg cx) mb e)))
       @ fst (run_phase9 p s') @ fst (calc_phase10 cx s' st)"
      "st = p8_status_topic (calc_phase8 cx s' c' (fst (apply_multiplier s' (cx_unit cx) (fst (spike_guard cx s' i e))
       (fst (compute_speed s' (cx_unit cx) (cx_ts cx) ic)))) sp mb (fst (glitch_bound (cx_msg cx) mb e)))"
      by (rule calc_count_decompose [OF cc]) blast
    have fr: "m_counter_spike_margin (cx_msg cx) = m_counter_spike_margin msg" "m_ideal_rate (cx_msg cx) = m_ideal_rate msg"
      "m_guard_rated_speed (cx_msg cx) = m_guard_rated_speed msg"
      by (simp_all add: cx_def calc_phase0_def split: prod.split)
    then have ceil: "spike_ceiling (cx_msg cx) x = spike_ceiling msg x" for x by (simp add: spike_ceiling_def)
    have ct: "cur_topic cx = counter_topic u k" "cx_topics cx = unit_topics u" "cx_unit cx = unit_topic u" "cx_ts cx = t"
      "cx_kind cx = k"
      using k(1) ts(1) by (simp_all add: cx_def cur_topic_def msg_time_def)
    have tm: "time0 s' (counter_topic u k @ ''___GUARD_TS'') = t0"
      using ts(2) by (simp add: dec(1,2) time0_def direct_writes_times)
    have ne: "counter_topic u k \<noteq> []" by (simp add: counter_topic_def path_Cons counter_segments_def unit_segments_def)
    have sg: "pick j (fst (spike_guard cx s' i e)) \<le> spike_ceiling msg (t - t0)"
      using spike_guard_clamps [of cx j s' t0 i e] k ne on ts(3-5) c tm by (simp add: ct fr ceil)
    have m30710: "unit_topic u @ ''/Status/'' @ ''Parameter*30710*'' \<notin> written_int_keys u"
      by (rule status_key_not_written [OF u]) simp_all
    have no: "IntSlot (unit_topic u @ ''/Status/'' @ ''Parameter*30710*'') \<notin> write_slot ` set (snd (calc_phase4 cx s))"
    proof
      assume "IntSlot (unit_topic u @ ''/Status/'' @ ''Parameter*30710*'') \<in> write_slot ` set (snd (calc_phase4 cx s))"
      then obtain w where "w \<in> set (snd (calc_phase4 cx s))"
        "write_slot w = IntSlot (unit_topic u @ ''/Status/'' @ ''Parameter*30710*'')" by auto
      with phase4_slots [OF this(1) ct(2)] m30710 show False by simp
    qed
    have "read_slot s' (IntSlot (unit_topic u @ ''/Status/'' @ ''Parameter*30710*''))
        = read_slot s (IntSlot (unit_topic u @ ''/Status/'' @ ''Parameter*30710*''))"
      unfolding dec(1,2) by (rule mem.get_fold_other [OF no])
    with mult have "ms_ints s' (unit_topic u @ ''/Status/Parameter*30710*'') = None" by (simp add: read_slot_Int_eq)
    then have am: "fst (apply_multiplier s' (unit_topic u) x y) = x" for x y by (simp add: apply_multiplier_def)
    have "own_sum u j (p8_metrics (calc_phase8 cx s' c' (fst (spike_guard cx s' i e)) sp mb
        (fst (glitch_bound (cx_msg cx) mb e)))) \<le> spike_ceiling msg (t - t0)"
      using phase8_own_le [OF u k(2) ct(2)] sg c by (meson max.boundedI less_imp_le order_trans)
    then show ?thesis
      using phase10_own [OF u, of st j cx s'] phase8_status_topic [OF _ ct(2)]
      by (simp add: dec(3,4) ct(3) am)
  qed
  then show ?thesis
    using c unfolding calc_step_def calc_on_topic [OF u k(1) topic] Let_def us0_def [symmetric] cx_def [symmetric] cc
    by (simp add: seed_updates)
qed


lemma calc_spike_bound_witness:
  "own_sum demo_unit Consumed (fst (calc_step guard_on 0
      (demo_message Consumed 50000 61000\<lparr>m_counter_spike_margin := Fin 3, m_ideal_rate := Fin 10\<rparr>)
      (mem_set_time (counter_topic demo_unit Consumed @ ''___GUARD_TS'') 1000 (demo_state Consumed 100)))) \<le> 30"
proof -
  define msg where "msg = demo_message Consumed 50000 61000\<lparr>m_counter_spike_margin := Fin 3, m_ideal_rate := Fin 10\<rparr>"
  have m: "m_counter_spike_margin msg = Fin 3" "m_ideal_rate msg = Fin 10"
    "m_topic msg = counter_topic demo_unit Consumed @ ''***TRIG''" "m_timestamp msg = Some 61000"
    by (simp_all add: msg_def)
  have "to_int64 (fdiv (fmul (fmul (Fin 3) (Fin 10)) (of_int64 60000)) (Fin 60000)) = 30" by (simp add: of_int64_exact in64_def trunc_rat_def)
  then have c: "spike_ceiling msg 60000 = 30" by (simp add: spike_ceiling_def spike_guard_rate_def m)
  have "ms_ints (demo_state Consumed 100) (unit_topic demo_unit @ ''/Status/Parameter*30710*'') = None"
    using demo_state_plain [of Consumed 100] by (simp add: plain_state_def)
  then show ?thesis
    using calc_spike_bound [OF demo_good, of Consumed Consumed msg "''TRIG''" 61000
        "mem_set_time (counter_topic demo_unit Consumed @ ''___GUARD_TS'') 1000 (demo_state Consumed 100)" 1000 guard_on 0]
      c by (simp add: m spike_guard_rate_def in64_def mem_set_time_def flip: msg_def)
qed

section \<open>Scrap derived before the siblings have a baseline\<close>

lemma phase4_phantom:
  assumes "cx_flags cx = trig_flags" "cx_cur cx = (0, v, 0)" "in64 v" "0 < v" "cx_send cx"
  shows "fst (calc_phase4 cx s) = (0, v, v)" "snd (calc_phase4 cx s) = []"
  using assms by (cases "cx_prev cx"; simp add: calc_phase4_def apply_trig_corrections_def trig_flags_def Let_def sub64_def)+

text \<open>
  What the \<open>***TRIG\<close> corrections do when only the Consumed counter of a unit has a
  baseline (its Processed counter was not read yet, or the unit has none): the first
  reading that moves Consumed from \<open>p\<close> to \<open>v\<close> emits the true increment \<open>v - p\<close> on Consumed and
  also the whole totalizer \<open>v\<close> as Defective, because the missing Processed value is read as 0
  and Defective is derived as Consumed minus Processed.
\<close>

theorem trig_phantom_scrap:
  assumes u: "good_unit u" and pm: "plain_message u Consumed msg" and ps: "plain_state u s"
    and base: "ms_ints s (counter_topic u Consumed) = Some p" "0 \<le> p" "p < m_payload msg"
    and none: "ms_ints s (counter_topic u Processed) = None" "ms_ints s (counter_topic u Defective) = None"
  shows "own_sum u Consumed (fst (calc_step rules_off now msg s)) = m_payload msg - p
    \<and> own_sum u Defective (fst (calc_step rules_off now msg s)) = m_payload msg"
proof -
  define v where "v = m_payload msg"
  have v: "0 < v" "in64 v" "in64 p" using pm base by (simp_all add: v_def plain_message_def in64_def)
  have topic: "m_topic msg = counter_topic u Consumed @ ''***'' @ ''TRIG''" using pm by (simp add: plain_message_def)
  define cx where "cx = counting_ctx rules_off now msg s u Consumed ''TRIG''"
  have pv: "payload_of msg = v" by (simp add: payload_of_def payload_plain [OF pm] v_def)
  have i0: "int0 s (counter_topic u Consumed) = p" "int0 s (counter_topic u Processed) = 0"
    "int0 s (counter_topic u Defective) = 0" using base none by (simp_all add: int0_def)
  have adv: "advance_counter p v cm rules_off = (p, True, False)" for cm
    using base by (simp add: advance_rules_off v_def)
  have cx: "cx_cur cx = (0, v, 0)" "cx_prev cx = (0, p, 0)" "cx_send cx" "cx_flags cx = trig_flags"
    by (simp_all add: cx_def counting_ctx_def pv i0 adv baselines_def parse_trig)
  have ck: "Consumed \<noteq> KindUnknown" and mg: "\<not> monotonicity_guard rules_off" by (simp_all add: rules_off_def)
  have call: "calc_with_config rules_off now msg s = calc_count cx Map.empty [] s"
    using ps pm unfolding calc_on_topic [OF u ck topic]
    by (simp add: Let_def base(1) i0 pv adv payload_plain [OF pm] cx_def last_ts_mutation_def
        plain_state_def plain_message_def mg)
  note p4 = phase4_phantom [OF cx(4,1) v(2,1) cx(3)]
  have f: "cx_topics cx = unit_topics u" "cx_unit cx = unit_topic u" "cx_msg cx = msg"
    by (simp_all add: cx_def payload_plain [OF pm])
  note own = calc_count_plain [OF u _ f(1,2) cx(4) ps, of _ Consumed _ _ Map.empty "[]"]
  have "own_sum u Consumed (metrics (fst (calc_count cx Map.empty [] s))) = max 0 (sub64 v p)"
    by (rule own(1)) (use pm v in \<open>simp_all add: f p4 cx\<close>)
  moreover have "own_sum u Defective (metrics (fst (calc_count cx Map.empty [] s))) = max 0 (sub64 v 0)"
    by (rule own(1)) (use pm v in \<open>simp_all add: f p4 cx\<close>)
  ultimately show ?thesis using v base
    by (simp add: calc_step_def call split_beta sub64_nonneg flip: v_def)
qed

lemma trig_phantom_scrap_witness:
  "own_sum demo_unit Consumed (fst (calc_step rules_off 0 (demo_message Consumed 1010 2000) (demo_state Consumed 1000))) = 10
   \<and> own_sum demo_unit Defective (fst (calc_step rules_off 0 (demo_message Consumed 1010 2000) (demo_state Consumed 1000))) = 1010"
proof -
  have "ms_ints (demo_state Consumed 1000) (counter_topic demo_unit Processed) = None"
    "ms_ints (demo_state Consumed 1000) (counter_topic demo_unit Defective) = None"
    by (simp_all add: demo_state_def mem_set_int_def new_mem_state_def counter_topic_inj)
  then show ?thesis
    using trig_phantom_scrap [OF demo_good, of "demo_message Consumed 1010 2000" "demo_state Consumed 1000" 1000 0]
    by (simp add: in64_def)
qed

end
