(* ===== verification/LineScrap.thy ===== *)
theory LineScrap
  imports LineAggregation
begin

text \<open>
  The scrap account of a line over a run of Phase-9 calls. The accumulator
  \<open>ProdDefectiveCount\<close> moves with every contribution of the first and last machine, the
  metric is emitted at most once per wall-clock second, and \<open>___PREVIOUS\<close> is the
  accumulator at the last emission. The account balances for a line with two end
  machines; for a line whose first machine is also its last, and for a reset that
  arrives with a contribution, one of two writes to the accumulator is lost.
\<close>

section \<open>Runs on one line\<close>

definition line_step :: "string \<Rightarrow> phase9_input \<times> string \<Rightarrow> mem_state \<Rightarrow> metric list \<times> mem_state" where
  "line_step line ev s =
     (case phase9_candidate (fst ev) s (snd ev) line of (ms, us) \<Rightarrow> (ms, apply_mutations us s))"

fun line_run :: "string \<Rightarrow> (phase9_input \<times> string) list \<Rightarrow> mem_state \<Rightarrow> metric list \<times> mem_state" where
  "line_run line [] s = ([], s)"
| "line_run line (ev # evs) s =
     (case line_step line ev s of (out, s') \<Rightarrow>
      case line_run line evs s' of (outs, s'') \<Rightarrow> (out @ outs, s''))"

definition line_defectives :: "string \<Rightarrow> metric list \<Rightarrow> metric list" where
  "line_defectives line ms = filter (\<lambda>m. mt_name m = line_def_key line) ms"

lemma line_defectives_append [simp]:
  "line_defectives line (xs @ ys) = line_defectives line xs @ line_defectives line ys"
  by (simp add: line_defectives_def)

lemma line_defectives_Nil [simp]: "line_defectives line [] = []"
  by (simp add: line_defectives_def)

text \<open>What one event adds to the scrap of a line with an infeed: the end machines' increments.\<close>

definition scrap_delta :: "string list \<Rightarrow> phase9_input \<times> string \<Rightarrow> int" where
  "scrap_delta csv ev =
     (if p9_consumed_set (fst ev) \<and> snd ev = csv ! 0 then p9_cons_incr (fst ev) else 0)
     - (if p9_processed_set (fst ev) \<and> snd ev = csv ! (length csv - 1) then p9_proc_incr (fst ev) else 0)"

definition open_line :: "string \<Rightarrow> string list \<Rightarrow> mem_state \<Rightarrow> bool" where
  "open_line line csv s \<longleftrightarrow> ms_strings s (line @ ''/Status/Parameter30700'') = Some csv \<and> csv \<noteq> []
     \<and> int0 s (line_infeed_key line) = 1"

lemma line_keys_distinct [simp]:
  "line_def_key line \<noteq> line_prev_key line" "line_prev_key line \<noteq> line_def_key line"
  "line_def_key line \<noteq> line_infeed_key line" "line_infeed_key line \<noteq> line_def_key line"
  "line_prev_key line \<noteq> line_infeed_key line" "line_infeed_key line \<noteq> line_prev_key line"
  by (simp_all add: line_keys)

lemma int0_set [simp]: "int0 (mem_set_int k v s) k' = (if k' = k then v else int0 s k')"
  "int0 (mem_set_time k t s) k' = int0 s k'"
  by (simp_all add: int0_def mem_set_int_def mem_set_time_def)

lemma times_set [simp]: "ms_times (mem_set_int k v s) = ms_times s"
  "ms_times (mem_set_time k t s) = (ms_times s)(k \<mapsto> t)"
  "ms_strings (mem_set_int k v s) = ms_strings s" "ms_strings (mem_set_time k t s) = ms_strings s"
  by (simp_all add: mem_set_int_def mem_set_time_def)

text \<open>What is still owed: the part of the account not emitted yet.\<close>

definition scrap_owed :: "string \<Rightarrow> mem_state \<Rightarrow> int" where
  "scrap_owed line s = int0 s (line_def_key line) - int0 s (line_prev_key line)"

section \<open>One event\<close>

text \<open>The emission part of a candidate: what it emits is what it moves into \<open>___PREVIOUS\<close>.\<close>

lemma phase9_defective_state:
  shows "int0 (apply_mutations (snd (phase9_defective p s line)) t) (line_def_key line) = int0 t (line_def_key line)"
    and "int0 (apply_mutations (snd (phase9_defective p s line)) t) (line_infeed_key line) = int0 t (line_infeed_key line)"
    and "ms_strings (apply_mutations (snd (phase9_defective p s line)) t) = ms_strings t"
  by (simp_all add: phase9_defective_def Let_def split: option.split)

lemma phase9_defective_account:
  assumes "int0 t (line_prev_key line) = int0 s (line_prev_key line)"
  shows "wrap64 (sum_list (map mt_value (line_defectives line (fst (phase9_defective p s line))))
      - int0 (apply_mutations (snd (phase9_defective p s line)) t) (line_prev_key line) + a)
    = wrap64 (a - int0 s (line_prev_key line))"
proof -
  have "wrap64 (sub64 x y - x + a) = wrap64 (a - y)" for x y
    using wrap64_absorb(1) [of "x - y" "a - x"] by (simp add: sub64_def algebra_simps)
  then show ?thesis
    using assms by (simp add: phase9_defective_def line_defectives_def line_metric_def Let_def split: option.split)
qed

definition end_first :: "string list \<Rightarrow> phase9_input \<times> string \<Rightarrow> bool" where
  "end_first csv ev \<longleftrightarrow> p9_consumed_set (fst ev) \<and> snd ev = csv ! 0"

definition end_last :: "string list \<Rightarrow> phase9_input \<times> string \<Rightarrow> bool" where
  "end_last csv ev \<longleftrightarrow> p9_processed_set (fst ev) \<and> snd ev = csv ! (length csv - 1)"

lemma scrap_delta_ends:
  "scrap_delta csv ev = (if end_first csv ev then p9_cons_incr (fst ev) else 0)
     - (if end_last csv ev then p9_proc_incr (fst ev) else 0)"
  by (simp add: scrap_delta_def end_first_def end_last_def)

text \<open>The candidate on an open line, by which end the machine is.\<close>

lemma candidate_open:
  assumes "open_line line csv s" "\<not> p9_reset_line_scrap p"
  shows "phase9_candidate p s i line =
    (let f = end_first csv (p, i); l = end_last csv (p, i);
         a = (if f then phase9_first p s line else ([], []));
         b = (if l then phase9_last p s line True else ([], []));
         d = (if (f \<and> p9_cons_incr p \<noteq> 0) \<or> (l \<and> sub64 0 (p9_proc_incr p) \<noteq> 0) then phase9_defective p s line else ([], []))
     in (fst a @ fst b @ fst d, snd a @ snd b @ snd d))"
  using assms by (auto simp: phase9_candidate_def open_line_def end_first_def end_last_def Let_def split_beta)

lemma line_step_account:
  assumes "open_line line csv s" "csv ! 0 \<noteq> csv ! (length csv - 1)" "\<not> p9_reset_line_scrap (fst ev)"
  shows "open_line line csv (snd (line_step line ev s))"
    and "wrap64 (sum_list (map mt_value (line_defectives line (fst (line_step line ev s))))
           + scrap_owed line (snd (line_step line ev s))) = wrap64 (scrap_owed line s + scrap_delta csv ev)"
proof -
  obtain p i where ev: "ev = (p, i)" by (cases ev)
  note cand = candidate_open [OF assms(1), of p i] 
  have nr: "\<not> p9_reset_line_scrap p" using assms(3) by (simp add: ev)
  have ol: "ms_strings s (line @ ''/Status/Parameter30700'') = Some csv" "csv \<noteq> []"
    "int0 s (line_infeed_key line) = 1"
    using assms(1) by (simp_all add: open_line_def)
  have first: "fst (phase9_first p s line) = [fm] \<Longrightarrow> mt_name fm \<noteq> line_def_key line" for fm
    by (auto simp: phase9_first_def Let_def line_metric_def line_keys split: if_splits)
  have fdef: "line_defectives line (fst (phase9_first p s line)) = []"
    "line_defectives line (fst (phase9_last p s line True)) = []"
    by (simp_all add: phase9_first_def phase9_last_def line_defectives_def Let_def line_metric_def line_keys)
  have fst_us: "apply_mutations (snd (phase9_first p s line)) s
      = mem_set_int (line_def_key line) (add64 (int0 s (line_def_key line)) (p9_cons_incr p)) s"
    using ol(3) by (simp add: phase9_first_def Let_def)
  have lst_us: "apply_mutations (snd (phase9_last p s line True)) s
      = mem_set_int (line_def_key line) (sub64 (int0 s (line_def_key line)) (p9_proc_incr p)) s"
    by (simp add: phase9_last_def)
  let ?f = "end_first csv (p, i)" and ?l = "end_last csv (p, i)"
  have excl: "\<not> (?f \<and> ?l)" using assms(2) by (auto simp: end_first_def end_last_def)
  define t where "t = (if ?f then mem_set_int (line_def_key line) (add64 (int0 s (line_def_key line)) (p9_cons_incr p)) s
    else if ?l then mem_set_int (line_def_key line) (sub64 (int0 s (line_def_key line)) (p9_proc_incr p)) s else s)"
  define fire where "fire = ((?f \<and> p9_cons_incr p \<noteq> 0) \<or> (?l \<and> sub64 0 (p9_proc_incr p) \<noteq> 0))"
  have st: "snd (line_step line ev s) = (if fire then apply_mutations (snd (phase9_defective p s line)) t else t)"
    "line_defectives line (fst (line_step line ev s)) = (if fire then line_defectives line (fst (phase9_defective p s line)) else [])"
    using excl cand [OF nr]
    by (simp_all add: line_step_def ev Let_def fire_def t_def fst_us lst_us fdef)
  have t: "int0 t (line_prev_key line) = int0 s (line_prev_key line)" "int0 t (line_infeed_key line) = 1"
    "ms_strings t = ms_strings s"
    using ol by (simp_all add: t_def)
  show "open_line line csv (snd (line_step line ev s))"
    using ol t by (simp add: open_line_def st phase9_defective_state)
  have tdef: "wrap64 (int0 t (line_def_key line) + x) = wrap64 (int0 s (line_def_key line) + scrap_delta csv ev + x)" for x
    using excl wrap64_absorb(1) [of _ x]
    by (simp add: t_def ev scrap_delta_ends add64_def sub64_def)
  show "wrap64 (sum_list (map mt_value (line_defectives line (fst (line_step line ev s))))
           + scrap_owed line (snd (line_step line ev s))) = wrap64 (scrap_owed line s + scrap_delta csv ev)"
  proof (cases fire)
    case True
    show ?thesis
      using phase9_defective_account [OF t(1), of p "int0 t (line_def_key line)"] tdef [of "- int0 s (line_prev_key line)"] True
      by (simp add: st scrap_owed_def phase9_defective_state algebra_simps)
  next
    case False
    then show ?thesis
      using tdef [of "- int0 s (line_prev_key line)"] by (simp add: st scrap_owed_def t algebra_simps)
  qed
qed


section \<open>Runs\<close>

lemma line_run_account:
  assumes "open_line line csv s" "csv ! 0 \<noteq> csv ! (length csv - 1)" "\<forall>ev\<in>set evs. \<not> p9_reset_line_scrap (fst ev)"
  shows "open_line line csv (snd (line_run line evs s)) \<and>
    wrap64 (sum_list (map mt_value (line_defectives line (fst (line_run line evs s))))
      + scrap_owed line (snd (line_run line evs s)))
    = wrap64 (scrap_owed line s + sum_list (map (scrap_delta csv) evs))"
  using assms(1,3)
proof (induction evs arbitrary: s)
  case (Cons ev evs)
  define s' where "s' = snd (line_step line ev s)"
  define x where "x = sum_list (map mt_value (line_defectives line (fst (line_step line ev s))))"
  define y where "y = sum_list (map mt_value (line_defectives line (fst (line_run line evs s'))))"
  define D where "D = sum_list (map (scrap_delta csv) evs)"
  note st = line_step_account [OF Cons.prems(1) assms(2), of ev, folded s'_def x_def]
  have o: "open_line line csv s'" and b: "wrap64 (x + scrap_owed line s') = wrap64 (scrap_owed line s + scrap_delta csv ev)"
    using st Cons.prems(2) by simp_all
  have ih: "open_line line csv (snd (line_run line evs s'))"
    "wrap64 (y + scrap_owed line (snd (line_run line evs s'))) = wrap64 (scrap_owed line s' + D)"
    using Cons.IH [OF o] Cons.prems(2) by (simp_all add: y_def D_def)
  have "wrap64 (x + y + scrap_owed line (snd (line_run line evs s')))
      = wrap64 (x + wrap64 (y + scrap_owed line (snd (line_run line evs s'))))"
    by (simp add: add.assoc)
  also have "\<dots> = wrap64 (wrap64 (x + scrap_owed line s') + D)"
    unfolding ih(2) by (simp add: add.assoc)
  also have "\<dots> = wrap64 (scrap_owed line s + (scrap_delta csv ev + D))"
    unfolding b by (simp add: add.assoc)
  finally show ?case using ih(1)
    by (simp add: split_beta x_def y_def D_def s'_def)
qed simp

text \<open>
  On a line with two different end machines and an infeed, over any run of
  contributions without a reset, what has been emitted as line scrap plus what is still owed
  (the accumulator minus \<open>___PREVIOUS\<close>) is the scrap owed at the start plus everything the
  first machine consumed minus everything the last machine processed, in 64-bit arithmetic:
  the one-per-second debounce delays scrap but never loses or duplicates it.
\<close>

theorem line_scrap_conserved:
  assumes "open_line line csv s" "csv ! 0 \<noteq> csv ! (length csv - 1)" "\<forall>ev\<in>set evs. \<not> p9_reset_line_scrap (fst ev)"
  shows "wrap64 (sum_list (map mt_value (line_defectives line (fst (line_run line evs s))))
      + scrap_owed line (snd (line_run line evs s)))
    = wrap64 (scrap_owed line s + sum_list (map (scrap_delta csv) evs))"
  using line_run_account [OF assms] by blast

definition demo_input :: "bool \<Rightarrow> int \<Rightarrow> int \<Rightarrow> phase9_input" where
  "demo_input infeed v ts =
     \<lparr>p9_msg = \<lparr>m_topic = ''E/S/A/L/U/Admin/ProdConsumedCount/1/Unit***TRIG'', m_payload = 0, m_timestamp = Some ts,
        m_tenant = [], m_cmd_trigger = True, m_timezone = [], m_add_metrics = Map.empty, m_counters_only = False,
        m_ideal_rate = Fin 0, m_no_speed_guard_fallback = True, m_reset_heal = True, m_counter_spike_margin = Fin 0,
        m_guard_rated_speed = Fin 0, m_uint16_counter = False\<rparr>,
      p9_timestamp = ts, p9_proc_incr = (if infeed then 0 else v), p9_cons_incr = (if infeed then v else 0),
      p9_cur_processed = 0, p9_cur_consumed = 0, p9_consumed_set = infeed, p9_processed_set = \<not> infeed,
      p9_prod_speed = Fin 0, p9_state_speed_this = True, p9_reset_line_scrap = False\<rparr>"

definition demo_line :: "string list \<Rightarrow> mem_state" where
  "demo_line csv = mem_set_int ''L/Admin/ProdDefectiveCount___HAS_INFEED'' 1
     (mem_set_strings ''L/Status/Parameter30700'' csv new_mem_state)"

lemma demo_line_facts:
  "ms_strings (demo_line csv) (''L'' @ ''/Status/Parameter30700'') = Some csv"
  "int0 (demo_line csv) (line_infeed_key ''L'') = 1" "int0 (demo_line csv) (line_def_key ''L'') = 0"
  "int0 (demo_line csv) (line_prev_key ''L'') = 0" "ms_times (demo_line csv) = Map.empty"
  by (simp_all add: demo_line_def line_keys mem_set_defs int0_def new_mem_state_def)

lemma line_scrap_conserved_witness:
  "wrap64 (sum_list (map mt_value (line_defectives ''L'' (fst (line_run ''L''
       [(demo_input True 10 1000, ''1''), (demo_input False 8 1500, ''2''), (demo_input True 5 2500, ''1'')]
       (demo_line [''1'', ''2''])))))
     + scrap_owed ''L'' (snd (line_run ''L''
       [(demo_input True 10 1000, ''1''), (demo_input False 8 1500, ''2''), (demo_input True 5 2500, ''1'')]
       (demo_line [''1'', ''2''])))) = 7"
proof -
  have o: "open_line ''L'' [''1'', ''2''] (demo_line [''1'', ''2''])"
    using demo_line_facts by (simp add: open_line_def)
  have "scrap_owed ''L'' (demo_line [''1'', ''2'']) = 0" by (simp add: scrap_owed_def demo_line_facts)
  then show ?thesis
    using line_scrap_conserved [OF o, of "[(demo_input True 10 1000, ''1''), (demo_input False 8 1500, ''2''),
       (demo_input True 5 2500, ''1'')]"]
    by (simp add: demo_input_def scrap_delta_def in64_def)
qed

section \<open>One emission per second\<close>

lemma line_times_step:
  "ms_times (snd (line_step line ev s)) (line_ts_key line) =
     (if line_defectives line (fst (line_step line ev s)) \<noteq> [] then Some (p9_timestamp (fst ev))
      else case ms_times s (line_ts_key line) of Some t \<Rightarrow> Some t
        | None \<Rightarrow> ms_times (snd (line_step line ev s)) (line_ts_key line))"
proof -
  obtain p i where ev: "ev = (p, i)" by (cases ev)
  have f: "line_defectives line (fst (phase9_first p s line)) = []" "line_defectives line (fst (phase9_last p s line h)) = []" for h
    by (simp_all add: phase9_first_def phase9_last_def line_defectives_def Let_def line_metric_def line_keys)
  have ft: "ms_times (apply_mutations (snd (phase9_first p s line)) t) = ms_times t"
    "ms_times (apply_mutations (snd (phase9_last p s line h)) t) = ms_times t" for t h
    by (simp_all add: phase9_first_def phase9_last_def Let_def)
  have d: "ms_times (apply_mutations (snd (phase9_defective p s line)) t) (line_ts_key line) =
     (if line_defectives line (fst (phase9_defective p s line)) \<noteq> [] then Some (p9_timestamp p)
      else case ms_times t (line_ts_key line) of Some t \<Rightarrow> Some t
        | None \<Rightarrow> ms_times (apply_mutations (snd (phase9_defective p s line)) t) (line_ts_key line))"
    if "ms_times t = ms_times s" for t
    using that by (auto simp: phase9_defective_def line_defectives_def line_metric_def Let_def split: option.split)
  show ?thesis
    using d by (auto simp: line_step_def ev phase9_candidate_def Let_def split_beta f ft split: option.split)
qed


definition later_second :: "metric \<Rightarrow> metric \<Rightarrow> bool" where
  "later_second a b \<longleftrightarrow> div64 (mt_timestamp a) 1000 < div64 (mt_timestamp b) 1000"

lemma line_defectives_step:
  obtains "line_defectives line (fst (line_step line ev s)) = []"
  | m t where "line_defectives line (fst (line_step line ev s)) = [m]" "mt_timestamp m = p9_timestamp (fst ev)"
      "ms_times s (line_ts_key line) = Some t" "div64 t 1000 < div64 (p9_timestamp (fst ev)) 1000"
proof -
  obtain p i where ev: "ev = (p, i)" by (cases ev)
  have f: "line_defectives line (fst (phase9_first p s line)) = []" "line_defectives line (fst (phase9_last p s line h)) = []" for h
    by (simp_all add: phase9_first_def phase9_last_def line_defectives_def Let_def line_metric_def line_keys)
  have sub: "line_defectives line (fst (line_step line ev s)) \<in> {[], line_defectives line (fst (phase9_defective p s line))}"
    by (auto simp: line_step_def ev phase9_candidate_def Let_def split_beta f split: option.split)
  have d: "line_defectives line (fst (phase9_defective p s line)) = [] \<or>
     (\<exists>m t. line_defectives line (fst (phase9_defective p s line)) = [m] \<and> mt_timestamp m = p9_timestamp p
        \<and> ms_times s (line_ts_key line) = Some t \<and> div64 t 1000 < div64 (p9_timestamp p) 1000)"
    by (simp add: phase9_defective_def line_defectives_def line_metric_def Let_def split: option.split)
  from sub d that show ?thesis by (auto simp: ev)
qed

lemma line_run_seconds:
  "sorted_wrt later_second (line_defectives line (fst (line_run line evs s))) \<and>
   (\<forall>m\<in>set (line_defectives line (fst (line_run line evs s))). \<forall>t.
      ms_times s (line_ts_key line) = Some t \<longrightarrow> div64 t 1000 < div64 (mt_timestamp m) 1000)"
proof (induction evs arbitrary: s)
  case (Cons ev evs)
  define s' where "s' = snd (line_step line ev s)"
  have run: "line_defectives line (fst (line_run line (ev # evs) s)) =
      line_defectives line (fst (line_step line ev s)) @ line_defectives line (fst (line_run line evs s'))"
    by (simp add: split_beta s'_def)
  note ih = Cons.IH [of s']
  note tm = line_times_step [of line ev s, folded s'_def]
  show ?case
  proof (rule line_defectives_step [of line ev s])
    assume e: "line_defectives line (fst (line_step line ev s)) = []"
    then have "ms_times s (line_ts_key line) = Some t \<Longrightarrow> ms_times s' (line_ts_key line) = Some t" for t
      using tm by simp
    with ih show ?thesis unfolding run by (simp add: e)
  next
    fix m t
    assume e: "line_defectives line (fst (line_step line ev s)) = [m]" "mt_timestamp m = p9_timestamp (fst ev)"
      "ms_times s (line_ts_key line) = Some t" "div64 t 1000 < div64 (p9_timestamp (fst ev)) 1000"
    then have "ms_times s' (line_ts_key line) = Some (mt_timestamp m)" using tm by simp
    with ih e show ?thesis unfolding run by (fastforce simp: later_second_def)
  qed
qed simp

text \<open>
  Over any run of contributions to a line, whatever the machine order and the
  timestamps, the emitted line scrap metrics are at most one per wall-clock second, in
  strictly increasing seconds, so no two of them can overwrite each other in a store keyed by
  the second; and none is dated at or before the last one emitted earlier.
\<close>

theorem line_scrap_one_per_second:
  "sorted_wrt later_second (line_defectives line (fst (line_run line evs s))) \<and>
   (case ms_times s (line_ts_key line) of None \<Rightarrow> True | Some t \<Rightarrow>
      list_all (\<lambda>m. div64 t 1000 < div64 (mt_timestamp m) 1000) (line_defectives line (fst (line_run line evs s))))"
  using line_run_seconds [of line evs s] by (auto simp: list_all_iff split: option.split)

section \<open>Two lost writes\<close>

text \<open>
  On a line with a single machine (it is first and last), a contribution that carries
  both increments moves the accumulator only by the Processed one: both writes are computed
  from the same old value, the second overwrites the first and the Consumed increment is lost.
\<close>

theorem single_machine_line_loses_consumed:
  assumes "open_line line [i] s" "p9_consumed_set p" "p9_processed_set p" "\<not> p9_reset_line_scrap p"
  shows "int0 (snd (line_step line (p, i) s)) (line_def_key line) = sub64 (int0 s (line_def_key line)) (p9_proc_incr p)"
proof -
  have c: "end_first [i] (p, i)" "end_last [i] (p, i)" using assms by (simp_all add: end_first_def end_last_def)
  have "int0 (apply_mutations (snd (phase9_first p s line)) s) k = (if k = line_def_key line
      then add64 (int0 s (line_def_key line)) (p9_cons_incr p) else int0 s k)" for k
    using assms(1) by (simp add: phase9_first_def Let_def open_line_def)
  then show ?thesis
    using candidate_open [OF assms(1,4), of i] c
    by (simp add: line_step_def Let_def phase9_last_def phase9_defective_state)
qed

definition demo_both :: phase9_input where
  "demo_both = (demo_input True 10 5000)\<lparr>p9_proc_incr := 10, p9_processed_set := True\<rparr>"

lemma single_machine_line_loses_consumed_witness:
  "int0 (snd (line_step ''L'' (demo_both, ''1'') (demo_line [''1'']))) (line_def_key ''L'') = - 10"
proof -
  have "open_line ''L'' [''1''] (demo_line [''1''])" using demo_line_facts by (simp add: open_line_def)
  then show ?thesis
    using single_machine_line_loses_consumed [of "''L''" "''1''" "demo_line [''1'']" demo_both] demo_line_facts
    by (simp add: demo_both_def demo_input_def sub64_def in64_def)
qed

text \<open>
  A genuine reset that arrives with a contribution of the first machine does not restart
  the line account: the reset writes 0, but the contribution is added to the value read
  before the reset, and that later write is the one that stays.
\<close>

theorem line_reset_overwritten:
  assumes "open_line line csv s" "csv ! 0 \<noteq> csv ! (length csv - 1)" "p9_reset_line_scrap p" "p9_consumed_set p"
    "p9_cons_incr p \<noteq> 0"
  shows "int0 (snd (line_step line (p, csv ! 0) s)) (line_def_key line)
    = add64 (int0 s (line_def_key line)) (p9_cons_incr p)"
proof -
  define t where "t = mem_set_int (line_prev_key line) 0 (mem_set_int (line_def_key line) 0 s)"
  have f: "int0 (apply_mutations (snd (phase9_first p s line)) t) (line_def_key line)
      = add64 (int0 s (line_def_key line)) (p9_cons_incr p)"
    by (simp add: phase9_first_def Let_def)
  show ?thesis
    using assms f
    by (simp add: line_step_def phase9_candidate_def open_line_def Let_def split_beta phase9_defective_state t_def)
qed

lemma line_reset_overwritten_witness:
  "int0 (snd (line_step ''L'' ((demo_input True 10 5000)\<lparr>p9_reset_line_scrap := True\<rparr>, ''1'')
     (mem_set_int (line_def_key ''L'') 70 (demo_line [''1'', ''2''])))) (line_def_key ''L'') = 80"
proof -
  have "open_line ''L'' [''1'', ''2''] (mem_set_int (line_def_key ''L'') 70 (demo_line [''1'', ''2'']))"
    using demo_line_facts by (simp add: open_line_def)
  then show ?thesis
    using line_reset_overwritten [of "''L''" "[''1'', ''2'']" "mem_set_int (line_def_key ''L'') 70 (demo_line [''1'', ''2''])"
      "(demo_input True 10 5000)\<lparr>p9_reset_line_scrap := True\<rparr>"]
    by (simp add: demo_input_def add64_def in64_def)
qed

end
