(* ===== verification/StreamMetric.thy ===== *)
theory StreamMetric
  imports GoFormat AgentTags
begin

text \<open>
  The messages the stream engine consumes (services/stream-engine/internal/sparkplug/parse.go):
  the envelope and its metrics as decoded from JSON, the lenient number fields, and what a
  metric's topic says about it. A field kept as raw JSON is represented by the value it parses
  to (\<open>json\<close>), \<open>faults\<close> by its text. Also here: the timestamp fallback and the tenant label of
  handlers/sparkplug.go.
\<close>

section \<open>Decimal floats\<close>

text \<open>
  \<open>strconv.ParseFloat(s, 64)\<close>: an optional sign, digits with at most one point, an optional
  exponent, or a name of infinity or NaN; \<open>None\<close> is a syntax or range error. The hexadecimal
  form and underscores between digits are left out.
\<close>

fun span_digits :: "string \<Rightarrow> string \<times> string" where
  "span_digits [] = ([], [])"
| "span_digits (c # cs) = (if digit_val c = None then ([], c # cs)
     else case span_digits cs of (ds, rest) \<Rightarrow> (c # ds, rest))"

definition signed_part :: "string \<Rightarrow> bool \<times> string" where
  "signed_part s = (has_prefix ''-'' s, if has_prefix ''-'' s \<or> has_prefix ''+'' s then drop 1 s else s)"

definition exponent_part :: "string \<Rightarrow> int option" where
  "exponent_part s =
     (case s of [] \<Rightarrow> Some 0
      | c # cs \<Rightarrow> if lower_char c \<noteq> CHR ''e'' then None
          else case signed_part cs of (neg, ds) \<Rightarrow>
            if ds = [] then None else map_option (\<lambda>n. if neg then - n else n) (digits_val 0 ds))"

definition scale10 :: "int \<Rightarrow> int \<Rightarrow> rat" where
  "scale10 m e = (if 0 \<le> e then of_int m * 10 ^ nat e else of_int m / 10 ^ nat (- e))"

definition parse_float :: "string \<Rightarrow> f64 option" where
  "parse_float s =
     (case signed_part s of (neg, body) \<Rightarrow>
      if to_lower body \<in> {''inf'', ''infinity''} then Some (if neg then NInf else PInf)
      else if to_lower s = ''nan'' then Some NaN
      else case span_digits body of (ip, rest) \<Rightarrow>
        (case (if has_prefix ''.'' rest then span_digits (drop 1 rest) else ([], rest)) of (fp, rest') \<Rightarrow>
         if ip = [] \<and> fp = [] then None
         else case (digits_val 0 (ip @ fp), exponent_part rest') of
           (Some m, Some e) \<Rightarrow>
             (case round64 (scale10 (if neg then - m else m) (e - int (length fp))) of
                Fin r \<Rightarrow> Some (Fin r) | _ \<Rightarrow> None)
         | _ \<Rightarrow> None))"

section \<open>Lenient numbers\<close>

text \<open>
  A pointer field of type \<open>jsonFloat\<close>: \<open>null\<close> and an absent field leave it nil, an empty string
  leaves zero, a number or a quoted number is taken, anything else fails the whole payload
  (\<open>None\<close>).
\<close>

definition json_float :: "json \<Rightarrow> f64 option option" where
  "json_float j = (case j of JAbsent \<Rightarrow> Some None | JNull \<Rightarrow> Some None | JNum f \<Rightarrow> Some (Some f)
     | JStr s \<Rightarrow> (if s = [] then Some (Some (Fin 0)) else map_option Some (parse_float s))
     | JBool _ \<Rightarrow> None | JCompound \<Rightarrow> None)"

definition json_int :: "json \<Rightarrow> int option option" where
  "json_int j = map_option (map_option to_int64) (json_float j)"

text \<open>
  \<open>parseNumericValue\<close>: a number, a quoted number, or \<open>null\<close>, which \<open>json.Unmarshal\<close> accepts
  for a \<open>float64\<close> and leaves at zero.
\<close>

definition parse_numeric_value :: "json \<Rightarrow> f64 option" where
  "parse_numeric_value j = (case j of JNum f \<Rightarrow> Some f | JNull \<Rightarrow> Some (Fin 0)
     | JStr s \<Rightarrow> parse_float (trim_space s) | _ \<Rightarrow> None)"

text \<open>\<open>json.Unmarshal(raw, &f)\<close> for a \<open>float64\<close>.\<close>

definition unmarshal_float :: "json \<Rightarrow> f64 option" where
  "unmarshal_float j = (case j of JNum f \<Rightarrow> Some f | JNull \<Rightarrow> Some (Fin 0) | _ \<Rightarrow> None)"

section \<open>Envelopes\<close>

datatype metric_kind = SkUnknown | SkProcessed | SkConsumed | SkDefective | SkState | SkMode | SkCurSpeed | SkParameter

fun metric_kind_name :: "metric_kind \<Rightarrow> string" where
  "metric_kind_name SkProcessed = ''ProdProcessedCount''"
| "metric_kind_name SkConsumed = ''ProdConsumedCount''"
| "metric_kind_name SkDefective = ''ProdDefectiveCount''"
| "metric_kind_name SkState = ''StateCurrent''"
| "metric_kind_name SkMode = ''UnitModeCurrent''"
| "metric_kind_name SkCurSpeed = ''CurMachSpeed''"
| "metric_kind_name SkParameter = ''Parameter''"
| "metric_kind_name SkUnknown = ''Unknown''"

record equipment_info =
  ei_enterprise :: int
  ei_site :: int
  ei_area :: int
  ei_equipment :: int
  ei_signal_quality :: "int option"
  ei_day_begin :: "int option"
  ei_status_type :: int
  ei_production_speed :: "int option"

record stream_metric =
  sm_name :: string
  sm_timestamp :: int
  sm_value :: json
  sm_counter :: "f64 option"
  sm_curspeed :: "f64 option"
  sm_alias :: json
  sm_faults :: "string option"
  sm_id :: "int option"
  sm_id_equipment :: "int option"
  sm_role :: string
  sm_bound :: "equipment_info option"
  sm_quarantined :: bool

record stream_payload =
  sp_timestamp :: int
  sp_gateway :: string
  sp_metrics :: "stream_metric list"
  sp_source_type :: string
  sp_id_enterprise :: "int option"

definition stamped_equipment :: "stream_metric \<Rightarrow> int option" where
  "stamped_equipment m = (case sm_id_equipment m of None \<Rightarrow> None | Some n \<Rightarrow> if n \<le> 0 then None else Some n)"

definition stamped_enterprise :: "stream_payload \<Rightarrow> int option" where
  "stamped_enterprise p = (case sp_id_enterprise p of None \<Rightarrow> None | Some n \<Rightarrow> if n \<le> 0 then None else Some n)"

section \<open>Topics\<close>

definition topic_parts :: "stream_metric \<Rightarrow> string list" where
  "topic_parts m = split_on (CHR ''/'') (sm_name m)"

text \<open>The scan of \<open>Classify\<close> over the segments, last one first.\<close>

fun classify_parts :: "int option \<Rightarrow> string list \<Rightarrow> metric_kind" where
  "classify_parts i [] = SkUnknown"
| "classify_parts i (p # ps) =
     (if p = ''StateCurrent'' then SkState
      else if p = ''UnitModeCurrent'' then SkMode
      else if p = ''CurMachSpeed'' then SkCurSpeed
      else if p = ''ProdProcessedCount'' then SkProcessed
      else if p = ''ProdConsumedCount'' then SkConsumed
      else if p = ''ProdDefectiveCount'' then SkDefective
      else if p = ''Parameter'' \<and> (case i of None \<Rightarrow> False | Some n \<Rightarrow> 30700 \<le> n \<and> n \<le> 30899) then SkParameter
      else classify_parts i ps)"

definition stream_classify :: "stream_metric \<Rightarrow> metric_kind" where
  "stream_classify m = classify_parts (sm_id m) (rev (topic_parts m))"

definition proc_segment :: "string \<Rightarrow> bool" where
  "proc_segment s \<longleftrightarrow> to_lower s \<in> {''admin'', ''status'', ''command''}"

definition canonical_topic :: "stream_metric \<Rightarrow> string" where
  "canonical_topic m = join_with ''/'' (take 5 (topic_parts m))"

definition topic_for_register :: "stream_metric \<Rightarrow> string" where
  "topic_for_register m =
     (let ps = topic_parts m
      in if 5 \<le> length ps \<and> proc_segment (ps ! 4) then join_with ''/'' (take 4 ps) else join_with ''/'' (take 5 ps))"

definition is_line_topic :: "stream_metric \<Rightarrow> bool" where
  "is_line_topic m = (let ps = topic_parts m in length ps < 5 \<or> proc_segment (ps ! 4))"

section \<open>Timestamps and tenants\<close>

definition min_plausible_ts :: int where
  "min_plausible_ts = 1420070400000"

definition normalize_timestamp :: "int \<Rightarrow> int \<Rightarrow> stream_metric \<Rightarrow> stream_metric" where
  "normalize_timestamp pts now m =
     (let m1 = (if sm_timestamp m < min_plausible_ts then m\<lparr>sm_timestamp := pts\<rparr> else m)
      in if sm_timestamp m1 < min_plausible_ts then m1\<lparr>sm_timestamp := now\<rparr> else m1)"

definition normalize_timestamps :: "int \<Rightarrow> stream_payload \<Rightarrow> stream_payload" where
  "normalize_timestamps now p =
     p\<lparr>sp_metrics := map (normalize_timestamp (sp_timestamp p) now) (sp_metrics p)\<rparr>"

text \<open>\<open>tenantFromTopic\<close>, and \<open>tenantOf\<close> for the first named metric.\<close>

definition tenant_from_topic :: "string \<Rightarrow> string" where
  "tenant_from_topic n =
     (case str_index ''/'' n of
        Some (Suc i) \<Rightarrow> to_lower (take (Suc i) n)
      | _ \<Rightarrow> if n \<noteq> [] then to_lower n else ''unknown'')"

definition tenant_of :: "stream_payload \<Rightarrow> string" where
  "tenant_of p = (case filter (\<lambda>m. sm_name m \<noteq> []) (sp_metrics p) of
     [] \<Rightarrow> ''unknown'' | m # _ \<Rightarrow> tenant_from_topic (sm_name m))"

section \<open>Facts\<close>

lemma sm_name_normalize [simp]: "sm_name (normalize_timestamp p n m) = sm_name m"
  and sm_id_normalize [simp]: "sm_id (normalize_timestamp p n m) = sm_id m"
  by (simp_all add: normalize_timestamp_def Let_def)

lemma topic_parts_normalize [simp]: "topic_parts (normalize_timestamp p n m) = topic_parts m"
  by (simp add: topic_parts_def)

lemma classify_normalize [simp]: "stream_classify (normalize_timestamp p n m) = stream_classify m"
  by (simp add: stream_classify_def)

text \<open>No metric keeps a timestamp before 2015 once the clock itself is past it.\<close>

lemma normalize_plausible: "min_plausible_ts \<le> now \<Longrightarrow> min_plausible_ts \<le> sm_timestamp (normalize_timestamp p now m)"
  by (simp add: normalize_timestamp_def Let_def)

lemma normalize_keeps: "min_plausible_ts \<le> sm_timestamp m \<Longrightarrow> normalize_timestamp p now m = m"
  by (simp add: normalize_timestamp_def Let_def)

text \<open>The register key never contains the processing segment of a line metric.\<close>

lemma topic_for_register_line:
  "is_line_topic m \<Longrightarrow> 5 \<le> length (topic_parts m) \<Longrightarrow>
     topic_for_register m = join_with ''/'' (take 4 (topic_parts m))"
  by (simp add: topic_for_register_def is_line_topic_def Let_def)

lemma topic_for_register_unit:
  "\<not> is_line_topic m \<Longrightarrow> topic_for_register m = canonical_topic m"
  by (simp add: topic_for_register_def is_line_topic_def canonical_topic_def Let_def)

end
