(* ===== verification/StreamClamp.thy ===== *)
theory StreamClamp
  imports FloatMono StreamMetric
begin

text \<open>
  The production-increment sanity clamp (stream-engine/internal/writers/increment_clamp.go):
  per stream (equipment and counter kind) the time of the last sample and the last totalizer,
  and the three tests an increment has to pass. \<open>clamp_verdict\<close> is the decision of \<open>eval\<close>
  once the memories have been read; \<open>clamp_eval\<close> reads and advances them. The mutex makes
  every method one step.
\<close>

section \<open>State\<close>

record clamp_cfg =
  cc_k :: f64
  cc_min_dt_ms :: int
  cc_spike_floor :: f64
  cc_spike_fraction :: f64

type_synonym clamp_key = "int \<times> metric_kind"

record clamp_state =
  cl_last :: "clamp_key \<Rightarrow> int option"
  cl_abs :: "clamp_key \<Rightarrow> f64 option"
  cl_seeded :: "clamp_key \<Rightarrow> bool"

record clamp_event =
  ce_enterprise :: int
  ce_equipment :: int
  ce_kind :: metric_kind
  ce_bucket :: int
  ce_observed :: f64
  ce_bound :: f64
  ce_replacement :: f64

definition new_clamp_state :: clamp_state where
  "new_clamp_state = \<lparr>cl_last = Map.empty, cl_abs = Map.empty, cl_seeded = (\<lambda>_. False)\<rparr>"

text \<open>\<open>SetIncrementClamp\<close>: the defaults of unset fields; \<open>minDt\<close> is held in nanoseconds.\<close>

definition set_increment_clamp :: "bool \<Rightarrow> f64 \<Rightarrow> int \<Rightarrow> f64 \<Rightarrow> f64 \<Rightarrow> clamp_cfg option" where
  "set_increment_clamp enabled k min_dt_sec spike_floor spike_fraction =
     (if \<not> enabled then None
      else Some \<lparr>cc_k = (if fle k (Fin 0) then Fin 4 else k),
        cc_min_dt_ms = div64 (mul64 (if min_dt_sec \<le> 0 then 60 else min_dt_sec) 1000000000) 1000000,
        cc_spike_floor = (if fle spike_floor (Fin 0) then Fin 1000 else spike_floor),
        cc_spike_fraction = (if fle spike_fraction (Fin 0) \<or> flt (Fin 1) spike_fraction then Fin (1 / 2)
                             else spike_fraction)\<rparr>)"

definition observe :: "clamp_key \<Rightarrow> int \<Rightarrow> clamp_state \<Rightarrow> int option \<times> clamp_state" where
  "observe key ts st =
     (cl_last st key,
      case cl_last st key of
        None \<Rightarrow> st\<lparr>cl_last := (cl_last st)(key \<mapsto> ts)\<rparr>
      | Some prev \<Rightarrow> if prev < ts then st\<lparr>cl_last := (cl_last st)(key \<mapsto> ts)\<rparr> else st)"

definition swap_abs :: "clamp_key \<Rightarrow> f64 \<Rightarrow> clamp_state \<Rightarrow> f64 option \<times> clamp_state" where
  "swap_abs key absolute st =
     (cl_abs st key, if flt (Fin 0) absolute then st\<lparr>cl_abs := (cl_abs st)(key \<mapsto> absolute)\<rparr> else st)"

definition needs_seed :: "int \<Rightarrow> metric_kind \<Rightarrow> clamp_state \<Rightarrow> bool \<times> clamp_state" where
  "needs_seed eq kind st =
     (if cl_abs st (eq, kind) \<noteq> None then (False, st)
      else if cl_seeded st (eq, kind) then (False, st)
      else (True, st\<lparr>cl_seeded := (cl_seeded st)((eq, kind) := True)\<rparr>))"

definition seed_abs :: "int \<Rightarrow> metric_kind \<Rightarrow> f64 \<Rightarrow> clamp_state \<Rightarrow> clamp_state" where
  "seed_abs eq kind v st =
     (if fle v (Fin 0) then st
      else if cl_abs st (eq, kind) = None then st\<lparr>cl_abs := (cl_abs st)((eq, kind) \<mapsto> v)\<rparr> else st)"

section \<open>The decision\<close>

definition floored_dt :: "clamp_cfg \<Rightarrow> int \<Rightarrow> int \<Rightarrow> int" where
  "floored_dt cfg last_ts ts = (let dt = sub64 ts last_ts in if dt < cc_min_dt_ms cfg then cc_min_dt_ms cfg else dt)"

definition rate_bound :: "clamp_cfg \<Rightarrow> f64 \<Rightarrow> int \<Rightarrow> int \<Rightarrow> f64" where
  "rate_bound cfg rate last_ts ts =
     fmul (fmul (cc_k cfg) rate) (fdiv (of_int64 (floored_dt cfg last_ts ts)) (Fin 60000))"

definition is_spike :: "clamp_cfg \<Rightarrow> f64 \<Rightarrow> f64 \<Rightarrow> bool" where
  "is_spike cfg absolute v \<longleftrightarrow> flt (Fin 0) (cc_spike_floor cfg) \<and> fle (cc_spike_floor cfg) absolute
     \<and> fle (fmul absolute (cc_spike_fraction cfg)) v"

definition totalizer_delta :: "clamp_cfg \<Rightarrow> f64 option \<Rightarrow> f64 \<Rightarrow> f64 \<Rightarrow> f64 \<Rightarrow> int option \<Rightarrow> int \<Rightarrow> f64" where
  "totalizer_delta cfg prev absolute rejected rate last_ts ts =
     (case prev of
        None \<Rightarrow> Fin 0
      | Some p \<Rightarrow>
        if fle absolute (Fin 0) then Fin 0
        else let d = fsub absolute p in
          if fle d (Fin 0) \<or> fle rejected d then Fin 0
          else if is_spike cfg absolute d then Fin 0
          else case last_ts of
            Some l \<Rightarrow> if flt (Fin 0) rate \<and> l < ts \<and> flt (rate_bound cfg rate l ts) d then Fin 0 else d
          | None \<Rightarrow> d)"

definition unbacked_floor :: f64 where
  "unbacked_floor = Fin 100"

text \<open>The counter-movement test: what the totalizer moved, if the increment is not backed by it.\<close>

definition unbacked_movement :: "f64 option \<Rightarrow> f64 \<Rightarrow> f64 \<Rightarrow> f64 option" where
  "unbacked_movement prev absolute inc =
     (case prev of
        None \<Rightarrow> None
      | Some p \<Rightarrow>
        if flt (Fin 0) absolute \<and> fle p absolute then
          (let d = fsub absolute p; unbacked = fsub inc d
           in if fle unbacked_floor unbacked \<and> flt inc (fmul unbacked (Fin 2)) then Some d else None)
        else None)"

definition clamp_verdict :: "clamp_cfg \<Rightarrow> int \<Rightarrow> int \<Rightarrow> metric_kind \<Rightarrow> int \<Rightarrow> f64 \<Rightarrow> f64 \<Rightarrow> f64
    \<Rightarrow> int option \<Rightarrow> f64 option \<Rightarrow> f64 \<times> clamp_event option" where
  "clamp_verdict cfg eq ent kind ts rate inc absolute last_ts prev =
     (let reject = (\<lambda>bound repl. (repl, Some \<lparr>ce_enterprise = ent, ce_equipment = eq, ce_kind = kind,
            ce_bucket = ts div 1000, ce_observed = inc, ce_bound = bound, ce_replacement = repl\<rparr>));
          repl = totalizer_delta cfg prev absolute inc rate last_ts ts
      in if fle inc (Fin 0) then (inc, None)
         else if is_spike cfg absolute inc then reject (cc_spike_floor cfg) repl
         else case unbacked_movement prev absolute inc of
           Some d \<Rightarrow> reject (fadd d unbacked_floor) d
         | None \<Rightarrow>
           if fle rate (Fin 0) then (inc, None)
           else case last_ts of
             None \<Rightarrow> (inc, None)
           | Some l \<Rightarrow>
             if sub64 ts l \<le> 0 then (inc, None)
             else if fle inc (rate_bound cfg rate l ts) then (inc, None)
             else reject (rate_bound cfg rate l ts) repl)"

definition clamp_eval :: "clamp_cfg \<Rightarrow> int \<Rightarrow> int \<Rightarrow> metric_kind \<Rightarrow> int \<Rightarrow> f64 \<Rightarrow> f64 \<Rightarrow> f64
    \<Rightarrow> clamp_state \<Rightarrow> (f64 \<times> clamp_event option) \<times> clamp_state" where
  "clamp_eval cfg eq ent kind ts rate inc absolute st =
     (case observe (eq, kind) ts st of (last_ts, st1) \<Rightarrow>
      case swap_abs (eq, kind) absolute st1 of (prev, st2) \<Rightarrow>
        (clamp_verdict cfg eq ent kind ts rate inc absolute last_ts prev, st2))"

text \<open>The derived speed: whether it is voided, and the bound it exceeded.\<close>

definition eval_speed :: "clamp_cfg \<Rightarrow> bool \<Rightarrow> f64 \<Rightarrow> f64 \<Rightarrow> bool \<times> f64" where
  "eval_speed cfg count_clamped rate speed =
     (if count_clamped then (True, Fin 0)
      else if fle rate (Fin 0) \<or> fle speed (Fin 0) then (False, Fin 0)
      else if flt (fmul (cc_k cfg) rate) speed then (True, fmul (cc_k cfg) rate) else (False, Fin 0))"

end
