(* ===== verification/StreamResolver.thy ===== *)
theory StreamResolver
  imports StreamMetric "HOL-Library.AList"
begin

text \<open>
  How the stream engine finds the equipment a metric belongs to (internal/sparkplug/resolver.go
  and birthbound.go): the lookup of a topic in \<open>packml_register\<close>, the lookup by the id the
  decoder stamped, the bounded cache in front of both, and the pre-pass that decides, for the
  tenants switched to birth-bound routing, which of the two a metric uses. The two SELECT
  statements are functions over the reference tables; \<open>LIMIT 1\<close> takes the first row of the
  list. Whether the database answers is an argument.
\<close>

section \<open>Reference tables\<close>

record register_row =
  rr_topic :: string
  rr_active :: bool
  rr_enterprise :: int
  rr_site :: int
  rr_area :: int
  rr_equipment :: int
  rr_signal_quality :: "int option"

record equipment_row =
  eq_id :: int
  eq_active :: bool
  eq_enterprise :: int
  eq_site :: int
  eq_area :: int
  eq_status_type :: "int option"
  eq_production_speed :: "int option"

record ref_db =
  rd_register :: "register_row list"
  rd_equipments :: "equipment_row list"
  rd_areas :: "int \<Rightarrow> int option option"

definition equipment_of :: "ref_db \<Rightarrow> int \<Rightarrow> equipment_row option" where
  "equipment_of db n = List.find (\<lambda>e. eq_id e = n) (rd_equipments db)"

text \<open>\<open>query\<close>: an active register row whose area exists, joined with its equipment if any.\<close>

definition query_topic :: "ref_db \<Rightarrow> string \<Rightarrow> equipment_info option" where
  "query_topic db topic =
     map_option (\<lambda>r. \<lparr>ei_enterprise = rr_enterprise r, ei_site = rr_site r, ei_area = rr_area r,
         ei_equipment = rr_equipment r, ei_signal_quality = rr_signal_quality r,
         ei_day_begin = get_or None (rd_areas db (rr_area r)),
         ei_status_type = (case equipment_of db (rr_equipment r) of None \<Rightarrow> 0 | Some e \<Rightarrow> get_or 0 (eq_status_type e)),
         ei_production_speed = (case equipment_of db (rr_equipment r) of None \<Rightarrow> None | Some e \<Rightarrow> eq_production_speed e)\<rparr>)
       (List.find (\<lambda>r. rr_topic r = topic \<and> rr_active r \<and> rd_areas db (rr_area r) \<noteq> None) (rd_register db))"

text \<open>The statement of \<open>ResolveByID\<close>: an active equipment whose area exists.\<close>

definition query_by_id :: "ref_db \<Rightarrow> int \<Rightarrow> equipment_info option" where
  "query_by_id db n =
     map_option (\<lambda>e. \<lparr>ei_enterprise = eq_enterprise e, ei_site = eq_site e, ei_area = eq_area e,
         ei_equipment = eq_id e,
         ei_signal_quality = (case List.find (\<lambda>r. rr_equipment r = eq_id e \<and> rr_active r) (rd_register db) of
            None \<Rightarrow> None | Some r \<Rightarrow> rr_signal_quality r),
         ei_day_begin = get_or None (rd_areas db (eq_area e)),
         ei_status_type = get_or 0 (eq_status_type e), ei_production_speed = eq_production_speed e\<rparr>)
       (List.find (\<lambda>e. eq_id e = n \<and> eq_active e \<and> rd_areas db (eq_area e) \<noteq> None) (rd_equipments db))"

section \<open>The cache\<close>

record cache_entry =
  ca_info :: "equipment_info option"
  ca_expires :: int

record resolver_state =
  rs_cache :: "(string \<times> cache_entry) list"
  rs_ttl :: int
  rs_neg_ttl :: int
  rs_max :: int

definition new_stream_resolver :: "int \<Rightarrow> int \<Rightarrow> resolver_state" where
  "new_stream_resolver ttl neg_ttl = \<lparr>rs_cache = [], rs_ttl = ttl, rs_neg_ttl = neg_ttl, rs_max = 10000\<rparr>"

text \<open>The shared body of \<open>Resolve\<close> and \<open>ResolveByID\<close>: \<open>answer\<close> is the database's, \<open>None\<close> an error.\<close>

definition cached_lookup :: "int \<Rightarrow> string \<Rightarrow> equipment_info option option \<Rightarrow> resolver_state
    \<Rightarrow> equipment_info option option \<times> resolver_state" where
  "cached_lookup now key answer r =
     (let ask = (case answer of
          None \<Rightarrow> (None, r)
        | Some info \<Rightarrow>
          (Some info, r\<lparr>rs_cache := AList.update key \<lparr>ca_info = info,
               ca_expires = now + (if info = None then rs_neg_ttl r else rs_ttl r)\<rparr>
             (if rs_max r \<le> int (length (rs_cache r)) then [] else rs_cache r)\<rparr>))
      in case map_of (rs_cache r) key of
        Some e \<Rightarrow> if now < ca_expires e then (Some (ca_info e), r) else ask
      | None \<Rightarrow> ask)"

definition stream_resolve :: "int \<Rightarrow> bool \<Rightarrow> ref_db \<Rightarrow> string \<Rightarrow> resolver_state \<Rightarrow> equipment_info option option \<times> resolver_state" where
  "stream_resolve now db_ok db topic r =
     cached_lookup now topic (if db_ok then Some (query_topic db topic) else None) r"

definition resolve_by_id :: "int \<Rightarrow> bool \<Rightarrow> ref_db \<Rightarrow> int \<Rightarrow> resolver_state \<Rightarrow> equipment_info option option \<times> resolver_state" where
  "resolve_by_id now db_ok db n r =
     cached_lookup now (''id:'' @ itoa n) (if db_ok then Some (query_by_id db n) else None) r"

section \<open>Birth-bound routing\<close>

text \<open>
  \<open>lookup\<close> and \<open>by_id\<close> are the two lookups as this delivery sees them, \<open>None\<close> a database error.
\<close>

type_synonym topic_lookup = "string \<Rightarrow> equipment_info option option"
type_synonym id_lookup = "int \<Rightarrow> equipment_info option option"

fun is_bindable :: "metric_kind \<Rightarrow> bool" where
  "is_bindable SkConsumed = True" | "is_bindable SkProcessed = True" | "is_bindable SkDefective = True"
| "is_bindable SkState = True" | "is_bindable SkMode = True" | "is_bindable SkCurSpeed = True"
| "is_bindable SkUnknown = False" | "is_bindable SkParameter = False"

text \<open>One iteration of \<open>ApplyBirthBound\<close>.\<close>

definition bind_stream_metric :: "topic_lookup \<Rightarrow> id_lookup \<Rightarrow> (int \<Rightarrow> bool) \<Rightarrow> int option \<Rightarrow> stream_metric \<Rightarrow> stream_metric option" where
  "bind_stream_metric lookup by_id switched ent m =
     (if \<not> is_bindable (stream_classify m) then Some m
      else case (stamped_equipment m, ent) of
        (Some n, Some e) \<Rightarrow>
          if \<not> switched e then Some m
          else (case by_id n of
              None \<Rightarrow> None
            | Some None \<Rightarrow> Some (m\<lparr>sm_quarantined := True\<rparr>)
            | Some (Some info) \<Rightarrow>
                if ei_enterprise info \<noteq> e then Some (m\<lparr>sm_quarantined := True\<rparr>)
                else Some (m\<lparr>sm_bound := Some info\<rparr>))
      | _ \<Rightarrow> (case lookup (topic_for_register m) of
              None \<Rightarrow> None
            | Some None \<Rightarrow> Some m
            | Some (Some info) \<Rightarrow>
                if switched (ei_enterprise info) then Some (m\<lparr>sm_quarantined := True\<rparr>) else Some m))"

fun bind_stream_metrics :: "topic_lookup \<Rightarrow> id_lookup \<Rightarrow> (int \<Rightarrow> bool) \<Rightarrow> int option \<Rightarrow> stream_metric list \<Rightarrow> stream_metric list option" where
  "bind_stream_metrics lookup by_id switched ent [] = Some []"
| "bind_stream_metrics lookup by_id switched ent (m # ms) =
     (case bind_stream_metric lookup by_id switched ent m of
        None \<Rightarrow> None
      | Some m' \<Rightarrow> map_option ((#) m') (bind_stream_metrics lookup by_id switched ent ms))"

text \<open>\<open>switched\<close> is a list as configured; an empty one is a no-op.\<close>

definition apply_birth_bound :: "topic_lookup \<Rightarrow> id_lookup \<Rightarrow> int list \<Rightarrow> stream_payload \<Rightarrow> stream_payload option" where
  "apply_birth_bound lookup by_id switched p =
     (if switched = [] then Some p
      else map_option (\<lambda>ms. p\<lparr>sp_metrics := ms\<rparr>)
        (bind_stream_metrics lookup by_id (\<lambda>e. e \<in> set switched) (stamped_enterprise p) (sp_metrics p)))"

text \<open>\<open>ResolveMetric\<close>: what the writers call.\<close>

definition stream_resolve_metric :: "topic_lookup \<Rightarrow> stream_metric \<Rightarrow> equipment_info option option" where
  "stream_resolve_metric lookup m =
     (if sm_quarantined m then Some None
      else case sm_bound m of Some info \<Rightarrow> Some (Some info) | None \<Rightarrow> lookup (topic_for_register m))"

section \<open>The cache is transparent\<close>

text \<open>Every entry repeats an answer of the tables \<open>db\<close>, and the size is within the cap.\<close>

definition cache_ok :: "ref_db \<Rightarrow> resolver_state \<Rightarrow> bool" where
  "cache_ok db r \<longleftrightarrow> distinct (map fst (rs_cache r)) \<and> int (length (rs_cache r)) \<le> rs_max r
     \<and> (\<forall>key e. map_of (rs_cache r) key = Some e \<longrightarrow>
          (\<forall>n. key = ''id:'' @ itoa n \<longrightarrow> ca_info e = query_by_id db n)
          \<and> ((\<nexists>n. key = ''id:'' @ itoa n) \<longrightarrow> ca_info e = query_topic db key))"

lemma cached_lookup_result:
  "cached_lookup now key answer r = (res, r') \<Longrightarrow>
     (\<exists>e. map_of (rs_cache r) key = Some e \<and> res = Some (ca_info e) \<and> r' = r) \<or> res = answer"
  by (auto simp: cached_lookup_def Let_def split: option.splits if_splits)

lemma length_AList_update: "length (AList.update k v xs) \<le> Suc (length xs)"
  by (induction xs) auto

lemma cached_lookup_cases:
  assumes "cached_lookup now key answer r = (res, r')"
  obtains "r' = r" "\<And>x. res = Some x \<Longrightarrow> \<exists>e. map_of (rs_cache r) key = Some e \<and> x = ca_info e"
    | info xs t where "answer = Some info" "res = Some info"
        "r' = r\<lparr>rs_cache := AList.update key \<lparr>ca_info = info, ca_expires = t\<rparr> xs\<rparr>"
        "xs = [] \<or> xs = rs_cache r \<and> int (length xs) < rs_max r"
proof (cases answer)
  case None
  with assms that(1) show ?thesis
    by (cases "map_of (rs_cache r) key") (auto simp: cached_lookup_def Let_def split: if_splits)
next
  case (Some info)
  define xs where "xs = (if rs_max r \<le> int (length (rs_cache r)) then [] else rs_cache r)"
  define t where "t = now + (if info = None then rs_neg_ttl r else rs_ttl r)"
  have "cached_lookup now key answer r = (case map_of (rs_cache r) key of
      Some e \<Rightarrow> if now < ca_expires e then (Some (ca_info e), r)
        else (Some info, r\<lparr>rs_cache := AList.update key \<lparr>ca_info = info, ca_expires = t\<rparr> xs\<rparr>)
    | None \<Rightarrow> (Some info, r\<lparr>rs_cache := AList.update key \<lparr>ca_info = info, ca_expires = t\<rparr> xs\<rparr>))"
    by (simp only: cached_lookup_def Some Let_def option.case xs_def t_def)
  moreover have "xs = [] \<or> xs = rs_cache r \<and> int (length xs) < rs_max r" by (simp add: xs_def)
  ultimately show ?thesis using assms that(1) that(2) [OF Some, of t xs]
    by (cases "map_of (rs_cache r) key") (auto split: if_splits)
qed

lemma cached_lookup_ok:
  assumes "cached_lookup now key answer r = (res, r')" "cache_ok db r" "0 < rs_max r"
    and "\<And>info. answer = Some info \<Longrightarrow> (\<forall>n. key = ''id:'' @ itoa n \<longrightarrow> info = query_by_id db n)
           \<and> ((\<nexists>n. key = ''id:'' @ itoa n) \<longrightarrow> info = query_topic db key)"
  shows "cache_ok db r'"
  using assms(1)
proof (cases rule: cached_lookup_cases)
  case 1
  with assms(2) show ?thesis by simp
next
  case (2 info xs t)
  have xs: "distinct (map fst xs)" "map_of xs \<subseteq>\<^sub>m map_of (rs_cache r)"
    using 2(4) assms(2) by (auto simp: cache_ok_def map_le_def)
  have "int (length (AList.update key y xs)) \<le> rs_max r" for y
    using length_AList_update [of key y xs] 2(4) assms(3) by auto
  moreover have "(\<forall>n. k = ''id:'' @ itoa n \<longrightarrow> ca_info e = query_by_id db n)
      \<and> ((\<nexists>n. k = ''id:'' @ itoa n) \<longrightarrow> ca_info e = query_topic db k)"
    if "map_of (rs_cache r') k = Some e" for k e
  proof (cases "k = key")
    case True
    with that assms(4) [OF 2(1)] show ?thesis by (auto simp: 2(3) update_conv')
  next
    case False
    with that have "map_of xs k = Some e" by (simp add: 2(3) update_conv')
    then have "map_of (rs_cache r) k = Some e" using xs(2) by (force simp: map_le_def)
    with assms(2) show ?thesis unfolding cache_ok_def by blast
  qed
  ultimately show ?thesis using xs(1) unfolding cache_ok_def 2(3) by (simp add: distinct_update)
qed

lemma nat_digits_inj: "nat_digits m = nat_digits n \<Longrightarrow> m = n"
proof -
  assume eq: "nat_digits m = nat_digits n"
  obtain p where m: "digits_val 0 (nat_digits m) = Some (0 * 10 ^ p + int m)"
    using digits_val_nat_digits by meson
  obtain q where n: "digits_val 0 (nat_digits n) = Some (0 * 10 ^ q + int n)"
    using digits_val_nat_digits by meson
  have "Some (0 * 10 ^ p + int m) = Some (0 * 10 ^ q + int n)" unfolding m [symmetric] n [symmetric] eq ..
  then show ?thesis by simp
qed

lemma itoa_inj: "itoa m = itoa n \<Longrightarrow> m = n"
proof -
  assume eq: "itoa m = itoa n"
  have ns: "nat_digits k \<noteq> CHR ''-'' # xs" for k xs
    using nat_digits_head [of k] digit_char_not_sign by (metis list.inject)
  show ?thesis
  proof (cases "m < 0 \<longleftrightarrow> n < 0")
    case True
    with eq have "nat \<bar>m\<bar> = nat \<bar>n\<bar>" by (intro nat_digits_inj) (auto simp: itoa_def split: if_splits)
    with True show ?thesis by auto
  next
    case False
    with eq ns show ?thesis by (auto simp: itoa_def split: if_splits) (metis ns)+
  qed
qed

text \<open>
  As long as the tables do not change, an answer is the tables' own, whether it comes from the
  cache or not, and the cache keeps its bound.
\<close>

lemma stream_resolve_transparent:
  assumes "stream_resolve now ok db topic r = (res, r')" "cache_ok db r" "0 < rs_max r"
    and "\<nexists>n. topic = ''id:'' @ itoa n"
  shows "cache_ok db r' \<and> (\<forall>x. res = Some x \<longrightarrow> x = query_topic db topic) \<and> (ok \<longrightarrow> res \<noteq> None)"
proof -
  have l: "cached_lookup now topic (if ok then Some (query_topic db topic) else None) r = (res, r')"
    using assms(1) by (simp add: stream_resolve_def)
  have "cache_ok db r'" by (rule cached_lookup_ok [OF l assms(2,3)]) (use assms(4) in \<open>auto split: if_splits\<close>)
  moreover have "\<forall>x. res = Some x \<longrightarrow> x = query_topic db topic"
    using cached_lookup_result [OF l] assms(2,4) by (auto simp: cache_ok_def split: if_splits)
  moreover have "ok \<longrightarrow> res \<noteq> None" using cached_lookup_result [OF l] by auto
  ultimately show ?thesis by blast
qed

lemma resolve_by_id_transparent:
  assumes "resolve_by_id now ok db n r = (res, r')" "cache_ok db r" "0 < rs_max r"
  shows "cache_ok db r' \<and> (\<forall>x. res = Some x \<longrightarrow> x = query_by_id db n) \<and> (ok \<longrightarrow> res \<noteq> None)"
proof -
  have l: "cached_lookup now (''id:'' @ itoa n) (if ok then Some (query_by_id db n) else None) r = (res, r')"
    using assms(1) by (simp add: resolve_by_id_def)
  have "cache_ok db r'"
    by (rule cached_lookup_ok [OF l assms(2,3)]) (auto split: if_splits dest: itoa_inj)
  moreover have "\<forall>x. res = Some x \<longrightarrow> x = query_by_id db n"
    using cached_lookup_result [OF l] assms(2) by (auto simp: cache_ok_def split: if_splits)
  moreover have "ok \<longrightarrow> res \<noteq> None" using cached_lookup_result [OF l] by auto
  ultimately show ?thesis by blast
qed

end
