(* ===== verification/StreamWriters.thy ===== *)
theory StreamWriters
  imports StreamClamp StreamResolver
begin

text \<open>
  The writers of the stream engine (internal/writers: equipment\_values.go, totalizer\_seed.go,
  uns\_current\_metrics.go, po\_parameter.go). A writer turns one metric into a statement for the
  delivery's batch. The SQL text is represented by a constructor of \<open>stmt\<close> with the bound
  arguments, and \<open>exec_stmt\<close> says what the text does to the tables: \<open>INSERT ... ON CONFLICT DO
  UPDATE\<close> with its SET list. Tables hold the bound arguments (the \<open>float4\<close> rounding of the
  \<open>_val\<close> columns is the database's). Logs and counters are not modelled.
\<close>

section \<open>Tables\<close>

record ev_row =
  er_enterprise :: int
  er_site :: int
  er_area :: int
  er_tp :: "int option"
  er_net_incr :: "f64 option"
  er_net_val :: "f64 option"
  er_net_total :: "f64 option"
  er_gross_incr :: "f64 option"
  er_gross_val :: "f64 option"
  er_gross_total :: "f64 option"
  er_scrap_incr :: "f64 option"
  er_scrap_val :: "f64 option"
  er_scrap_total :: "f64 option"
  er_speed :: "f64 option"
  er_state :: "int option"
  er_mode :: "int option"
  er_sub_mode :: "string option"
  er_quality :: "int option"
  er_faults :: "string option"
  er_check :: "int option"
  er_shift :: "int option"
  er_shift_hour :: "int option"
  er_production_date :: "int option"
  er_ideal_speed :: "int option"
  er_analogs :: "json option"
  er_po :: "int option"
  er_po_quality :: "int option"

record raw_value =
  rw_ts_ms :: int
  rw_info :: equipment_info
  rw_tp :: int
  rw_kind :: metric_kind
  rw_value :: f64
  rw_counter :: "f64 option"
  rw_speed :: "f64 option"
  rw_sub_mode :: "string option"
  rw_faults :: "string option"

record live_row =
  lr_enterprise :: int
  lr_site :: int
  lr_area :: int
  lr_speed :: f64
  lr_updated :: int

text \<open>The tables of one schema; a key is (second, equipment), an event's (equipment, time).\<close>

record schema_tables =
  st_values :: "((int \<times> int) \<times> ev_row) list"
  st_raw :: "raw_value list"
  st_events :: "((int \<times> int) \<times> int \<times> int) list"
  st_raw_events :: "(int \<times> int \<times> int \<times> int) list"
  st_live :: "(int \<times> live_row) list"
  st_dq :: "((int \<times> int \<times> string \<times> int) \<times> f64) list"

type_synonym stream_db = "string \<Rightarrow> schema_tables"

definition coalesce :: "'a option \<Rightarrow> 'a option \<Rightarrow> 'a option" where
  "coalesce a b = (case a of None \<Rightarrow> b | Some x \<Rightarrow> Some x)"

text \<open>\<open>INSERT ... ON CONFLICT (key) DO UPDATE\<close>.\<close>

definition upsert :: "'k \<Rightarrow> 'r \<Rightarrow> ('r \<Rightarrow> 'r) \<Rightarrow> ('k \<times> 'r) list \<Rightarrow> ('k \<times> 'r) list" where
  "upsert k ins set_clause t = AList.update k (case map_of t k of None \<Rightarrow> ins | Some r \<Rightarrow> set_clause r) t"

section \<open>Statements\<close>

text \<open>The arguments every \<open>equipment_values\<close> statement of a sample shares.\<close>

record ev_base =
  eb_ts :: int
  eb_info :: equipment_info
  eb_tp :: int
  eb_faults :: "string option"
  eb_check :: int
  eb_totals :: bool
  eb_shift :: "(int option \<times> int option \<times> int) option"

datatype stmt =
    StCount metric_kind ev_base f64 "f64 option" "f64 option"
  | StState ev_base int
  | StMode ev_base int "string option"
  | StIdealSpeed int equipment_info int
  | StAnalogs int equipment_info json
  | StShiftFill int int "int option" "int option" int
  | StMint int int int int
  | StLive equipment_info f64
  | StRawValue raw_value
  | StRawEvent "int \<times> int \<times> int \<times> int"

text \<open>A row that holds only the identifying columns.\<close>

definition bare_row :: "equipment_info \<Rightarrow> ev_row" where
  "bare_row i = \<lparr>er_enterprise = ei_enterprise i, er_site = ei_site i, er_area = ei_area i, er_tp = None,
     er_net_incr = None, er_net_val = None, er_net_total = None, er_gross_incr = None, er_gross_val = None,
     er_gross_total = None, er_scrap_incr = None, er_scrap_val = None, er_scrap_total = None, er_speed = None,
     er_state = None, er_mode = None, er_sub_mode = None, er_quality = None, er_faults = None, er_check = None,
     er_shift = None, er_shift_hour = None, er_production_date = None, er_ideal_speed = None, er_analogs = None,
     er_po = None, er_po_quality = None\<rparr>"

text \<open>The columns every sample writes; on insert over a bare row, on conflict over the old one.\<close>

definition shift_fold :: "(int option \<times> int option \<times> int) option \<Rightarrow> ev_row \<Rightarrow> ev_row" where
  "shift_fold s r = (case s of None \<Rightarrow> r
     | Some (sh, hour, day) \<Rightarrow> r\<lparr>er_shift := coalesce (er_shift r) sh,
         er_shift_hour := coalesce (er_shift_hour r) hour,
         er_production_date := coalesce (er_production_date r) (Some day)\<rparr>)"

definition touch_row :: "ev_base \<Rightarrow> ev_row \<Rightarrow> ev_row" where
  "touch_row b r = shift_fold (eb_shift b)
     (r\<lparr>er_quality := coalesce (ei_signal_quality (eb_info b)) (er_quality r),
        er_faults := coalesce (eb_faults b) (er_faults r), er_check := Some (eb_check b)\<rparr>)"

definition insert_row :: "ev_base \<Rightarrow> ev_row" where
  "insert_row b = touch_row b (bare_row (eb_info b)\<lparr>er_tp := Some (eb_tp b)\<rparr>)"

text \<open>\<open>buildProcessed\<close>, \<open>buildConsumed\<close> and \<open>buildDefective\<close>: the counter's columns.\<close>

fun count_cols :: "metric_kind \<Rightarrow> bool \<Rightarrow> f64 \<Rightarrow> f64 option \<Rightarrow> f64 option \<Rightarrow> ev_row \<Rightarrow> ev_row" where
  "count_cols SkProcessed totals incr counter speed r =
     r\<lparr>er_net_incr := Some incr, er_net_val := coalesce counter (er_net_val r),
       er_net_total := (if totals then coalesce counter (er_net_total r) else er_net_total r),
       er_speed := coalesce speed (er_speed r)\<rparr>"
| "count_cols SkConsumed totals incr counter speed r =
     r\<lparr>er_gross_incr := Some incr, er_gross_val := coalesce counter (er_gross_val r),
       er_gross_total := (if totals then coalesce counter (er_gross_total r) else er_gross_total r),
       er_speed := coalesce speed (er_speed r)\<rparr>"
| "count_cols SkDefective totals incr counter speed r =
     r\<lparr>er_scrap_incr := Some incr, er_scrap_val := coalesce counter (er_scrap_val r),
       er_scrap_total := (if totals then coalesce counter (er_scrap_total r) else er_scrap_total r)\<rparr>"
| "count_cols _ totals incr counter speed r = r"

definition sample_upsert :: "ev_base \<Rightarrow> (ev_row \<Rightarrow> ev_row) \<Rightarrow> schema_tables \<Rightarrow> schema_tables" where
  "sample_upsert b cols t =
     t\<lparr>st_values := upsert (eb_ts b, ei_equipment (eb_info b)) (cols (insert_row b)) (\<lambda>r. cols (touch_row b r)) (st_values t)\<rparr>"

fun exec_stmt :: "int \<Rightarrow> stmt \<Rightarrow> schema_tables \<Rightarrow> schema_tables" where
  "exec_stmt now (StCount kind b incr counter speed) t =
     sample_upsert b (count_cols kind (eb_totals b) incr counter speed) t"
| "exec_stmt now (StState b state) t = sample_upsert b (\<lambda>r. r\<lparr>er_state := Some state\<rparr>) t"
| "exec_stmt now (StMode b mode sub) t =
     sample_upsert b (\<lambda>r. r\<lparr>er_mode := Some mode, er_sub_mode := coalesce sub (er_sub_mode r)\<rparr>) t"
| "exec_stmt now (StIdealSpeed ts i speed) t =
     t\<lparr>st_values := upsert (ts, ei_equipment i)
        ((bare_row i)\<lparr>er_ideal_speed := Some speed, er_quality := ei_signal_quality i\<rparr>)
        (\<lambda>r. r\<lparr>er_ideal_speed := Some speed, er_quality := coalesce (ei_signal_quality i) (er_quality r)\<rparr>) (st_values t)\<rparr>"
| "exec_stmt now (StAnalogs ts i v) t =
     t\<lparr>st_values := upsert (ts, ei_equipment i) ((bare_row i)\<lparr>er_analogs := Some v\<rparr>)
        (\<lambda>r. r\<lparr>er_analogs := Some v\<rparr>) (st_values t)\<rparr>"
| "exec_stmt now (StShiftFill ts eq sh hour day) t =
     t\<lparr>st_values := map (\<lambda>(k, r). (k, if k = (ts, eq) then shift_fold (Some (sh, hour, day)) r else r)) (st_values t)\<rparr>"
| "exec_stmt now (StMint eq ts ent status) t =
     t\<lparr>st_events := AList.update (eq, ts) (ent, status) (st_events t)\<rparr>"
| "exec_stmt now (StLive i speed) t =
     t\<lparr>st_live := upsert (ei_equipment i)
        \<lparr>lr_enterprise = ei_enterprise i, lr_site = ei_site i, lr_area = ei_area i, lr_speed = speed, lr_updated = now\<rparr>
        (\<lambda>r. r\<lparr>lr_speed := speed, lr_updated := now\<rparr>) (st_live t)\<rparr>"
| "exec_stmt now (StRawValue rv) t = t\<lparr>st_raw := st_raw t @ [rv]\<rparr>"
| "exec_stmt now (StRawEvent e) t = t\<lparr>st_raw_events := st_raw_events t @ [e]\<rparr>"

type_synonym query = "string \<times> stmt"

definition exec_query :: "int \<Rightarrow> query \<Rightarrow> stream_db \<Rightarrow> stream_db" where
  "exec_query now q db = db(fst q := exec_stmt now (snd q) (db (fst q)))"

section \<open>The equipment-values writer\<close>

record writer_cfg =
  wc_clamp :: "clamp_cfg option"
  wc_seeding :: bool
  wc_shifts :: "(int \<Rightarrow> int \<Rightarrow> int \<Rightarrow> int option \<times> int option) option"  \<comment> \<open>enterprise, equipment, second\<close>
  wc_fold_shift :: bool
  wc_bronze_raw :: bool
  wc_public_totals :: bool
  wc_date :: "int \<Rightarrow> int"                \<comment> \<open>the session's date of a second\<close>

datatype build_error = ResolveFailed | UnsupportedKind | NotANumber metric_kind | InvalidJson

text \<open>\<open>writesTotals\<close>, and the columns of \<open>totalizerColumn\<close> and \<open>seedExpr\<close>.\<close>

definition writes_totals :: "writer_cfg \<Rightarrow> string \<Rightarrow> bool" where
  "writes_totals cfg schema \<longleftrightarrow> schema \<noteq> ''public'' \<or> wc_public_totals cfg"

fun totalizer_column :: "metric_kind \<Rightarrow> bool \<Rightarrow> ev_row \<Rightarrow> f64 option" where
  "totalizer_column SkProcessed totals r = (if totals then coalesce (er_net_total r) (er_net_val r) else er_net_val r)"
| "totalizer_column SkConsumed totals r = (if totals then coalesce (er_gross_total r) (er_gross_val r) else er_gross_val r)"
| "totalizer_column SkDefective totals r = (if totals then coalesce (er_scrap_total r) (er_scrap_val r) else er_scrap_val r)"
| "totalizer_column _ totals r = None"

text \<open>
  \<open>PGTotalizerSeeder\<close>: the newest stored totalizer of the equipment in the thirty days before
  the sample. \<open>ok\<close> says whether the query is answered.
\<close>

definition seed_lookup :: "bool \<Rightarrow> bool \<Rightarrow> schema_tables \<Rightarrow> int \<Rightarrow> metric_kind \<Rightarrow> int \<Rightarrow> f64 option" where
  "seed_lookup ok totals t eq kind ts_ms =
     (if \<not> ok then None
      else case sort_key (\<lambda>(s, v). - s)
          (List.map_filter (\<lambda>((s, e), r). case totalizer_column kind totals r of
               Some v \<Rightarrow> if e = eq \<and> 1000 * s < ts_ms \<and> ts_ms - 2592000000 \<le> 1000 * s then Some (s, v) else None
             | None \<Rightarrow> None) (st_values t)) of
        [] \<Rightarrow> None | (s, v) # _ \<Rightarrow> Some v)"

fun can_write :: "metric_kind \<Rightarrow> bool" where
  "can_write SkProcessed = True" | "can_write SkConsumed = True" | "can_write SkDefective = True"
| "can_write SkState = True" | "can_write SkMode = True"
| "can_write SkUnknown = False" | "can_write SkCurSpeed = False" | "can_write SkParameter = False"

fun is_count :: "metric_kind \<Rightarrow> bool" where
  "is_count SkProcessed = True" | "is_count SkConsumed = True" | "is_count SkDefective = True" | "is_count _ = False"

definition absurd_value :: "f64 \<Rightarrow> bool" where
  "absurd_value v = (case v of Fin x \<Rightarrow> 1000000000000 < \<bar>x\<bar> | _ \<Rightarrow> True)"

definition second_of :: "int \<Rightarrow> int" where
  "second_of ms = ms div 1000"

definition tp_equipment :: "stream_metric \<Rightarrow> int" where
  "tp_equipment m = (if is_line_topic m then 3 else 1)"

definition faults_text :: "stream_metric \<Rightarrow> string option" where
  "faults_text m = (case sm_faults m of None \<Rightarrow> None | Some s \<Rightarrow> if s = [] \<or> s = ''null'' then None else Some s)"

definition sub_mode_text :: "stream_metric \<Rightarrow> string option" where
  "sub_mode_text m = (case sm_alias m of JStr s \<Rightarrow> if s = [] then None else Some s | _ \<Rightarrow> None)"

text \<open>The clamp block of \<open>Build\<close>: seed the stream once, then judge the increment.\<close>

definition rated_speed :: "equipment_info \<Rightarrow> f64" where
  "rated_speed i = (case ei_production_speed i of None \<Rightarrow> Fin 0 | Some n \<Rightarrow> of_int64 n)"

definition clamp_block :: "writer_cfg \<Rightarrow> (int \<Rightarrow> metric_kind \<Rightarrow> int \<Rightarrow> f64 option) \<Rightarrow> metric_kind \<Rightarrow> stream_metric
    \<Rightarrow> equipment_info \<Rightarrow> f64 \<Rightarrow> clamp_state \<Rightarrow> (f64 \<times> clamp_event option) \<times> clamp_state" where
  "clamp_block cfg seeder kind m i v st =
     (case wc_clamp cfg of
        None \<Rightarrow> ((v, None), st)
      | Some cc \<Rightarrow>
        if \<not> is_count kind then ((v, None), st)
        else let absolute = get_or (Fin 0) (sm_counter m); eq = ei_equipment i;
                 st1 = (if wc_seeding cfg \<and> flt (Fin 0) absolute \<and> flt (Fin 0) v
                   then (case needs_seed eq kind st of (needed, st') \<Rightarrow>
                     if needed then (case seeder eq kind (sm_timestamp m) of
                         None \<Rightarrow> st' | Some a \<Rightarrow> seed_abs eq kind a st') else st')
                   else st)
             in clamp_eval cc eq (ei_enterprise i) kind (sm_timestamp m) (rated_speed i) v absolute st1)"

definition checked_speed :: "writer_cfg \<Rightarrow> metric_kind \<Rightarrow> stream_metric \<Rightarrow> equipment_info \<Rightarrow> bool \<Rightarrow> f64 option" where
  "checked_speed cfg kind m i clamped =
     (case (wc_clamp cfg, sm_curspeed m) of
        (Some cc, Some speed) \<Rightarrow>
          if (kind = SkProcessed \<or> kind = SkConsumed) \<and> fst (eval_speed cc clamped (rated_speed i) speed)
          then None else Some speed
      | _ \<Rightarrow> sm_curspeed m)"

definition sample_base :: "writer_cfg \<Rightarrow> string \<Rightarrow> stream_metric \<Rightarrow> equipment_info \<Rightarrow> ev_base" where
  "sample_base cfg schema m i =
     (let ts = second_of (sm_timestamp m)
      in \<lparr>eb_ts = ts, eb_info = i, eb_tp = tp_equipment m, eb_faults = faults_text m, eb_check = sm_timestamp m,
          eb_totals = writes_totals cfg schema,
          eb_shift = (case wc_shifts cfg of None \<Rightarrow> None
            | Some resolve \<Rightarrow> if wc_fold_shift cfg
                then (case resolve (ei_enterprise i) (ei_equipment i) ts of (sh, hour) \<Rightarrow> Some (sh, hour, wc_date cfg ts))
                else None)\<rparr>)"

fun sample_stmt :: "metric_kind \<Rightarrow> ev_base \<Rightarrow> stream_metric \<Rightarrow> f64 \<Rightarrow> f64 option \<Rightarrow> stmt" where
  "sample_stmt SkState b m v speed = StState b (to_int64 v)"
| "sample_stmt SkMode b m v speed = StMode b (to_int64 v) (sub_mode_text m)"
| "sample_stmt kind b m v speed = StCount kind b v (sm_counter m) speed"

text \<open>\<open>Build\<close>: no statement for an unregistered topic, a non-numeric or an absurd value.\<close>

definition build :: "writer_cfg \<Rightarrow> topic_lookup \<Rightarrow> (int \<Rightarrow> metric_kind \<Rightarrow> int \<Rightarrow> f64 option) \<Rightarrow> string \<Rightarrow> stream_metric
    \<Rightarrow> clamp_state \<Rightarrow> (build_error + (query option \<times> clamp_event option)) \<times> clamp_state" where
  "build cfg lookup seeder schema m st =
     (let kind = stream_classify m
      in if \<not> can_write kind then (Inl UnsupportedKind, st)
         else case stream_resolve_metric lookup m of
           None \<Rightarrow> (Inl ResolveFailed, st)
         | Some None \<Rightarrow> (Inr (None, None), st)
         | Some (Some i) \<Rightarrow>
           (case parse_numeric_value (sm_value m) of
              None \<Rightarrow> (Inr (None, None), st)
            | Some v \<Rightarrow>
              if absurd_value v then (Inr (None, None), st)
              else case clamp_block cfg seeder kind m i v st of ((v', ev), st') \<Rightarrow>
                (Inr (Some (schema, sample_stmt kind (sample_base cfg schema m i) m v'
                         (checked_speed cfg kind m i (ev \<noteq> None))), ev), st')))"

text \<open>The companion statements of a sample; the handler ignores their errors.\<close>

definition build_shift_fill :: "writer_cfg \<Rightarrow> topic_lookup \<Rightarrow> string \<Rightarrow> stream_metric \<Rightarrow> query option" where
  "build_shift_fill cfg lookup schema m =
     (case wc_shifts cfg of
        None \<Rightarrow> None
      | Some resolve \<Rightarrow>
        if wc_fold_shift cfg then None
        else case stream_resolve_metric lookup m of
          Some (Some i) \<Rightarrow>
            (let ts = second_of (sm_timestamp m)
             in case resolve (ei_enterprise i) (ei_equipment i) ts of (sh, hour) \<Rightarrow>
               Some (schema, StShiftFill ts (ei_equipment i) sh hour (wc_date cfg ts)))
        | _ \<Rightarrow> None)"

definition build_raw_append :: "writer_cfg \<Rightarrow> topic_lookup \<Rightarrow> string \<Rightarrow> stream_metric \<Rightarrow> query option" where
  "build_raw_append cfg lookup schema m =
     (let kind = stream_classify m
      in if \<not> wc_bronze_raw cfg \<or> \<not> can_write kind then None
         else case (stream_resolve_metric lookup m, parse_numeric_value (sm_value m)) of
           (Some (Some i), Some v) \<Rightarrow>
             if absurd_value v then None
             else Some (schema, StRawValue \<lparr>rw_ts_ms = sm_timestamp m, rw_info = i, rw_tp = tp_equipment m,
               rw_kind = kind, rw_value = (if is_count kind then v else of_int64 (to_int64 v)),
               rw_counter = (if is_count kind then sm_counter m else None),
               rw_speed = (if kind = SkProcessed \<or> kind = SkConsumed then sm_curspeed m else None),
               rw_sub_mode = (if kind = SkMode then sub_mode_text m else None), rw_faults = faults_text m\<rparr>)
         | _ \<Rightarrow> None)"

definition mint_scope :: "topic_lookup \<Rightarrow> stream_metric \<Rightarrow> (equipment_info \<times> int) option" where
  "mint_scope lookup m =
     (if stream_classify m \<noteq> SkState then None
      else case stream_resolve_metric lookup m of
        Some (Some i) \<Rightarrow> if ei_status_type i \<noteq> 4 then None
          else map_option (\<lambda>v. (i, to_int64 v)) (unmarshal_float (sm_value m))
      | _ \<Rightarrow> None)"

definition build_event_mint :: "topic_lookup \<Rightarrow> string \<Rightarrow> stream_metric \<Rightarrow> query option" where
  "build_event_mint lookup schema m =
     map_option (\<lambda>(i, status). (schema, StMint (ei_equipment i) (second_of (sm_timestamp m)) (ei_enterprise i) status))
       (mint_scope lookup m)"

definition build_event_mint_raw :: "writer_cfg \<Rightarrow> topic_lookup \<Rightarrow> string \<Rightarrow> stream_metric \<Rightarrow> query option" where
  "build_event_mint_raw cfg lookup schema m =
     (if \<not> wc_bronze_raw cfg then None
      else map_option (\<lambda>(i, status). (schema, StRawEvent (ei_equipment i, sm_timestamp m, ei_enterprise i, status)))
        (mint_scope lookup m))"

section \<open>The other writers\<close>

definition uns_build :: "topic_lookup \<Rightarrow> string \<Rightarrow> stream_metric \<Rightarrow> build_error + query option" where
  "uns_build lookup schema m =
     (case stream_resolve_metric lookup m of
        None \<Rightarrow> Inl ResolveFailed
      | Some None \<Rightarrow> Inr None
      | Some (Some i) \<Rightarrow> (case unmarshal_float (sm_value m) of
          None \<Rightarrow> Inl (NotANumber SkCurSpeed) | Some v \<Rightarrow> Inr (Some (schema, StLive i v))))"

definition build_ideal_speed :: "topic_lookup \<Rightarrow> string \<Rightarrow> stream_metric \<Rightarrow> build_error + query option" where
  "build_ideal_speed lookup schema m =
     (case stream_resolve_metric lookup m of
        None \<Rightarrow> Inl ResolveFailed
      | Some None \<Rightarrow> Inr None
      | Some (Some i) \<Rightarrow> (case unmarshal_float (sm_value m) of
          None \<Rightarrow> Inl (NotANumber SkParameter)
        | Some v \<Rightarrow> Inr (Some (schema, StIdealSpeed (second_of (sm_timestamp m)) i (to_int64 (fadd v (Fin (1 / 2))))))))"

definition build_analogs :: "topic_lookup \<Rightarrow> string \<Rightarrow> stream_metric \<Rightarrow> build_error + query option" where
  "build_analogs lookup schema m =
     (case stream_resolve_metric lookup m of
        None \<Rightarrow> Inl ResolveFailed
      | Some None \<Rightarrow> Inr None
      | Some (Some i) \<Rightarrow> if sm_value m = JAbsent then Inl InvalidJson
          else Inr (Some (schema, StAnalogs ((sm_timestamp m + 500) div 1000) i (sm_value m))))"

definition po_parameter_build :: "topic_lookup \<Rightarrow> string \<Rightarrow> stream_metric \<Rightarrow> build_error + query option" where
  "po_parameter_build lookup schema m =
     (case sm_id m of
        None \<Rightarrow> Inr None
      | Some n \<Rightarrow> if n = 30701 then build_ideal_speed lookup schema m
          else if n = 30850 then build_analogs lookup schema m else Inr None)"

end
