(* ===== verification/StreamHandler.thy ===== *)
theory StreamHandler
  imports StreamWriters
begin

text \<open>
  The stream engine's message handler (internal/handlers/sparkplug.go, \<open>Handle\<close>): what it drops,
  the timestamp fallback, routing, birth-bound pre-pass, the build phase metric by metric, the
  batch, and the clamp's side writes. A \<open>pgx\<close> batch outside a transaction is one implicit
  transaction, so its outcome is one answer for the whole batch. Logs and counters are not
  modelled. The executor of production-order parameters is an argument (\<open>PoControl\<close> models the
  lifecycle commands).
\<close>

section \<open>Routes\<close>

datatype db_pool = MainPool | AnalyticsPool

type_synonym stream_dbs = "db_pool \<Rightarrow> stream_db"

record route =
  ro_pool :: db_pool
  ro_silver :: string
  ro_bronze :: string
  ro_ev :: string
  ro_auth :: string
  ro_grain :: string
  ro_ref :: string
  ro_gold :: string

definition public_route :: route where
  "public_route = \<lparr>ro_pool = MainPool, ro_silver = ''public'', ro_bronze = ''public'', ro_ev = ''public'',
     ro_auth = ''public'', ro_grain = ''public'', ro_ref = ''public'', ro_gold = ''public''\<rparr>"

definition route_for_source :: "bool \<Rightarrow> string \<Rightarrow> route" where
  "route_for_source has_analytics source =
     (if source = ''refactored'' \<and> has_analytics
      then \<lparr>ro_pool = AnalyticsPool, ro_silver = ''silver'', ro_bronze = ''bronze'', ro_ev = ''silver'',
            ro_auth = ''identity'', ro_grain = ''silver'', ro_ref = ''core'', ro_gold = ''gold''\<rparr>
      else public_route)"

text \<open>The pool the seeder reads (\<open>main.go\<close>).\<close>

definition seed_pool :: "bool \<Rightarrow> string \<Rightarrow> db_pool" where
  "seed_pool has_analytics schema = (if schema = ''public'' \<or> \<not> has_analytics then MainPool else AnalyticsPool)"

section \<open>Configuration, answers and state\<close>

record handler_cfg =
  hc_writer :: writer_cfg
  hc_analytics :: bool
  hc_legacy_ingest :: bool
  hc_switched :: "int list"
  hc_po_control :: bool

text \<open>What the outside answers during one delivery.\<close>

record handler_env =
  he_now_ms :: int
  he_lookup :: topic_lookup
  he_by_id :: id_lookup
  he_seed_ok :: bool
  he_batch_ok :: bool
  he_dq_ok :: bool
  he_po :: "stream_metric \<Rightarrow> route \<Rightarrow> stream_dbs \<Rightarrow> stream_dbs"

record stream_state =
  ss_dbs :: stream_dbs
  ss_clamp :: clamp_state

datatype delivery_body = BodyEnvelope stream_payload | BodyJsonString | BodyInvalid

datatype handler_error = ParseFailed | BirthBoundFailed | BuildFailed build_error | BatchFailed

text \<open>The parameters \<open>pocontrol.Handles\<close>.\<close>

definition po_handles :: "int \<Rightarrow> bool" where
  "po_handles n \<longleftrightarrow> (30800 \<le> n \<and> n \<le> 30803) \<or> n = 30700 \<or> n = 30805
     \<or> ((30810 \<le> n \<and> n \<le> 30814) \<or> n = 30820) \<or> (n = 30861 \<or> n = 30862 \<or> n = 30880)"

section \<open>The build phase\<close>

record build_acc =
  ba_state :: stream_state
  ba_queries :: "query list"
  ba_events :: "clamp_event list"
  ba_error :: "build_error option"

definition note_error :: "build_error \<Rightarrow> build_acc \<Rightarrow> build_acc" where
  "note_error e a = a\<lparr>ba_error := (case ba_error a of None \<Rightarrow> Some e | Some e' \<Rightarrow> Some e')\<rparr>"

text \<open>The statements of one sample, in batch order.\<close>

definition sample_queries :: "handler_cfg \<Rightarrow> topic_lookup \<Rightarrow> route \<Rightarrow> string \<Rightarrow> stream_metric \<Rightarrow> query \<Rightarrow> query list" where
  "sample_queries cfg lookup r source m q =
     (let w = hc_writer cfg; opt = (\<lambda>x. case x of None \<Rightarrow> [] | Some y \<Rightarrow> [y])
      in q # opt (build_shift_fill w lookup (ro_silver r) m)
           @ opt (if source \<noteq> [] then build_event_mint lookup (ro_silver r) m else None)
           @ opt (build_raw_append w lookup (ro_bronze r) m)
           @ opt (if source \<noteq> [] then build_event_mint_raw w lookup (ro_bronze r) m else None))"

definition plain_query :: "build_error + query option \<Rightarrow> build_acc \<Rightarrow> build_acc" where
  "plain_query res a = (case res of Inl e \<Rightarrow> note_error e a | Inr None \<Rightarrow> a
     | Inr (Some q) \<Rightarrow> a\<lparr>ba_queries := ba_queries a @ [q]\<rparr>)"

definition build_step :: "handler_cfg \<Rightarrow> handler_env \<Rightarrow> route \<Rightarrow> string \<Rightarrow> stream_metric \<Rightarrow> build_acc \<Rightarrow> build_acc" where
  "build_step cfg env r source m a =
     (let kind = stream_classify m; st = ba_state a; w = hc_writer cfg
      in if hc_po_control cfg \<and> source \<noteq> [] \<and> kind = SkParameter
            \<and> (case sm_id m of None \<Rightarrow> False | Some n \<Rightarrow> po_handles n)
         then a\<lparr>ba_state := st\<lparr>ss_dbs := he_po env m r (ss_dbs st)\<rparr>\<rparr>
         else if can_write kind
         then (case build w (he_lookup env)
                 (\<lambda>eq k ts. seed_lookup (he_seed_ok env) (writes_totals w (ro_silver r))
                    (ss_dbs st (seed_pool (hc_analytics cfg) (ro_silver r)) (ro_silver r)) eq k ts)
                 (ro_silver r) m (ss_clamp st) of
             (Inl e, cl) \<Rightarrow> note_error e (a\<lparr>ba_state := st\<lparr>ss_clamp := cl\<rparr>\<rparr>)
           | (Inr (None, ev), cl) \<Rightarrow> a\<lparr>ba_state := st\<lparr>ss_clamp := cl\<rparr>\<rparr>
           | (Inr (Some q, ev), cl) \<Rightarrow>
               a\<lparr>ba_state := st\<lparr>ss_clamp := cl\<rparr>,
                 ba_queries := ba_queries a @ sample_queries cfg (he_lookup env) r source m q,
                 ba_events := ba_events a @ (case ev of None \<Rightarrow> [] | Some e \<Rightarrow> [e])\<rparr>)
         else if kind = SkCurSpeed then plain_query (uns_build (he_lookup env) (ro_silver r) m) a
         else if kind = SkParameter then plain_query (po_parameter_build (he_lookup env) (ro_silver r) m) a
         else a)"

definition build_all :: "handler_cfg \<Rightarrow> handler_env \<Rightarrow> route \<Rightarrow> string \<Rightarrow> stream_metric list \<Rightarrow> stream_state \<Rightarrow> build_acc" where
  "build_all cfg env r source ms st =
     fold (build_step cfg env r source) ms \<lparr>ba_state = st, ba_queries = [], ba_events = [], ba_error = None\<rparr>"

section \<open>The batch and the side writes\<close>

definition exec_batch :: "int \<Rightarrow> query list \<Rightarrow> stream_db \<Rightarrow> stream_db" where
  "exec_batch now qs db = fold (exec_query now) qs db"

fun clamp_grain_suffix :: "metric_kind \<Rightarrow> string" where
  "clamp_grain_suffix SkProcessed = ''net_incr''"
| "clamp_grain_suffix SkConsumed = ''gross_incr''"
| "clamp_grain_suffix SkDefective = ''scrap_incr''"
| "clamp_grain_suffix _ = ''incr''"

definition write_dq :: "clamp_event \<Rightarrow> schema_tables \<Rightarrow> schema_tables" where
  "write_dq e t = t\<lparr>st_dq := AList.update
     (ce_enterprise e, ce_equipment e, ''ingest_'' @ clamp_grain_suffix (ce_kind e), ce_bucket e) (ce_observed e) (st_dq t)\<rparr>"

definition emit_clamp_dq :: "bool \<Rightarrow> string \<Rightarrow> clamp_event list \<Rightarrow> stream_db \<Rightarrow> stream_db" where
  "emit_clamp_dq ok schema evs db = (if ok then db(schema := fold write_dq evs (db schema)) else db)"

definition on_pool :: "db_pool \<Rightarrow> (stream_db \<Rightarrow> stream_db) \<Rightarrow> stream_state \<Rightarrow> stream_state" where
  "on_pool p f st = st\<lparr>ss_dbs := (ss_dbs st)(p := f (ss_dbs st p))\<rparr>"

section \<open>\<open>Handle\<close>\<close>

text \<open>The part after routing: build, send, side writes.\<close>

definition process :: "handler_cfg \<Rightarrow> handler_env \<Rightarrow> stream_payload \<Rightarrow> stream_state \<Rightarrow> handler_error option \<times> stream_state" where
  "process cfg env p st =
     (let r = route_for_source (hc_analytics cfg) (sp_source_type p);
          a = build_all cfg env r (sp_source_type p) (sp_metrics p) st;
          err = map_option BuildFailed (ba_error a)
      in if ba_queries a = [] then (err, ba_state a)
         else let st1 = (if he_batch_ok env
                then on_pool (ro_pool r) (exec_batch (he_now_ms env) (ba_queries a)) (ba_state a) else ba_state a);
                  st2 = on_pool (ro_pool r) (emit_clamp_dq (he_dq_ok env) (ro_ev r) (ba_events a)) st1
              in (if he_batch_ok env then err else (case err of None \<Rightarrow> Some BatchFailed | Some e \<Rightarrow> Some e), st2))"

definition handle :: "handler_cfg \<Rightarrow> handler_env \<Rightarrow> delivery_body \<Rightarrow> stream_state \<Rightarrow> handler_error option \<times> stream_state" where
  "handle cfg env body st =
     (case body of
        BodyJsonString \<Rightarrow> (None, st)
      | BodyInvalid \<Rightarrow> (if hc_legacy_ingest cfg then Some ParseFailed else None, st)
      | BodyEnvelope p0 \<Rightarrow>
        (let p = normalize_timestamps (he_now_ms env) p0
         in if sp_source_type p = ''go'' then (None, st)
            else case apply_birth_bound (he_lookup env) (he_by_id env) (hc_switched cfg) p of
              None \<Rightarrow> (Some BirthBoundFailed, st)
            | Some p' \<Rightarrow> process cfg env p' st))"

end
