(* ===== verification/ClampProps.thy ===== *)
theory ClampProps
  imports StreamClamp
begin

text \<open>
  Properties of the increment clamp: what it writes stays between zero and the observed
  increment and, except through the counter-movement test, below the rate bound; a reading that
  is delivered a second time is judged against its own totalizer and written as zero.
\<close>

section \<open>Float facts\<close>

lemma round64_nonpos: "x \<le> 0 \<Longrightarrow> round64 x = NInf \<or> (\<exists>y\<le>0. round64 x = Fin y)"
proof (cases "x = 0")
  case False
  assume "x \<le> 0"
  define e where "e = max (ilog2 \<bar>x\<bar> - 52) (- 1074)"
  have "x / 2 powi e \<le> of_int 0" using \<open>x \<le> 0\<close> by (simp add: divide_nonpos_nonneg)
  then have "round_even (x / 2 powi e) \<le> 0" by (rule round_even_le)
  then have "of_int (round_even (x / 2 powi e)) * (2::rat) powi e \<le> 0"
    by (intro mult_nonpos_nonneg) simp_all
  with False \<open>x \<le> 0\<close> show ?thesis by (auto simp: round64_def Let_def e_def)
qed simp

lemma round64_pos_arg: "flt (Fin 0) (round64 x) \<Longrightarrow> 0 < x"
  using round64_nonpos [of x] by (cases "0 < x") auto

lemma fsub_Fin [simp]: "fsub (Fin x) (Fin y) = round64 (x - y)"
  by (simp add: fsub_def)

lemma fle_flt_trans: "fle x y \<Longrightarrow> flt y z \<Longrightarrow> flt x z"
  by (cases x; cases y; cases z) (auto simp: fle_def)

lemma round64_not_NaN [simp]: "round64 x \<noteq> NaN"
  by (simp add: round64_def Let_def)

lemma round64_repr: "repr x \<Longrightarrow> x < 2 ^ 1024 \<Longrightarrow> round64 x = Fin x"
  using rnd_repr [of x] repr_nonneg [of x] by (cases "x = 0") (auto simp: round64_rnd)

lemma repr_of_int: "0 \<le> n \<Longrightarrow> n \<le> 9007199254740992 \<Longrightarrow> repr (of_int n)"
  unfolding repr_def by (intro exI [of _ n] exI [of _ 0]) simp

lemma repr_double: "repr x \<Longrightarrow> repr (x * 2)"
proof -
  assume "repr x"
  then obtain n e where x: "x = of_int n * 2 powi e" "0 \<le> n" "n \<le> 2 ^ 53" "- 1074 \<le> e" by (auto simp: repr_def)
  then have "x * 2 = of_int n * 2 powi (e + 1)" by (simp add: power_int_add)
  then show ?thesis unfolding repr_def using x by (intro exI [of _ n] exI [of _ "e + 1"]) simp
qed

section \<open>The decision is bounded\<close>

lemma totalizer_delta_range:
  assumes "finite_f64 absolute" "prev \<noteq> None \<longrightarrow> finite_f64 (the prev)" "flt (Fin 0) inc"
  shows "fle (Fin 0) (totalizer_delta cfg prev absolute inc rate last_ts ts)
       \<and> fle (totalizer_delta cfg prev absolute inc rate last_ts ts) inc"
proof (cases prev)
  case None
  with assms(3) show ?thesis by (cases inc) (auto simp: totalizer_delta_def)
next
  case (Some p)
  obtain a where a: "absolute = Fin a" using assms(1) by (cases absolute) auto
  obtain q where q: "p = Fin q" using assms(2) Some by (cases p) auto
  have d: "fle (Fin 0) d \<and> fle d inc" if "\<not> fle d (Fin 0)" "\<not> fle inc d" "d \<noteq> NaN" for d
    using that assms(3) by (cases d; cases inc) (auto simp: fle_def)
  have z: "fle (Fin 0) (Fin 0) \<and> fle (Fin 0) inc" using assms(3) by (cases inc) (auto simp: fle_def)
  show ?thesis
    using d [OF _ _ round64_not_NaN, of "a - q"] z
    by (auto simp: totalizer_delta_def Some a q Let_def split: option.split)
qed

lemma unbacked_movement_range:
  assumes "unbacked_movement prev absolute inc = Some d" "finite_f64 absolute" "finite_f64 inc"
  shows "fle (Fin 0) d \<and> fle d inc"
proof -
  obtain p where p: "prev = Some p" "fle p absolute" "d = fsub absolute p" "fle unbacked_floor (fsub inc d)"
    using assms(1) by (auto simp: unbacked_movement_def Let_def split: option.splits if_splits)
  obtain a where a: "absolute = Fin a" using assms(2) by (cases absolute) auto
  obtain v where v: "inc = Fin v" using assms(3) by (cases inc) auto
  show ?thesis
  proof (cases p)
    case (Fin q)
    then have qa: "q \<le> a" using p(2) a by simp
    then have d0: "repr64 d" unfolding p(3) a Fin by (simp add: round64_nonneg)
    have "\<exists>y. d = Fin y"
      using p(4) d0 by (cases d) (auto simp: v fsub_def unbacked_floor_def fle_def)
    then obtain y where y: "d = Fin y" by blast
    have "flt (Fin 0) (round64 (v - y))"
      using p(4) fle_flt_trans by (cases "round64 (v - y)") (auto simp: v y unbacked_floor_def fle_def)
    then have "y < v" using round64_pos_arg by force
    with d0 show ?thesis using repr_nonneg by (simp add: y v)
  qed (use p a v in \<open>auto simp: fsub_def fle_def unbacked_floor_def\<close>)
qed


section \<open>The rate bound\<close>

lemma totalizer_delta_rate:
  assumes "flt (Fin 0) rate" "l < ts" "fle (Fin 0) (rate_bound cfg rate l ts)"
  shows "\<not> flt (rate_bound cfg rate l ts) (totalizer_delta cfg prev absolute inc rate (Some l) ts)"
proof -
  have z: "\<not> flt (rate_bound cfg rate l ts) (Fin 0)"
    using assms(3) by (cases "rate_bound cfg rate l ts") (auto simp: fle_def)
  show ?thesis using assms z by (auto simp: totalizer_delta_def Let_def split: option.split)
qed

text \<open>
  A positive increment of a rated stream with a previous sample is written as more than
  \<open>K * rate * dt\<close> only by the counter-movement test, that is, only when the totalizer itself moved
  that far.
\<close>

theorem clamp_rate_bound:
  assumes "clamp_verdict cfg eq ent kind ts rate inc absolute (Some l) prev = (r, ev)"
    and "flt (Fin 0) rate" "0 < sub64 ts l" "l < ts" "fle (Fin 0) (rate_bound cfg rate l ts)"
    and "flt (Fin 0) inc" "flt (rate_bound cfg rate l ts) r"
  shows "unbacked_movement prev absolute inc = Some r"
proof (rule ccontr)
  assume no: "unbacked_movement prev absolute inc \<noteq> Some r"
  have nz: "\<not> fle inc (Fin 0)" using assms(6) by (cases inc) (auto simp: fle_def)
  have nr: "\<not> fle rate (Fin 0)" using assms(2) by (cases rate) (auto simp: fle_def)
  have nb: "\<not> (fle inc (rate_bound cfg rate l ts) \<and> r = inc)"
    using assms(7) by (cases inc; cases "rate_bound cfg rate l ts") (auto simp: fle_def)
  show False
    using assms(1,3,7) no nz nr nb totalizer_delta_rate [OF assms(2,4,5), of prev absolute inc]
    by (auto simp: clamp_verdict_def Let_def split: if_splits option.splits)
qed

section \<open>Redelivery\<close>

lemma observe_again: "fst (observe key ts (snd (observe key ts st))) \<noteq> None"
  by (auto simp: observe_def split: option.split)

lemma cl_abs_observe [simp]: "cl_abs (snd (observe key ts st)) = cl_abs st"
  by (auto simp: observe_def split: option.split)

lemma cl_abs_eval:
  "cl_abs (snd (clamp_eval cfg eq ent kind ts rate inc absolute st)) =
     (if flt (Fin 0) absolute then (cl_abs st)((eq, kind) \<mapsto> absolute) else cl_abs st)"
  using cl_abs_observe [of "(eq, kind)" ts st]
  by (auto simp: clamp_eval_def swap_abs_def simp del: cl_abs_observe split: prod.split)

lemma clamp_eval_fst:
  "fst (clamp_eval cfg eq ent kind ts rate inc absolute st) =
     clamp_verdict cfg eq ent kind ts rate inc absolute (cl_last st (eq, kind)) (cl_abs st (eq, kind))"
  using cl_abs_observe [of "(eq, kind)" ts st]
  by (auto simp: clamp_eval_def swap_abs_def observe_def simp del: cl_abs_observe split: option.split)

text \<open>A stream whose remembered totalizer is the reading's own: every part of the increment is unbacked.\<close>

lemma verdict_same_totalizer:
  assumes "repr v" "100 \<le> v" "v \<le> 2 ^ 1000" "0 < a"
  shows "\<exists>e. clamp_verdict cfg eq ent kind ts rate (Fin v) (Fin a) last_ts (Some (Fin a)) = (Fin 0, Some e)
      \<and> ce_observed e = Fin v"
proof -
  have lim: "(2::rat) ^ 1000 < 2 ^ 1024" "(2::rat) ^ 1000 * 2 < 2 ^ 1024" by (simp_all)
  have "v < 2 ^ 1024" using assms(3) lim(1) by (rule le_less_trans)
  moreover have "v * 2 \<le> 2 ^ 1000 * 2" using assms(3) by simp
  then have "v * 2 < 2 ^ 1024" using lim(2) by (rule le_less_trans)
  ultimately have v: "round64 v = Fin v" "round64 (v * 2) = Fin (v * 2)"
    using round64_repr assms(1) repr_double [OF assms(1)] by blast+
  have "unbacked_movement (Some (Fin a)) (Fin a) (Fin v) = Some (Fin 0)"
    using assms v by (simp add: unbacked_movement_def unbacked_floor_def Let_def)
  moreover have "totalizer_delta cfg (Some (Fin a)) (Fin a) (Fin v) rate last_ts ts = Fin 0"
    by (simp add: totalizer_delta_def Let_def)
  ultimately show ?thesis using assms by (auto simp: clamp_verdict_def Let_def)
qed

lemma clamp_redelivered:
  assumes "repr v" "100 \<le> v" "v \<le> 2 ^ 1000" "0 < a"
    and "st' = snd (clamp_eval cfg eq ent kind ts rate (Fin v) (Fin a) st)"
  shows "\<exists>e. fst (clamp_eval cfg eq ent kind ts rate (Fin v) (Fin a) st') = (Fin 0, Some e) \<and> ce_observed e = Fin v"
proof -
  have "cl_abs st' (eq, kind) = Some (Fin a)" using assms(4,5) by (simp add: cl_abs_eval)
  then show ?thesis using verdict_same_totalizer [OF assms(1-4)] by (simp add: clamp_eval_fst)
qed

section \<open>The counter-movement test has no rate bound\<close>

text \<open>The defaults, a machine rated at ten parts a minute, one minute after its last sample.\<close>

definition demo_clamp :: clamp_cfg where
  "demo_clamp = \<lparr>cc_k = Fin 4, cc_min_dt_ms = 60000, cc_spike_floor = Fin 1000, cc_spike_fraction = Fin (1 / 2)\<rparr>"

lemma demo_clamp_defaults: "set_increment_clamp True (Fin 0) 0 (Fin 0) (Fin 0) = Some demo_clamp"
  by (simp add: set_increment_clamp_def demo_clamp_def go_int in64_def)

lemma demo_rate_bound: "rate_bound demo_clamp (Fin 10) 0 60000 = Fin 40"
  by (simp add: rate_bound_def demo_clamp_def floored_dt_def sub64_def in64_def of_int64_exact)

lemma demo_half: "fmul (Fin 900000) (Fin (1 / 2)) = Fin 450000"
  using round64_numeral(1) by simp

text \<open>
  The counter-movement test writes the totalizer's movement without checking it against the
  rated speed: with a totalizer that jumped by 200000 where 40 parts were possible, an increment of
  440000 is written as 200000, while the jump itself, 200000, is written as zero.
\<close>

theorem movement_test_exceeds_rate:
  "rate_bound demo_clamp (Fin 10) 0 60000 = Fin 40
   \<and> fst (clamp_verdict demo_clamp 57 3 SkProcessed 60000 (Fin 10) (Fin 440000) (Fin 900000) (Some 0) (Some (Fin 700000)))
     = Fin 200000
   \<and> fst (clamp_verdict demo_clamp 57 3 SkProcessed 60000 (Fin 10) (Fin 200000) (Fin 900000) (Some 0) (Some (Fin 700000)))
     = Fin 0"
proof -
  have ns: "\<not> is_spike demo_clamp (Fin 900000) (Fin 440000)" "\<not> is_spike demo_clamp (Fin 900000) (Fin 200000)"
    using demo_half by (simp_all add: is_spike_def demo_clamp_def)
  have m: "unbacked_movement (Some (Fin 700000)) (Fin 900000) (Fin 440000) = Some (Fin 200000)"
    "unbacked_movement (Some (Fin 700000)) (Fin 900000) (Fin 200000) = None"
    by (simp_all add: unbacked_movement_def unbacked_floor_def Let_def)
  have t: "totalizer_delta demo_clamp (Some (Fin 700000)) (Fin 900000) (Fin 200000) (Fin 10) (Some 0) 60000 = Fin 0"
    by (simp add: totalizer_delta_def Let_def)
  have s: "sub64 60000 0 = 60000" by (simp add: sub64_def in64_def)
  show ?thesis using ns m t s demo_rate_bound by (simp add: clamp_verdict_def Let_def)
qed


theorem clamp_rate_bound_witness:
  "unbacked_movement (Some (Fin 700000)) (Fin 900000) (Fin 440000) = Some (Fin 200000)"
proof -
  have ns: "\<not> is_spike demo_clamp (Fin 900000) (Fin 440000)" using demo_half by (simp add: is_spike_def demo_clamp_def)
  have m: "unbacked_movement (Some (Fin 700000)) (Fin 900000) (Fin 440000) = Some (Fin 200000)"
    by (simp add: unbacked_movement_def unbacked_floor_def Let_def)
  obtain ev where e: "clamp_verdict demo_clamp 57 3 SkProcessed 60000 (Fin 10) (Fin 440000) (Fin 900000) (Some 0) (Some (Fin 700000)) = (Fin 200000, ev)"
    using ns m by (simp add: clamp_verdict_def Let_def)
  have s: "0 < sub64 60000 0" by (simp add: sub64_def in64_def)
  from clamp_rate_bound [OF e _ s] demo_rate_bound show ?thesis by simp
qed

end
