(* ===== verification/StreamProps.thy ===== *)
theory StreamProps
  imports StreamHandler ClampProps
begin

text \<open>
  Properties of the stream engine's path from a delivery to \<open>equipment_values\<close>. The increment
  columns implement a map from (kind, second, equipment) to the last increment written
  (\<open>incr_refines\<close>); with the clamp off a redelivery therefore changes nothing, and increments of
  different seconds add up. With the clamp on a redelivered increment is replaced by zero.
\<close>

section \<open>The increment columns as a map\<close>

type_synonym incr_map = "metric_kind \<times> int \<times> int \<Rightarrow> f64 option"

fun incr_col :: "metric_kind \<Rightarrow> ev_row \<Rightarrow> f64 option" where
  "incr_col SkProcessed r = er_net_incr r"
| "incr_col SkConsumed r = er_gross_incr r"
| "incr_col SkDefective r = er_scrap_incr r"
| "incr_col _ r = None"

text \<open>The abstraction of a schema's table, and the abstract effect of a statement.\<close>

definition incrs :: "schema_tables \<Rightarrow> incr_map" where
  "incrs t = (\<lambda>(kind, s, eq). case map_of (st_values t) (s, eq) of None \<Rightarrow> None | Some r \<Rightarrow> incr_col kind r)"

fun incr_write :: "stmt \<Rightarrow> ((metric_kind \<times> int \<times> int) \<times> f64) option" where
  "incr_write (StCount kind b v c sp) =
     (if is_count kind then Some ((kind, eb_ts b, ei_equipment (eb_info b)), v) else None)"
| "incr_write _ = None"

definition apply_incr :: "stmt \<Rightarrow> incr_map \<Rightarrow> incr_map" where
  "apply_incr s m = (case incr_write s of None \<Rightarrow> m | Some (k, v) \<Rightarrow> m(k \<mapsto> v))"

lemma incr_col_bare [simp]: "incr_col k (bare_row i) = None"
  by (cases k) (simp_all add: bare_row_def)

lemma incr_col_frame [simp]:
  "incr_col k (r\<lparr>er_tp := x0\<rparr>) = incr_col k r"
  "incr_col k (r\<lparr>er_state := x1\<rparr>) = incr_col k r"
  "incr_col k (r\<lparr>er_mode := x2\<rparr>) = incr_col k r"
  "incr_col k (r\<lparr>er_sub_mode := x3\<rparr>) = incr_col k r"
  "incr_col k (r\<lparr>er_quality := x4\<rparr>) = incr_col k r"
  "incr_col k (r\<lparr>er_faults := x5\<rparr>) = incr_col k r"
  "incr_col k (r\<lparr>er_check := x6\<rparr>) = incr_col k r"
  "incr_col k (r\<lparr>er_shift := x7\<rparr>) = incr_col k r"
  "incr_col k (r\<lparr>er_shift_hour := x8\<rparr>) = incr_col k r"
  "incr_col k (r\<lparr>er_production_date := x9\<rparr>) = incr_col k r"
  "incr_col k (r\<lparr>er_ideal_speed := x10\<rparr>) = incr_col k r"
  "incr_col k (r\<lparr>er_analogs := x11\<rparr>) = incr_col k r"
  by (cases k; simp)+

lemma incr_col_shift [simp]: "incr_col k (shift_fold s r) = incr_col k r"
  by (simp add: shift_fold_def split: option.split prod.split)

lemma incr_col_touch [simp]: "incr_col k (touch_row b r) = incr_col k r"
  by (simp add: touch_row_def)

lemma incr_col_insert [simp]: "incr_col k (insert_row b) = None"
  by (simp add: insert_row_def)

lemma incr_col_count:
  "incr_col k (count_cols kind totals v c sp r) = (if k = kind \<and> is_count kind then Some v else incr_col k r)"
  by (cases kind; cases k) simp_all

lemma map_of_upsert:
  "map_of (upsert k ins f t) = (map_of t)(k \<mapsto> (case map_of t k of None \<Rightarrow> ins | Some r \<Rightarrow> f r))"
  by (simp add: upsert_def update_conv')

text \<open>A statement on row \<open>key\<close> that leaves the increment columns alone.\<close>

lemma incrs_upsert_frame:
  assumes "\<And>k. incr_col k ins = None" "\<And>k r. incr_col k (f r) = incr_col k r"
  shows "incrs (t\<lparr>st_values := upsert key ins f (st_values t)\<rparr>) = incrs t"
  by (auto simp: incrs_def map_of_upsert fun_eq_iff assms split: option.split)

lemma incrs_sample_frame:
  "(\<And>k r. incr_col k (cols r) = incr_col k r) \<Longrightarrow> incrs (sample_upsert b cols t) = incrs t"
  unfolding sample_upsert_def by (rule incrs_upsert_frame) simp_all

lemma incrs_sample_count:
  "is_count kind \<Longrightarrow> incrs (sample_upsert b (count_cols kind totals v c sp) t) =
     (incrs t)((kind, eb_ts b, ei_equipment (eb_info b)) \<mapsto> v)"
  by (auto simp: incrs_def sample_upsert_def map_of_upsert incr_col_count fun_eq_iff split: option.split)

lemma map_of_mapped: "map_of (map (\<lambda>(k, r). (k, f k r)) xs) k = map_option (f k) (map_of xs k)"
  by (induction xs) auto

lemma incrs_other_tables [simp]:
  "incrs (t\<lparr>st_raw := a\<rparr>) = incrs t" "incrs (t\<lparr>st_events := b\<rparr>) = incrs t"
  "incrs (t\<lparr>st_raw_events := c\<rparr>) = incrs t" "incrs (t\<lparr>st_live := d\<rparr>) = incrs t" "incrs (t\<lparr>st_dq := e\<rparr>) = incrs t"
  by (simp_all add: incrs_def)

lemma incr_refines_stmt: "incrs (exec_stmt now s t) = apply_incr s (incrs t)"
proof (cases s)
  case (StCount kind b v c sp)
  show ?thesis
  proof (cases "is_count kind")
    case True
    then show ?thesis by (simp add: StCount apply_incr_def incrs_sample_count)
  next
    case False
    then show ?thesis
      by (simp add: StCount apply_incr_def) (rule incrs_sample_frame, simp add: incr_col_count)
  qed
next
  case (StShiftFill ts eq sh hour day)
  have "map_of (map (\<lambda>(k, r). (k, if k = (ts, eq) then shift_fold (Some (sh, hour, day)) r else r)) xs) k
      = map_option (\<lambda>r. if k = (ts, eq) then shift_fold (Some (sh, hour, day)) r else r) (map_of xs k)" for xs k
    by (rule map_of_mapped)
  then show ?thesis by (auto simp: StShiftFill apply_incr_def incrs_def fun_eq_iff split: option.split)
qed (simp_all add: apply_incr_def incrs_sample_frame incrs_upsert_frame)

section \<open>What a delivery writes\<close>

definition query_writes :: "string \<Rightarrow> query list \<Rightarrow> ((metric_kind \<times> int \<times> int) \<times> f64) list" where
  "query_writes sc = List.map_filter (\<lambda>q. if fst q = sc then incr_write (snd q) else None)"

lemma query_writes_simps [simp]:
  "query_writes sc [] = []"
  "query_writes sc (q # qs) = (if fst q = sc then (case incr_write (snd q) of None \<Rightarrow> [] | Some w \<Rightarrow> [w]) else []) @ query_writes sc qs"
  "query_writes sc (qs @ qs') = query_writes sc qs @ query_writes sc qs'"
  by (simp_all add: query_writes_def List.map_filter_def split: option.split)

lemma exec_batch_incrs:
  "incrs (exec_batch now qs db sc) = incrs (db sc) ++ map_of (rev (query_writes sc qs))"
  unfolding exec_batch_def
proof (induction qs arbitrary: db)
  case (Cons q qs)
  have "incrs (exec_query now q db sc) = (if fst q = sc then apply_incr (snd q) (incrs (db sc)) else incrs (db sc))"
    by (auto simp: exec_query_def incr_refines_stmt)
  with Cons show ?case
    by (auto simp: apply_incr_def map_add_upd_left split: option.split if_splits prod.split)
qed simp

text \<open>The increment a metric asks for, before any clamp.\<close>

definition sample_write :: "topic_lookup \<Rightarrow> stream_metric \<Rightarrow> ((metric_kind \<times> int \<times> int) \<times> f64) option" where
  "sample_write lookup m =
     (if \<not> is_count (stream_classify m) then None
      else case (stream_resolve_metric lookup m, parse_numeric_value (sm_value m)) of
        (Some (Some i), Some v) \<Rightarrow> if absurd_value v then None
          else Some ((stream_classify m, second_of (sm_timestamp m), ei_equipment i), v)
      | _ \<Rightarrow> None)"

lemma is_count_can_write: "is_count k \<Longrightarrow> can_write k"
  by (cases k) simp_all

lemma sample_base_simps [simp]:
  "eb_ts (sample_base cfg sc m i) = second_of (sm_timestamp m)" "eb_info (sample_base cfg sc m i) = i"
  by (simp_all add: sample_base_def Let_def)

lemma incr_write_sample:
  "incr_write (sample_stmt kind b m v sp) = (if is_count kind then Some ((kind, eb_ts b, ei_equipment (eb_info b)), v) else None)"
  by (cases kind) simp_all

lemma companion_writes [simp]:
  "query_writes sc (sample_queries cfg lookup r source m q) = query_writes sc [q]"
  by (auto simp: sample_queries_def build_shift_fill_def build_event_mint_def build_raw_append_def
      build_event_mint_raw_def Let_def split: option.split prod.split)

lemma plain_query_writes:
  "(\<And>q. res = Inr (Some q) \<Longrightarrow> incr_write (snd q) = None) \<Longrightarrow> query_writes sc (ba_queries (plain_query res a)) = query_writes sc (ba_queries a)"
  by (auto simp: plain_query_def note_error_def split: sum.split option.split)

lemma other_writers_no_write:
  "uns_build lookup sc m = Inr (Some q) \<Longrightarrow> incr_write (snd q) = None"
  "po_parameter_build lookup sc m = Inr (Some q) \<Longrightarrow> incr_write (snd q) = None"
  by (auto simp: uns_build_def po_parameter_build_def build_ideal_speed_def build_analogs_def
      split: option.splits if_splits)

lemma other_kinds_no_sample: "\<not> can_write (stream_classify m) \<Longrightarrow> sample_write lookup m = None"
  using is_count_can_write by (auto simp: sample_write_def)

lemma note_error_queries [simp]: "ba_queries (note_error e a) = ba_queries a"
  by (simp add: note_error_def)

lemma plain_query_state [simp]: "ba_state (plain_query res a) = ba_state a"
  by (auto simp: plain_query_def note_error_def split: sum.split option.split)

lemma build_unclamped:
  assumes "wc_clamp w = None" "can_write (stream_classify m)"
  shows "build w lookup seeder sc m cl =
     (case stream_resolve_metric lookup m of
        None \<Rightarrow> Inl ResolveFailed
      | Some None \<Rightarrow> Inr (None, None)
      | Some (Some i) \<Rightarrow> (case parse_numeric_value (sm_value m) of
            None \<Rightarrow> Inr (None, None)
          | Some v \<Rightarrow> if absurd_value v then Inr (None, None)
              else Inr (Some (sc, sample_stmt (stream_classify m) (sample_base w sc m i) m v (sm_curspeed m)), None)), cl)"
  using assms by (auto simp: build_def Let_def clamp_block_def checked_speed_def split: option.split)

lemma build_step_unclamped:
  assumes "wc_clamp (hc_writer cfg) = None" "\<not> hc_po_control cfg"
  shows "query_writes (ro_silver r) (ba_queries (build_step cfg env r source m a)) =
      query_writes (ro_silver r) (ba_queries a) @ (case sample_write (he_lookup env) m of None \<Rightarrow> [] | Some w \<Rightarrow> [w])"
    and "ba_state (build_step cfg env r source m a) = ba_state a"
proof -
  note bu = build_unclamped [OF assms(1)]
  show "query_writes (ro_silver r) (ba_queries (build_step cfg env r source m a)) =
      query_writes (ro_silver r) (ba_queries a) @ (case sample_write (he_lookup env) m of None \<Rightarrow> [] | Some w \<Rightarrow> [w])"
  proof (cases "can_write (stream_classify m)")
    case True
    show ?thesis
      by (auto simp: build_step_def Let_def assms(2) True bu [OF True] incr_write_sample sample_write_def split: option.split)
  next
    case False
    then show ?thesis
      using plain_query_writes other_writers_no_write
      by (auto simp: build_step_def Let_def assms(2) other_kinds_no_sample)
  qed
  show "ba_state (build_step cfg env r source m a) = ba_state a"
    by (cases "can_write (stream_classify m)")
      (auto simp: build_step_def Let_def assms(2) bu note_error_def split: option.split)
qed

lemma build_all_unclamped:
  assumes "wc_clamp (hc_writer cfg) = None" "\<not> hc_po_control cfg"
  shows "query_writes (ro_silver r) (ba_queries (build_all cfg env r source ms st)) = List.map_filter (sample_write (he_lookup env)) ms"
    and "ba_state (build_all cfg env r source ms st) = st"
proof -
  have "query_writes (ro_silver r) (ba_queries (fold (build_step cfg env r source) ms a))
      = query_writes (ro_silver r) (ba_queries a) @ List.map_filter (sample_write (he_lookup env)) ms
     \<and> ba_state (fold (build_step cfg env r source) ms a) = ba_state a" for a
    by (induction ms arbitrary: a) (auto simp: build_step_unclamped [OF assms] List.map_filter_def split: option.split)
  then show "query_writes (ro_silver r) (ba_queries (build_all cfg env r source ms st)) = List.map_filter (sample_write (he_lookup env)) ms"
    "ba_state (build_all cfg env r source ms st) = st" by (simp_all add: build_all_def)
qed

text \<open>The table of the route a delivery takes, and the increments the delivery asks for.\<close>

definition silver_incrs :: "handler_cfg \<Rightarrow> string \<Rightarrow> stream_state \<Rightarrow> incr_map" where
  "silver_incrs cfg source st =
     (let r = route_for_source (hc_analytics cfg) source in incrs (ss_dbs st (ro_pool r) (ro_silver r)))"

definition payload_writes :: "handler_cfg \<Rightarrow> handler_env \<Rightarrow> stream_payload \<Rightarrow> ((metric_kind \<times> int \<times> int) \<times> f64) list" where
  "payload_writes cfg env p0 =
     (case apply_birth_bound (he_lookup env) (he_by_id env) (hc_switched cfg) (normalize_timestamps (he_now_ms env) p0) of
        None \<Rightarrow> [] | Some p \<Rightarrow> List.map_filter (sample_write (he_lookup env)) (sp_metrics p))"

lemma incrs_write_dq [simp]: "incrs (fold write_dq evs t) = incrs t"
  by (induction evs arbitrary: t) (simp_all add: write_dq_def)

lemma incrs_emit_dq [simp]: "incrs (emit_clamp_dq ok sc evs db sc') = incrs (db sc')"
  by (simp add: emit_clamp_dq_def)

lemma silver_on_pool:
  "silver_incrs cfg source (on_pool (ro_pool r) f st) = incrs (f (ss_dbs st (ro_pool r)) (ro_silver r))"
  if "r = route_for_source (hc_analytics cfg) source"
  using that by (simp add: silver_incrs_def on_pool_def Let_def)

lemma process_refines:
  assumes "wc_clamp (hc_writer cfg) = None" "\<not> hc_po_control cfg" "he_batch_ok env"
  shows "silver_incrs cfg (sp_source_type p) (snd (process cfg env p st)) =
      silver_incrs cfg (sp_source_type p) st ++ map_of (rev (List.map_filter (sample_write (he_lookup env)) (sp_metrics p)))"
    and "ss_clamp (snd (process cfg env p st)) = ss_clamp st"
proof -
  define r where "r = route_for_source (hc_analytics cfg) (sp_source_type p)"
  define a where "a = build_all cfg env r (sp_source_type p) (sp_metrics p) st"
  have w: "query_writes (ro_silver r) (ba_queries a) = List.map_filter (sample_write (he_lookup env)) (sp_metrics p)"
    and s: "ba_state a = st"
    using build_all_unclamped [OF assms(1,2)] by (simp_all add: a_def)
  have p: "snd (process cfg env p st) = (if ba_queries a = [] then st
      else on_pool (ro_pool r) (emit_clamp_dq (he_dq_ok env) (ro_ev r) (ba_events a))
             (on_pool (ro_pool r) (exec_batch (he_now_ms env) (ba_queries a)) st))"
    by (simp add: process_def Let_def assms(3) s flip: r_def a_def)
  show "silver_incrs cfg (sp_source_type p) (snd (process cfg env p st)) =
      silver_incrs cfg (sp_source_type p) st ++ map_of (rev (List.map_filter (sample_write (he_lookup env)) (sp_metrics p)))"
  proof (cases "ba_queries a = []")
    case True
    with w have "List.map_filter (sample_write (he_lookup env)) (sp_metrics p) = []" by simp
    with True show ?thesis by (simp add: p)
  next
    case False
    then show ?thesis
      by (simp add: p silver_on_pool [OF r_def] w [symmetric] exec_batch_incrs) (simp add: on_pool_def exec_batch_incrs silver_incrs_def flip: r_def)
  qed
  show "ss_clamp (snd (process cfg env p st)) = ss_clamp st" by (simp add: p on_pool_def)
qed

lemma sp_source_normalize [simp]: "sp_source_type (normalize_timestamps now p) = sp_source_type p"
  by (simp add: normalize_timestamps_def)

lemma sp_source_bound: "apply_birth_bound lookup by_id sw p = Some p' \<Longrightarrow> sp_source_type p' = sp_source_type p"
  by (auto simp: apply_birth_bound_def split: if_splits)

lemma handle_refines_step:
  assumes "wc_clamp (hc_writer cfg) = None" "\<not> hc_po_control cfg" "he_batch_ok env" "sp_source_type p \<noteq> ''go''"
  shows "silver_incrs cfg (sp_source_type p) (snd (handle cfg env (BodyEnvelope p) st)) =
      silver_incrs cfg (sp_source_type p) st ++ map_of (rev (payload_writes cfg env p))"
proof (cases "apply_birth_bound (he_lookup env) (he_by_id env) (hc_switched cfg) (normalize_timestamps (he_now_ms env) p)")
  case None
  with assms(4) show ?thesis by (simp add: handle_def payload_writes_def Let_def)
next
  case (Some p')
  with assms(4) sp_source_bound [OF Some] process_refines(1) [OF assms(1-3), of p' st]
  show ?thesis by (simp add: handle_def payload_writes_def Let_def)
qed

text \<open>
  C2: With the clamp and the order executor off, a delivery whose batch succeeds leaves in the
  increment columns of its route exactly the last increment it carries for each counter,
  equipment and second, and every other increment as it was.
\<close>

theorem handle_refines_increments:
  assumes "wc_clamp (hc_writer cfg) = None" "\<not> hc_po_control cfg" "he_batch_ok env" "sp_source_type p \<noteq> ''go''"
  shows "silver_incrs cfg (sp_source_type p) (snd (handle cfg env (BodyEnvelope p) st)) =
      silver_incrs cfg (sp_source_type p) st ++ map_of (rev (payload_writes cfg env p))"
  by (rule handle_refines_step [OF assms])


section \<open>A delivery for the witnesses\<close>

definition demo_writer :: "clamp_cfg option \<Rightarrow> writer_cfg" where
  "demo_writer cc = \<lparr>wc_clamp = cc, wc_seeding = False, wc_shifts = None, wc_fold_shift = False,
     wc_bronze_raw = False, wc_public_totals = False, wc_date = (\<lambda>_. 0)\<rparr>"

definition demo_handler :: "clamp_cfg option \<Rightarrow> handler_cfg" where
  "demo_handler cc = \<lparr>hc_writer = demo_writer cc, hc_analytics = False, hc_legacy_ingest = False, hc_switched = [],
     hc_po_control = False\<rparr>"

definition demo_info :: equipment_info where
  "demo_info = \<lparr>ei_enterprise = 3, ei_site = 1, ei_area = 1, ei_equipment = 57, ei_signal_quality = None,
     ei_day_begin = None, ei_status_type = 4, ei_production_speed = None\<rparr>"

definition demo_env :: handler_env where
  "demo_env = \<lparr>he_now_ms = 1790000000000, he_lookup = (\<lambda>_. Some (Some demo_info)), he_by_id = (\<lambda>_. Some None),
     he_seed_ok = True, he_batch_ok = True, he_dq_ok = True, he_po = (\<lambda>_ _ dbs. dbs)\<rparr>"

definition demo_metric :: "string \<Rightarrow> int \<Rightarrow> json \<Rightarrow> f64 option \<Rightarrow> stream_metric" where
  "demo_metric n ts v c = \<lparr>sm_name = n, sm_timestamp = ts, sm_value = v, sm_counter = c, sm_curspeed = None,
     sm_alias = JAbsent, sm_faults = None, sm_id = None, sm_id_equipment = None, sm_role = [], sm_bound = None,
     sm_quarantined = False\<rparr>"

definition demo_stream_payload :: "stream_metric list \<Rightarrow> stream_payload" where
  "demo_stream_payload ms = \<lparr>sp_timestamp = 1790000000000, sp_gateway = [], sp_metrics = ms, sp_source_type = [],
     sp_id_enterprise = None\<rparr>"

definition empty_tables :: schema_tables where
  "empty_tables = \<lparr>st_values = [], st_raw = [], st_events = [], st_raw_events = [], st_live = [], st_dq = []\<rparr>"

definition empty_stream :: stream_state where
  "empty_stream = \<lparr>ss_dbs = (\<lambda>_ _. empty_tables), ss_clamp = new_clamp_state\<rparr>"

lemmas demo_stream = demo_writer_def demo_handler_def demo_info_def demo_env_def demo_metric_def
  demo_stream_payload_def empty_tables_def empty_stream_def

lemma handler_demo [simp]:
  "wc_clamp (hc_writer (demo_handler cc)) = cc" "\<not> hc_po_control (demo_handler cc)" "hc_switched (demo_handler cc) = []"
  "he_batch_ok demo_env" "he_lookup demo_env t = Some (Some demo_info)"
  "sp_source_type (demo_stream_payload ms) = []"
  by (simp_all add: demo_stream)

lemma demo_metric_simps [simp]:
  "sm_value (demo_metric n ts v c) = v" "sm_counter (demo_metric n ts v c) = c" "sm_timestamp (demo_metric n ts v c) = ts"
  "sm_curspeed (demo_metric n ts v c) = None" "sm_bound (demo_metric n ts v c) = None"
  "\<not> sm_quarantined (demo_metric n ts v c)" "sp_metrics (demo_stream_payload ms) = ms" "ei_equipment demo_info = 57"
  by (simp_all add: demo_stream)

definition net_topic :: string where
  "net_topic = ''A/S/L/U/U/Admin/ProdProcessedCount''"

lemma net_topic_kind: "stream_classify (demo_metric net_topic ts v c) = SkProcessed"
  by (simp add: stream_classify_def topic_parts_def demo_metric_def) code_simp

lemma demo_writes:
  assumes "min_plausible_ts \<le> ts" "\<bar>v\<bar> \<le> 1000000000000"
  shows "payload_writes (demo_handler None) demo_env (demo_stream_payload [demo_metric net_topic ts (JNum (Fin v)) c])
    = [((SkProcessed, ts div 1000, 57), Fin v)]"
proof -
  have "normalize_timestamps t (demo_stream_payload [demo_metric net_topic ts (JNum (Fin v)) c])
      = demo_stream_payload [demo_metric net_topic ts (JNum (Fin v)) c]" for t
    using assms(1) normalize_keeps [of "demo_metric net_topic ts (JNum (Fin v)) c"]
    by (simp add: normalize_timestamps_def demo_stream_payload_def demo_metric_def)
  with assms(2) show ?thesis
    by (simp add: payload_writes_def apply_birth_bound_def sample_write_def net_topic_kind stream_resolve_metric_def
        List.map_filter_def parse_numeric_value_def absurd_value_def second_of_def)
qed

theorem handle_refines_increments_witness:
  "silver_incrs (demo_handler None) [] (snd (handle (demo_handler None) demo_env
      (BodyEnvelope (demo_stream_payload [demo_metric net_topic 1790000000500 (JNum (Fin 5)) None])) empty_stream))
     (SkProcessed, 1790000000, 57) = Some (Fin 5)"
  using handle_refines_increments [of "demo_handler None" demo_env
      "demo_stream_payload [demo_metric net_topic 1790000000500 (JNum (Fin 5)) None]" empty_stream]
  by (simp add: demo_writes min_plausible_ts_def)


section \<open>A redelivered increment under the clamp\<close>

text \<open>A count sample of a registered equipment with a plausible value and a totalizer.\<close>

definition count_sample :: "topic_lookup \<Rightarrow> stream_metric \<Rightarrow> equipment_info \<Rightarrow> rat \<Rightarrow> rat \<Rightarrow> bool" where
  "count_sample lookup m i v a \<longleftrightarrow> is_count (stream_classify m) \<and> stream_resolve_metric lookup m = Some (Some i)
     \<and> parse_numeric_value (sm_value m) = Some (Fin v) \<and> sm_counter m = Some (Fin a)
     \<and> repr v \<and> 100 \<le> v \<and> v \<le> 1000000000000 \<and> 0 < a"

text \<open>A current-speed metric whose value is not a number: its error fails the delivery.\<close>

definition bad_speed :: "topic_lookup \<Rightarrow> stream_metric \<Rightarrow> bool" where
  "bad_speed lookup m \<longleftrightarrow> stream_classify m = SkCurSpeed \<and> unmarshal_float (sm_value m) = None
     \<and> (\<exists>i. stream_resolve_metric lookup m = Some (Some i))"

definition sample_key :: "stream_metric \<Rightarrow> equipment_info \<Rightarrow> metric_kind \<times> int \<times> int" where
  "sample_key m i = (stream_classify m, second_of (sm_timestamp m), ei_equipment i)"

lemma build_count:
  assumes "count_sample lookup m i v a"
  shows "build w lookup seeder sc m cl =
    (case clamp_block w seeder (stream_classify m) m i (Fin v) cl of ((v', ev), cl') \<Rightarrow>
      (Inr (Some (sc, sample_stmt (stream_classify m) (sample_base w sc m i) m v'
          (checked_speed w (stream_classify m) m i (ev \<noteq> None))), ev), cl'))"
  using assms by (auto simp: count_sample_def build_def Let_def is_count_can_write absurd_value_def split: prod.split)

lemma cl_abs_clamp_block:
  assumes "count_sample lookup m i v a" "wc_clamp w = Some cc"
  shows "cl_abs (snd (clamp_block w seeder (stream_classify m) m i (Fin v) cl)) (ei_equipment i, stream_classify m) = Some (Fin a)"
  using assms by (auto simp: clamp_block_def count_sample_def Let_def cl_abs_eval)

lemma clamp_block_redelivered:
  assumes "count_sample lookup m i v a" "wc_clamp w = Some cc"
    and "cl_abs cl (ei_equipment i, stream_classify m) = Some (Fin a)"
  shows "\<exists>e. fst (clamp_block w seeder (stream_classify m) m i (Fin v) cl) = (Fin 0, Some e)"
proof -
  have "(1000000000000::rat) \<le> 2 ^ 1000" by simp
  then have v: "repr v" "100 \<le> v" "v \<le> 2 ^ 1000" "0 < a" using assms(1) unfolding count_sample_def by auto
  note verdict = verdict_same_totalizer [OF v]
  have "needs_seed (ei_equipment i) (stream_classify m) cl = (False, cl)" using assms(3) by (simp add: needs_seed_def)
  then show ?thesis
    using assms by (auto simp: clamp_block_def count_sample_def Let_def clamp_eval_fst) (metis verdict)
qed

lemma bad_speed_step:
  assumes "bad_speed (he_lookup env) m"
  shows "build_step cfg env r source m a = note_error (NotANumber SkCurSpeed) a"
  using assms by (auto simp: bad_speed_def build_step_def Let_def uns_build_def plain_query_def)

text \<open>One count followed by a malformed speed: the count is committed and the delivery fails.\<close>

lemma process_count_then_error:
  assumes "sp_metrics p = [m, bad]" "count_sample (he_lookup env) m i v a" "bad_speed (he_lookup env) bad" "he_batch_ok env"
  shows "\<exists>v' ev cl' seeder. clamp_block (hc_writer cfg) seeder (stream_classify m) m i (Fin v) (ss_clamp st) = ((v', ev), cl')
     \<and> (\<exists>st'. process cfg env p st = (Some (BuildFailed (NotANumber SkCurSpeed)), st') \<and> ss_clamp st' = cl'
         \<and> silver_incrs cfg (sp_source_type p) st' = (silver_incrs cfg (sp_source_type p) st)(sample_key m i \<mapsto> v'))"
proof -
  define r where "r = route_for_source (hc_analytics cfg) (sp_source_type p)"
  define w where "w = hc_writer cfg"
  define seeder where "seeder = (\<lambda>eq k ts. seed_lookup (he_seed_ok env) (writes_totals w (ro_silver r))
      (ss_dbs st (seed_pool (hc_analytics cfg) (ro_silver r)) (ro_silver r)) eq k ts)"
  obtain v' ev cl' where cb: "clamp_block w seeder (stream_classify m) m i (Fin v) (ss_clamp st) = ((v', ev), cl')"
    by (metis surj_pair)
  have k: "is_count (stream_classify m)" using assms(2) by (simp add: count_sample_def)
  define q where "q = (ro_silver r, sample_stmt (stream_classify m) (sample_base w (ro_silver r) m i) m v'
      (checked_speed w (stream_classify m) m i (ev \<noteq> None)))"
  define qs where "qs = sample_queries cfg (he_lookup env) r (sp_source_type p) m q"
  define a0 where "a0 = \<lparr>ba_state = st, ba_queries = [], ba_events = [], ba_error = None\<rparr>"
  have step: "build_step cfg env r (sp_source_type p) m a0
      = a0\<lparr>ba_state := st\<lparr>ss_clamp := cl'\<rparr>, ba_queries := qs, ba_events := (case ev of None \<Rightarrow> [] | Some e \<Rightarrow> [e])\<rparr>"
  proof -
    have "stream_classify m \<noteq> SkParameter" using k by auto
    with is_count_can_write [OF k] cb show ?thesis
      by (simp add: build_step_def Let_def a0_def build_count [OF assms(2)] qs_def q_def seeder_def w_def)
  qed
  have acc: "build_all cfg env r (sp_source_type p) (sp_metrics p) st
      = note_error (NotANumber SkCurSpeed) (a0\<lparr>ba_state := st\<lparr>ss_clamp := cl'\<rparr>, ba_queries := qs,
          ba_events := (case ev of None \<Rightarrow> [] | Some e \<Rightarrow> [e])\<rparr>)"
    by (simp add: build_all_def assms(1) step bad_speed_step [OF assms(3)] flip: a0_def)
  have ne: "qs \<noteq> []" by (simp add: qs_def sample_queries_def Let_def)
  have qw: "query_writes (ro_silver r) qs = [(sample_key m i, v')]"
    by (simp add: qs_def q_def incr_write_sample k sample_key_def)
  let ?st1 = "on_pool (ro_pool r) (exec_batch (he_now_ms env) qs) (st\<lparr>ss_clamp := cl'\<rparr>)"
  let ?st2 = "on_pool (ro_pool r) (emit_clamp_dq (he_dq_ok env) (ro_ev r) (case ev of None \<Rightarrow> [] | Some e \<Rightarrow> [e])) ?st1"
  have "process cfg env p st = (Some (BuildFailed (NotANumber SkCurSpeed)), ?st2)"
    using ne by (simp add: process_def Let_def acc assms(4) note_error_def a0_def flip: r_def)
  moreover have "silver_incrs cfg (sp_source_type p) ?st2 = (silver_incrs cfg (sp_source_type p) st)(sample_key m i \<mapsto> v')"
    by (simp add: silver_on_pool [OF r_def]) (simp add: on_pool_def exec_batch_incrs qw silver_incrs_def Let_def flip: r_def)
  ultimately show ?thesis using cb by (auto simp: on_pool_def w_def)
qed

lemma handle_plausible:
  assumes "\<And>m. m \<in> set (sp_metrics p) \<Longrightarrow> min_plausible_ts \<le> sm_timestamp m" "sp_source_type p \<noteq> ''go''" "hc_switched cfg = []"
  shows "handle cfg env (BodyEnvelope p) st = process cfg env p st"
proof -
  have "normalize_timestamps now p = p" for now
    using assms(1) by (simp add: normalize_timestamps_def normalize_keeps map_idI)
  with assms(2,3) show ?thesis by (simp add: handle_def Let_def apply_birth_bound_def)
qed

text \<open>
  With the clamp on, a delivery with a valid count of at least 100 and a malformed speed commits
  the count and is returned for a retry; handling it again replaces the committed increment by
  zero, because the clamp compares the increment with the totalizer it has itself remembered.
\<close>

theorem redelivery_zeroes_count:
  assumes "sp_metrics p = [m, bad]" "sp_source_type p \<noteq> ''go''" "hc_switched cfg = []"
    and "min_plausible_ts \<le> sm_timestamp m" "min_plausible_ts \<le> sm_timestamp bad"
    and "wc_clamp (hc_writer cfg) = Some cc" "count_sample (he_lookup env) m i v a" "bad_speed (he_lookup env) bad"
    and "he_batch_ok env"
    and "\<And>seeder. fst (clamp_block (hc_writer cfg) seeder (stream_classify m) m i (Fin v) (ss_clamp st)) = (Fin v, None)"
    and "handle cfg env (BodyEnvelope p) st = (e1, st1)" "handle cfg env (BodyEnvelope p) st1 = (e2, st2)"
  shows "e1 = Some (BuildFailed (NotANumber SkCurSpeed))
    \<and> silver_incrs cfg (sp_source_type p) st1 (sample_key m i) = Some (Fin v)
    \<and> silver_incrs cfg (sp_source_type p) st2 (sample_key m i) = Some (Fin 0)"
proof -
  have h: "handle cfg env (BodyEnvelope p) s = process cfg env p s" for s
    using assms(1-5) by (intro handle_plausible) auto
  note once = process_count_then_error [OF assms(1,7,8,9)]
  obtain v1 ev1 cl1 seeder1 where 1: "clamp_block (hc_writer cfg) seeder1 (stream_classify m) m i (Fin v) (ss_clamp st) = ((v1, ev1), cl1)"
      "e1 = Some (BuildFailed (NotANumber SkCurSpeed))" "ss_clamp st1 = cl1"
      "silver_incrs cfg (sp_source_type p) st1 = (silver_incrs cfg (sp_source_type p) st)(sample_key m i \<mapsto> v1)"
    using once [where st = st and cfg = cfg] assms(11) by (auto simp: h)
  obtain v2 ev2 cl2 seeder2 where 2: "clamp_block (hc_writer cfg) seeder2 (stream_classify m) m i (Fin v) (ss_clamp st1) = ((v2, ev2), cl2)"
      "silver_incrs cfg (sp_source_type p) st2 = (silver_incrs cfg (sp_source_type p) st1)(sample_key m i \<mapsto> v2)"
    using once [where st = st1 and cfg = cfg] assms(12) by (auto simp: h)
  have "v1 = Fin v" using assms(10) [of seeder1] 1(1) by simp
  moreover have "cl_abs cl1 (ei_equipment i, stream_classify m) = Some (Fin a)"
    using cl_abs_clamp_block [OF assms(7,6), of seeder1 "ss_clamp st"] 1(1) by simp
  from clamp_block_redelivered [OF assms(7,6) this, of seeder2] 1(3) 2(1) have "v2 = Fin 0" by auto
  ultimately show ?thesis using 1 2 by simp
qed

text \<open>A counter that moved from 10000 to 10150 and a speed that is text.\<close>

definition speed_topic :: string where
  "speed_topic = ''A/S/L/U/U/Status/CurMachSpeed''"

lemma speed_topic_kind: "stream_classify (demo_metric speed_topic ts v c) = SkCurSpeed"
  by (simp add: stream_classify_def topic_parts_def demo_metric_def) code_simp

lemma demo_resolve_metric [simp]: "stream_resolve_metric (he_lookup demo_env) (demo_metric n ts v c) = Some (Some demo_info)"
  by (simp add: stream_resolve_metric_def)

lemma demo_accepts:
  assumes "st = new_clamp_state\<lparr>cl_abs := [(57, SkProcessed) \<mapsto> Fin 10000]\<rparr>"
  shows "fst (clamp_block (demo_writer (Some demo_clamp)) seeder SkProcessed
     (demo_metric net_topic ts (JNum (Fin 150)) (Some (Fin 10150))) demo_info (Fin 150) st) = (Fin 150, None)"
proof -
  have i: "ei_production_speed demo_info = None" by (simp add: demo_info_def)
  have w: "wc_clamp (demo_writer (Some demo_clamp)) = Some demo_clamp" "\<not> wc_seeding (demo_writer (Some demo_clamp))"
    by (simp_all add: demo_writer_def)
  have r: "round64 (10150 * (1 / 2)) = Fin 5075" using round64_numeral(1) by simp
  have "\<not> is_spike demo_clamp (Fin 10150) (Fin 150)" using r by (simp add: is_spike_def demo_clamp_def)
  moreover have "unbacked_movement (Some (Fin 10000)) (Fin 10150) (Fin 150) = None"
    by (simp add: unbacked_movement_def unbacked_floor_def Let_def)
  ultimately show ?thesis
    by (simp add: clamp_block_def w i rated_speed_def Let_def clamp_eval_fst assms clamp_verdict_def)
qed

theorem redelivery_zeroes_count_witness:
  "let m = demo_metric net_topic 1790000000500 (JNum (Fin 150)) (Some (Fin 10150));
       bad = demo_metric speed_topic 1790000000500 (JStr ''fast'') None;
       st = empty_stream\<lparr>ss_clamp := new_clamp_state\<lparr>cl_abs := [(57, SkProcessed) \<mapsto> Fin 10000]\<rparr>\<rparr>;
       h = (\<lambda>s. snd (handle (demo_handler (Some demo_clamp)) demo_env (BodyEnvelope (demo_stream_payload [m, bad])) s));
       key = (SkProcessed, 1790000000, 57)
   in silver_incrs (demo_handler (Some demo_clamp)) [] (h st) key = Some (Fin 150)
    \<and> silver_incrs (demo_handler (Some demo_clamp)) [] (h (h st)) key = Some (Fin 0)"
proof -
  let ?cfg = "demo_handler (Some demo_clamp)"
  define m where "m = demo_metric net_topic 1790000000500 (JNum (Fin 150)) (Some (Fin 10150))"
  define bad where "bad = demo_metric speed_topic 1790000000500 (JStr ''fast'') None"
  define st where "st = empty_stream\<lparr>ss_clamp := new_clamp_state\<lparr>cl_abs := [(57, SkProcessed) \<mapsto> Fin 10000]\<rparr>\<rparr>"
  let ?p = "demo_stream_payload [m, bad]"
  have cs: "count_sample (he_lookup demo_env) m demo_info 150 10150"
    using repr_of_int [of 150]
    by (simp add: count_sample_def m_def net_topic_kind parse_numeric_value_def del: handler_demo)
  have bs: "bad_speed (he_lookup demo_env) bad"
    by (simp add: bad_speed_def bad_def speed_topic_kind unmarshal_float_def del: handler_demo)
  have acc: "fst (clamp_block (hc_writer ?cfg) seeder (stream_classify m) m demo_info (Fin 150) (ss_clamp st)) = (Fin 150, None)" for seeder
    using demo_accepts by (simp add: demo_handler_def m_def net_topic_kind st_def)
  have key: "sample_key m demo_info = (SkProcessed, 1790000000, 57)"
    by (simp add: sample_key_def m_def net_topic_kind second_of_def)
  obtain e1 st1 e2 st2 where h: "handle ?cfg demo_env (BodyEnvelope ?p) st = (e1, st1)"
      "handle ?cfg demo_env (BodyEnvelope ?p) st1 = (e2, st2)" by (metis surj_pair)
  have "silver_incrs ?cfg [] st1 (sample_key m demo_info) = Some (Fin 150)"
    "silver_incrs ?cfg [] st2 (sample_key m demo_info) = Some (Fin 0)"
    using redelivery_zeroes_count [where p = ?p and m = m and bad = bad and cfg = ?cfg and env = demo_env and cc = demo_clamp
        and i = demo_info and v = 150 and a = 10150 and st = st, OF _ _ _ _ _ _ cs bs _ acc h]
    by (simp_all add: m_def bad_def min_plausible_ts_def)
  then show ?thesis unfolding Let_def m_def [symmetric] bad_def [symmetric] st_def [symmetric] using h key by simp
qed

section \<open>Sums of increments\<close>

text \<open>A sequence of deliveries that all succeed, on one route.\<close>

fun handle_run :: "handler_cfg \<Rightarrow> (handler_env \<times> stream_payload) list \<Rightarrow> stream_state \<Rightarrow> stream_state" where
  "handle_run cfg [] st = st"
| "handle_run cfg ((env, p) # ds) st = handle_run cfg ds (snd (handle cfg env (BodyEnvelope p) st))"

definition run_writes :: "handler_cfg \<Rightarrow> (handler_env \<times> stream_payload) list \<Rightarrow> ((metric_kind \<times> int \<times> int) \<times> f64) list" where
  "run_writes cfg ds = concat (map (\<lambda>(env, p). payload_writes cfg env p) ds)"

lemma handle_run_refines:
  assumes "wc_clamp (hc_writer cfg) = None" "\<not> hc_po_control cfg" "source \<noteq> ''go''"
    and "\<And>env p. (env, p) \<in> set ds \<Longrightarrow> he_batch_ok env \<and> sp_source_type p = source"
  shows "silver_incrs cfg source (handle_run cfg ds st) = silver_incrs cfg source st ++ map_of (rev (run_writes cfg ds))"
  using assms(4)
proof (induction ds arbitrary: st)
  case (Cons d ds)
  obtain env p where d: "d = (env, p)" by fastforce
  have "silver_incrs cfg source (snd (handle cfg env (BodyEnvelope p) st)) = silver_incrs cfg source st ++ map_of (rev (payload_writes cfg env p))"
    using handle_refines_step [OF assms(1,2), of env p st] Cons.prems [of env p] assms(3) by (simp add: d)
  moreover have "silver_incrs cfg source (handle_run cfg ds s) = silver_incrs cfg source s ++ map_of (rev (run_writes cfg ds))" for s
    by (rule Cons.IH) (use Cons.prems in auto)
  ultimately show ?case by (simp add: d run_writes_def)
qed (simp add: run_writes_def)

fun float_value :: "f64 \<Rightarrow> rat" where
  "float_value (Fin x) = x" | "float_value _ = 0"

definition table_sum :: "incr_map \<Rightarrow> (metric_kind \<times> int \<times> int) list \<Rightarrow> rat" where
  "table_sum t keys = sum_list (map (\<lambda>k. case t k of None \<Rightarrow> 0 | Some v \<Rightarrow> float_value v) keys)"

lemma table_sum_distinct:
  assumes "distinct (map fst ws)"
  shows "table_sum (t ++ map_of (rev ws)) (map fst ws) = sum_list (map (float_value \<circ> snd) ws)"
proof -
  have dr: "distinct (map fst (rev ws))" using assms by (simp only: rev_map [symmetric] distinct_rev)
  have "(t ++ map_of (rev ws)) (fst w) = Some (snd w)" if "w \<in> set ws" for w
    using map_of_is_SomeI [OF dr, of "fst w" "snd w"] that by simp
  then have "map (\<lambda>k. case (t ++ map_of (rev ws)) k of None \<Rightarrow> 0 | Some v \<Rightarrow> float_value v) (map fst ws) = map (float_value \<circ> snd) ws"
    by simp
  then show ?thesis unfolding table_sum_def by (rule arg_cong)
qed

text \<open>
  With the clamp off, the increments of any sequence of deliveries whose samples fall into different
  seconds of their counters add up in the table to exactly the sum of the increments delivered.
\<close>

theorem increments_add_up:
  assumes "wc_clamp (hc_writer cfg) = None" "\<not> hc_po_control cfg" "source \<noteq> ''go''"
    and "\<And>env p. (env, p) \<in> set ds \<Longrightarrow> he_batch_ok env \<and> sp_source_type p = source"
    and "distinct (map fst (run_writes cfg ds))"
  shows "table_sum (silver_incrs cfg source (handle_run cfg ds st)) (map fst (run_writes cfg ds))
       = sum_list (map (float_value \<circ> snd) (run_writes cfg ds))"
proof -
  have "silver_incrs cfg source (handle_run cfg ds st) = silver_incrs cfg source st ++ map_of (rev (run_writes cfg ds))"
    by (rule handle_run_refines [OF assms(1-3)]) (rule assms(4))
  then show ?thesis by (simp add: table_sum_distinct [OF assms(5)])
qed

text \<open>
  Two samples of one counter within a second leave only the later increment: the earlier
  delivery's production is missing from the table.
\<close>

theorem same_second_increment_lost:
  assumes "wc_clamp (hc_writer cfg) = None" "\<not> hc_po_control cfg" "source \<noteq> ''go''"
    and "he_batch_ok env1 \<and> sp_source_type p1 = source" "he_batch_ok env2 \<and> sp_source_type p2 = source"
    and "payload_writes cfg env1 p1 = [(k, Fin v1)]" "payload_writes cfg env2 p2 = [(k, Fin v2)]" "v1 \<noteq> 0"
  shows "table_sum (silver_incrs cfg source (handle_run cfg [(env1, p1), (env2, p2)] st)) [k] = v2
    \<and> table_sum (silver_incrs cfg source (handle_run cfg [(env1, p1), (env2, p2)] st)) [k]
       \<noteq> sum_list (map (float_value \<circ> snd) (run_writes cfg [(env1, p1), (env2, p2)]))"
proof -
  have "silver_incrs cfg source (handle_run cfg [(env1, p1), (env2, p2)] st)
      = silver_incrs cfg source st ++ map_of (rev (run_writes cfg [(env1, p1), (env2, p2)]))"
    by (rule handle_run_refines [OF assms(1-3)]) (use assms(4,5) in auto)
  then show ?thesis using assms(8) by (simp add: run_writes_def assms(6,7) table_sum_def)
qed

theorem increments_add_up_witness:
  "table_sum (silver_incrs (demo_handler None) [] (handle_run (demo_handler None)
      [(demo_env, demo_stream_payload [demo_metric net_topic 1790000000500 (JNum (Fin 5)) None]),
       (demo_env, demo_stream_payload [demo_metric net_topic 1790000001500 (JNum (Fin 7)) None])] empty_stream))
     [(SkProcessed, 1790000000, 57), (SkProcessed, 1790000001, 57)] = 12"
proof -
  let ?ds = "[(demo_env, demo_stream_payload [demo_metric net_topic 1790000000500 (JNum (Fin 5)) None]),
       (demo_env, demo_stream_payload [demo_metric net_topic 1790000001500 (JNum (Fin 7)) None])]"
  have "he_batch_ok env \<and> sp_source_type p = []" if "(env, p) \<in> set ?ds" for env p
    using that by auto
  from increments_add_up [of "demo_handler None" "[]" ?ds empty_stream, OF _ _ _ this]
  show ?thesis by (simp add: run_writes_def demo_writes min_plausible_ts_def)
qed

theorem same_second_increment_lost_witness:
  "table_sum (silver_incrs (demo_handler None) [] (handle_run (demo_handler None)
      [(demo_env, demo_stream_payload [demo_metric net_topic 1790000000100 (JNum (Fin 5)) None]),
       (demo_env, demo_stream_payload [demo_metric net_topic 1790000000900 (JNum (Fin 7)) None])] empty_stream))
     [(SkProcessed, 1790000000, 57)] = 7"
  using same_second_increment_lost [of "demo_handler None" "[]" demo_env
      "demo_stream_payload [demo_metric net_topic 1790000000100 (JNum (Fin 5)) None]" demo_env
      "demo_stream_payload [demo_metric net_topic 1790000000900 (JNum (Fin 7)) None]" "(SkProcessed, 1790000000, 57)" 5 7 empty_stream]
  by (simp add: demo_writes min_plausible_ts_def)

section \<open>Birth-bound routing\<close>

lemma bind_stream_metrics_all2:
  "bind_stream_metrics lookup by_id sw ent ms = Some ms' \<Longrightarrow>
     list_all2 (\<lambda>m m'. bind_stream_metric lookup by_id sw ent m = Some m') ms ms'"
  by (induction ms arbitrary: ms') (auto split: option.splits)

lemma bind_keeps_topic:
  "bind_stream_metric lookup by_id sw ent m = Some m' \<Longrightarrow>
     sm_name m' = sm_name m \<and> sm_id m' = sm_id m \<and> sm_id_equipment m' = sm_id_equipment m"
  by (auto simp: bind_stream_metric_def split: if_splits option.splits)

lemma list_all2_source: "list_all2 P xs ys \<Longrightarrow> y \<in> set ys \<Longrightarrow> \<exists>x\<in>set xs. P x y"
  by (induction rule: list_all2_induct) auto

text \<open>A metric as \<open>Parse\<close> leaves it: no decision recorded yet.\<close>

definition undecided :: "stream_metric \<Rightarrow> bool" where
  "undecided m \<longleftrightarrow> sm_bound m = None \<and> \<not> sm_quarantined m"

text \<open>
  C16: After the pre-pass a bindable metric reaches an equipment of a switched tenant in exactly two ways:
  by the id the decoder stamped, for the tenant it stamped, or by its topic when the payload is
  stamped for a tenant that is not switched.
\<close>

theorem switched_tenant_routes:
  assumes "apply_birth_bound lookup by_id sw p = Some p'" "sw \<noteq> []" "m' \<in> set (sp_metrics p')"
    and "\<And>m. m \<in> set (sp_metrics p) \<Longrightarrow> undecided m"
    and "is_bindable (stream_classify m')" "stream_resolve_metric lookup m' = Some (Some i)" "ei_enterprise i \<in> set sw"
  shows "(\<exists>n. stamped_equipment m' = Some n \<and> by_id n = Some (Some i) \<and> stamped_enterprise p = Some (ei_enterprise i))
       \<or> (\<exists>e. stamped_equipment m' \<noteq> None \<and> stamped_enterprise p = Some e \<and> e \<notin> set sw
            \<and> lookup (topic_for_register m') = Some (Some i))"
proof -
  obtain ms' where ms: "bind_stream_metrics lookup by_id (\<lambda>e. e \<in> set sw) (stamped_enterprise p) (sp_metrics p) = Some ms'"
      "p' = p\<lparr>sp_metrics := ms'\<rparr>"
    using assms(1,2) by (auto simp: apply_birth_bound_def)
  obtain m where m: "m \<in> set (sp_metrics p)"
      "bind_stream_metric lookup by_id (\<lambda>e. e \<in> set sw) (stamped_enterprise p) m = Some m'"
    using list_all2_source [OF bind_stream_metrics_all2 [OF ms(1)]] assms(3) ms(2) by auto
  note keep = bind_keeps_topic [OF m(2)]
  have same: "stream_classify m' = stream_classify m" "topic_for_register m' = topic_for_register m"
      "stamped_equipment m' = stamped_equipment m"
    using keep by (simp_all add: stream_classify_def topic_parts_def topic_for_register_def stamped_equipment_def)
  have u: "sm_bound m = None" "\<not> sm_quarantined m" using assms(4) [OF m(1)] by (auto simp: undecided_def)
  show ?thesis
    using m(2) assms(5-7) u unfolding same
    by (auto simp: bind_stream_metric_def stream_resolve_metric_def split: if_splits option.splits)
qed

text \<open>Tenant 3 is switched; a payload stamped for tenant 5 carries a metric whose topic is tenant 3's.\<close>

definition demo_foreign :: stream_payload where
  "demo_foreign = (demo_stream_payload [(demo_metric net_topic 1790000000500 (JNum (Fin 5)) None)\<lparr>sm_id_equipment := Some 9\<rparr>])
     \<lparr>sp_id_enterprise := Some 5\<rparr>"

definition demo_switched :: handler_cfg where
  "demo_switched = (demo_handler None)\<lparr>hc_switched := [3]\<rparr>"

lemma foreign_kind: "stream_classify ((demo_metric net_topic ts v c)\<lparr>sm_id_equipment := e\<rparr>) = SkProcessed"
  using net_topic_kind [of ts v c] by (simp add: stream_classify_def topic_parts_def)

lemma foreign_payload:
  "apply_birth_bound (he_lookup demo_env) (he_by_id demo_env) [3] (normalize_timestamps t demo_foreign) = Some demo_foreign"
proof -
  have "normalize_timestamps t demo_foreign = demo_foreign"
    by (simp add: demo_foreign_def demo_stream_payload_def normalize_timestamps_def normalize_keeps min_plausible_ts_def)
  then show ?thesis
    by (simp add: apply_birth_bound_def demo_foreign_def bind_stream_metric_def foreign_kind stamped_equipment_def stamped_enterprise_def)
qed

text \<open>
  A payload stamped for a tenant that is not switched writes by topic into the equipment of a
  switched one: the stamp that contradicts the topic neither binds nor quarantines the metric.
\<close>

theorem foreign_stamp_reaches_switched_tenant:
  "ei_enterprise demo_info \<in> set (hc_switched demo_switched) \<and> stamped_enterprise demo_foreign = Some 5
   \<and> silver_incrs demo_switched [] (snd (handle demo_switched demo_env (BodyEnvelope demo_foreign) empty_stream))
       (SkProcessed, 1790000000, 57) = Some (Fin 5)"
proof -
  have w: "payload_writes demo_switched demo_env demo_foreign = [((SkProcessed, 1790000000, 57), Fin 5)]"
    using foreign_payload
    by (simp add: payload_writes_def demo_switched_def)
      (simp add: demo_foreign_def List.map_filter_def sample_write_def foreign_kind stream_resolve_metric_def parse_numeric_value_def
        absurd_value_def second_of_def)
  have c: "wc_clamp (hc_writer demo_switched) = None" "\<not> hc_po_control demo_switched" "sp_source_type demo_foreign = []"
    "ei_enterprise demo_info = 3" "hc_switched demo_switched = [3]" "stamped_enterprise demo_foreign = Some 5"
    by (simp_all add: demo_switched_def demo_foreign_def stamped_enterprise_def demo_info_def)
  show ?thesis using handle_refines_step [of demo_switched demo_env demo_foreign empty_stream] w c by simp
qed

theorem switched_tenant_routes_witness:
  "let m = hd (sp_metrics demo_foreign) in
     (\<exists>n. stamped_equipment m = Some n \<and> he_by_id demo_env n = Some (Some demo_info)
        \<and> stamped_enterprise demo_foreign = Some (ei_enterprise demo_info))
   \<or> (\<exists>e. stamped_equipment m \<noteq> None \<and> stamped_enterprise demo_foreign = Some e \<and> e \<notin> set [3]
        \<and> he_lookup demo_env (topic_for_register m) = Some (Some demo_info))"
proof -
  let ?m = "hd (sp_metrics demo_foreign)"
  have n: "normalize_timestamps 0 demo_foreign = demo_foreign"
    by (simp add: demo_foreign_def demo_stream_payload_def normalize_timestamps_def normalize_keeps min_plausible_ts_def)
  have mem: "?m \<in> set (sp_metrics demo_foreign)" by (simp add: demo_foreign_def)
  have und: "undecided m" if "m \<in> set (sp_metrics demo_foreign)" for m
    using that by (auto simp: demo_foreign_def undecided_def)
  have k: "is_bindable (stream_classify ?m)" by (simp add: demo_foreign_def foreign_kind)
  have r: "stream_resolve_metric (he_lookup demo_env) ?m = Some (Some demo_info)"
    by (simp add: demo_foreign_def stream_resolve_metric_def)
  have e: "ei_enterprise demo_info \<in> set [3]" by (simp add: demo_info_def)
  from switched_tenant_routes [OF foreign_payload [of 0, unfolded n] _ mem und k r e]
  show ?thesis by (simp add: Let_def)
qed

end
