(* ===== verification/PoControl.thy ===== *)
theory PoControl
  imports StreamWriters
begin

text \<open>
  The production-order lifecycle of the stream engine (internal/pocontrol: decide.go and the
  lifecycle part of pocontrol.go): parameters 30800 (start), 30801 (end), 30802 (resume) and
  30803 (pause). One command is one transaction over the orders, their runtime segments and
  the equipment values; a command that fails leaves the tables unchanged and is dropped.
  The other parameters of the package (30700, 30805 and the event and setup families) have
  executors of their own (PoExecutors).
\<close>

section \<open>Tables\<close>

text \<open>
  A \<open>tstzrange\<close> with bounds \<open>'[)'\<close>: empty, or from a second to an optional second. \<open>lower\<close> and
  \<open>upper\<close> of the empty range are NULL. Bounds in the wrong order are an error.
\<close>

datatype ts_range = EmptyRange | TsRange int "int option"

definition mk_range :: "int \<Rightarrow> int \<Rightarrow> ts_range option" where
  "mk_range l u = (if u < l then None else if u = l then Some EmptyRange else Some (TsRange l (Some u)))"

fun range_lower :: "ts_range \<Rightarrow> int option" where
  "range_lower EmptyRange = None" | "range_lower (TsRange l u) = Some l"

fun range_upper :: "ts_range \<Rightarrow> int option" where
  "range_upper EmptyRange = None" | "range_upper (TsRange l u) = u"

record po_row =
  po_id :: int
  po_equipment :: int
  po_status :: int
  po_ts_start :: "int option"
  po_ts_end :: "int option"
  po_notes :: "string option"
  po_final :: "f64 option"
  po_number :: "string option"       \<comment> \<open>\<open>id_order_text\<close>\<close>
  po_int_number :: "int option"      \<comment> \<open>\<open>id_order\<close>\<close>
  po_enterprise :: int
  po_site :: int
  po_area :: int
  po_product :: "int option"
  po_client :: "int option"
  po_ordered :: "f64 option"
  po_creation :: "int option"
  po_description :: "string option"
  po_conversion :: "f64 option"
  po_custom :: "string option"

record runtime_row =
  ru_po :: int
  ru_equipment :: int
  ru_range :: ts_range
  ru_recalc :: bool

record po_db =
  pd_orders :: "po_row list"
  pd_runtime :: "runtime_row list"
  pd_values :: "((int \<times> int) \<times> ev_row) list"

section \<open>Decisions\<close>

record running_order =
  rp_id :: int
  rp_ts_lower :: int

record end_plan =
  ep_id :: int
  ep_new_status :: int
  ep_ts_lower :: int

record start_plan =
  sp_temp_status :: int
  sp_prev_status :: int
  sp_juggle :: bool
  sp_end_prev :: "end_plan option"
  sp_restore_id :: int

text \<open>\<open>None\<close> is a no-op. Statuses: 1 available, 2 running, 3 finished, 4 paused.\<close>

definition decide_start :: "int \<Rightarrow> int \<Rightarrow> int \<Rightarrow> running_order option \<Rightarrow> start_plan option" where
  "decide_start param target status running =
     (if status \<noteq> 1 \<and> status \<noteq> 4 then None
      else let prev = (if param = 30802 then 4 else 3)
           in case running of
             None \<Rightarrow> Some \<lparr>sp_temp_status = 2, sp_prev_status = prev, sp_juggle = False, sp_end_prev = None, sp_restore_id = 0\<rparr>
           | Some r \<Rightarrow> Some \<lparr>sp_temp_status = 4, sp_prev_status = prev, sp_juggle = True,
               sp_end_prev = Some \<lparr>ep_id = rp_id r, ep_new_status = prev, ep_ts_lower = rp_ts_lower r\<rparr>,
               sp_restore_id = target\<rparr>)"

definition decide_end :: "int \<Rightarrow> running_order option \<Rightarrow> end_plan option" where
  "decide_end param running =
     map_option (\<lambda>r. \<lparr>ep_id = rp_id r, ep_new_status = (if param = 30803 then 4 else 3), ep_ts_lower = rp_ts_lower r\<rparr>) running"

section \<open>Queries\<close>

record param_payload =
  pp_value :: "int option"           \<comment> \<open>\<open>Value.Int64()\<close>\<close>
  pp_id_order :: string
  pp_timestamp :: "int option"
  pp_note :: string
  pp_prod_final :: "f64 option"

text \<open>\<open>legacyIntOrder\<close>.\<close>

definition legacy_int_order :: "string \<Rightarrow> int option" where
  "legacy_int_order s = (case atoi s of None \<Rightarrow> None
     | Some n \<Rightarrow> if - 2147483648 \<le> n \<and> n \<le> 2147483647 then Some n else None)"

text \<open>
  \<open>lcTargetByNumber\<close>: the order of the result is by the text match, descending with NULL first,
  then by id, descending.
\<close>

definition match_rank :: "string \<Rightarrow> po_row \<Rightarrow> int" where
  "match_rank num r = (case po_number r of None \<Rightarrow> 0 | Some t \<Rightarrow> if t = num then 1 else 2)"

definition target_by_number :: "int \<Rightarrow> string \<Rightarrow> po_row list \<Rightarrow> int option" where
  "target_by_number eq num rows =
     (case sort_key (match_rank num) (sort_key (\<lambda>r. - po_id r)
        (filter (\<lambda>r. po_equipment r = eq \<and> (po_number r = Some num
           \<or> (legacy_int_order num \<noteq> None \<and> po_int_number r = legacy_int_order num))) rows)) of
        [] \<Rightarrow> None | r # _ \<Rightarrow> Some (po_id r))"

text \<open>\<open>resolveTargetID\<close>, 0 when there is no target.\<close>

definition resolve_target_id :: "int \<Rightarrow> param_payload \<Rightarrow> po_db \<Rightarrow> int" where
  "resolve_target_id eq p db =
     (case pp_value p of
        Some n \<Rightarrow> if 0 < n then n
          else if pp_id_order p = [] then 0 else get_or 0 (target_by_number eq (pp_id_order p) (pd_orders db))
      | None \<Rightarrow> if pp_id_order p = [] then 0 else get_or 0 (target_by_number eq (pp_id_order p) (pd_orders db)))"

text \<open>
  \<open>runningPO\<close>: the join of the equipment's running orders with their segments, the latest lower
  bound first; NULL sorts first in a descending order, and scanning NULL into a \<open>time.Time\<close> is an
  error (\<open>None\<close>).
\<close>

definition running_segments :: "int \<Rightarrow> po_db \<Rightarrow> (int \<times> int option) list" where
  "running_segments eq db =
     [(po_id o', range_lower (ru_range u)). o' \<leftarrow> pd_orders db, u \<leftarrow> pd_runtime db,
        po_id o' = ru_po u \<and> po_equipment o' = eq \<and> po_status o' = 2]"

fun latest_segment :: "(int \<times> int) list \<Rightarrow> (int \<times> int) option" where
  "latest_segment [] = None"
| "latest_segment ((i, l) # xs) =
     (case latest_segment xs of Some (j, l') \<Rightarrow> if l < l' then Some (j, l') else Some (i, l) | None \<Rightarrow> Some (i, l))"

definition running_po :: "int \<Rightarrow> po_db \<Rightarrow> running_order option option" where
  "running_po eq db =
     (let segs = running_segments eq db
      in if None \<in> set (map snd segs) then None
         else Some (map_option (\<lambda>(i, l). \<lparr>rp_id = i, rp_ts_lower = l\<rparr>)
                (latest_segment (map (\<lambda>(i, l). (i, the l)) segs))))"

definition target_status :: "int \<Rightarrow> po_db \<Rightarrow> int option" where
  "target_status i db = map_option po_status (List.find (\<lambda>r. po_id r = i) (pd_orders db))"

section \<open>Statements\<close>

text \<open>\<open>UPDATE ... SET ... WHERE\<close>.\<close>

definition update_where :: "('r \<Rightarrow> bool) \<Rightarrow> ('r \<Rightarrow> 'r) \<Rightarrow> 'r list \<Rightarrow> 'r list" where
  "update_where P f = map (\<lambda>r. if P r then f r else r)"

definition close_open_segments :: "int \<Rightarrow> int \<Rightarrow> runtime_row list \<Rightarrow> runtime_row list" where
  "close_open_segments eq ts =
     update_where (\<lambda>u. ru_equipment u = eq \<and> range_upper (ru_range u) = None
         \<and> (case range_lower (ru_range u) of None \<Rightarrow> False | Some l \<Rightarrow> l < ts))
       (\<lambda>u. u\<lparr>ru_range := TsRange (the (range_lower (ru_range u))) (Some ts), ru_recalc := True\<rparr>)"

definition note_or :: "string \<Rightarrow> string option \<Rightarrow> string option" where
  "note_or n old = (if n = [] then old else Some n)"

text \<open>\<open>evMarkerAndRestamp\<close>.\<close>

definition ev_marker :: "equipment_info \<Rightarrow> int \<Rightarrow> int \<Rightarrow> int \<Rightarrow> po_db \<Rightarrow> po_db" where
  "ev_marker i po marker_ts restamp_after db =
     (let vals = upsert (marker_ts, ei_equipment i)
            ((bare_row i)\<lparr>er_po := Some po, er_po_quality := ei_signal_quality i, er_tp := Some 3\<rparr>)
            (\<lambda>r. r\<lparr>er_po := Some po, er_po_quality := ei_signal_quality i, er_tp := Some 3\<rparr>) (pd_values db)
      in db\<lparr>pd_values := update_where (\<lambda>((ts, eq), r). eq = ei_equipment i \<and> restamp_after < ts \<and> er_po r \<noteq> None)
              (\<lambda>(k, r). (k, r\<lparr>er_po := Some po\<rparr>)) vals\<rparr>)"

definition exec_start :: "equipment_info \<Rightarrow> int \<Rightarrow> start_plan \<Rightarrow> param_payload \<Rightarrow> int \<Rightarrow> po_db \<Rightarrow> po_db" where
  "exec_start i target plan p ts db =
     (let eq = ei_equipment i;
          runtime = close_open_segments eq ts (pd_runtime db)
            @ [\<lparr>ru_po = target, ru_equipment = eq, ru_range = TsRange ts None, ru_recalc = True\<rparr>];
          orders1 = update_where (\<lambda>r. po_equipment r = eq \<and> po_status r = 2)
            (\<lambda>r. r\<lparr>po_status := sp_prev_status plan, po_ts_end := Some (ts + 1)\<rparr>) (pd_orders db);
          orders2 = update_where (\<lambda>r. po_id r = target)
            (\<lambda>r. r\<lparr>po_status := sp_temp_status plan, po_ts_start := Some ts,
                po_notes := note_or (pp_note p) (po_notes r),
                po_ts_end := (if sp_juggle plan then Some (ts + 1) else po_ts_end r)\<rparr>) orders1
      in ev_marker i target ts ts (db\<lparr>pd_runtime := runtime, pd_orders := orders2\<rparr>))"

text \<open>The range of the first statement is a constant of the statement: inverted bounds fail it.\<close>

definition exec_end :: "equipment_info \<Rightarrow> end_plan \<Rightarrow> param_payload \<Rightarrow> int \<Rightarrow> po_db \<Rightarrow> po_db option" where
  "exec_end i plan p ts db =
     (case mk_range (ep_ts_lower plan) ts of
        None \<Rightarrow> None
      | Some rng \<Rightarrow>
        (let runtime = update_where (\<lambda>u. ru_po u = ep_id plan \<and> range_upper (ru_range u) = None)
               (\<lambda>u. u\<lparr>ru_range := rng, ru_recalc := True\<rparr>) (pd_runtime db);
             orders = update_where (\<lambda>r. po_id r = ep_id plan)
               (\<lambda>r. r\<lparr>po_status := ep_new_status plan, po_ts_end := Some (ts + 1),
                   po_final := coalesce (pp_prod_final p) (po_final r), po_notes := note_or (pp_note p) (po_notes r)\<rparr>)
               (pd_orders db)
         in Some (ev_marker i (ep_id plan) (ts - 1) (ts + 1) (db\<lparr>pd_runtime := runtime, pd_orders := orders\<rparr>))))"

definition juggle_restore :: "int \<Rightarrow> po_db \<Rightarrow> po_db" where
  "juggle_restore i db = db\<lparr>pd_orders := update_where (\<lambda>r. po_id r = i)
     (\<lambda>r. r\<lparr>po_status := 2, po_ts_end := None\<rparr>) (pd_orders db)\<rparr>"

section \<open>A command\<close>

datatype po_outcome = PoNoop | PoDropped | PoStarted | PoEnded

text \<open>\<open>Math.round(ms/1000)*1000\<close> of the payload's timestamp, else the metric's, in seconds.\<close>

definition command_second :: "param_payload \<Rightarrow> int \<Rightarrow> int" where
  "command_second p metric_ts =
     ((case pp_timestamp p of None \<Rightarrow> metric_ts | Some t \<Rightarrow> if t = 0 then metric_ts else t) + 500) div 1000"

definition execute_start :: "int \<Rightarrow> equipment_info \<Rightarrow> param_payload \<Rightarrow> int \<Rightarrow> po_db \<Rightarrow> po_outcome \<times> po_db" where
  "execute_start param i p ts db =
     (let target = resolve_target_id (ei_equipment i) p db
      in if target = 0 then (PoNoop, db)
         else case (target_status target db, running_po (ei_equipment i) db) of
           (Some status, Some running) \<Rightarrow>
             (case decide_start param target status running of
                None \<Rightarrow> (PoNoop, db)
              | Some plan \<Rightarrow>
                (let db1 = exec_start i target plan p ts db
                 in case sp_end_prev plan of
                      None \<Rightarrow> (PoStarted, db1)
                    | Some ep \<Rightarrow> (case exec_end i ep p ts db1 of
                        None \<Rightarrow> (PoDropped, db)
                      | Some db2 \<Rightarrow> (PoStarted, juggle_restore (sp_restore_id plan) db2))))
         | _ \<Rightarrow> (PoDropped, db))"

definition execute_end :: "int \<Rightarrow> equipment_info \<Rightarrow> param_payload \<Rightarrow> int \<Rightarrow> po_db \<Rightarrow> po_outcome \<times> po_db" where
  "execute_end param i p ts db =
     (case running_po (ei_equipment i) db of
        None \<Rightarrow> (PoDropped, db)
      | Some running \<Rightarrow>
        (case decide_end param running of
           None \<Rightarrow> (PoNoop, db)
         | Some plan \<Rightarrow> (case exec_end i plan p ts db of None \<Rightarrow> (PoDropped, db) | Some db' \<Rightarrow> (PoEnded, db'))))"

text \<open>
  \<open>Execute\<close>: \<open>info\<close> is the answer for the metric's topic, \<open>mirror\<close> the tenants mirrored from
  production, \<open>tx_ok\<close> whether the database carries the transaction through.
\<close>

definition po_execute :: "int list \<Rightarrow> bool \<Rightarrow> int \<Rightarrow> equipment_info option option \<Rightarrow> param_payload \<Rightarrow> int \<Rightarrow> po_db
    \<Rightarrow> po_outcome \<times> po_db" where
  "po_execute mirror tx_ok param info p metric_ts db =
     (case info of
        None \<Rightarrow> (PoDropped, db)
      | Some None \<Rightarrow> (PoNoop, db)
      | Some (Some i) \<Rightarrow>
        if ei_enterprise i \<in> set mirror then (PoNoop, db)
        else if \<not> tx_ok then (PoDropped, db)
        else let ts = command_second p metric_ts
             in if param = 30800 \<or> param = 30802 then execute_start param i p ts db
                else if param = 30801 \<or> param = 30803 then execute_end param i p ts db
                else (PoNoop, db))"

end
