(* ===== verification/PoExecutors.thy ===== *)
theory PoExecutors
  imports PoControl GoFormat "HOL-Library.Monad_Syntax"
begin

text \<open>
  The other executors of the stream engine's production-order control (internal/pocontrol):
  order numbers (ordernumber.go), the line order 30700 (topology.go), order creation 30805
  (createpo.go), the operator events 30810 to 30814 and 30820 (events\_justify.go), set-up times
  30861 and 30862 and the audit log 30880 (setup\_userlog.go), and the dispatch of \<open>execute\<close>.
  A transaction is a chain of statements in the option monad: \<open>None\<close> rolls it back. Constraints
  of the tables that a statement can violate are part of the statement. Parsing a calendar
  time needs the time-zone database, so \<open>time.Parse\<close> and \<open>time.LoadLocation\<close> are the record
  \<open>time_lib\<close>; event times are microseconds in the tables and nanoseconds in Go.
\<close>

section \<open>Tables\<close>

record unit_row =
  ur_topic :: string
  ur_site :: int
  ur_unit :: int
  ur_equipment :: "int option"
  ur_seq :: "string option"

text \<open>The line columns of \<open>equipment_values\<close>, kept beside the row of \<open>pd_values\<close>.\<close>

record line_row =
  ln_infeed :: "int option"
  ln_outfeed :: "int option"
  ln_connected :: "int option"
  ln_position :: "int option"
  ln_is_infeed :: "int option"
  ln_is_outfeed :: "int option"

record family_row =
  fa_id :: int
  fa_enterprise :: int
  fa_name :: string

record product_row =
  pr_id :: int
  pr_enterprise :: int
  pr_code :: string
  pr_name :: string
  pr_family :: int
  pr_text :: string

record client_row =
  cl_id :: int
  cl_enterprise :: int
  cl_name :: string

text \<open>A row of \<open>equipment_events\<close> and of \<open>equipment_events_man\<close>.\<close>

record event_row =
  ee_equipment :: int
  ee_ts :: int
  ee_enterprise :: "int option"
  ee_status :: "int option"
  ee_end :: "int option"
  ee_duration :: "int option"
  ee_planned :: "bool option"
  ee_change :: "bool option"
  ee_idle :: "string option"
  ee_notes :: "string option"
  ee_machine :: "string option"
  ee_category :: "string option"
  ee_subcategory :: "string option"
  ee_desc_category :: "string option"
  ee_desc_subcategory :: "string option"
  ee_client_category :: "int option"
  ee_client_subcategory :: "int option"
  ee_forced :: "bool option"

record log_row =
  lg_ts :: int
  lg_enterprise :: int
  lg_site :: int
  lg_area :: int
  lg_equipment :: int
  lg_user :: string
  lg_category :: string
  lg_subcategory :: string
  lg_description :: string
  lg_ip :: "string option"

record exec_db =
  xd_po :: po_db
  xd_register :: "unit_row list"
  xd_line :: "((int \<times> int) \<times> line_row) list"
  xd_families :: "family_row list"
  xd_products :: "product_row list"
  xd_clients :: "client_row list"
  xd_events :: "event_row list"
  xd_manual :: "event_row list"
  xd_logs :: "log_row list"
  xd_jobs :: "(int \<times> (int option \<times> int option)) list"

section \<open>Order numbers\<close>

text \<open>The JSON value of an order number; a number keeps its literal text.\<close>

datatype order_json = OjNull | OjString string | OjNumber string | OjOther

fun order_number :: "order_json \<Rightarrow> string option" where
  "order_number OjNull = Some []" | "order_number (OjString s) = Some (trim_space s)"
| "order_number (OjNumber t) = Some (trim_space t)" | "order_number OjOther = None"

definition nearest_second :: "int \<Rightarrow> int" where
  "nearest_second ms = (ms + 500) div 1000"

definition ms_or :: "int option \<Rightarrow> int \<Rightarrow> int" where
  "ms_or t metric_ts = (case t of None \<Rightarrow> metric_ts | Some n \<Rightarrow> if n = 0 then metric_ts else n)"

section \<open>30700: the order of a line\<close>

text \<open>The scalar subquery on \<open>packml_register\<close>: no row is NULL, two different ones are an error.\<close>

definition unit_equipment :: "unit_row list \<Rightarrow> int \<Rightarrow> int \<Rightarrow> int option option" where
  "unit_equipment reg site unit =
     (case remdups (map ur_equipment (filter (\<lambda>r. ur_site r = site \<and> ur_unit r = unit) reg)) of
        [] \<Rightarrow> Some None | [e] \<Rightarrow> Some e | _ \<Rightarrow> None)"

definition no_line :: line_row where
  "no_line = \<lparr>ln_infeed = None, ln_outfeed = None, ln_connected = None, ln_position = None, ln_is_infeed = None, ln_is_outfeed = None\<rparr>"

text \<open>\<open>INSERT INTO equipment_values (...) ON CONFLICT (ts_value, id_equipment) DO UPDATE\<close>.\<close>

definition insert_line :: "equipment_info \<Rightarrow> int \<times> int \<Rightarrow> line_row \<Rightarrow> (line_row \<Rightarrow> line_row) \<Rightarrow> exec_db \<Rightarrow> exec_db" where
  "insert_line i k ins on_conflict db =
     (case map_of (pd_values (xd_po db)) k of
        None \<Rightarrow> db\<lparr>xd_po := (xd_po db)\<lparr>pd_values := AList.update k (bare_row i) (pd_values (xd_po db))\<rparr>,
                  xd_line := AList.update k ins (xd_line db)\<rparr>
      | Some _ \<Rightarrow> db\<lparr>xd_line := AList.update k (on_conflict (get_or no_line (map_of (xd_line db) k))) (xd_line db)\<rparr>)"

definition topo_line_row :: "equipment_info \<Rightarrow> int \<Rightarrow> int list \<Rightarrow> exec_db \<Rightarrow> exec_db option" where
  "topo_line_row i ts units db = do {
     inf \<leftarrow> unit_equipment (xd_register db) (ei_site i) (hd units);
     outf \<leftarrow> unit_equipment (xd_register db) (ei_site i) (last units);
     Some (insert_line i (ts, ei_equipment i) (no_line\<lparr>ln_infeed := inf, ln_outfeed := outf\<rparr>)
       (\<lambda>r. r\<lparr>ln_infeed := inf, ln_outfeed := outf\<rparr>) db) }"

definition positive :: "int option \<Rightarrow> bool" where
  "positive v = (case v of None \<Rightarrow> False | Some n \<Rightarrow> 0 < n)"

definition topo_zero_line :: "int \<Rightarrow> int \<Rightarrow> exec_db \<Rightarrow> exec_db" where
  "topo_zero_line ts eq db = db\<lparr>xd_line := update_where
     (\<lambda>((t, e), r). t < ts \<and> e = eq \<and> (positive (ln_infeed r) \<or> positive (ln_outfeed r)))
     (\<lambda>(k, r). (k, r\<lparr>ln_infeed := Some 0, ln_outfeed := Some 0\<rparr>)) (xd_line db)\<rparr>"

text \<open>One member; \<open>id_equipment\<close> is NOT NULL, so an unregistered unit fails the transaction.\<close>

definition topo_member :: "equipment_info \<Rightarrow> int \<Rightarrow> nat \<Rightarrow> nat \<Rightarrow> int \<Rightarrow> exec_db \<Rightarrow> exec_db option" where
  "topo_member i ts n len unit db = do {
     e \<leftarrow> unit_equipment (xd_register db) (ei_site i) unit;
     eq \<leftarrow> e;
     Some (insert_line i (ts, eq)
       (no_line\<lparr>ln_connected := Some (ei_equipment i), ln_position := Some (int n + 1),
          ln_is_infeed := (if n = 0 then Some 1 else None), ln_is_outfeed := (if n + 1 = len then Some 1 else None)\<rparr>)
       (\<lambda>r. r\<lparr>ln_connected := Some (ei_equipment i)\<rparr>) db) }"

fun topo_members :: "equipment_info \<Rightarrow> int \<Rightarrow> nat \<Rightarrow> nat \<Rightarrow> int list \<Rightarrow> exec_db \<Rightarrow> exec_db option" where
  "topo_members i ts n len [] db = Some db"
| "topo_members i ts n len (u # us) db = topo_member i ts n len u db \<bind> topo_members i ts (Suc n) len us"

definition topo_zero_members :: "int \<Rightarrow> int \<Rightarrow> exec_db \<Rightarrow> exec_db" where
  "topo_zero_members ts line db = db\<lparr>xd_line := update_where
     (\<lambda>((t, e), r). t < ts \<and> ln_connected r = Some line \<and> (positive (ln_is_infeed r) \<or> positive (ln_is_outfeed r)))
     (\<lambda>(k, r). (k, r\<lparr>ln_is_infeed := Some 0, ln_is_outfeed := Some 0\<rparr>)) (xd_line db)\<rparr>"

definition topology_tx :: "equipment_info \<Rightarrow> string \<Rightarrow> int \<Rightarrow> int list \<Rightarrow> exec_db \<Rightarrow> exec_db option" where
  "topology_tx i topic ts units db =
     (let seq = join_with '','' (map itoa units);
          db0 = db\<lparr>xd_register := update_where (\<lambda>r. ur_topic r = topic) (\<lambda>r. r\<lparr>ur_seq := Some seq\<rparr>) (xd_register db)\<rparr>
      in do {
        db1 \<leftarrow> topo_line_row i ts units db0;
        db2 \<leftarrow> topo_members i ts 0 (length units) units (topo_zero_line ts (ei_equipment i) db1);
        Some (topo_zero_members ts (ei_equipment i) db2) })"

definition execute_topology :: "equipment_info \<Rightarrow> string \<Rightarrow> int list option \<Rightarrow> int \<Rightarrow> exec_db \<Rightarrow> exec_db option" where
  "execute_topology i topic unit_order metric_ts db =
     (case unit_order of None \<Rightarrow> None
      | Some us \<Rightarrow> if us = [] then None else topology_tx i topic (nearest_second metric_ts) us db)"

section \<open>30805: creating an order\<close>

text \<open>\<open>cp_quantity\<close> is \<open>OrderQuantity.Float64()\<close> with its error ignored, 0 for a missing one.\<close>

record create_payload =
  cp_id_order :: order_json
  cp_quantity :: f64
  cp_nm_product :: string
  cp_cd_product :: string
  cp_txt_product :: string
  cp_nm_client :: string
  cp_family :: "string option"
  cp_custom :: "string option"
  cp_timestamp :: "int option"

text \<open>What the sequences and the trigger on \<open>production_orders\<close> give the new rows.\<close>

record new_ids =
  ni_family :: int
  ni_product :: int
  ni_client :: int
  ni_order :: int
  ni_int_number :: int

definition family_upsert :: "new_ids \<Rightarrow> string \<Rightarrow> int \<Rightarrow> family_row list \<Rightarrow> int \<times> family_row list" where
  "family_upsert ids name ent fs =
     (case List.find (\<lambda>f. fa_enterprise f = ent \<and> fa_name f = name) fs of
        Some f \<Rightarrow> (fa_id f, fs)
      | None \<Rightarrow> (ni_family ids, fs @ [\<lparr>fa_id = ni_family ids, fa_enterprise = ent, fa_name = name\<rparr>]))"

text \<open>The guard looks at the code only; names are unique per enterprise as well.\<close>

definition product_insert :: "new_ids \<Rightarrow> create_payload \<Rightarrow> int \<Rightarrow> int \<Rightarrow> product_row list \<Rightarrow> product_row list option" where
  "product_insert ids p family ent ps =
     (if \<exists>r\<in>set ps. pr_code r = cp_cd_product p \<and> pr_enterprise r = ent then Some ps
      else if \<exists>r\<in>set ps. pr_name r = cp_nm_product p \<and> pr_enterprise r = ent then None
      else Some (ps @ [\<lparr>pr_id = ni_product ids, pr_enterprise = ent, pr_code = cp_cd_product p, pr_name = cp_nm_product p,
             pr_family = family, pr_text = cp_txt_product p\<rparr>]))"

definition client_upsert :: "new_ids \<Rightarrow> string \<Rightarrow> int \<Rightarrow> client_row list \<Rightarrow> client_row list" where
  "client_upsert ids name ent cs =
     (if \<exists>c\<in>set cs. cl_name c = name \<and> cl_enterprise c = ent then cs
      else cs @ [\<lparr>cl_id = ni_client ids, cl_enterprise = ent, cl_name = name\<rparr>])"

text \<open>\<open>cpResolve\<close>: ids by natural key, and the factor of the product's latest order (NULL first).\<close>

definition scalar_of :: "'a list \<Rightarrow> 'a option option" where
  "scalar_of xs = (case xs of [] \<Rightarrow> Some None | [x] \<Rightarrow> Some (Some x) | _ \<Rightarrow> None)"

definition inherited_factor :: "int option \<Rightarrow> po_row list \<Rightarrow> f64 option" where
  "inherited_factor product os =
     (case product of None \<Rightarrow> None
      | Some n \<Rightarrow> (case sort_key (\<lambda>r. case po_creation r of None \<Rightarrow> (0::nat) | Some _ \<Rightarrow> 1)
            (sort_key (\<lambda>r. - get_or 0 (po_creation r)) (filter (\<lambda>r. po_product r = Some n) os)) of
          [] \<Rightarrow> None | r # _ \<Rightarrow> po_conversion r))"

definition order_insert :: "new_ids \<Rightarrow> equipment_info \<Rightarrow> create_payload \<Rightarrow> string \<Rightarrow> int option \<Rightarrow> int option
    \<Rightarrow> f64 option \<Rightarrow> int \<Rightarrow> po_row list \<Rightarrow> po_row list" where
  "order_insert ids i p num product client factor ts os =
     (let same = (\<lambda>r. po_enterprise r = ei_enterprise i \<and> po_number r = Some num);
          custom = Some (get_or ''null'' (cp_custom p))
      in if \<exists>r\<in>set os. same r
         then update_where same (\<lambda>r. r\<lparr>po_custom := custom, po_equipment := ei_equipment i\<rparr>) os
         else os @ [\<lparr>po_id = ni_order ids, po_equipment = ei_equipment i, po_status = 1, po_ts_start = None, po_ts_end = None,
              po_notes = None, po_final = None, po_number = Some num, po_int_number = Some (ni_int_number ids),
              po_enterprise = ei_enterprise i, po_site = ei_site i, po_area = ei_area i, po_product = product, po_client = client,
              po_ordered = Some (cp_quantity p), po_creation = Some ts, po_description = Some (cp_txt_product p),
              po_conversion = factor, po_custom = custom\<rparr>])"

definition create_po_tx :: "new_ids \<Rightarrow> equipment_info \<Rightarrow> create_payload \<Rightarrow> string \<Rightarrow> int \<Rightarrow> exec_db \<Rightarrow> exec_db option" where
  "create_po_tx ids i p num ts db =
     (case family_upsert ids (get_or [] (cp_family p)) (ei_enterprise i) (xd_families db) of
        (family, fams) \<Rightarrow> do {
          prods \<leftarrow> product_insert ids p family (ei_enterprise i) (xd_products db);
          let clients = client_upsert ids (cp_nm_client p) (ei_enterprise i) (xd_clients db);
          product \<leftarrow> scalar_of (map pr_id (filter (\<lambda>r. pr_code r = cp_cd_product p \<and> pr_enterprise r = ei_enterprise i) prods));
          client \<leftarrow> scalar_of (map cl_id (filter (\<lambda>c. cl_name c = cp_nm_client p \<and> cl_enterprise c = ei_enterprise i) clients));
          let orders = order_insert ids i p num product client (inherited_factor product (pd_orders (xd_po db))) ts (pd_orders (xd_po db));
          Some (db\<lparr>xd_families := fams, xd_products := prods, xd_clients := clients,
                   xd_po := (xd_po db)\<lparr>pd_orders := orders\<rparr>\<rparr>) })"

definition execute_create_po :: "new_ids \<Rightarrow> equipment_info \<Rightarrow> create_payload option \<Rightarrow> int \<Rightarrow> exec_db \<Rightarrow> exec_db option" where
  "execute_create_po ids i payload metric_ts db = do {
     p \<leftarrow> payload;
     num \<leftarrow> order_number (cp_id_order p);
     if num = [] then None
     else create_po_tx ids i p num (nearest_second (ms_or (cp_timestamp p) metric_ts)) db }"

section \<open>30810 to 30820: operator events\<close>

record time_lib =
  tl_rfc3339 :: "string \<Rightarrow> int option"
  tl_zone :: "string \<Rightarrow> string option"
  tl_in_zone :: "string \<Rightarrow> string \<Rightarrow> string \<Rightarrow> int option"

definition naive_layouts :: "string list" where
  "naive_layouts = [''2006-01-02 15:04:05'', ''2006-01-02T15:04:05'']"

fun first_layout :: "time_lib \<Rightarrow> string \<Rightarrow> string \<Rightarrow> string list \<Rightarrow> int option" where
  "first_layout L loc s [] = None"
| "first_layout L loc s (l # ls) = (case tl_in_zone L l loc s of Some t \<Rightarrow> Some t | None \<Rightarrow> first_layout L loc s ls)"

text \<open>\<open>parseLocal\<close>: an offset wins; an unknown zone is UTC.\<close>

definition parse_local :: "time_lib \<Rightarrow> string \<Rightarrow> string \<Rightarrow> int option" where
  "parse_local L s tz =
     (if s = [] then None
      else case tl_rfc3339 L s of Some t \<Rightarrow> Some t
      | None \<Rightarrow> first_layout L (get_or ''UTC'' (tl_zone L tz)) s naive_layouts)"

record event_payload =
  ep_timezone :: string
  ep_ts_event :: string
  ep_ts_end :: string
  ep_planned :: "bool option"
  ep_change :: "bool option"
  ep_idle :: "string option"
  ep_downtime :: string
  ep_sector :: string
  ep_category :: string
  ep_subcategory :: string
  ep_category_desc :: string
  ep_subcategory_desc :: string
  ep_category_code :: "int option"
  ep_subcategory_code :: "int option"
  ep_user :: string
  ep_timestamp :: "int option"

definition micros :: "int \<Rightarrow> int" where
  "micros ns = ns div 1000"

text \<open>\<open>int(a.Sub(b).Seconds())\<close>: the difference saturates, the quotient truncates.\<close>

definition seconds_between :: "int \<Rightarrow> int \<Rightarrow> int" where
  "seconds_between a b =
     (let d = max (- (2 ^ 63)) (min (2 ^ 63 - 1) (a - b)); s = sgn d * (\<bar>d\<bar> div 1000000000); n = d - s * 1000000000
      in to_int64 (fadd (of_int64 s) (fdiv (of_int64 n) (Fin 1000000000))))"

text \<open>The columns every statement of the family sets.\<close>

definition classify_event :: "event_payload \<Rightarrow> event_row \<Rightarrow> event_row" where
  "classify_event p r = r\<lparr>ee_notes := Some (ep_downtime p), ee_subcategory := Some (ep_subcategory p),
     ee_machine := Some (ep_sector p), ee_category := Some (ep_category p), ee_desc_category := Some (ep_category_desc p),
     ee_desc_subcategory := Some (ep_subcategory_desc p), ee_client_category := ep_category_code p,
     ee_client_subcategory := ep_subcategory_code p\<rparr>"

definition at_event :: "int \<Rightarrow> int \<Rightarrow> event_row \<Rightarrow> bool" where
  "at_event eq ts r \<longleftrightarrow> ee_equipment r = eq \<and> ee_ts r = ts"

definition uj_justify :: "int \<Rightarrow> int \<Rightarrow> event_payload \<Rightarrow> event_row list \<Rightarrow> event_row list" where
  "uj_justify eq ts p = update_where (at_event eq ts)
     (\<lambda>r. (classify_event p r)\<lparr>ee_planned := coalesce (ep_planned p) (ee_planned r),
        ee_change := coalesce (ep_change p) (ee_change r), ee_idle := coalesce (ep_idle p) (ee_idle r)\<rparr>)"

definition uj_manual_update :: "int \<Rightarrow> int \<Rightarrow> event_payload \<Rightarrow> event_row list \<Rightarrow> event_row list" where
  "uj_manual_update eq ts p = update_where (at_event eq ts)
     (\<lambda>r. (classify_event p r)\<lparr>ee_planned := ep_planned p, ee_change := ep_change p, ee_idle := coalesce (ep_idle p) (ee_idle r)\<rparr>)"

definition uj_trim_first :: "int \<Rightarrow> int \<Rightarrow> event_payload \<Rightarrow> int \<Rightarrow> int \<Rightarrow> event_row list \<Rightarrow> event_row list" where
  "uj_trim_first eq ts p ts_end duration rs =
     update_where (at_event eq ts) (\<lambda>r. r\<lparr>ee_end := Some ts_end, ee_duration := Some duration, ee_forced := Some True\<rparr>)
       (uj_justify eq ts p rs)"

text \<open>
  The insert of 30811 and of 30814: skipped when a row of the same time, machine, category and
  sub-category exists; rows are unique by equipment and time.
\<close>

definition event_of :: "int \<Rightarrow> int \<Rightarrow> int \<Rightarrow> event_payload \<Rightarrow> int option \<Rightarrow> int option \<Rightarrow> int option \<Rightarrow> bool option \<Rightarrow> event_row" where
  "event_of eq ent ts p ts_end duration status forced = classify_event p
     \<lparr>ee_equipment = eq, ee_ts = ts, ee_enterprise = Some ent, ee_status = status, ee_end = ts_end, ee_duration = duration,
      ee_planned = ep_planned p, ee_change = ep_change p, ee_idle = ep_idle p, ee_notes = None, ee_machine = None,
      ee_category = None, ee_subcategory = None, ee_desc_category = None, ee_desc_subcategory = None,
      ee_client_category = None, ee_client_subcategory = None, ee_forced = forced\<rparr>"

definition same_stop :: "event_row \<Rightarrow> event_row \<Rightarrow> bool" where
  "same_stop r e \<longleftrightarrow> ee_ts r = ee_ts e \<and> ee_machine r \<noteq> None \<and> ee_machine r = ee_machine e
     \<and> ee_category r \<noteq> None \<and> ee_category r = ee_category e \<and> ee_subcategory r \<noteq> None \<and> ee_subcategory r = ee_subcategory e"

definition insert_stop :: "event_row \<Rightarrow> event_row list \<Rightarrow> event_row list option" where
  "insert_stop e rs =
     (if \<exists>r\<in>set rs. same_stop r e then Some rs
      else if \<exists>r\<in>set rs. at_event (ee_equipment e) (ee_ts e) r then None
      else Some (rs @ [e]))"

definition event_log :: "equipment_info \<Rightarrow> int \<Rightarrow> string \<Rightarrow> string \<Rightarrow> string \<Rightarrow> log_row" where
  "event_log i ts user sub desc = \<lparr>lg_ts = ts, lg_enterprise = ei_enterprise i, lg_site = ei_site i, lg_area = ei_area i,
     lg_equipment = ei_equipment i, lg_user = user, lg_category = ''event'', lg_subcategory = sub, lg_description = desc, lg_ip = None\<rparr>"

definition scrap_reset :: "int \<Rightarrow> int \<Rightarrow> exec_db \<Rightarrow> exec_db" where
  "scrap_reset eq ts db = db\<lparr>xd_po := (xd_po db)\<lparr>pd_values := update_where (\<lambda>(k, r). k = (ts, eq))
     (\<lambda>(k, r). (k, r\<lparr>er_scrap_incr := Some (Fin 0)\<rparr>)) (pd_values (xd_po db))\<rparr>\<rparr>"

definition execute_events :: "time_lib \<Rightarrow> int \<Rightarrow> equipment_info \<Rightarrow> event_payload option \<Rightarrow> int \<Rightarrow> exec_db \<Rightarrow> exec_db option" where
  "execute_events L param i payload metric_ts db = do {
     p \<leftarrow> payload;
     let eq = ei_equipment i;
     if param = 30820 then Some (scrap_reset eq (nearest_second (ms_or (ep_timestamp p) metric_ts)) db)
     else do {
       t \<leftarrow> parse_local L (ep_ts_event p) (ep_timezone p);
       let ts = micros t;
       if param = 30810
       then Some (db\<lparr>xd_events := uj_justify eq ts p (xd_events db),
              xd_logs := xd_logs db @ [event_log i ts (ep_user p) ''justify'' (itoa param)]\<rparr>)
       else if param = 30811 then do {
         te \<leftarrow> parse_local L (ep_ts_end p) (ep_timezone p);
         man \<leftarrow> insert_stop (event_of eq (ei_enterprise i) ts p (Some (micros te)) (Some (seconds_between te t)) None None) (xd_manual db);
         Some (db\<lparr>xd_manual := man, xd_logs := xd_logs db @ [event_log i ts (ep_user p) ''manual event'' (itoa param)]\<rparr>) }
       else if param = 30812
       then Some (db\<lparr>xd_manual := uj_manual_update eq ts p (xd_manual db),
              xd_logs := xd_logs db @ [event_log i ts (ep_user p) ''manual event'' (itoa param)]\<rparr>)
       else if param = 30813 then do {
         te \<leftarrow> parse_local L (ep_ts_end p) (ep_timezone p);
         Some (db\<lparr>xd_events := uj_trim_first eq ts p (micros te) \<bar>seconds_between te t\<bar> (xd_events db)\<rparr>) }
       else if param = 30814 then do {
         te \<leftarrow> (if ep_ts_end p = [] then Some None else map_option Some (parse_local L (ep_ts_end p) (ep_timezone p)));
         evs \<leftarrow> insert_stop (event_of eq (ei_enterprise i) ts p (map_option micros te)
             (map_option (\<lambda>e. \<bar>seconds_between e t\<bar>) te) (Some 10) (Some True)) (xd_events db);
         Some (db\<lparr>xd_events := evs\<rparr>) }
       else Some db } }"

section \<open>30861, 30862, 30880\<close>

datatype flex_time = FtMs int | FtString string | FtNull | FtOther

fun parse_flexible :: "time_lib \<Rightarrow> flex_time \<Rightarrow> string \<Rightarrow> int option" where
  "parse_flexible L (FtMs n) tz = (if 0 < n then Some (n * 1000000) else None)"
| "parse_flexible L (FtString s) tz = parse_local L s tz"
| "parse_flexible L FtNull tz = parse_local L [] tz"
| "parse_flexible L FtOther tz = None"

record userlog_payload =
  up_ts_event :: flex_time
  up_user :: string
  up_category :: string
  up_subcategory :: string
  up_description :: string
  up_ip :: string
  up_timezone :: string

definition execute_setup :: "time_lib \<Rightarrow> int \<Rightarrow> equipment_info \<Rightarrow> userlog_payload option \<Rightarrow> int \<Rightarrow> exec_db \<Rightarrow> exec_db option" where
  "execute_setup L param i payload metric_ts db =
     (let ts = nearest_second metric_ts
      in if param = 30861
         then Some (db\<lparr>xd_jobs := update_where (\<lambda>(e, r). e = ei_equipment i) (\<lambda>(e, b, f). (e, Some ts, None)) (xd_jobs db)\<rparr>)
         else if param = 30862
         then Some (db\<lparr>xd_jobs := update_where (\<lambda>(e, r). e = ei_equipment i) (\<lambda>(e, b, f). (e, b, Some ts)) (xd_jobs db)\<rparr>)
         else do {
           p \<leftarrow> payload;
           t \<leftarrow> parse_flexible L (up_ts_event p) (up_timezone p);
           Some (db\<lparr>xd_logs := xd_logs db @ [\<lparr>lg_ts = micros t, lg_enterprise = ei_enterprise i, lg_site = ei_site i,
               lg_area = ei_area i, lg_equipment = ei_equipment i, lg_user = up_user p, lg_category = up_category p,
               lg_subcategory = up_subcategory p, lg_description = up_description p, lg_ip = Some (up_ip p)\<rparr>]\<rparr>) })"

section \<open>The dispatch\<close>

text \<open>\<open>Handles\<close>: the parameters the package takes.\<close>

definition handles_events :: "int \<Rightarrow> bool" where
  "handles_events n \<longleftrightarrow> 30810 \<le> n \<and> n \<le> 30814 \<or> n = 30820"

definition handles_setup :: "int \<Rightarrow> bool" where
  "handles_setup n \<longleftrightarrow> n = 30861 \<or> n = 30862 \<or> n = 30880"

definition po_handles :: "int \<Rightarrow> bool" where
  "po_handles n \<longleftrightarrow> 30800 \<le> n \<and> n \<le> 30803 \<or> n = 30700 \<or> n = 30805 \<or> handles_events n \<or> handles_setup n"

text \<open>One metric: its parameter, register topic, time, and its value as each executor decodes it.\<close>

record po_command =
  pc_param :: int
  pc_topic :: string
  pc_timestamp :: int
  pc_lifecycle :: param_payload
  pc_units :: "int list option"
  pc_create :: "create_payload option"
  pc_event :: "event_payload option"
  pc_userlog :: "userlog_payload option"

datatype exec_outcome = XNoop | XDropped | XLifecycle po_outcome | XTopology | XCreated | XEvent

definition exec_result :: "exec_outcome \<Rightarrow> exec_db option \<Rightarrow> exec_db \<Rightarrow> exec_outcome \<times> exec_db" where
  "exec_result out r db = (case r of None \<Rightarrow> (XDropped, db) | Some db' \<Rightarrow> (out, db'))"

text \<open>
  \<open>execute\<close>; \<open>info\<close> is the answer of the resolver (each executor asks it again and gets the same),
  \<open>tx_ok\<close> whether the database carries the transaction through.
\<close>

definition execute_any :: "int list \<Rightarrow> time_lib \<Rightarrow> new_ids \<Rightarrow> bool \<Rightarrow> equipment_info option option \<Rightarrow> po_command \<Rightarrow> exec_db
    \<Rightarrow> exec_outcome \<times> exec_db" where
  "execute_any mirror L ids tx_ok info c db =
     (case info of
        None \<Rightarrow> (XDropped, db)
      | Some None \<Rightarrow> (XNoop, db)
      | Some (Some i) \<Rightarrow>
        let n = pc_param c
        in if ei_enterprise i \<in> set mirror then (XNoop, db)
           else if \<not> tx_ok then (XDropped, db)
           else if n = 30700 then exec_result XTopology (execute_topology i (pc_topic c) (pc_units c) (pc_timestamp c) db) db
           else if n = 30805 then exec_result XCreated (execute_create_po ids i (pc_create c) (pc_timestamp c) db) db
           else if handles_events n then exec_result XEvent (execute_events L n i (pc_event c) (pc_timestamp c) db) db
           else if handles_setup n then exec_result XEvent (execute_setup L n i (pc_userlog c) (pc_timestamp c) db) db
           else (case po_execute mirror tx_ok n info (pc_lifecycle c) (pc_timestamp c) (xd_po db) of
                   (out, po) \<Rightarrow> (XLifecycle out, db\<lparr>xd_po := po\<rparr>)))"

end
