(* ===== verification/PoProps.thy ===== *)
theory PoProps
  imports PoControl
begin

text \<open>
  Properties of the production-order lifecycle: at most one order runs per equipment, a start
  leaves exactly one open segment, a repeated start does nothing; and two behaviours of the end
  statement: it rewrites the open segments of the order on every equipment, and an order with
  an empty segment can no longer be ended.
\<close>

section \<open>Library\<close>

lemma update_where_map: "update_where P f xs = map (\<lambda>r. if P r then f r else r) xs"
  by (simp add: update_where_def)

lemma set_update_where: "r' \<in> set (update_where P f xs) \<longleftrightarrow> (\<exists>r\<in>set xs. r' = (if P r then f r else r))"
  by (auto simp: update_where_def)

lemma ev_marker_tables [simp]:
  "pd_orders (ev_marker i po a b db) = pd_orders db" "pd_runtime (ev_marker i po a b db) = pd_runtime db"
  by (simp_all add: ev_marker_def Let_def)

lemma latest_segment_in: "latest_segment xs = Some x \<Longrightarrow> x \<in> set xs"
proof (induction xs arbitrary: x)
  case (Cons a xs)
  obtain ai al where "a = (ai, al)" by fastforce
  with Cons show ?case by (cases "latest_segment xs") (auto split: if_splits)
qed simp

lemma find_SomeD: "List.find P xs = Some x \<Longrightarrow> x \<in> set xs \<and> P x"
  by (metis find_Some_iff nth_mem)

lemma latest_segment_max: "latest_segment xs = Some (i, l) \<Longrightarrow> (j, l') \<in> set xs \<Longrightarrow> l' \<le> l"
proof (induction xs arbitrary: i l j l')
  case (Cons a xs)
  obtain ai al where a: "a = (ai, al)" by fastforce
  show ?case
  proof (cases "latest_segment xs")
    case None
    then have "xs = []" by (cases xs) (auto split: option.splits if_splits prod.splits)
    with Cons.prems show ?thesis by (simp add: a)
  next
    case (Some x)
    obtain xi xl where x: "x = (xi, xl)" by fastforce
    from Cons.IH [OF Some [unfolded x]] Cons.prems show ?thesis
      by (auto simp: a Some x split: if_splits) force+
  qed
qed simp

lemma set_running_segments:
  "x \<in> set (running_segments eq db) \<longleftrightarrow>
     (\<exists>o'\<in>set (pd_orders db). \<exists>u\<in>set (pd_runtime db). x = (po_id o', range_lower (ru_range u)) \<and> po_id o' = ru_po u
        \<and> po_equipment o' = eq \<and> po_status o' = 2)"
  by (auto simp: running_segments_def) metis+

lemma running_po_Some:
  assumes "running_po eq db = Some (Some r)"
  shows "\<exists>o'\<in>set (pd_orders db). po_id o' = rp_id r \<and> po_equipment o' = eq \<and> po_status o' = 2"
    and "\<And>o' u. o' \<in> set (pd_orders db) \<Longrightarrow> u \<in> set (pd_runtime db) \<Longrightarrow> ru_po u = po_id o' \<Longrightarrow>
           po_equipment o' = eq \<Longrightarrow> po_status o' = 2 \<Longrightarrow> \<exists>l. range_lower (ru_range u) = Some l \<and> l \<le> rp_ts_lower r"
proof -
  let ?segs = "running_segments eq db"
  obtain x where none: "None \<notin> set (map snd ?segs)"
    and x: "latest_segment (map (\<lambda>(i, l). (i, the l)) ?segs) = Some x" "r = \<lparr>rp_id = fst x, rp_ts_lower = snd x\<rparr>"
    using assms by (auto simp: running_po_def Let_def split: if_splits prod.splits)
  from latest_segment_in [OF x(1)]
  obtain i l where "(i, l) \<in> set ?segs" "fst x = i" by auto
  then show "\<exists>o'\<in>set (pd_orders db). po_id o' = rp_id r \<and> po_equipment o' = eq \<and> po_status o' = 2"
    by (auto simp: set_running_segments x(2))
  fix o' u
  assume "o' \<in> set (pd_orders db)" "u \<in> set (pd_runtime db)" "ru_po u = po_id o'" "po_equipment o' = eq" "po_status o' = 2"
  then have mem: "(po_id o', range_lower (ru_range u)) \<in> set ?segs" unfolding set_running_segments by fastforce
  with none obtain l where l: "range_lower (ru_range u) = Some l" by (cases "range_lower (ru_range u)") force+
  with mem have "(po_id o', l) \<in> set (map (\<lambda>(i, l). (i, the l)) ?segs)" by force
  with latest_segment_max [of _ "fst x" "snd x"] x have "l \<le> rp_ts_lower r" by force
  with l show "\<exists>l. range_lower (ru_range u) = Some l \<and> l \<le> rp_ts_lower r" by blast
qed

section \<open>What a command does to the orders\<close>

text \<open>Only statuses change, each row by \<open>g\<close>, as \<open>s\<close> says.\<close>

definition restatused :: "(po_row \<Rightarrow> int) \<Rightarrow> po_row list \<Rightarrow> po_row list \<Rightarrow> bool" where
  "restatused s rows rows' \<longleftrightarrow>
     list_all2 (\<lambda>r r'. po_id r' = po_id r \<and> po_equipment r' = po_equipment r \<and> po_status r' = s r) rows rows'"

lemma restatused_map:
  "(\<And>r. r \<in> set rows \<Longrightarrow> po_id (g r) = po_id r \<and> po_equipment (g r) = po_equipment r \<and> po_status (g r) = s r)
     \<Longrightarrow> restatused s rows (map g rows)"
  by (simp add: restatused_def list_all2_conv_all_nth)

lemma restatused_trans:
  assumes "restatused s1 a b" "restatused s2 b c"
    and "\<And>r r'. r \<in> set a \<Longrightarrow> po_id r' = po_id r \<Longrightarrow> po_equipment r' = po_equipment r \<Longrightarrow> po_status r' = s1 r
           \<Longrightarrow> s2 r' = s r"
  shows "restatused s a c"
  unfolding restatused_def list_all2_conv_all_nth
proof (intro conjI allI impI)
  show "length a = length c" using assms(1,2) by (simp add: restatused_def list_all2_conv_all_nth)
  fix k assume k: "k < length a"
  then have ab: "po_id (b ! k) = po_id (a ! k)" "po_equipment (b ! k) = po_equipment (a ! k)" "po_status (b ! k) = s1 (a ! k)"
    and bc: "po_id (c ! k) = po_id (b ! k)" "po_equipment (c ! k) = po_equipment (b ! k)" "po_status (c ! k) = s2 (b ! k)"
    using assms(1,2) by (auto simp: restatused_def list_all2_conv_all_nth)
  from ab bc assms(3) [OF nth_mem [OF k] ab]
  show "po_id (c ! k) = po_id (a ! k)" "po_equipment (c ! k) = po_equipment (a ! k)" "po_status (c ! k) = s (a ! k)"
    by simp_all
qed

lemma exec_end_orders:
  assumes "exec_end i plan p ts db = Some db'"
  shows "restatused (\<lambda>r. if po_id r = ep_id plan then ep_new_status plan else po_status r) (pd_orders db) (pd_orders db')"
  using assms by (auto simp: exec_end_def Let_def update_where_def intro!: restatused_map split: option.splits)

definition prev_status :: "int \<Rightarrow> int" where
  "prev_status param = (if param = 30802 then 4 else 3)"

lemma start_orders:
  assumes "execute_start param i p ts db = (PoStarted, db')"
  shows "\<exists>t\<in>set (pd_orders db). po_id t = resolve_target_id (ei_equipment i) p db \<and> po_status t \<in> {1, 4}"
    and "distinct (map po_id (pd_orders db)) \<Longrightarrow>
      restatused (\<lambda>r. if po_id r = resolve_target_id (ei_equipment i) p db then 2
        else if po_equipment r = ei_equipment i \<and> po_status r = 2 then prev_status param else po_status r)
        (pd_orders db) (pd_orders db')"
proof -
  let ?t = "resolve_target_id (ei_equipment i) p db"
  obtain st running plan where s: "target_status ?t db = Some st" "running_po (ei_equipment i) db = Some running"
      "decide_start param ?t st running = Some plan"
    and res: "(case sp_end_prev plan of None \<Rightarrow> (PoStarted, exec_start i ?t plan p ts db)
      | Some ep \<Rightarrow> (case exec_end i ep p ts (exec_start i ?t plan p ts db) of None \<Rightarrow> (PoDropped, db)
          | Some db2 \<Rightarrow> (PoStarted, juggle_restore (sp_restore_id plan) db2))) = (PoStarted, db')"
    using assms by (auto simp: execute_start_def Let_def split: option.splits if_splits)
  have st: "st = 1 \<or> st = 4" using s(3) by (auto simp: decide_start_def split: if_splits)
  obtain t where t: "t \<in> set (pd_orders db)" "po_id t = ?t" "po_status t = st"
    using s(1) find_SomeD by (fastforce simp: target_status_def)
  with st show "\<exists>t\<in>set (pd_orders db). po_id t = ?t \<and> po_status t \<in> {1, 4}" by auto
  assume dist: "distinct (map po_id (pd_orders db))"
  let ?o = "pd_orders (exec_start i ?t plan p ts db)"
  show "restatused (\<lambda>r. if po_id r = ?t then 2
        else if po_equipment r = ei_equipment i \<and> po_status r = 2 then prev_status param else po_status r)
        (pd_orders db) (pd_orders db')"
  proof (cases running)
    case None
    then have "plan = \<lparr>sp_temp_status = 2, sp_prev_status = prev_status param, sp_juggle = False, sp_end_prev = None, sp_restore_id = 0\<rparr>"
      using s(3) st by (auto simp: decide_start_def prev_status_def Let_def)
    with res have d: "db' = exec_start i ?t plan p ts db" and "sp_temp_status plan = 2" "sp_prev_status plan = prev_status param"
      by auto
    then show ?thesis
      by (auto simp: exec_start_def Let_def update_where_def comp_def intro!: restatused_map)
  next
    case (Some r)
    define ep where "ep = \<lparr>ep_id = rp_id r, ep_new_status = prev_status param, ep_ts_lower = rp_ts_lower r\<rparr>"
    have plan: "plan = \<lparr>sp_temp_status = 4, sp_prev_status = prev_status param, sp_juggle = True, sp_end_prev = Some ep, sp_restore_id = ?t\<rparr>"
      using s(3) st Some by (auto simp: decide_start_def prev_status_def Let_def ep_def)
    obtain db2 where db2: "exec_end i ep p ts (exec_start i ?t plan p ts db) = Some db2" "db' = juggle_restore ?t db2"
      using res by (auto simp: plan split: option.splits)
    obtain q where q: "q \<in> set (pd_orders db)" "po_id q = rp_id r" "po_equipment q = ei_equipment i" "po_status q = 2"
      using running_po_Some(1) [of "ei_equipment i" db r] s(2) Some by auto
    have only: "q' = q" if "q' \<in> set (pd_orders db)" "po_id q' = rp_id r" for q'
      using that q dist by (metis distinct_map inj_on_def)
    have neq: "rp_id r \<noteq> ?t" using only [OF t(1)] t(2,3) st q(4) by auto
    let ?s1 = "\<lambda>x. if po_id x = ?t then 4 else if po_equipment x = ei_equipment i \<and> po_status x = 2
        then prev_status param else po_status x"
    have 1: "restatused ?s1 (pd_orders db) ?o"
      by (auto simp: exec_start_def Let_def update_where_def comp_def plan intro!: restatused_map)
    have 2: "restatused (\<lambda>x. if po_id x = rp_id r then prev_status param else po_status x) ?o (pd_orders db2)"
      using exec_end_orders [OF db2(1)] by (simp add: ep_def cong: if_cong)
    have 3: "restatused (\<lambda>x. if po_id x = ?t then 2 else po_status x) (pd_orders db2) (pd_orders db')"
      by (auto simp: db2(2) juggle_restore_def update_where_def intro!: restatused_map)
    have 12: "restatused ?s1 (pd_orders db) (pd_orders db2)"
    proof (rule restatused_trans [OF 1 2])
      fix x y assume x: "x \<in> set (pd_orders db)" "po_id y = po_id x" "po_status y = ?s1 x"
      show "(if po_id y = rp_id r then prev_status param else po_status y) = ?s1 x"
      proof (cases "po_id x = rp_id r")
        case True
        then have "x = q" by (rule only [OF x(1)])
        with True x(2) q neq show ?thesis by simp
      next
        case False
        with x show ?thesis by simp
      qed
    qed
    show ?thesis by (rule restatused_trans [OF 12 3]) auto
  qed
qed

section \<open>At most one running order per equipment\<close>

definition single_running :: "po_db \<Rightarrow> bool" where
  "single_running db \<longleftrightarrow> distinct (map po_id (pd_orders db))
     \<and> (\<forall>r\<in>set (pd_orders db). \<forall>s\<in>set (pd_orders db).
          po_status r = 2 \<and> po_status s = 2 \<and> po_equipment r = po_equipment s \<longrightarrow> r = s)"

definition running_orders :: "int \<Rightarrow> po_db \<Rightarrow> int set" where
  "running_orders eq db = {po_id r |r. r \<in> set (pd_orders db) \<and> po_equipment r = eq \<and> po_status r = 2}"

lemma running_orders_list:
  "running_orders eq db = set (map po_id (filter (\<lambda>r. po_equipment r = eq \<and> po_status r = 2) (pd_orders db)))"
  by (auto simp: running_orders_def)

lemma single_runningD:
  "single_running db \<Longrightarrow> a \<in> running_orders eq db \<Longrightarrow> b \<in> running_orders eq db \<Longrightarrow> a = b"
  unfolding single_running_def running_orders_def by blast

lemma single_runningI:
  assumes "distinct (map po_id (pd_orders db))"
    and "\<And>eq a b. a \<in> running_orders eq db \<Longrightarrow> b \<in> running_orders eq db \<Longrightarrow> a = b"
  shows "single_running db"
  unfolding single_running_def
proof (intro conjI ballI impI)
  fix r s assume rs: "r \<in> set (pd_orders db)" "s \<in> set (pd_orders db)"
    "po_status r = 2 \<and> po_status s = 2 \<and> po_equipment r = po_equipment s"
  then have "po_id r \<in> running_orders (po_equipment s) db" "po_id s \<in> running_orders (po_equipment s) db"
    by (auto simp: running_orders_def)
  then have "po_id r = po_id s" by (rule assms(2))
  with rs assms(1) show "r = s" by (simp add: distinct_map inj_on_def)
qed (rule assms(1))

lemma restatused_ids: "restatused s rows rows' \<Longrightarrow> map po_id rows' = map po_id rows"
  by (auto simp: restatused_def list_all2_conv_all_nth intro: nth_equalityI)

lemma restatused_running:
  assumes "restatused s (pd_orders db) (pd_orders db')"
  shows "running_orders eq db' = {po_id r |r. r \<in> set (pd_orders db) \<and> po_equipment r = eq \<and> s r = 2}"
  using assms unfolding running_orders_def restatused_def list_all2_conv_all_nth
  by (auto simp: in_set_conv_nth) metis+

text \<open>What the orders of each equipment look like after a start and after an end.\<close>

lemma start_running:
  assumes "execute_start param i p ts db = (PoStarted, db')" "distinct (map po_id (pd_orders db))"
    and "t = resolve_target_id (ei_equipment i) p db"
    and "\<And>r. r \<in> set (pd_orders db) \<Longrightarrow> po_id r = t \<Longrightarrow> po_equipment r = ei_equipment i"
  shows "running_orders eq db' = (if eq = ei_equipment i then {t} else running_orders eq db)"
proof -
  obtain x where x: "x \<in> set (pd_orders db)" "po_id x = t" using start_orders(1) [OF assms(1)] assms(3) by auto
  show ?thesis
    unfolding restatused_running [OF start_orders(2) [OF assms(1,2)]]
    using x assms(4) by (auto simp: assms(3) running_orders_def prev_status_def)
qed

lemma end_running:
  assumes "execute_end param i p ts db = (PoEnded, db')"
  shows "running_orders eq db' \<subseteq> running_orders eq db" "map po_id (pd_orders db') = map po_id (pd_orders db)"
proof -
  obtain plan where plan: "exec_end i plan p ts db = Some db'" "ep_new_status plan \<noteq> 2"
    using assms by (auto simp: execute_end_def decide_end_def split: option.splits)
  from restatused_running [OF exec_end_orders [OF plan(1)]] plan(2)
  show "running_orders eq db' \<subseteq> running_orders eq db" by (auto simp: running_orders_def split: if_splits)
  show "map po_id (pd_orders db') = map po_id (pd_orders db)"
    by (rule restatused_ids [OF exec_end_orders [OF plan(1)]])
qed

lemma outcome_cases:
  "execute_start param i p ts db = (out, db') \<Longrightarrow> out \<noteq> PoStarted \<Longrightarrow> db' = db"
  "execute_end param i p ts db = (out, db') \<Longrightarrow> out \<noteq> PoEnded \<Longrightarrow> db' = db"
  by (auto simp: execute_start_def execute_end_def Let_def split: option.splits if_splits)

lemma end_outcome: "execute_end param i p ts db = (out, db') \<Longrightarrow> out \<noteq> PoStarted"
  by (auto simp: execute_end_def split: option.splits)

text \<open>
  Whatever the command, if the order a start names belongs to the equipment, at most one order
  of every equipment is running afterwards, as before; and after a start the running order of
  the equipment is the one it names.
\<close>

theorem single_running_kept:
  assumes "po_execute mirror tx_ok param (Some (Some i)) p metric_ts db = (out, db')" "single_running db"
    and "\<And>r. r \<in> set (pd_orders db) \<Longrightarrow> po_id r = resolve_target_id (ei_equipment i) p db \<Longrightarrow>
           po_equipment r = ei_equipment i"
  shows "single_running db'
    \<and> (out = PoStarted \<longrightarrow> running_orders (ei_equipment i) db' = {resolve_target_id (ei_equipment i) p db})"
proof -
  let ?ts = "command_second p metric_ts"
  have dist: "distinct (map po_id (pd_orders db))" using assms(2) by (simp add: single_running_def)
  have "db' = db \<and> out \<noteq> PoStarted \<or> execute_start param i p ?ts db = (out, db')
      \<or> execute_end param i p ?ts db = (out, db')"
    using assms(1) by (auto simp: po_execute_def Let_def split: if_splits)
  then consider "db' = db" "out \<noteq> PoStarted" | "execute_start param i p ?ts db = (PoStarted, db')" "out = PoStarted"
    | "execute_end param i p ?ts db = (PoEnded, db')" "out \<noteq> PoStarted"
    using outcome_cases [of param i p ?ts db out db'] end_outcome [of param i p ?ts db out db']
    by (metis po_outcome.distinct(11))
  then show ?thesis
  proof cases
    case 1
    with assms(2) show ?thesis by simp
  next
    case 2
    note run = start_running [OF 2(1) dist refl assms(3)]
    from restatused_ids [OF start_orders(2) [OF 2(1) dist]] dist
    have "distinct (map po_id (pd_orders db'))" by simp
    moreover have "a = b" if "a \<in> running_orders eq db'" "b \<in> running_orders eq db'" for eq a b
      using that single_runningD [OF assms(2), of a eq b] by (auto simp: run split: if_splits)
    ultimately show ?thesis using run [of "ei_equipment i"] by (simp add: single_runningI)
  next
    case 3
    have "distinct (map po_id (pd_orders db'))" using end_running(2) [OF 3(1)] dist by simp
    moreover have "a = b" if "a \<in> running_orders eq db'" "b \<in> running_orders eq db'" for eq a b
      using that end_running(1) [OF 3(1), of eq] single_runningD [OF assms(2)] by blast
    ultimately show ?thesis using 3(2) by (simp add: single_runningI)
  qed
qed

text \<open>A single order on an equipment, as the concrete runs below use it.\<close>

definition demo_equipment :: equipment_info where
  "demo_equipment = \<lparr>ei_enterprise = 3, ei_site = 1, ei_area = 1, ei_equipment = 57, ei_signal_quality = None,
     ei_day_begin = None, ei_status_type = 4, ei_production_speed = None\<rparr>"

definition demo_order :: "int \<Rightarrow> int \<Rightarrow> po_row" where
  "demo_order n status = \<lparr>po_id = n, po_equipment = 57, po_status = status, po_ts_start = None, po_ts_end = None,
     po_notes = None, po_final = None, po_number = None, po_int_number = None, po_enterprise = 3, po_site = 1, po_area = 1,
     po_product = None, po_client = None, po_ordered = None, po_creation = None, po_description = None,
     po_conversion = None, po_custom = None\<rparr>"

definition demo_payload :: "int option \<Rightarrow> param_payload" where
  "demo_payload v = \<lparr>pp_value = v, pp_id_order = [], pp_timestamp = None, pp_note = [], pp_prod_final = None\<rparr>"

definition demo_db :: "po_row list \<Rightarrow> runtime_row list \<Rightarrow> po_db" where
  "demo_db orders runtime = \<lparr>pd_orders = orders, pd_runtime = runtime, pd_values = []\<rparr>"

lemmas demo_po = demo_equipment_def demo_order_def demo_payload_def demo_db_def

lemmas po_steps = po_execute_def execute_start_def execute_end_def decide_start_def decide_end_def exec_start_def
  exec_end_def juggle_restore_def running_po_def running_segments_def target_status_def resolve_target_id_def
  ev_marker_def close_open_segments_def update_where_def command_second_def mk_range_def Let_def

theorem single_running_kept_witness:
  "\<exists>out db'. po_execute [] True 30800 (Some (Some demo_equipment)) (demo_payload (Some 8)) 9000000
       (demo_db [demo_order 7 2, demo_order 8 1] [\<lparr>ru_po = 7, ru_equipment = 57, ru_range = TsRange 5 None, ru_recalc = False\<rparr>])
     = (out, db') \<and> out = PoStarted \<and> single_running db' \<and> running_orders 57 db' = {8}"
proof -
  let ?db = "demo_db [demo_order 7 2, demo_order 8 1] [\<lparr>ru_po = 7, ru_equipment = 57, ru_range = TsRange 5 None, ru_recalc = False\<rparr>]"
  obtain out db' where e: "po_execute [] True 30800 (Some (Some demo_equipment)) (demo_payload (Some 8)) 9000000 ?db = (out, db')"
    by fastforce
  have o: "out = PoStarted" using e by (simp add: po_steps demo_po split: if_splits)
  have sr: "single_running ?db" by (simp add: single_running_def demo_po)
  have t: "resolve_target_id (ei_equipment demo_equipment) (demo_payload (Some 8)) ?db = 8"
    by (simp add: resolve_target_id_def demo_payload_def)
  have own: "po_equipment r = ei_equipment demo_equipment" if "r \<in> set (pd_orders ?db)" for r
    using that by (auto simp: demo_po)
  have "single_running db' \<and> running_orders 57 db' = {8}"
    using single_running_kept [OF e sr own] o t by (simp add: demo_equipment_def)
  then show ?thesis using e o by blast
qed

section \<open>Segments\<close>

definition open_segments :: "int \<Rightarrow> po_db \<Rightarrow> (int \<times> int) list" where
  "open_segments eq db = List.map_filter (\<lambda>u. case ru_range u of
     TsRange l None \<Rightarrow> if ru_equipment u = eq then Some (ru_po u, l) else None | _ \<Rightarrow> None) (pd_runtime db)"

lemma open_segments_append:
  "List.map_filter f (xs @ ys) = List.map_filter f xs @ List.map_filter f ys"
  by (simp add: List.map_filter_def)

lemma open_after_close:
  "(\<And>u l. u \<in> set rows \<Longrightarrow> ru_equipment u = eq \<Longrightarrow> ru_range u = TsRange l None \<Longrightarrow> l < ts) \<Longrightarrow>
   List.map_filter (\<lambda>u. case ru_range u of TsRange l None \<Rightarrow> if ru_equipment u = eq then Some (ru_po u, l) else None | _ \<Rightarrow> None)
     (close_open_segments eq ts rows) = []"
proof (induction rows)
  case (Cons u rows)
  then show ?case
    by (cases "ru_range u")
      (auto simp: close_open_segments_def update_where_def List.map_filter_def split: option.splits)
qed (simp add: close_open_segments_def update_where_def List.map_filter_def)

lemma map_filter_empty: "List.map_filter f xs = [] \<longleftrightarrow> (\<forall>x\<in>set xs. f x = None)"
  by (auto simp: List.map_filter_def filter_empty_conv)

lemma map_filter_map_le:
  "(\<And>u. f (g u) = f u \<or> f (g u) = None) \<Longrightarrow> List.map_filter f xs = [] \<Longrightarrow> List.map_filter f (map g xs) = []"
  by (auto simp: map_filter_empty) metis

text \<open>
  C14: A start leaves exactly one open segment on the equipment, the new one, provided no segment
  that is still open there begins at or after the command's time.
\<close>

theorem start_one_open_segment:
  assumes "execute_start param i p ts db = (PoStarted, db')" "distinct (map po_id (pd_orders db))"
    and "\<And>j l. (j, l) \<in> set (open_segments (ei_equipment i) db) \<Longrightarrow> l < ts"
  shows "open_segments (ei_equipment i) db' = [(resolve_target_id (ei_equipment i) p db, ts)]"
proof -
  let ?t = "resolve_target_id (ei_equipment i) p db" and ?eq = "ei_equipment i"
  let ?f = "\<lambda>u. case ru_range u of TsRange l None \<Rightarrow> if ru_equipment u = ?eq then Some (ru_po u, l) else None | _ \<Rightarrow> None"
  let ?new = "\<lparr>ru_po = ?t, ru_equipment = ?eq, ru_range = TsRange ts None, ru_recalc = True\<rparr>"
  have before: "l < ts" if "u \<in> set (pd_runtime db)" "ru_equipment u = ?eq" "ru_range u = TsRange l None" for u l
    using assms(3) [of "ru_po u" l] that by (force simp: open_segments_def List.map_filter_def)
  have closed: "List.map_filter ?f (close_open_segments ?eq ts (pd_runtime db)) = []"
    by (rule open_after_close) (rule before)
  obtain st running plan where s: "target_status ?t db = Some st" "running_po ?eq db = Some running"
      "decide_start param ?t st running = Some plan"
    and res: "(case sp_end_prev plan of None \<Rightarrow> (PoStarted, exec_start i ?t plan p ts db)
      | Some ep \<Rightarrow> (case exec_end i ep p ts (exec_start i ?t plan p ts db) of None \<Rightarrow> (PoDropped, db)
          | Some db2 \<Rightarrow> (PoStarted, juggle_restore (sp_restore_id plan) db2))) = (PoStarted, db')"
    using assms(1) by (auto simp: execute_start_def Let_def split: option.splits if_splits)
  have run1: "pd_runtime (exec_start i ?t plan p ts db) = close_open_segments ?eq ts (pd_runtime db) @ [?new]"
    by (simp add: exec_start_def Let_def)
  show ?thesis
  proof (cases "sp_end_prev plan")
    case None
    with res run1 closed show ?thesis
      by (auto simp: open_segments_def open_segments_append List.map_filter_def)
  next
    case (Some ep)
    then obtain r where r: "running = Some r" "ep_id ep = rp_id r"
      using s(3) by (auto simp: decide_start_def Let_def split: if_splits option.splits)
    obtain q where q: "q \<in> set (pd_orders db)" "po_id q = rp_id r" "po_status q = 2"
      using running_po_Some(1) [of ?eq db r] s(2) r(1) by auto
    obtain x where x: "x \<in> set (pd_orders db)" "po_id x = ?t" "po_status x \<in> {1, 4}" using start_orders(1) [OF assms(1)] by blast
    have neq: "ep_id ep \<noteq> ?t"
    proof
      assume "ep_id ep = ?t"
      then have "q = x" using q x r(2) assms(2) by (simp add: distinct_map inj_on_def)
      with q x show False by auto
    qed
    obtain rng db2 where e: "mk_range (ep_ts_lower ep) ts = Some rng"
        "exec_end i ep p ts (exec_start i ?t plan p ts db) = Some db2" "db' = juggle_restore (sp_restore_id plan) db2"
      using res Some by (auto simp: exec_end_def split: option.splits)
    define g where "g u = (if ru_po u = ep_id ep \<and> range_upper (ru_range u) = None then u\<lparr>ru_range := rng, ru_recalc := True\<rparr> else u)" for u :: runtime_row
    have rng: "rng = EmptyRange \<or> (\<exists>l u. rng = TsRange l (Some u))" using e(1) by (auto simp: mk_range_def split: if_splits)
    have "pd_runtime db' = map g (close_open_segments ?eq ts (pd_runtime db)) @ [g ?new]"
      using e run1 by (auto simp: juggle_restore_def exec_end_def Let_def update_where_def g_def)
    moreover have "g ?new = ?new" using neq by (simp add: g_def)
    moreover have "List.map_filter ?f (map g (close_open_segments ?eq ts (pd_runtime db))) = []"
    proof (rule map_filter_map_le [OF _ closed])
      fix u
      have "g u = u \<or> ru_range (g u) = rng" by (simp add: g_def)
      then show "?f (g u) = ?f u \<or> ?f (g u) = None"
      proof
        assume "ru_range (g u) = rng"
        with rng show ?thesis by auto
      qed metis
    qed
    ultimately show ?thesis by (simp add: open_segments_def open_segments_append List.map_filter_def)
  qed
qed

theorem start_one_open_segment_witness:
  "open_segments 57 (snd (execute_start 30800 demo_equipment (demo_payload (Some 8)) 9000
       (demo_db [demo_order 7 2, demo_order 8 1] [\<lparr>ru_po = 7, ru_equipment = 57, ru_range = TsRange 5 None, ru_recalc = False\<rparr>])))
     = [(8, 9000)]"
proof -
  let ?db = "demo_db [demo_order 7 2, demo_order 8 1] [\<lparr>ru_po = 7, ru_equipment = 57, ru_range = TsRange 5 None, ru_recalc = False\<rparr>]"
  obtain out db' where e: "execute_start 30800 demo_equipment (demo_payload (Some 8)) 9000 ?db = (out, db')" by fastforce
  have o: "out = PoStarted" using e by (simp add: po_steps demo_po)
  have d: "distinct (map po_id (pd_orders ?db))" by (simp add: demo_po)
  have before: "l < 9000" if "(j, l) \<in> set (open_segments (ei_equipment demo_equipment) ?db)" for j l
    using that by (auto simp: open_segments_def demo_po List.map_filter_def)
  have t: "resolve_target_id (ei_equipment demo_equipment) (demo_payload (Some 8)) ?db = 8"
    by (simp add: resolve_target_id_def demo_payload_def)
  from start_one_open_segment [OF e [unfolded o] d before] t show ?thesis using e
    by (simp add: demo_equipment_def)
qed

text \<open>
  An end closes the order's open segments on every equipment, each of them to the one range of the
  running order's latest segment: an open segment on another equipment loses its own start.
\<close>

theorem end_rewrites_sibling_segments:
  assumes "execute_end param i p ts db = (PoEnded, db')" "running_po (ei_equipment i) db = Some (Some r)"
    and "k < length (pd_runtime db)" "ru_po (pd_runtime db ! k) = rp_id r" "ru_range (pd_runtime db ! k) = TsRange l None"
  shows "mk_range (rp_ts_lower r) ts = Some (ru_range (pd_runtime db' ! k)) \<and> l \<le> rp_ts_lower r
    \<and> ru_equipment (pd_runtime db' ! k) = ru_equipment (pd_runtime db ! k)"
proof -
  obtain ep where ep: "exec_end i ep p ts db = Some db'" "ep_id ep = rp_id r" "ep_ts_lower ep = rp_ts_lower r"
    using assms(1,2) by (auto simp: execute_end_def decide_end_def split: option.splits)
  then obtain rng where "mk_range (rp_ts_lower r) ts = Some rng"
      "pd_runtime db' = update_where (\<lambda>u. ru_po u = rp_id r \<and> range_upper (ru_range u) = None)
               (\<lambda>u. u\<lparr>ru_range := rng, ru_recalc := True\<rparr>) (pd_runtime db)"
    by (auto simp: exec_end_def Let_def split: option.splits)
  with assms(3-5) have "mk_range (rp_ts_lower r) ts = Some (ru_range (pd_runtime db' ! k))"
    "ru_equipment (pd_runtime db' ! k) = ru_equipment (pd_runtime db ! k)"
    by (simp_all add: update_where_def)
  moreover obtain q where q: "q \<in> set (pd_orders db)" "po_id q = rp_id r" "po_equipment q = ei_equipment i" "po_status q = 2"
    using running_po_Some(1) [OF assms(2)] by blast
  from running_po_Some(2) [OF assms(2) q(1) nth_mem [OF assms(3)] _ q(3,4)] assms(4,5) q(2)
  have "l \<le> rp_ts_lower r" by simp
  ultimately show ?thesis by blast
qed

text \<open>Order 7 runs on equipment 57 since 100 and on equipment 58 since 500; an end at 1000 leaves both with 500.\<close>

theorem end_rewrites_sibling_segments_witness:
  "\<exists>db'. execute_end 30801 demo_equipment (demo_payload None) 1000
      (demo_db [demo_order 7 2] [\<lparr>ru_po = 7, ru_equipment = 57, ru_range = TsRange 100 None, ru_recalc = False\<rparr>,
         \<lparr>ru_po = 7, ru_equipment = 58, ru_range = TsRange 500 None, ru_recalc = False\<rparr>]) = (PoEnded, db')
    \<and> ru_range (pd_runtime db' ! 0) = TsRange 500 (Some 1000)"
proof -
  let ?db = "demo_db [demo_order 7 2] [\<lparr>ru_po = 7, ru_equipment = 57, ru_range = TsRange 100 None, ru_recalc = False\<rparr>,
         \<lparr>ru_po = 7, ru_equipment = 58, ru_range = TsRange 500 None, ru_recalc = False\<rparr>]"
  obtain out db' where e: "execute_end 30801 demo_equipment (demo_payload None) 1000 ?db = (out, db')" by fastforce
  have o: "out = PoEnded" using e by (simp add: po_steps demo_po)
  have r: "running_po (ei_equipment demo_equipment) ?db = Some (Some \<lparr>rp_id = 7, rp_ts_lower = 500\<rparr>)"
    by (simp add: po_steps demo_po)
  from end_rewrites_sibling_segments [OF e [unfolded o] r, of 0 100] e o
  show ?thesis by (simp add: demo_db_def mk_range_def)
qed

text \<open>
  An order that is started, paused within the same second and resumed can no longer be ended,
  and no other order can be started on its equipment: every such command is dropped.
\<close>

theorem same_second_pause_blocks_equipment:
  "let db0 = demo_db [demo_order 7 1, demo_order 8 1] [];
       (o1, db1) = execute_start 30800 demo_equipment (demo_payload (Some 7)) t db0;
       (o2, db2) = execute_end 30803 demo_equipment (demo_payload None) t db1;
       (o3, db3) = execute_start 30802 demo_equipment (demo_payload (Some 7)) (t + 60) db2
   in o1 = PoStarted \<and> o2 = PoEnded \<and> o3 = PoStarted \<and> running_orders 57 db3 = {7}
      \<and> execute_end 30801 demo_equipment p t' db3 = (PoDropped, db3)
      \<and> execute_start 30800 demo_equipment (demo_payload (Some 8)) t' db3 = (PoDropped, db3)"
  by (simp add: po_steps demo_po running_orders_list del: set_map set_filter)

text \<open>A start that arrives a second time does nothing.\<close>

lemma repeated_start_noop:
  assumes "execute_start param i p ts db = (PoStarted, db')" "distinct (map po_id (pd_orders db))"
    and "resolve_target_id (ei_equipment i) p db' = resolve_target_id (ei_equipment i) p db"
    and "running_po (ei_equipment i) db' \<noteq> None"
  shows "execute_start param i p ts' db' = (PoNoop, db')"
proof -
  let ?t = "resolve_target_id (ei_equipment i) p db"
  obtain x where x: "x \<in> set (pd_orders db)" "po_id x = ?t" using start_orders(1) [OF assms(1)] by auto
  have nz: "?t \<noteq> 0" using assms(1) by (auto simp: execute_start_def Let_def split: if_splits)
  note rest = start_orders(2) [OF assms(1,2)]
  have all: "po_status y = 2" if y: "y \<in> set (pd_orders db')" "po_id y = ?t" for y
    using rest y by (auto simp: restatused_def list_all2_conv_all_nth in_set_conv_nth split: if_splits)
  have "?t \<in> set (map po_id (pd_orders db'))" using restatused_ids [OF rest] x by (metis image_eqI set_map)
  then obtain y where y: "List.find (\<lambda>r. po_id r = ?t) (pd_orders db') = Some y"
    by (cases "List.find (\<lambda>r. po_id r = ?t) (pd_orders db')") (auto simp: find_None_iff)
  from find_SomeD [OF this] all have "target_status ?t db' = Some 2" by (simp add: target_status_def y)
  with nz assms(3,4) show ?thesis by (auto simp: execute_start_def decide_start_def split: option.splits)
qed

end
