(* ===== verification/PoExecProps.thy ===== *)
theory PoExecProps
  imports PoExecutors PoProps
begin

text \<open>
  Properties of all production-order commands: one running order per equipment survives every
  command under two side conditions, and creating an order again on another equipment is what
  happens without the second; operator events are safe to repeat, but a manual event can be
  swallowed by one of another equipment; what a line order leaves in the line columns.
\<close>

lemmas exec_bind = Option.bind_split_asm Option.bind_split

section \<open>One running order per equipment\<close>

definition running_pairs :: "po_row list \<Rightarrow> (int \<times> int) set" where
  "running_pairs os = (\<lambda>r. (po_id r, po_equipment r)) ` set (filter (\<lambda>r. po_status r = 2) os)"

lemma running_orders_pairs: "running_orders eq db = {n. (n, eq) \<in> running_pairs (pd_orders db)}"
  by (auto simp: running_orders_def running_pairs_def image_iff)

lemma order_insert_ids:
  "distinct (map po_id os) \<Longrightarrow> ni_order ids \<notin> po_id ` set os
   \<Longrightarrow> distinct (map po_id (order_insert ids i p num a b f ts os))"
  by (auto simp: order_insert_def update_where_def Let_def comp_def if_distrib cong: if_cong)

lemma order_insert_running:
  assumes "\<And>r. r \<in> set os \<Longrightarrow> po_enterprise r = ei_enterprise i \<Longrightarrow> po_number r = Some num \<Longrightarrow> po_status r = 2
      \<Longrightarrow> po_equipment r = ei_equipment i"
  shows "running_pairs (order_insert ids i p num a b f ts os) = running_pairs os"
proof (cases "\<exists>r\<in>set os. po_enterprise r = ei_enterprise i \<and> po_number r = Some num")
  case False
  show ?thesis unfolding order_insert_def Let_def if_not_P [OF False] running_pairs_def by (simp del: set_filter)
next
  case True
  define g where "g r = (if po_enterprise r = ei_enterprise i \<and> po_number r = Some num
     then r\<lparr>po_custom := Some (get_or ''null'' (cp_custom p)), po_equipment := ei_equipment i\<rparr> else r)" for r :: po_row
  have same: "po_id (g r) = po_id r" "po_status (g r) = po_status r" for r by (simp_all add: g_def)
  have eq: "po_equipment (g r) = po_equipment r" if "r \<in> set os" "po_status r = 2" for r using assms that by (simp add: g_def)
  have "order_insert ids i p num a b f ts os = map g os"
    using True by (simp add: order_insert_def update_where_def Let_def g_def [abs_def])
  then have "running_pairs (order_insert ids i p num a b f ts os) = (\<lambda>r. (po_id (g r), po_equipment (g r))) ` set (filter (\<lambda>r. po_status r = 2) os)"
    by (simp add: running_pairs_def filter_map comp_def same image_image)
  also have "\<dots> = running_pairs os" unfolding running_pairs_def by (rule image_cong) (auto simp: same eq)
  finally show ?thesis .
qed

lemma create_po_orders:
  assumes "execute_create_po ids i payload mts db = Some db'"
  shows "\<exists>p num a b f ts. payload = Some p \<and> order_number (cp_id_order p) = Some num \<and> num \<noteq> []
     \<and> xd_po db' = (xd_po db)\<lparr>pd_orders := order_insert ids i p num a b f ts (pd_orders (xd_po db))\<rparr>"
  using assms by (auto simp: execute_create_po_def create_po_tx_def Let_def split: exec_bind prod.splits if_splits)
    (intro exI, rule refl)

lemma insert_line_po: "pd_orders (xd_po (insert_line i k a f db)) = pd_orders (xd_po db)"
  by (simp add: insert_line_def split: option.split)

lemma topo_members_orders:
  "topo_members i ts n len us db = Some db' \<Longrightarrow> pd_orders (xd_po db') = pd_orders (xd_po db)"
proof (induction us arbitrary: n db)
  case (Cons u us)
  then obtain db1 where db1: "topo_member i ts n len u db = Some db1" "topo_members i ts (Suc n) len us db1 = Some db'"
    by (auto split: exec_bind)
  have "pd_orders (xd_po db1) = pd_orders (xd_po db)" using db1(1)
    by (auto simp: topo_member_def insert_line_po split: exec_bind)
  with Cons.IH [OF db1(2)] show ?case by simp
qed simp

lemma topology_orders:
  "execute_topology i topic us mts db = Some db' \<Longrightarrow> pd_orders (xd_po db') = pd_orders (xd_po db)"
  by (auto simp: execute_topology_def topology_tx_def topo_line_row_def topo_zero_members_def topo_zero_line_def Let_def
      insert_line_po split: option.splits if_splits exec_bind dest!: topo_members_orders)

lemma events_orders:
  "execute_events L n i p mts db = Some db' \<Longrightarrow> pd_orders (xd_po db') = pd_orders (xd_po db)"
  by (auto simp: execute_events_def scrap_reset_def Let_def split: exec_bind if_splits)

lemma setup_orders: "execute_setup L n i p mts db = Some db' \<Longrightarrow> xd_po db' = xd_po db"
  by (auto simp: execute_setup_def Let_def split: exec_bind if_splits)

lemma single_running_orders: "pd_orders b = pd_orders a \<Longrightarrow> single_running b = single_running a"
  by (simp add: single_running_def)

text \<open>
  C13: Whatever the parameter, its payload and the answers of resolver and database: if an order a
  start names belongs to the equipment, and an order created again does not run on another one,
  at most one order of every equipment is running afterwards, as before; after a start it is the
  one that was named.
\<close>

theorem any_command_single_running:
  assumes "execute_any mirror L ids tx_ok info c db = (out, db')" "single_running (xd_po db)"
    and "\<And>i r. info = Some (Some i) \<Longrightarrow> r \<in> set (pd_orders (xd_po db)) \<Longrightarrow>
           po_id r = resolve_target_id (ei_equipment i) (pc_lifecycle c) (xd_po db) \<Longrightarrow> po_equipment r = ei_equipment i"
    and "\<And>i p r. info = Some (Some i) \<Longrightarrow> pc_param c = 30805 \<Longrightarrow> pc_create c = Some p \<Longrightarrow> r \<in> set (pd_orders (xd_po db)) \<Longrightarrow>
           po_enterprise r = ei_enterprise i \<Longrightarrow> po_number r = order_number (cp_id_order p) \<Longrightarrow> po_status r = 2 \<Longrightarrow>
           po_equipment r = ei_equipment i"
    and "ni_order ids \<notin> po_id ` set (pd_orders (xd_po db))"
  shows "single_running (xd_po db') \<and> (\<forall>i. info = Some (Some i) \<longrightarrow> out = XLifecycle PoStarted \<longrightarrow>
     running_orders (ei_equipment i) (xd_po db') = {resolve_target_id (ei_equipment i) (pc_lifecycle c) (xd_po db)})"
proof -
  have kept: ?thesis if "xd_po db' = xd_po db \<or> pd_orders (xd_po db') = pd_orders (xd_po db)" "out \<noteq> XLifecycle PoStarted"
    using that assms(2) single_running_orders [of "xd_po db'" "xd_po db"] by auto
  show ?thesis
  proof (cases "db' = db \<and> out \<noteq> XLifecycle PoStarted")
    case True
    then show ?thesis using kept by simp
  next
    case False
    then obtain i where info: "info = Some (Some i)"
      using assms(1) by (auto simp: execute_any_def split: option.splits)
    let ?n = "pc_param c"
    from False assms(1) info consider (topology) "execute_topology i (pc_topic c) (pc_units c) (pc_timestamp c) db = Some db'" "out = XTopology"
      | (create) "?n = 30805" "execute_create_po ids i (pc_create c) (pc_timestamp c) db = Some db'" "out = XCreated"
      | (events) "execute_events L ?n i (pc_event c) (pc_timestamp c) db = Some db'" "out = XEvent"
      | (job) "execute_setup L ?n i (pc_userlog c) (pc_timestamp c) db = Some db'" "out = XEvent"
      | (lifecycle) o' po where "po_execute mirror tx_ok ?n info (pc_lifecycle c) (pc_timestamp c) (xd_po db) = (o', po)"
          "out = XLifecycle o'" "xd_po db' = po"
      by (auto simp: execute_any_def exec_result_def Let_def split: if_splits option.splits prod.splits)
    then show ?thesis
    proof cases
      case topology
      then show ?thesis using kept topology_orders by simp
    next
      case events
      then show ?thesis using kept events_orders by simp
    next
      case job
      then show ?thesis using kept setup_orders by simp
    next
      case lifecycle
      from single_running_kept [OF lifecycle(1) [unfolded info] assms(2) assms(3) [OF info]]
      show ?thesis using lifecycle(2,3) info by simp
    next
      case create
      from create_po_orders [OF create(2)] obtain p num a b f ts where p: "pc_create c = Some p"
        "order_number (cp_id_order p) = Some num"
        "xd_po db' = (xd_po db)\<lparr>pd_orders := order_insert ids i p num a b f ts (pd_orders (xd_po db))\<rparr>" by blast
      let ?os = "order_insert ids i p num a b f ts (pd_orders (xd_po db))"
      have run: "running_orders eq (xd_po db') = running_orders eq (xd_po db)" for eq
        using order_insert_running [of "pd_orders (xd_po db)" i num ids p a b f ts] assms(4) [OF info create(1) p(1)] p(2)
        by (simp add: running_orders_pairs p(3))
      have "distinct (map po_id ?os)"
        using assms(2,5) by (intro order_insert_ids) (auto simp: single_running_def)
      then have "single_running (xd_po db')"
        using single_runningD [OF assms(2)] run by (intro single_runningI) (auto simp: p(3))
      then show ?thesis using create(3) by simp
    qed
  qed
qed


definition demo_create :: "string \<Rightarrow> create_payload" where
  "demo_create n = \<lparr>cp_id_order = OjString n, cp_quantity = Fin 100, cp_nm_product = ''Box'', cp_cd_product = ''P1'',
     cp_txt_product = ''box'', cp_nm_client = ''C'', cp_family = None, cp_custom = None, cp_timestamp = None\<rparr>"

definition demo_ids :: new_ids where
  "demo_ids = \<lparr>ni_family = 1, ni_product = 1, ni_client = 1, ni_order = 90, ni_int_number = 90\<rparr>"

definition demo_event :: event_payload where
  "demo_event = \<lparr>ep_timezone = [], ep_ts_event = ''t0'', ep_ts_end = ''t1'', ep_planned = None, ep_change = None, ep_idle = None,
     ep_downtime = ''jam'', ep_sector = ''M1'', ep_category = ''mech'', ep_subcategory = ''jam'', ep_category_desc = [],
     ep_subcategory_desc = [], ep_category_code = None, ep_subcategory_code = None, ep_user = ''ana'', ep_timestamp = None\<rparr>"

definition demo_userlog :: userlog_payload where
  "demo_userlog = \<lparr>up_ts_event = FtNull, up_user = [], up_category = [], up_subcategory = [], up_description = [],
     up_ip = [], up_timezone = []\<rparr>"

definition demo_times :: time_lib where
  "demo_times = \<lparr>tl_rfc3339 = (\<lambda>s. if s = ''t0'' then Some 1000000000 else if s = ''t1'' then Some 61000000000 else None),
     tl_zone = (\<lambda>z. None), tl_in_zone = (\<lambda>l z s. None)\<rparr>"

definition demo_command :: "int \<Rightarrow> po_command" where
  "demo_command n = \<lparr>pc_param = n, pc_topic = ''A/B/C/D'', pc_timestamp = 9000000, pc_lifecycle = demo_payload (Some 8),
     pc_units = Some [4, 5], pc_create = Some (demo_create '' 77 ''), pc_event = Some demo_event, pc_userlog = Some demo_userlog\<rparr>"

definition demo_exec_db :: "po_row list \<Rightarrow> exec_db" where
  "demo_exec_db os = \<lparr>xd_po = demo_db os [], xd_register = [], xd_line = [], xd_families = [], xd_products = [],
     xd_clients = [], xd_events = [], xd_manual = [], xd_logs = [], xd_jobs = []\<rparr>"

lemmas demo_exec = demo_exec_db_def demo_command_def demo_times_def demo_event_def demo_ids_def demo_create_def
  demo_userlog_def demo_po

theorem any_command_single_running_witness:
  "single_running (xd_po (snd (execute_any [] demo_times demo_ids True (Some (Some demo_equipment)) (demo_command 30800)
     (demo_exec_db [demo_order 7 3, demo_order 8 1]))))"
proof -
  let ?r = "execute_any [] demo_times demo_ids True (Some (Some demo_equipment)) (demo_command 30800)
     (demo_exec_db [demo_order 7 3, demo_order 8 1])"
  have sr: "single_running (xd_po (demo_exec_db [demo_order 7 3, demo_order 8 1]))" by (simp add: single_running_def demo_exec)
  have own: "po_equipment r = 57" if "r \<in> set (pd_orders (xd_po (demo_exec_db [demo_order 7 3, demo_order 8 1])))" for r
    using that by (auto simp: demo_exec)
  have e: "ei_equipment demo_equipment = 57" "pc_param (demo_command 30800) = 30800" by (simp_all add: demo_exec)
  show ?thesis
    using any_command_single_running [OF surjective_pairing [of ?r] sr] own by (auto simp: e) (simp add: demo_exec)
qed

section \<open>Creating an order again\<close>


definition moved_order :: po_row where
  "moved_order = (demo_order 7 2)\<lparr>po_equipment := 40, po_number := Some ''77''\<rparr>"

lemma demo_create_commits:
  "execute_create_po demo_ids demo_equipment (Some (demo_create '' 77 '')) 9000 (demo_exec_db [moved_order, demo_order 8 2]) \<noteq> None"
  by (simp add: execute_create_po_def create_po_tx_def family_upsert_def product_insert_def client_upsert_def scalar_of_def
      demo_exec trim_space_def is_space_def Let_def)


section \<open>Operator events\<close>

lemma insert_stop_idem:
  assumes "insert_stop e rs = Some rs'" "ee_machine e \<noteq> None" "ee_category e \<noteq> None" "ee_subcategory e \<noteq> None"
  shows "insert_stop e rs' = Some rs'"
  using assms by (auto simp: insert_stop_def same_stop_def split: if_splits)

lemma event_of_classified [simp]:
  "ee_machine (event_of eq ent ts p te d st f) = Some (ep_sector p)" "ee_category (event_of eq ent ts p te d st f) = Some (ep_category p)"
  "ee_subcategory (event_of eq ent ts p te d st f) = Some (ep_subcategory p)" "ee_ts (event_of eq ent ts p te d st f) = ts"
  "ee_equipment (event_of eq ent ts p te d st f) = eq"
  by (simp_all add: event_of_def classify_event_def)

lemma at_event_classify [simp]: "at_event eq ts (classify_event p r) = at_event eq ts r"
  by (simp add: at_event_def classify_event_def)

lemma coalesce_idem: "coalesce a (coalesce a b) = coalesce a b"
  by (simp add: coalesce_def split: option.split)

lemma update_where_idem:
  "(\<And>r. P (f r) = P r) \<Longrightarrow> (\<And>r. f (f r) = f r) \<Longrightarrow> update_where P f (update_where P f rs) = update_where P f rs"
  by (simp add: update_where_def)

lemma justify_idem: "uj_justify eq ts p (uj_justify eq ts p rs) = uj_justify eq ts p rs"
  unfolding uj_justify_def by (rule update_where_idem) (simp_all add: at_event_def classify_event_def coalesce_idem)

lemma manual_update_idem: "uj_manual_update eq ts p (uj_manual_update eq ts p rs) = uj_manual_update eq ts p rs"
  unfolding uj_manual_update_def by (rule update_where_idem) (simp_all add: at_event_def classify_event_def coalesce_idem)

lemma trim_first_one_pass:
  "uj_trim_first eq ts p te d = update_where (at_event eq ts) (\<lambda>r. (classify_event p r)\<lparr>ee_planned := coalesce (ep_planned p) (ee_planned r),
     ee_change := coalesce (ep_change p) (ee_change r), ee_idle := coalesce (ep_idle p) (ee_idle r),
     ee_end := Some te, ee_duration := Some d, ee_forced := Some True\<rparr>)"
  by (rule ext) (simp add: uj_trim_first_def uj_justify_def update_where_def at_event_def classify_event_def)

lemma trim_first_idem: "uj_trim_first eq ts p te d (uj_trim_first eq ts p te d rs) = uj_trim_first eq ts p te d rs"
  unfolding trim_first_one_pass by (rule update_where_idem) (simp_all add: at_event_def classify_event_def coalesce_idem)

lemma scrap_reset_idem: "scrap_reset eq ts (scrap_reset eq ts db) = scrap_reset eq ts db"
proof -
  have "update_where (\<lambda>(k, r). k = (ts, eq)) (\<lambda>(k, r). (k, r\<lparr>er_scrap_incr := Some (Fin 0)\<rparr>)) (update_where (\<lambda>(k, r). k = (ts, eq))
      (\<lambda>(k, r). (k, r\<lparr>er_scrap_incr := Some (Fin 0)\<rparr>)) vs) = update_where (\<lambda>(k, r). k = (ts, eq)) (\<lambda>(k, r). (k, r\<lparr>er_scrap_incr := Some (Fin 0)\<rparr>)) vs"
    for vs :: "((int \<times> int) \<times> ev_row) list"
    by (rule update_where_idem) (auto split: prod.split)
  then show ?thesis by (simp add: scrap_reset_def)
qed

lemmas events_unfold = execute_events_def Let_def

text \<open>
  C21: Handling the same operator event again commits again and changes nothing but the log: justify,
  manual create and update, both trims and the scrap reset can be redelivered.
\<close>

theorem operator_event_repeatable:
  assumes "execute_events L n i payload mts db = Some db1"
  shows "\<exists>logs. execute_events L n i payload mts db1 = Some (db1\<lparr>xd_logs := xd_logs db1 @ logs\<rparr>)"
proof -
  from assms obtain p where p: "payload = Some p" by (auto simp: events_unfold split: exec_bind)
  show ?thesis
  proof (cases "n = 30820")
    case True
    then show ?thesis using assms p scrap_reset_idem by (auto simp: events_unfold intro!: exI [of _ "[]"])
  next
    case False
    from assms p False obtain t where t: "parse_local L (ep_ts_event p) (ep_timezone p) = Some t"
      by (auto simp: events_unfold split: exec_bind)
    consider "n = 30810" | "n = 30811" | "n = 30812" | "n = 30813" | "n = 30814" | "n \<notin> {30810, 30811, 30812, 30813, 30814, 30820}"
      using False by auto
    then show ?thesis
    proof cases
      case 1
      then show ?thesis using assms p t by (auto simp: events_unfold justify_idem)
    next
      case 2
      with assms p t obtain te man where "parse_local L (ep_ts_end p) (ep_timezone p) = Some te"
        and i: "insert_stop (event_of (ei_equipment i) (ei_enterprise i) (micros t) p (Some (micros te)) (Some (seconds_between te t)) None None)
          (xd_manual db) = Some man" "xd_manual db1 = man"
        by (auto simp: events_unfold split: exec_bind)
      with insert_stop_idem [OF i(1)] 2 p t show ?thesis by (cases db1) (auto simp: events_unfold)
    next
      case 3
      then show ?thesis using assms p t by (auto simp: events_unfold manual_update_idem)
    next
      case 4
      then show ?thesis using assms p t by (auto simp: events_unfold trim_first_idem split: exec_bind intro!: exI [of _ "[]"])
    next
      case 5
      let ?te = "if ep_ts_end p = [] then Some None else map_option Some (parse_local L (ep_ts_end p) (ep_timezone p))"
      from 5 assms p t obtain te evs where te: "?te = Some te"
        and i: "insert_stop (event_of (ei_equipment i) (ei_enterprise i) (micros t) p (map_option micros te)
          (map_option (\<lambda>e. \<bar>seconds_between e t\<bar>) te) (Some 10) (Some True)) (xd_events db) = Some evs" "xd_events db1 = evs"
        by (auto simp: events_unfold split: exec_bind simp del: map_option_eq_Some)
      have "execute_events L n i payload mts db1 = Some (db1\<lparr>xd_events := evs\<rparr>)"
        using insert_stop_idem [OF i(1)] 5 p t i(2) te by (simp add: events_unfold)
      then show ?thesis using i(2) by (intro exI [of _ "[]"]) simp
    next
      case 6
      then show ?thesis using assms p t by (auto simp: events_unfold intro!: exI [of _ "[]"])
    qed
  qed
qed

lemma demo_event_commits: "execute_events demo_times 30811 demo_equipment (Some demo_event) 9000 (demo_exec_db []) \<noteq> None"
  by (simp add: events_unfold parse_local_def demo_exec insert_stop_def)

theorem operator_event_repeatable_witness:
  "\<exists>db1 logs. execute_events demo_times 30811 demo_equipment (Some demo_event) 9000 (demo_exec_db []) = Some db1
     \<and> execute_events demo_times 30811 demo_equipment (Some demo_event) 9000 db1 = Some (db1\<lparr>xd_logs := xd_logs db1 @ logs\<rparr>)"
  using operator_event_repeatable [of demo_times 30811 demo_equipment "Some demo_event" 9000 "demo_exec_db []"] demo_event_commits by blast

text \<open>
  The guard of a manual event ignores the equipment: a stop entered for one machine is dropped,
  though logged and reported as done, when another equipment has one of the same time, machine
  code, category and sub-category.
\<close>

theorem manual_event_swallowed:
  assumes "r \<in> set (xd_manual db)" "ee_equipment r \<noteq> ei_equipment i"
    and "parse_local L (ep_ts_event p) (ep_timezone p) = Some t" "parse_local L (ep_ts_end p) (ep_timezone p) = Some te"
    and "ee_ts r = micros t" "ee_machine r = Some (ep_sector p)" "ee_category r = Some (ep_category p)"
    and "ee_subcategory r = Some (ep_subcategory p)"
  shows "\<exists>db'. execute_events L 30811 i (Some p) mts db = Some db' \<and> xd_manual db' = xd_manual db
     \<and> xd_logs db' = xd_logs db @ [event_log i (micros t) (ep_user p) ''manual event'' (itoa 30811)]"
proof -
  have "\<exists>r\<in>set (xd_manual db). same_stop r (event_of (ei_equipment i) (ei_enterprise i) (micros t) p (Some (micros te)) (Some (seconds_between te t)) None None)"
    using assms by (intro bexI [OF _ assms(1)]) (simp add: same_stop_def)
  then show ?thesis using assms(3,4) by (simp add: events_unfold insert_stop_def)
qed

definition foreign_stop :: event_row where
  "foreign_stop = event_of 40 3 1000000 demo_event None None None None"

theorem manual_event_swallowed_witness:
  "\<exists>db'. execute_events demo_times 30811 demo_equipment (Some demo_event) 0 ((demo_exec_db [])\<lparr>xd_manual := [foreign_stop]\<rparr>) = Some db'
     \<and> xd_manual db' = [foreign_stop] \<and> length (xd_logs db') = 1"
proof -
  have "ee_equipment foreign_stop \<noteq> ei_equipment demo_equipment" by (simp add: foreign_stop_def demo_equipment_def)
  moreover have "ee_ts foreign_stop = micros 1000000000" by (simp add: foreign_stop_def micros_def)
  moreover have "parse_local demo_times ''t0'' [] = Some 1000000000" "parse_local demo_times ''t1'' [] = Some 61000000000"
    by (simp_all add: parse_local_def demo_times_def)
  ultimately obtain db' where d: "execute_events demo_times 30811 demo_equipment (Some demo_event) 0 ((demo_exec_db [])\<lparr>xd_manual := [foreign_stop]\<rparr>) = Some db'"
      "xd_manual db' = xd_manual ((demo_exec_db [])\<lparr>xd_manual := [foreign_stop]\<rparr>)"
      "xd_logs db' = xd_logs ((demo_exec_db [])\<lparr>xd_manual := [foreign_stop]\<rparr>)
        @ [event_log demo_equipment (micros 1000000000) (ep_user demo_event) ''manual event'' (itoa 30811)]"
    using manual_event_swallowed [of foreign_stop "(demo_exec_db [])\<lparr>xd_manual := [foreign_stop]\<rparr>" demo_equipment demo_times demo_event 1000000000 61000000000 0]
    by (auto simp: foreign_stop_def demo_event_def)
  show ?thesis by (intro exI [of _ db'] conjI) (simp_all add: d, simp_all add: demo_exec_db_def)
qed


section \<open>The order of a line\<close>

lemma map_of_update_where:
  "map_of (update_where P (\<lambda>(k, r). (k, g r)) t) k = map_option (\<lambda>r. if P (k, r) then g r else r) (map_of t k)"
  by (induction t) (auto simp: update_where_def)

lemma unit_equipment_seq:
  "unit_equipment (update_where P (\<lambda>r. r\<lparr>ur_seq := x\<rparr>) reg) site u = unit_equipment reg site u"
proof -
  have "map ur_equipment (filter (\<lambda>r. ur_site r = site \<and> ur_unit r = u) (update_where P (\<lambda>r. r\<lparr>ur_seq := x\<rparr>) reg))
      = map ur_equipment (filter (\<lambda>r. ur_site r = site \<and> ur_unit r = u) reg)"
    by (induction reg) (auto simp: update_where_def)
  then show ?thesis by (simp add: unit_equipment_def)
qed

definition connected :: "exec_db \<Rightarrow> int \<times> int \<Rightarrow> int \<Rightarrow> bool" where
  "connected db k line \<longleftrightarrow> (\<exists>r. map_of (xd_line db) k = Some r \<and> ln_connected r = Some line)"

definition past_lines :: "exec_db \<Rightarrow> int \<Rightarrow> int \<Rightarrow> line_row option" where
  "past_lines db t e = map_of (xd_line db) (t, e)"

lemma insert_line_register [simp]: "xd_register (insert_line i k a f db) = xd_register db"
  by (simp add: insert_line_def split: option.split)

lemma insert_line_at: "map_of (xd_line (insert_line i k a f db)) k' =
  (if k' = k then Some (case map_of (pd_values (xd_po db)) k of None \<Rightarrow> a | Some _ \<Rightarrow> f (get_or no_line (map_of (xd_line db) k)))
   else map_of (xd_line db) k')"
  by (simp add: insert_line_def AList.update_conv' split: option.split)

lemma topo_member_effect:
  assumes "topo_member i ts n len u db = Some db'"
  shows "\<exists>e. unit_equipment (xd_register db) (ei_site i) u = Some (Some e) \<and> connected db' (ts, e) (ei_equipment i)"
    and "xd_register db' = xd_register db" "t \<noteq> ts \<Longrightarrow> past_lines db' t e' = past_lines db t e'"
    and "connected db k (ei_equipment i) \<Longrightarrow> connected db' k (ei_equipment i)"
  using assms by (auto simp: topo_member_def connected_def past_lines_def insert_line_at split: exec_bind option.split)

lemma topo_members_effect:
  assumes "topo_members i ts n len us db = Some db'"
  shows "(\<forall>u\<in>set us. \<exists>e. unit_equipment (xd_register db) (ei_site i) u = Some (Some e) \<and> connected db' (ts, e) (ei_equipment i))
    \<and> (\<forall>k. connected db k (ei_equipment i) \<longrightarrow> connected db' k (ei_equipment i))
    \<and> (\<forall>t e. t \<noteq> ts \<longrightarrow> past_lines db' t e = past_lines db t e)"
  using assms
proof (induction us arbitrary: n db)
  case (Cons u us)
  then obtain db1 where db1: "topo_member i ts n len u db = Some db1" "topo_members i ts (Suc n) len us db1 = Some db'"
    by (auto split: exec_bind)
  note m = topo_member_effect [OF db1(1)]
  from Cons.IH [OF db1(2)] m show ?case by (auto simp: m(2))
qed simp

lemma zero_line_past:
  assumes "past_lines (topo_zero_line ts eq db) t eq = Some r" "t < ts"
  shows "\<not> positive (ln_infeed r) \<and> \<not> positive (ln_outfeed r)"
proof -
  from assms obtain r0 where "r = (if positive (ln_infeed r0) \<or> positive (ln_outfeed r0)
      then r0\<lparr>ln_infeed := Some 0, ln_outfeed := Some 0\<rparr> else r0)"
    by (auto simp: past_lines_def topo_zero_line_def map_of_update_where)
  then show ?thesis by (simp add: positive_def split: if_splits)
qed

lemma zero_members_row:
  assumes "map_of (xd_line (topo_zero_members ts line db)) (t, e) = Some r"
  shows "\<exists>r0. map_of (xd_line db) (t, e) = Some r0 \<and> r = (if t < ts \<and> ln_connected r0 = Some line
      \<and> (positive (ln_is_infeed r0) \<or> positive (ln_is_outfeed r0)) then r0\<lparr>ln_is_infeed := Some 0, ln_is_outfeed := Some 0\<rparr> else r0)"
  using assms by (auto simp: topo_zero_members_def map_of_update_where)

lemma zero_members_past:
  assumes "past_lines (topo_zero_members ts line db) t e = Some r" "t < ts" "ln_connected r = Some line"
  shows "\<not> positive (ln_is_infeed r) \<and> \<not> positive (ln_is_outfeed r)"
proof -
  from zero_members_row [OF assms(1) [unfolded past_lines_def]] assms(2) obtain r0 where
    "r = (if ln_connected r0 = Some line \<and> (positive (ln_is_infeed r0) \<or> positive (ln_is_outfeed r0))
      then r0\<lparr>ln_is_infeed := Some 0, ln_is_outfeed := Some 0\<rparr> else r0)" by auto
  with assms(3) show ?thesis by (simp add: positive_def split: if_splits)
qed

lemma zero_members_keep:
  assumes "past_lines (topo_zero_members ts line db) t e = Some r"
  shows "\<exists>r0. past_lines db t e = Some r0 \<and> ln_infeed r = ln_infeed r0 \<and> ln_outfeed r = ln_outfeed r0"
proof -
  from zero_members_row [OF assms [unfolded past_lines_def]] obtain r0 where
    "map_of (xd_line db) (t, e) = Some r0" "r = r0 \<or> r = r0\<lparr>ln_is_infeed := Some 0, ln_is_outfeed := Some 0\<rparr>" by metis
  then show ?thesis by (auto simp: past_lines_def)
qed

lemma zero_members_connected:
  assumes "connected db (t, e) line'"
  shows "connected (topo_zero_members ts line db) (t, e) line'"
proof -
  from assms obtain r where "map_of (xd_line db) (t, e) = Some r" "ln_connected r = Some line'" by (auto simp: connected_def)
  then show ?thesis by (simp add: connected_def topo_zero_members_def map_of_update_where)
qed

text \<open>
  A line order that commits has resolved every unit, connects each unit's equipment to the line
  at the command's second, and leaves no earlier row in which the line still has an infeed or
  outfeed equipment or a member of it still is one.
\<close>

theorem line_order_effect:
  assumes "execute_topology i topic (Some us) mts db = Some db'"
  shows "(\<forall>u\<in>set us. \<exists>e. unit_equipment (xd_register db) (ei_site i) u = Some (Some e)
        \<and> connected db' (nearest_second mts, e) (ei_equipment i))
    \<and> (\<forall>t e r. past_lines db' t e = Some r \<and> t < nearest_second mts \<longrightarrow>
        (e = ei_equipment i \<longrightarrow> \<not> positive (ln_infeed r) \<and> \<not> positive (ln_outfeed r))
      \<and> (ln_connected r = Some (ei_equipment i) \<longrightarrow> \<not> positive (ln_is_infeed r) \<and> \<not> positive (ln_is_outfeed r)))"
proof -
  let ?ts = "nearest_second mts" and ?line = "ei_equipment i"
  from assms obtain db1 db2 reg where l: "topo_line_row i ?ts us (db\<lparr>xd_register := reg\<rparr>) = Some db1"
    and reg: "unit_equipment reg (ei_site i) = unit_equipment (xd_register db) (ei_site i)"
    and m: "topo_members i ?ts 0 (length us) us (topo_zero_line ?ts ?line db1) = Some db2"
    and db': "db' = topo_zero_members ?ts ?line db2"
    by (auto simp: execute_topology_def topology_tx_def Let_def unit_equipment_seq [abs_def] split: if_splits exec_bind)
  have r1: "xd_register (topo_zero_line ?ts ?line db1) = reg"
    using l by (auto simp: topo_zero_line_def topo_line_row_def split: exec_bind)
  note me = topo_members_effect [OF m, unfolded r1 reg]
  have "\<not> positive (ln_infeed r) \<and> \<not> positive (ln_outfeed r)" if "past_lines db' t ?line = Some r" "t < ?ts" for t r
  proof -
    from zero_members_keep [OF that(1) [unfolded db']] obtain r0 where
      r0: "past_lines db2 t ?line = Some r0" "ln_infeed r = ln_infeed r0" "ln_outfeed r = ln_outfeed r0" by blast
    with me that(2) have "past_lines (topo_zero_line ?ts ?line db1) t ?line = Some r0" by simp
    from zero_line_past [OF this that(2)] r0(2,3) show ?thesis by simp
  qed
  moreover have "\<not> positive (ln_is_infeed r) \<and> \<not> positive (ln_is_outfeed r)"
    if "past_lines db' t e = Some r" "t < ?ts" "ln_connected r = Some ?line" for t e r
    using zero_members_past [OF that(1) [unfolded db'] that(2,3)] .
  moreover have "\<exists>e. unit_equipment (xd_register db) (ei_site i) u = Some (Some e) \<and> connected db' (?ts, e) ?line"
    if "u \<in> set us" for u
    using me that zero_members_connected [of db2 ?ts _ ?line ?ts ?line] unfolding db' by blast
  ultimately show ?thesis by blast
qed

definition demo_register :: "unit_row list" where
  "demo_register = [\<lparr>ur_topic = ''A/B/C/D'', ur_site = 1, ur_unit = 4, ur_equipment = Some 40, ur_seq = None\<rparr>,
     \<lparr>ur_topic = ''A/B/C/E'', ur_site = 1, ur_unit = 5, ur_equipment = Some 50, ur_seq = None\<rparr>]"

lemma demo_line_commits:
  "execute_topology demo_equipment ''A/B/C/D'' (Some [4, 5]) 9000 ((demo_exec_db [])\<lparr>xd_register := demo_register\<rparr>) \<noteq> None"
  by (simp add: execute_topology_def topology_tx_def topo_line_row_def topo_member_def topo_zero_line_def topo_zero_members_def
      unit_equipment_def demo_register_def update_where_def demo_equipment_def Let_def insert_line_def demo_exec_db_def demo_db_def nearest_second_def)

theorem line_order_effect_witness:
  "\<exists>db'. execute_topology demo_equipment ''A/B/C/D'' (Some [4, 5]) 9000 ((demo_exec_db [])\<lparr>xd_register := demo_register\<rparr>) = Some db'
     \<and> connected db' (9, 40) 57 \<and> connected db' (9, 50) 57"
proof -
  obtain db' where e: "execute_topology demo_equipment ''A/B/C/D'' (Some [4, 5]) 9000 ((demo_exec_db [])\<lparr>xd_register := demo_register\<rparr>) = Some db'"
    using demo_line_commits by blast
  have "unit_equipment demo_register 1 4 = Some (Some 40)" "unit_equipment demo_register 1 5 = Some (Some 50)"
    by (simp_all add: unit_equipment_def demo_register_def)
  with line_order_effect [OF e] e show ?thesis by (auto simp: demo_equipment_def nearest_second_def)
qed

end
