(* ===== verification/Oee.thy ===== *)
theory Oee
  imports ClampProps
begin

text \<open>
  The canonical OEE of the stream engine (internal/rollup/oee.go): availability, performance and
  quality as ratios clamped to the unit interval, and their product. The SQL passes that mirror
  the algebra are not modelled.
\<close>

definition clamp01 :: "f64 \<Rightarrow> f64" where
  "clamp01 x = (if flt x (Fin 0) then Fin 0 else if flt (Fin 1) x then Fin 1 else x)"

definition availability_factor :: "f64 \<Rightarrow> f64 \<Rightarrow> f64" where
  "availability_factor running planned = (if fle planned (Fin 0) then Fin 0 else clamp01 (fdiv running planned))"

definition quality_factor :: "f64 \<Rightarrow> f64 \<Rightarrow> f64" where
  "quality_factor net gross = (if fle gross (Fin 0) then Fin 0 else clamp01 (fdiv net gross))"

definition performance_factor :: "f64 \<Rightarrow> f64 \<Rightarrow> f64 \<Rightarrow> f64" where
  "performance_factor gross ideal running =
     (let theoretical = fdiv (fmul ideal running) (Fin 60)
      in if fle theoretical (Fin 0) then Fin 0 else clamp01 (fdiv gross theoretical))"

definition canonical_oee :: "f64 \<Rightarrow> f64 \<Rightarrow> f64 \<Rightarrow> f64 \<Rightarrow> f64 \<Rightarrow> f64 \<times> f64 \<times> f64 \<times> f64" where
  "canonical_oee net gross running planned ideal =
     (let a = availability_factor running planned; q = quality_factor net gross;
          p = performance_factor gross ideal running
      in (fmul (fmul a p) q, a, p, q))"

section \<open>Bounds\<close>

definition unit_float :: "f64 \<Rightarrow> bool" where
  "unit_float x \<longleftrightarrow> (\<exists>r. x = Fin r \<and> repr r \<and> r \<le> 1)"

lemma repr_1: "repr 1"
  using repr_of_int [of 1] by simp

lemma unit_float_01 [simp]: "unit_float (Fin 0)" "unit_float (Fin 1)"
  by (simp_all add: unit_float_def repr_1)

text \<open>The result of a rounding that lies in the unit interval is a representable value.\<close>

lemma clamp01_unit: "x \<noteq> NaN \<Longrightarrow> (\<And>r. x = Fin r \<Longrightarrow> 0 \<le> r \<Longrightarrow> repr r) \<Longrightarrow> unit_float (clamp01 x)"
  by (cases x) (auto simp: clamp01_def unit_float_def repr_1 split: if_splits)

lemma fdiv_repr: "fdiv (Fin x) (Fin y) = Fin r \<Longrightarrow> 0 \<le> r \<Longrightarrow> y \<noteq> 0 \<Longrightarrow> repr r"
proof -
  assume e: "fdiv (Fin x) (Fin y) = Fin r" and r: "0 \<le> r" and y: "y \<noteq> 0"
  then have rd: "round64 (x / y) = Fin r" by simp
  show "repr r"
  proof (cases "0 \<le> x / y")
    case True
    with round64_nonneg [OF True] rd show ?thesis by simp
  next
    case False
    then have "r = 0" using round64_nonpos [of "x / y"] rd r by auto
    then show ?thesis by simp
  qed
qed

lemma fdiv_not_NaN: "0 < y \<Longrightarrow> fdiv (Fin x) (Fin y) \<noteq> NaN"
  by simp

lemma clamp01_fdiv: "0 < y \<Longrightarrow> unit_float (clamp01 (fdiv (Fin x) (Fin y)))"
  by (rule clamp01_unit) (auto intro: fdiv_repr simp del: fdiv.simps simp: fdiv_not_NaN)

lemma clamp01_fdiv_PInf: "unit_float (clamp01 (fdiv (Fin x) PInf))"
  by (simp add: clamp01_def)

lemma factor_unit: "finite_f64 x \<Longrightarrow> y \<noteq> NaN \<Longrightarrow> unit_float (if fle y (Fin 0) then Fin 0 else clamp01 (fdiv x y))"
  using clamp01_fdiv [of "case y of Fin r \<Rightarrow> r"] clamp01_fdiv_PInf
  by (cases x; cases y) (auto simp: fle_def simp del: fdiv.simps)

lemma unit_fmul:
  assumes "unit_float x" "unit_float y"
  shows "unit_float (fmul x y)" "fle (fmul x y) x" "fle (fmul x y) y"
proof -
  obtain a b where ab: "x = Fin a" "repr a" "a \<le> 1" "y = Fin b" "repr b" "b \<le> 1"
    using assms by (auto simp: unit_float_def)
  have nn: "0 \<le> a" "0 \<le> b" using ab repr_nonneg by auto
  then have ab0: "0 \<le> a * b" and le: "a * b \<le> a" "a * b \<le> b"
    using ab by (auto simp: mult_left_le mult_left_le_one_le mult_right_le_one_le)
  have rd: "\<exists>r. round64 (a * b) = Fin r \<and> repr r \<and> r \<le> a \<and> r \<le> b"
  proof (cases "a * b = 0")
    case True
    have "round64 (a * b) = Fin 0" unfolding True by simp
    with nn show ?thesis by simp
  next
    case False
    then have pos: "0 < a * b" using ab0 by linarith
    then have "0 < a" "0 < b" using nn by (auto simp: zero_less_mult_iff)
    then have r: "rnd (a * b) \<le> a" "rnd (a * b) \<le> b"
      using rnd_mono [OF pos le(1)] rnd_mono [OF pos le(2)] rnd_repr ab by auto
    moreover have "(1::rat) < 2 ^ 1024" by simp
    with r ab(3) have "\<not> 2 ^ 1024 \<le> rnd (a * b)" by linarith
    ultimately show ?thesis using pos repr_rnd by (simp add: round64_rnd)
  qed
  then show "unit_float (fmul x y)" "fle (fmul x y) x" "fle (fmul x y) y"
    using ab by (auto simp: unit_float_def)
qed

lemma fle_unit: "unit_float x \<longleftrightarrow> unit_float x \<and> fle (Fin 0) x \<and> fle x (Fin 1)"
  by (auto simp: unit_float_def repr_nonneg)

lemma theoretical_not_NaN: "fdiv (fmul (Fin i) (Fin r)) (Fin 60) \<noteq> NaN"
  using round64_not_NaN [of "i * r"] by (cases "round64 (i * r)") simp_all

text \<open>
  C25: For finite inputs the three factors and the OEE lie in the unit interval, the OEE is the
  product of the factors, and it is at most each of them.
\<close>

theorem canonical_oee_unit:
  assumes "finite_f64 net" "finite_f64 gross" "finite_f64 running" "finite_f64 planned" "finite_f64 ideal"
    and "canonical_oee net gross running planned ideal = (oee, a, p, q)"
  shows "(\<forall>x\<in>{oee, a, p, q}. fle (Fin 0) x \<and> fle x (Fin 1)) \<and> oee = fmul (fmul a p) q
    \<and> (\<forall>x\<in>{a, p, q}. fle oee x)"
proof -
  obtain n g r pl i where f: "net = Fin n" "gross = Fin g" "running = Fin r" "planned = Fin pl" "ideal = Fin i"
    using assms(1-5) by (metis finite_f64.elims(2))
  have a: "unit_float a" and q: "unit_float q" and p: "unit_float p" and o: "oee = fmul (fmul a p) q"
    using assms(6) factor_unit [of running planned] factor_unit [of net gross]
      factor_unit [of gross "fdiv (fmul ideal running) (Fin 60)"] theoretical_not_NaN [of i r]
    by (auto simp: canonical_oee_def Let_def availability_factor_def quality_factor_def performance_factor_def f
        simp del: fdiv.simps fmul.simps)
  note ap = unit_fmul [OF a p]
  note apq = unit_fmul [OF ap(1) q]
  have "\<forall>x\<in>{oee, a, p, q}. fle (Fin 0) x \<and> fle x (Fin 1)"
    using a p q apq(1) fle_unit o by blast
  moreover have "\<forall>x\<in>{a, p, q}. fle oee x"
    using apq(2,3) ap(2,3) fle_trans o by blast
  ultimately show ?thesis using o by blast
qed

text \<open>A shift that made 95 good parts of 100 at a rate of one a minute, running 120 of 240 minutes.\<close>

theorem canonical_oee_unit_witness:
  "\<exists>oee a p q. canonical_oee (Fin 95) (Fin 100) (Fin 7200) (Fin 14400) (Fin 1) = (oee, a, p, q)
     \<and> fle (Fin 0) oee \<and> fle oee (Fin 1) \<and> fle oee a"
proof -
  obtain oee a p q where e: "canonical_oee (Fin 95) (Fin 100) (Fin 7200) (Fin 14400) (Fin 1) = (oee, a, p, q)"
    by (metis surj_pair)
  have "fle (Fin 0) oee \<and> fle oee (Fin 1) \<and> fle oee a"
    using canonical_oee_unit [OF _ _ _ _ _ e] by (simp only: finite_f64.simps simp_thms ball_simps insert_iff bex_simps) blast
  with e show ?thesis by blast
qed

end
