(* ===== verification/PlcDecode.thy ===== *)
theory PlcDecode
  imports Float64 GoStrings "HOL-Library.Word"
begin

text \<open>
  The value decoders of the PLC readers: internal/modbus/decode.go and internal/s7/decode.go.
  A buffer is a list of bytes; offsets are Go \<open>int\<close>s, so every access is guarded as in the
  source and \<open>None\<close> is its \<open>ok = false\<close>. Registers and data blocks are big endian; the word
  order of a two-register value is a property of the device. A 32-bit float is the value its
  bits denote.
\<close>

unbundle bit_operations_syntax

type_synonym byte = "8 word"

section \<open>Bytes\<close>

text \<open>\<open>binary.BigEndian.Uint16\<close> and \<open>Uint32\<close>.\<close>

definition be_uint16 :: "byte list \<Rightarrow> nat \<Rightarrow> 16 word" where
  "be_uint16 b i = push_bit 8 (ucast (b ! i)) OR ucast (b ! (i + 1))"

definition be_uint32 :: "byte list \<Rightarrow> nat \<Rightarrow> 32 word" where
  "be_uint32 b i = push_bit 24 (ucast (b ! i)) OR push_bit 16 (ucast (b ! (i + 1)))
     OR push_bit 8 (ucast (b ! (i + 2))) OR ucast (b ! (i + 3))"

text \<open>\<open>math.Float32frombits\<close>, converted to \<open>float64\<close>.\<close>

definition float32_frombits :: "32 word \<Rightarrow> f64" where
  "float32_frombits w =
     (let neg = bit w 31; e = uint (drop_bit 23 w AND 255); m = uint (w AND 8388607)
      in if e = 255 then (if m \<noteq> 0 then NaN else if neg then NInf else PInf)
         else Fin ((if neg then - 1 else 1)
           * (if e = 0 then of_int m * 2 powi - 149 else of_int (m + 8388608) * 2 powi (e - 150))))"

section \<open>Modbus\<close>

datatype modbus_kind = MbHolding | MbInput | MbCoil | MbDiscrete

datatype modbus_type = MtUint16 | MtInt16 | MtUint32 | MtInt32 | MtFloat32 | MtBool

fun kind_is_bit :: "modbus_kind \<Rightarrow> bool" where
  "kind_is_bit MbCoil = True" | "kind_is_bit MbDiscrete = True" | "kind_is_bit _ = False"

fun type_regs :: "modbus_type \<Rightarrow> int" where
  "type_regs MtUint16 = 1" | "type_regs MtInt16 = 1" | "type_regs MtUint32 = 2"
| "type_regs MtInt32 = 2" | "type_regs MtFloat32 = 2" | "type_regs MtBool = 1"

definition get_uint16 :: "byte list \<Rightarrow> int \<Rightarrow> 16 word option" where
  "get_uint16 b off = (if off < 0 \<or> int (length b) < off + 2 then None else Some (be_uint16 b (nat off)))"

definition get_u32 :: "byte list \<Rightarrow> int \<Rightarrow> bool \<Rightarrow> 32 word option" where
  "get_u32 b off word_swap =
     (if off < 0 \<or> int (length b) < off + 4 then None
      else let first = be_uint16 b (nat off); second = be_uint16 b (nat off + 2);
               hi = (if word_swap then second else first); lo = (if word_swap then first else second)
           in Some (push_bit 16 (ucast hi) OR ucast lo))"

text \<open>Coils are packed with the lowest bit of a byte first.\<close>

definition get_coil :: "byte list \<Rightarrow> int \<Rightarrow> bool option" where
  "get_coil b i =
     (if i < 0 then None
      else if int (length b) \<le> i div 8 then None
      else Some (bit (b ! nat (i div 8)) (nat (i mod 8))))"

text \<open>The value of a register tag \<open>off\<close> bytes into its block.\<close>

fun register_value :: "modbus_type \<Rightarrow> bool \<Rightarrow> byte list \<Rightarrow> int \<Rightarrow> f64 option" where
  "register_value MtUint16 swap b off = map_option (\<lambda>v. Fin (of_int (uint v))) (get_uint16 b off)"
| "register_value MtInt16 swap b off = map_option (\<lambda>v. Fin (of_int (sint v))) (get_uint16 b off)"
| "register_value MtUint32 swap b off = map_option (\<lambda>v. Fin (of_int (uint v))) (get_u32 b off swap)"
| "register_value MtInt32 swap b off = map_option (\<lambda>v. Fin (of_int (sint v))) (get_u32 b off swap)"
| "register_value MtFloat32 swap b off = map_option float32_frombits (get_u32 b off swap)"
| "register_value MtBool swap b off = None"

definition bool_float :: "bool \<Rightarrow> f64" where
  "bool_float v = (if v then Fin 1 else Fin 0)"

section \<open>S7\<close>

datatype s7_type = S7Int | S7DInt | S7Real | S7Bool

fun s7_width :: "s7_type \<Rightarrow> int" where
  "s7_width S7Int = 2" | "s7_width S7DInt = 4" | "s7_width S7Real = 4" | "s7_width S7Bool = 1"

definition get_dword :: "byte list \<Rightarrow> int \<Rightarrow> 32 word option" where
  "get_dword b off = (if off < 0 \<or> int (length b) < off + 4 then None else Some (be_uint32 b (nat off)))"

definition get_bool :: "byte list \<Rightarrow> int \<Rightarrow> int \<Rightarrow> bool option" where
  "get_bool b off i =
     (if off < 0 \<or> int (length b) \<le> off \<or> i < 0 \<or> 7 < i then None else Some (bit (b ! nat off) (nat i)))"

fun s7_value :: "s7_type \<Rightarrow> int \<Rightarrow> byte list \<Rightarrow> int \<Rightarrow> f64 option" where
  "s7_value S7Int i b off = map_option (\<lambda>v. Fin (of_int (sint v))) (get_uint16 b off)"
| "s7_value S7DInt i b off = map_option (\<lambda>v. Fin (of_int (sint v))) (get_dword b off)"
| "s7_value S7Real i b off = map_option float32_frombits (get_dword b off)"
| "s7_value S7Bool i b off = map_option bool_float (get_bool b off i)"

section \<open>Blocks of a device\<close>

text \<open>A decoder reads only the bytes of its value: equal bytes, equal values.\<close>

lemma be_uint16_cong:
  "b ! i = c ! j \<Longrightarrow> b ! (i + 1) = c ! (j + 1) \<Longrightarrow> be_uint16 b i = be_uint16 c j"
  by (simp add: be_uint16_def)

text \<open>The registers of a block on the wire.\<close>

definition register_bytes :: "16 word \<Rightarrow> byte list" where
  "register_bytes r = [ucast (drop_bit 8 r), ucast r]"

fun pack_bits :: "bool list \<Rightarrow> byte" where
  "pack_bits [] = 0"
| "pack_bits (x # xs) = (if x then 1 else 0) OR 2 * pack_bits xs"

fun pack_coils :: "bool list \<Rightarrow> byte list" where
  "pack_coils [] = []"
| "pack_coils (x # xs) = pack_bits (take 8 (x # xs)) # pack_coils (drop 7 xs)"

lemma register_bytes_length [simp]: "length (concat (map register_bytes rs)) = 2 * length rs"
  by (induction rs) (simp_all add: register_bytes_def)

lemma nth_register_bytes:
  assumes "k < length rs"
  shows "concat (map register_bytes rs) ! (2 * k) = ucast (drop_bit 8 (rs ! k))"
    and "concat (map register_bytes rs) ! (2 * k + 1) = ucast (rs ! k)"
  using assms
proof (induction rs arbitrary: k)
  case (Cons r rs)
  { case 1 show ?case using Cons 1 by (cases k) (simp_all add: register_bytes_def) }
  { case 2 show ?case using Cons 2 by (cases k) (simp_all add: register_bytes_def) }
qed simp_all

lemma be_uint16_split: "be_uint16 [ucast (drop_bit 8 r), ucast r] 0 = (r :: 16 word)"
  unfolding be_uint16_def
  by (intro bit_word_eqI) (auto simp: bit_or_iff bit_push_bit_iff bit_ucast_iff bit_drop_bit_eq)

lemma be_uint16_register:
  "k < length rs \<Longrightarrow> be_uint16 (concat (map register_bytes rs)) (2 * k) = rs ! k"
  using be_uint16_cong [of _ "2 * k" "[ucast (drop_bit 8 (rs ! k)), ucast (rs ! k)]" 0] nth_register_bytes [of k rs]
  by (simp add: be_uint16_split)

lemma bit_pack_bits: "i < 8 \<Longrightarrow> length xs \<le> 8 \<Longrightarrow> bit (pack_bits xs) i \<longleftrightarrow> i < length xs \<and> xs ! i"
proof (induction xs arbitrary: i)
  case (Cons x xs)
  then show ?case
    by (cases i) (auto simp: bit_or_iff bit_double_iff bit_1_iff)
qed simp

lemma pack_coils_length: "length (pack_coils xs) = (length xs + 7) div 8"
  by (induction xs rule: pack_coils.induct) auto

lemma get_coil_Cons:
  assumes "0 \<le> i"
  shows "get_coil (y # ys) (i + 8) = get_coil ys i"
proof -
  have "(i + 8) div 8 = i div 8 + 1" "(i + 8) mod 8 = i mod 8" by simp_all
  moreover have "nat (i div 8 + 1) = Suc (nat (i div 8))" using assms by (simp add: nat_add_distrib)
  ultimately show ?thesis using assms by (simp add: get_coil_def)
qed

lemma get_coil_pack:
  "k < length xs \<Longrightarrow> get_coil (pack_coils xs) (int k) = Some (xs ! k)"
proof (induction xs arbitrary: k rule: pack_coils.induct)
  case (2 x xs)
  show ?case
  proof (cases "k < 8")
    case True
    then have "nat (int k div 8) = 0" "nat (int k mod 8) = k" "int k div 8 = 0" by auto
    with 2(2) True show ?thesis
      by (cases k) (simp_all add: get_coil_def bit_pack_bits min_def del: pack_bits.simps)
  next
    case False
    define j where "j = k - 8"
    have k: "k = j + 8" using False by (simp add: j_def)
    with 2(2) have "get_coil (pack_coils (drop 7 xs)) (int j) = Some (drop 7 xs ! j)" by (intro 2(1)) simp
    moreover have "drop 7 xs ! j = (x # xs) ! k" using 2(2) by (simp add: k numeral_eq_Suc)
    ultimately show ?thesis using get_coil_Cons [of "int j"] by (simp add: k)
  qed
qed simp

end
