(* ===== verification/PlcReader.thy ===== *)
theory PlcReader
  imports PlcDecode StreamMetric SparkplugB
begin

text \<open>
  The PLC readers: the pollers of internal/modbus, internal/s7 and internal/opcua (poller.go),
  the payload builder they share (internal/sparkplug/sim.go), the raw-tag path
  (internal/rawemit/rawemit.go) and the direct SparkPlug loop of the cmd/*-reader mains. A
  device is the function that answers its reads; \<open>None\<close> is a failed read. Connections, MQTT
  delivery and logs are not modelled.
\<close>

section \<open>Tags and samples\<close>

record poll_tag =
  pt_metric :: string
  pt_alias :: nat
  pt_long :: bool
  pt_scale :: f64

record modbus_tag = poll_tag +
  mb_kind :: modbus_kind
  mb_address :: "16 word"
  mb_quantity :: "16 word"
  mb_type :: modbus_type
  mb_word_swap :: bool

record s7_tag = poll_tag +
  s7_db :: int
  s7_offset :: int
  s7_bit :: int
  s7_type :: s7_type

datatype opcua_type = UaInt | UaFloat | UaBool | UaString

record opcua_tag = poll_tag +
  ua_node :: string
  ua_type :: opcua_type

record sim_metric =
  si_name :: string
  si_alias :: nat
  si_double :: f64
  si_long :: int
  si_text :: string
  si_is_long :: bool
  si_is_text :: bool

datatype poll_error = PollNoTags | PollEmptyMetric nat | PollEmptyNode string | PollZeroAlias string
  | PollDuplicateAlias nat string | PollReadFailed | PollBadCount nat nat | PollUndecodable string

section \<open>Construction\<close>

text \<open>
  The loop of the three \<open>NewPoller\<close>s; \<open>extra\<close> is OPC UA's node check, made after the name's.
  Every \<open>Type\<close> of the model has a width, so the last check of the other two never fails.
\<close>

fun check_tags :: "('a poll_tag_scheme \<Rightarrow> poll_error option) \<Rightarrow> nat \<Rightarrow> nat list \<Rightarrow> 'a poll_tag_scheme list \<Rightarrow> poll_error option" where
  "check_tags extra i seen [] = None"
| "check_tags extra i seen (t # ts) =
     (if pt_metric t = [] then Some (PollEmptyMetric i)
      else case extra t of Some e \<Rightarrow> Some e
      | None \<Rightarrow>
        if pt_alias t = 0 then Some (PollZeroAlias (pt_metric t))
        else if pt_alias t \<in> set seen then Some (PollDuplicateAlias (pt_alias t) (pt_metric t))
        else check_tags extra (Suc i) (pt_alias t # seen) ts)"

definition new_poller :: "('a poll_tag_scheme \<Rightarrow> poll_error option) \<Rightarrow> 'a poll_tag_scheme list \<Rightarrow> poll_error + 'a poll_tag_scheme list" where
  "new_poller extra ts =
     (if ts = [] then Inl PollNoTags else case check_tags extra 0 [] ts of Some e \<Rightarrow> Inl e | None \<Rightarrow> Inr ts)"

definition opcua_node_check :: "opcua_tag \<Rightarrow> poll_error option" where
  "opcua_node_check t = (if ua_node t = [] then Some (PollEmptyNode (pt_metric t)) else None)"

section \<open>Sampling\<close>

text \<open>The tail of the three \<open>Sample\<close> loops: scale, name on birth, Long or Double.\<close>

definition sim_of :: "bool \<Rightarrow> 'a poll_tag_scheme \<Rightarrow> f64 \<Rightarrow> sim_metric" where
  "sim_of birth t raw =
     (let v = fmul raw (if feq (pt_scale t) (Fin 0) then Fin 1 else pt_scale t)
      in \<lparr>si_name = (if birth then pt_metric t else []), si_alias = pt_alias t,
          si_double = (if pt_long t then Fin 0 else v), si_long = (if pt_long t then to_int64 v else 0),
          si_text = [], si_is_long = pt_long t, si_is_text = False\<rparr>)"

fun emit_tags :: "('a poll_tag_scheme \<Rightarrow> f64 option) \<Rightarrow> bool \<Rightarrow> 'a poll_tag_scheme list \<Rightarrow> poll_error + sim_metric list" where
  "emit_tags value birth [] = Inr []"
| "emit_tags value birth (t # ts) =
     (case value t of
        None \<Rightarrow> Inl (PollUndecodable (pt_metric t))
      | Some raw \<Rightarrow> map_sum id ((#) (sim_of birth t raw)) (emit_tags value birth ts))"

subsection \<open>Modbus\<close>

definition tag_regs :: "modbus_tag \<Rightarrow> int" where
  "tag_regs t = (if 0 < mb_quantity t then uint (mb_quantity t)
     else if kind_is_bit (mb_kind t) then 1 else type_regs (mb_type t))"

text \<open>\<open>readPlan\<close>: one span per address space, its end exclusive, in 16-bit arithmetic.\<close>

type_synonym read_span = "16 word \<times> 16 word"

definition plan_step :: "modbus_tag \<Rightarrow> (modbus_kind \<rightharpoonup> read_span) \<Rightarrow> (modbus_kind \<rightharpoonup> read_span)" where
  "plan_step t plan =
     (let e = mb_address t + word_of_int (tag_regs t)
      in case plan (mb_kind t) of
           None \<Rightarrow> plan(mb_kind t \<mapsto> (mb_address t, e))
         | Some (s, e0) \<Rightarrow> plan(mb_kind t \<mapsto> (if mb_address t < s then mb_address t else s, if e0 < e then e else e0)))"

definition read_plan :: "modbus_tag list \<Rightarrow> (modbus_kind \<rightharpoonup> read_span)" where
  "read_plan ts = fold plan_step ts Map.empty"

type_synonym modbus_read = "modbus_kind \<Rightarrow> 16 word \<Rightarrow> 16 word \<Rightarrow> byte list option"

text \<open>The blocks of one tick; the four spaces are read in any order, one failure fails the sample.\<close>

definition modbus_block :: "modbus_read \<Rightarrow> modbus_tag list \<Rightarrow> modbus_kind \<Rightarrow> (16 word \<times> byte list) option" where
  "modbus_block read ts k =
     (case read_plan ts k of None \<Rightarrow> None | Some (s, e) \<Rightarrow> map_option (Pair s) (read k s (e - s)))"

definition modbus_decode :: "modbus_tag \<Rightarrow> 16 word \<times> byte list \<Rightarrow> f64 option" where
  "modbus_decode t blk =
     (let pos = uint (mb_address t) - uint (fst blk)
      in if kind_is_bit (mb_kind t) then map_option bool_float (get_coil (snd blk) pos)
         else register_value (mb_type t) (mb_word_swap t) (snd blk) (pos * 2))"

definition sample_blocks :: "('a poll_tag_scheme \<Rightarrow> 's) \<Rightarrow> ('s \<Rightarrow> 'b option) \<Rightarrow> ('a poll_tag_scheme \<Rightarrow> 'b \<Rightarrow> f64 option)
    \<Rightarrow> bool \<Rightarrow> 'a poll_tag_scheme list \<Rightarrow> poll_error + sim_metric list" where
  "sample_blocks space block decode birth ts =
     (if list_ex (\<lambda>t. block (space t) = None) ts then Inl PollReadFailed
      else emit_tags (\<lambda>t. case block (space t) of None \<Rightarrow> None | Some b \<Rightarrow> decode t b) birth ts)"

definition modbus_sample :: "modbus_read \<Rightarrow> bool \<Rightarrow> modbus_tag list \<Rightarrow> poll_error + sim_metric list" where
  "modbus_sample read birth ts = sample_blocks mb_kind (modbus_block read ts) modbus_decode birth ts"

subsection \<open>S7\<close>

text \<open>\<open>dbReadPlan\<close>: the bytes to read of each data block, from its start; 0 when it has no tag.\<close>

definition db_read_plan :: "s7_tag list \<Rightarrow> int \<Rightarrow> int" where
  "db_read_plan ts db = fold (\<lambda>t n. if s7_db t = db \<and> n < s7_offset t + s7_width (s7_type t)
     then s7_offset t + s7_width (s7_type t) else n) ts 0"

type_synonym s7_read = "int \<Rightarrow> int \<Rightarrow> int \<Rightarrow> byte list option"

text \<open>A block of no byte is not read, its buffer is empty.\<close>

definition s7_block :: "s7_read \<Rightarrow> s7_tag list \<Rightarrow> int \<Rightarrow> byte list option" where
  "s7_block read ts db = (let n = db_read_plan ts db in if n \<le> 0 then Some [] else read db 0 n)"

definition s7_decode :: "s7_tag \<Rightarrow> byte list \<Rightarrow> f64 option" where
  "s7_decode t b = s7_value (s7_type t) (s7_bit t) b (s7_offset t)"

definition s7_sample :: "s7_read \<Rightarrow> bool \<Rightarrow> s7_tag list \<Rightarrow> poll_error + sim_metric list" where
  "s7_sample read birth ts = sample_blocks s7_db (s7_block read ts) s7_decode birth ts"

subsection \<open>OPC UA\<close>

text \<open>What the client yields for a node, \<open>OvNil\<close> for a node the server could not read.\<close>

datatype opc_value = OvNil | OvFloat f64 | OvInt int | OvBool bool | OvString string | OvOther

fun to_float :: "opc_value \<Rightarrow> f64 option" where
  "to_float (OvFloat f) = Some f" | "to_float (OvInt n) = Some (round64 (of_int n))"
| "to_float (OvBool b) = Some (bool_float b)" | "to_float _ = None"

fun coerce :: "opcua_type \<Rightarrow> opc_value \<Rightarrow> f64 option" where
  "coerce UaString (OvString s) = parse_float s" | "coerce _ v = to_float v"

fun emit_values :: "bool \<Rightarrow> (opcua_tag \<times> opc_value) list \<Rightarrow> poll_error + sim_metric list" where
  "emit_values birth [] = Inr []"
| "emit_values birth ((t, v) # ps) =
     (case coerce (ua_type t) v of
        None \<Rightarrow> Inl (PollUndecodable (pt_metric t))
      | Some raw \<Rightarrow> map_sum id ((#) (sim_of birth t raw)) (emit_values birth ps))"

definition opcua_sample :: "(string list \<Rightarrow> opc_value list option) \<Rightarrow> bool \<Rightarrow> opcua_tag list \<Rightarrow> poll_error + sim_metric list" where
  "opcua_sample read birth ts =
     (case read (map ua_node ts) of
        None \<Rightarrow> Inl PollReadFailed
      | Some vs \<Rightarrow> if length vs \<noteq> length ts then Inl (PollBadCount (length vs) (length ts))
                  else emit_values birth (zip ts vs))"

section \<open>Payloads\<close>

text \<open>\<open>EncodeSim\<close>: datatypes 4 (Int64), 10 (Double) and 12 (String); the time is in whole seconds.\<close>

definition now_millis :: "int \<Rightarrow> nat" where
  "now_millis now_ms = nat (now_ms div 1000 * 1000)"

definition sim_wire :: "nat \<Rightarrow> sim_metric \<Rightarrow> wire_metric" where
  "sim_wire ts m = empty_metric\<lparr>wm_name := (if si_name m = [] then None else Some (si_name m)),
     wm_alias := Some (si_alias m), wm_timestamp := Some ts,
     wm_datatype := Some (if si_is_text m then 12 else if si_is_long m then 4 else 10),
     wm_value := (if si_is_text m then StringValue (si_text m)
                  else if si_is_long m then LongValue (word_of_int (si_long m)) else DoubleValue (si_double m))\<rparr>"

definition encode_sim :: "int \<Rightarrow> bool \<Rightarrow> sim_metric list \<Rightarrow> nat \<Rightarrow> payload \<times> nat" where
  "encode_sim now_ms birth ms seq =
     (let ts = now_millis now_ms; seq' = (if birth then 0 else (seq + 1) mod 256)
      in (\<lparr>pl_timestamp = Some ts, pl_seq = Some seq',
           pl_metrics = map (sim_wire ts) ms @
             (if birth then [empty_metric\<lparr>wm_name := Some ''bdSeq'', wm_timestamp := Some ts,
                wm_datatype := Some 4, wm_value := LongValue 0\<rparr>] else [])\<rparr>, seq'))"

section \<open>The direct SparkPlug loop\<close>

text \<open>
  \<open>runLegacy\<close>: \<open>birthed\<close> and the poller's sequence number; an event carries the clock and what
  sampling yields now. A birth that fails is only logged.
\<close>

datatype reader_event = BrokerUp int "bool \<Rightarrow> poll_error + sim_metric list" | ReaderTick int "bool \<Rightarrow> poll_error + sim_metric list"

record reader_state =
  rd_birthed :: bool
  rd_seq :: nat

definition publish_birth :: "int \<Rightarrow> (bool \<Rightarrow> poll_error + sim_metric list) \<Rightarrow> reader_state \<Rightarrow> (string \<times> payload) list \<times> reader_state" where
  "publish_birth now sample st =
     (case sample True of
        Inl e \<Rightarrow> ([], st)
      | Inr ms \<Rightarrow> (case encode_sim now True ms (rd_seq st) of (p, seq') \<Rightarrow> ([(''NBIRTH'', p)], st\<lparr>rd_seq := seq'\<rparr>)))"

definition reader_step :: "reader_event \<Rightarrow> reader_state \<Rightarrow> (string \<times> payload) list \<times> reader_state" where
  "reader_step ev st =
     (case ev of
        BrokerUp now sample \<Rightarrow> (case publish_birth now sample st of (out, st') \<Rightarrow> (out, st'\<lparr>rd_birthed := True\<rparr>))
      | ReaderTick now sample \<Rightarrow>
          if \<not> rd_birthed st
          then (case publish_birth now sample st of (out, st') \<Rightarrow> (out, st'\<lparr>rd_birthed := True\<rparr>))
          else (case sample False of
              Inl e \<Rightarrow> ([], st\<lparr>rd_birthed := False\<rparr>)
            | Inr ms \<Rightarrow> (case encode_sim now False ms (rd_seq st) of (p, seq') \<Rightarrow>
                ([(''NDATA'', p)], st\<lparr>rd_seq := seq'\<rparr>))))"

fun reader_run :: "reader_event list \<Rightarrow> reader_state \<Rightarrow> (string \<times> payload) list \<times> reader_state" where
  "reader_run [] st = ([], st)"
| "reader_run (e # es) st =
     (case reader_step e st of (out, st1) \<Rightarrow> (case reader_run es st1 of (outs, st2) \<Rightarrow> (out @ outs, st2)))"

definition new_reader :: reader_state where
  "new_reader = \<lparr>rd_birthed = False, rd_seq = 0\<rparr>"

section \<open>The raw-tag path\<close>

definition trim_prefix :: "string \<Rightarrow> string \<Rightarrow> string" where
  "trim_prefix p s = (if has_prefix p s then drop (length p) s else s)"

definition to_out_tag :: "string \<Rightarrow> sim_metric \<Rightarrow> out_tag" where
  "to_out_tag prefix m = \<lparr>ot_metric = trim_prefix prefix (si_name m),
     ot_value = (if si_is_text m then JStr (si_text m)
                 else if si_is_long m then JNum (round64 (of_int (si_long m))) else JNum (si_double m)),
     ot_long = si_is_long m\<rparr>"

text \<open>JSON has no infinity and no NaN: such a value fails \<open>rawtag.Encode\<close> for the whole envelope.\<close>

definition marshals :: "out_tag \<Rightarrow> bool" where
  "marshals t = (case ot_value t of JNum f \<Rightarrow> finite_f64 f | _ \<Rightarrow> True)"

definition raw_emit_tick :: "string \<Rightarrow> string \<Rightarrow> int \<Rightarrow> (bool \<Rightarrow> poll_error + sim_metric list) \<Rightarrow> envelope option" where
  "raw_emit_tick endpoint prefix now sample =
     (case sample True of
        Inl e \<Rightarrow> None
      | Inr ms \<Rightarrow> let tags = map (to_out_tag prefix) ms
                 in if list_all marshals tags then Some (rawtag_encode endpoint now tags) else None)"

end
