(* ===== verification/PlcProps.thy ===== *)
theory PlcProps
  imports PlcReader
begin

text \<open>
  Properties of the PLC readers. The interface of a batched read is the locale
  \<open>batched_read\<close>: every tag of an acceptable list decodes to its own value from the block read
  for its address space; Modbus and S7 implement it on a model of their device's memory. Then
  what the decoder makes of a reader's messages, and inputs that silence a reader.
\<close>

section \<open>Batched reads\<close>

locale batched_read =
  fixes space :: "'a poll_tag_scheme \<Rightarrow> 's"
    and block :: "'a poll_tag_scheme list \<Rightarrow> 's \<Rightarrow> 'b option"
    and decode :: "'a poll_tag_scheme \<Rightarrow> 'b \<Rightarrow> f64 option"
    and val :: "'a poll_tag_scheme \<Rightarrow> f64"
    and ok :: "'a poll_tag_scheme list \<Rightarrow> bool"
  assumes covered: "ok ts \<Longrightarrow> t \<in> set ts \<Longrightarrow> \<exists>b. block ts (space t) = Some b \<and> decode t b = Some (val t)"
begin

lemma emit_exact:
  "ok ts \<Longrightarrow> set us \<subseteq> set ts \<Longrightarrow>
   emit_tags (\<lambda>t. case block ts (space t) of None \<Rightarrow> None | Some b \<Rightarrow> decode t b) birth us
     = Inr (map (\<lambda>t. sim_of birth t (val t)) us)"
proof (induction us)
  case (Cons u us)
  with covered [of ts u] obtain b where "block ts (space u) = Some b" "decode u b = Some (val u)" by auto
  with Cons show ?case by simp
qed simp

lemma sample_exact:
  assumes "ok ts"
  shows "sample_blocks space (block ts) decode birth ts = Inr (map (\<lambda>t. sim_of birth t (val t)) ts)"
proof -
  have "\<not> list_ex (\<lambda>t. block ts (space t) = None) ts"
    using covered [OF assms] by (fastforce simp: list_ex_iff)
  then show ?thesis using emit_exact [OF assms, of ts birth] by (simp add: sample_blocks_def)
qed

end

section \<open>Modbus\<close>

text \<open>
  A device: its registers and bits by address, and the most addresses one request may ask for.
  It answers a request inside its address space with the contents.
\<close>

record modbus_device =
  md_regs :: "modbus_kind \<Rightarrow> int \<Rightarrow> 16 word"
  md_bits :: "modbus_kind \<Rightarrow> int \<Rightarrow> bool"
  md_limit :: "modbus_kind \<Rightarrow> int"

definition device_read :: "modbus_device \<Rightarrow> modbus_read" where
  "device_read d k s q =
     (if q = 0 \<or> md_limit d k < uint q \<or> 65536 < uint s + uint q then None
      else if kind_is_bit k then Some (pack_coils (map (\<lambda>i. md_bits d k (uint s + int i)) [0..<unat q]))
      else Some (concat (map register_bytes (map (\<lambda>i. md_regs d k (uint s + int i)) [0..<unat q]))))"

text \<open>The value of a tag, read on its own.\<close>

definition device_value :: "modbus_device \<Rightarrow> modbus_tag \<Rightarrow> f64" where
  "device_value d t =
     (let k = mb_kind t; a = uint (mb_address t); r = md_regs d k;
          w = (if mb_word_swap t then push_bit 16 (ucast (r (a + 1))) OR ucast (r a)
               else push_bit 16 (ucast (r a)) OR ucast (r (a + 1)) :: 32 word)
      in if kind_is_bit k then bool_float (md_bits d k a)
         else case mb_type t of
           MtUint16 \<Rightarrow> Fin (of_int (uint (r a)))
         | MtInt16 \<Rightarrow> Fin (of_int (sint (r a)))
         | MtUint32 \<Rightarrow> Fin (of_int (uint w))
         | MtInt32 \<Rightarrow> Fin (of_int (sint w))
         | MtFloat32 \<Rightarrow> float32_frombits w
         | MtBool \<Rightarrow> Fin 0)"

text \<open>A usable tag: its span ends before the last address, and holds its value.\<close>

definition usable_tag :: "modbus_tag \<Rightarrow> bool" where
  "usable_tag t \<longleftrightarrow> uint (mb_address t) + tag_regs t < 65536
     \<and> (\<not> kind_is_bit (mb_kind t) \<longrightarrow> mb_type t \<noteq> MtBool \<and> type_regs (mb_type t) \<le> tag_regs t)"

definition modbus_ok :: "modbus_device \<Rightarrow> modbus_tag list \<Rightarrow> bool" where
  "modbus_ok d ts \<longleftrightarrow> (\<forall>t\<in>set ts. usable_tag t)
     \<and> (\<forall>k s e. read_plan ts k = Some (s, e) \<longrightarrow> uint e - uint s \<le> md_limit d k)"

definition plan_inv :: "modbus_tag list \<Rightarrow> (modbus_kind \<rightharpoonup> read_span) \<Rightarrow> bool" where
  "plan_inv ts plan \<longleftrightarrow> (\<forall>t\<in>set ts. \<exists>s e. plan (mb_kind t) = Some (s, e)
     \<and> uint s \<le> uint (mb_address t) \<and> uint (mb_address t) + tag_regs t \<le> uint e)"

lemma tag_regs_pos: "0 < tag_regs t"
proof -
  have "0 < type_regs (mb_type t)" by (cases "mb_type t") simp_all
  moreover have "0 < uint (mb_quantity t)" if "0 < mb_quantity t" using that by (simp add: word_less_def)
  ultimately show ?thesis by (simp add: tag_regs_def)
qed

lemma tag_end:
  assumes "usable_tag t"
  shows "uint (mb_address t + word_of_int (tag_regs t)) = uint (mb_address t) + tag_regs t"
proof -
  have "0 \<le> uint (mb_address t)" "0 < tag_regs t" by (simp_all add: tag_regs_pos)
  with assms show ?thesis
    by (simp add: usable_tag_def uint_word_ariths uint_word_of_int mod_add_right_eq)
qed

lemma plan_step_inv:
  assumes "plan_inv ts plan" "usable_tag t"
  shows "plan_inv (t # ts) (plan_step t plan)"
proof (unfold plan_inv_def, intro ballI)
  fix u assume u: "u \<in> set (t # ts)"
  note e = tag_end [OF assms(2)]
  show "\<exists>s e. plan_step t plan (mb_kind u) = Some (s, e) \<and> uint s \<le> uint (mb_address u)
      \<and> uint (mb_address u) + tag_regs u \<le> uint e"
  proof (cases "u = t")
    case True
    then show ?thesis using e
      by (cases "plan (mb_kind t)") (auto simp: plan_step_def Let_def word_less_def split: prod.split)
  next
    case False
    with u assms(1) obtain s f where p: "plan (mb_kind u) = Some (s, f)" "uint s \<le> uint (mb_address u)"
        "uint (mb_address u) + tag_regs u \<le> uint f" by (auto simp: plan_inv_def)
    then show ?thesis using e
      by (cases "mb_kind u = mb_kind t"; cases "plan (mb_kind t)")
        (auto simp: plan_step_def Let_def word_less_def split: prod.split)
  qed
qed

lemma read_plan_inv:
  assumes "\<forall>t\<in>set ts. usable_tag t"
  shows "plan_inv ts (read_plan ts)"
proof -
  have "plan_inv (rev us @ vs) (fold plan_step us plan)"
    if "plan_inv vs plan" "\<forall>t\<in>set us. usable_tag t" for us vs plan
    using that
  proof (induction us arbitrary: vs plan)
    case (Cons u us)
    from Cons.IH [OF plan_step_inv [OF Cons.prems(1), of u]] Cons.prems(2) show ?case by simp
  qed simp
  from this [of "[]" Map.empty ts] assms show ?thesis by (simp add: plan_inv_def read_plan_def)
qed

lemma register_block:
  assumes "0 \<le> p" "p < n"
  shows "get_uint16 (concat (map register_bytes (map f [0..<nat n]))) (p * 2) = Some (f (nat p))"
  using assms be_uint16_register [of "nat p" "map f [0..<nat n]"]
  by (simp add: get_uint16_def nat_mult_distrib mult.commute del: map_map)

lemma register_pair:
  assumes "0 \<le> p" "p + 1 < n"
  shows "get_u32 (concat (map register_bytes (map f [0..<nat n]))) (p * 2) swap
    = Some (if swap then push_bit 16 (ucast (f (nat p + 1))) OR ucast (f (nat p))
            else push_bit 16 (ucast (f (nat p))) OR ucast (f (nat p + 1)))"
  using assms be_uint16_register [of "nat p" "map f [0..<nat n]"] be_uint16_register [of "nat p + 1" "map f [0..<nat n]"]
  by (simp add: get_u32_def Let_def nat_mult_distrib mult.commute nat_add_distrib del: map_map)

lemma modbus_decode_exact:
  assumes "usable_tag t" "uint s \<le> uint (mb_address t)" "uint (mb_address t) + tag_regs t \<le> uint e"
    and "uint e - uint s \<le> md_limit d (mb_kind t)"
  shows "\<exists>b. device_read d (mb_kind t) s (e - s) = Some b \<and> modbus_decode t (s, b) = Some (device_value d t)"
proof -
  let ?p = "uint (mb_address t) - uint s" and ?n = "uint e - uint s"
  have le: "uint s < uint e" using assms(2,3) tag_regs_pos [of t] by simp
  then have n: "uint (e - s) = ?n" by (simp add: uint_sub_lem [THEN iffD1])
  then have un: "unat (e - s) = nat ?n" and nz: "e - s \<noteq> 0" using le by (auto simp flip: nat_uint_eq)
  have top: "uint s + ?n \<le> 65536" using uint_lt2p [of e] by simp
  have p: "0 \<le> ?p" "?p + tag_regs t \<le> ?n" using assms(2,3) by simp_all
  have addr: "uint s + int (nat ?p) = uint (mb_address t)" "uint s + int (nat ?p + 1) = uint (mb_address t) + 1"
    using p by simp_all
  show ?thesis
  proof (cases "kind_is_bit (mb_kind t)")
    case True
    have "get_coil (pack_coils (map (\<lambda>i. md_bits d (mb_kind t) (uint s + int i)) [0..<nat ?n])) (int (nat ?p))
        = Some (md_bits d (mb_kind t) (uint (mb_address t)))"
      using get_coil_pack [of "nat ?p" "map (\<lambda>i. md_bits d (mb_kind t) (uint s + int i)) [0..<nat ?n]"] p tag_regs_pos [of t] addr(1)
      by (simp del: int_nat_eq)
    with True p show ?thesis using n un nz top assms(4)
      by (simp add: device_read_def modbus_decode_def device_value_def Let_def)
  next
    case False
    then have ty: "mb_type t \<noteq> MtBool" "type_regs (mb_type t) \<le> tag_regs t" using assms(1) by (simp_all add: usable_tag_def)
    have one: "?p < ?n" using p tag_regs_pos [of t] by simp
    have two: "?p + 1 < ?n" if "type_regs (mb_type t) = 2" using p ty(2) that by simp
    have r1: "get_uint16 (concat (map register_bytes (map (\<lambda>i. md_regs d (mb_kind t) (uint s + int i)) [0..<nat ?n]))) (?p * 2)
        = Some (md_regs d (mb_kind t) (uint (mb_address t)))"
      using register_block [OF p(1) one, of "\<lambda>i. md_regs d (mb_kind t) (uint s + int i)"] by (simp only: addr)
    have r2: "get_u32 (concat (map register_bytes (map (\<lambda>i. md_regs d (mb_kind t) (uint s + int i)) [0..<nat ?n]))) (?p * 2) (mb_word_swap t)
        = Some (if mb_word_swap t then push_bit 16 (ucast (md_regs d (mb_kind t) (uint (mb_address t) + 1))) OR ucast (md_regs d (mb_kind t) (uint (mb_address t)))
            else push_bit 16 (ucast (md_regs d (mb_kind t) (uint (mb_address t)))) OR ucast (md_regs d (mb_kind t) (uint (mb_address t) + 1)))"
      if "type_regs (mb_type t) = 2"
      using register_pair [OF p(1) two [OF that], of "\<lambda>i. md_regs d (mb_kind t) (uint s + int i)" "mb_word_swap t"] by (simp only: addr)
    show ?thesis using False n un nz top assms(4) ty(1) r1 r2
      by (cases "mb_type t") (simp_all add: device_read_def modbus_decode_def device_value_def Let_def del: map_map)
  qed
qed

interpretation modbus: batched_read mb_kind "modbus_block (device_read d)" modbus_decode "device_value d" "modbus_ok d" for d
proof
  fix ts t assume ok: "modbus_ok d ts" and t: "t \<in> set ts"
  from ok have u: "\<forall>t\<in>set ts. usable_tag t" by (simp add: modbus_ok_def)
  from read_plan_inv [OF u] t obtain s e where p: "read_plan ts (mb_kind t) = Some (s, e)" "uint s \<le> uint (mb_address t)"
      "uint (mb_address t) + tag_regs t \<le> uint e" by (auto simp: plan_inv_def)
  with ok modbus_decode_exact [of t s e d] u t obtain b where
    "device_read d (mb_kind t) s (e - s) = Some b" "modbus_decode t (s, b) = Some (device_value d t)"
    by (auto simp: modbus_ok_def)
  with p(1) show "\<exists>b. modbus_block (device_read d) ts (mb_kind t) = Some b \<and> modbus_decode t b = Some (device_value d t)"
    by (simp add: modbus_block_def)
qed

section \<open>S7\<close>

text \<open>A PLC: the bytes of its data blocks and their sizes.\<close>

record s7_device =
  sd_mem :: "int \<Rightarrow> int \<Rightarrow> byte"
  sd_size :: "int \<Rightarrow> int"

definition s7_bytes :: "s7_device \<Rightarrow> int \<Rightarrow> int \<Rightarrow> int \<Rightarrow> byte list" where
  "s7_bytes d db start n = map (\<lambda>i. sd_mem d db (start + int i)) [0..<nat n]"

definition s7_device_read :: "s7_device \<Rightarrow> s7_read" where
  "s7_device_read d db start n = (if start < 0 \<or> sd_size d db < start + n then None else Some (s7_bytes d db start n))"

text \<open>The value of a tag from its own bytes.\<close>

definition s7_tag_value :: "s7_device \<Rightarrow> s7_tag \<Rightarrow> f64 option" where
  "s7_tag_value d t = s7_value (s7_type t) (s7_bit t) (s7_bytes d (s7_db t) (s7_offset t) (s7_width (s7_type t))) 0"

definition s7_ok :: "s7_device \<Rightarrow> s7_tag list \<Rightarrow> bool" where
  "s7_ok d ts \<longleftrightarrow> (\<forall>t\<in>set ts. 0 \<le> s7_offset t \<and> 0 \<le> s7_bit t \<and> s7_bit t \<le> 7)
     \<and> (\<forall>t\<in>set ts. db_read_plan ts (s7_db t) \<le> sd_size d (s7_db t))"

lemma db_read_plan_covers:
  assumes "t \<in> set ts" "s7_db t = db"
  shows "s7_offset t + s7_width (s7_type t) \<le> db_read_plan ts db"
proof -
  let ?f = "\<lambda>t n. if s7_db t = db \<and> n < s7_offset t + s7_width (s7_type t) then s7_offset t + s7_width (s7_type t) else n"
  have mono: "n \<le> fold ?f us n" for us and n :: int
  proof (induction us arbitrary: n)
    case (Cons u us)
    have "n \<le> ?f u n" by simp
    from order_trans [OF this Cons.IH [of "?f u n"]] show ?case by simp
  qed simp
  have "s7_offset t + s7_width (s7_type t) \<le> fold ?f us n" if "t \<in> set us" for us and n :: int
    using that
  proof (induction us arbitrary: n)
    case (Cons u us)
    then show ?case using mono [of "?f u n" us] assms(2) by auto
  qed simp
  with assms(1) show ?thesis by (simp add: db_read_plan_def)
qed

lemma nth_s7_bytes:
  assumes "int i < n"
  shows "s7_bytes d db start n ! i = sd_mem d db (start + int i)"
proof -
  have "i < nat n" using assms by simp
  then show ?thesis by (simp add: s7_bytes_def)
qed

lemma length_s7_bytes [simp]: "length (s7_bytes d db start n) = nat n"
  by (simp add: s7_bytes_def)

lemma s7_width_bounds: "1 \<le> s7_width ty" "s7_width ty \<le> 4"
  by (cases ty; simp)+

lemma s7_value_shift:
  assumes "0 \<le> off" "off + s7_width ty \<le> n"
  shows "s7_value ty i (s7_bytes d db 0 n) off = s7_value ty i (s7_bytes d db off (s7_width ty)) 0"
proof -
  have at: "s7_bytes d db 0 n ! (nat off + k) = sd_mem d db (off + int k)" if "int k < s7_width ty" for k
    using assms that by (subst nth_s7_bytes) auto
  show ?thesis using assms at [of 0] at [of 1] at [of 2] at [of 3]
    by (cases ty) (simp_all add: get_uint16_def get_dword_def get_bool_def be_uint16_def be_uint32_def nth_s7_bytes eval_nat_numeral)
qed

lemma s7_value_Some:
  assumes "0 \<le> i" "i \<le> 7"
  shows "\<exists>v. s7_value ty i (s7_bytes d db off (s7_width ty)) 0 = Some v"
  using assms by (cases ty) (simp_all add: get_uint16_def get_dword_def get_bool_def)

interpretation s7: batched_read s7_db "s7_block (s7_device_read d)" s7_decode
  "\<lambda>t. the (s7_tag_value d t)" "s7_ok d" for d
proof
  fix ts t assume ok: "s7_ok d ts" and t: "t \<in> set ts"
  let ?n = "db_read_plan ts (s7_db t)"
  note cov = db_read_plan_covers [OF t refl]
  have o: "0 \<le> s7_offset t" "0 \<le> s7_bit t" "s7_bit t \<le> 7" "?n \<le> sd_size d (s7_db t)" using ok t by (auto simp: s7_ok_def)
  have "s7_decode t (s7_bytes d (s7_db t) 0 ?n) = s7_tag_value d t"
    using s7_value_shift [OF o(1) cov] by (simp add: s7_decode_def s7_tag_value_def)
  moreover obtain v where "s7_tag_value d t = Some v" 
    using s7_value_Some [OF o(2,3), of "s7_type t" d "s7_db t" "s7_offset t"] by (auto simp: s7_tag_value_def)
  ultimately show "\<exists>b. s7_block (s7_device_read d) ts (s7_db t) = Some b \<and> s7_decode t b = Some (the (s7_tag_value d t))"
    using o(1,4) cov s7_width_bounds(1) [of "s7_type t"] by (simp add: s7_device_read_def s7_block_def)
qed

section \<open>Batching is invisible\<close>

text \<open>
  C24: Modbus and S7 pollers read whole spans and pick every tag out of them; on a device that answers
  with its memory the sample is exactly what reading every tag on its own would give, in order.
\<close>

theorem poll_batching_exact:
  "(modbus_ok d ts \<longrightarrow> modbus_sample (device_read d) birth ts = Inr (map (\<lambda>t. sim_of birth t (device_value d t)) ts))
   \<and> (s7_ok p us \<longrightarrow> s7_sample (s7_device_read p) birth us = Inr (map (\<lambda>t. sim_of birth t (the (s7_tag_value p t))) us))"
  using modbus.sample_exact [of d ts birth] s7.sample_exact [of p us birth]
  by (simp add: modbus_sample_def s7_sample_def)


text \<open>A device with two holding registers and one data block, and tags on them.\<close>

definition demo_modbus :: modbus_device where
  "demo_modbus = \<lparr>md_regs = \<lambda>k a. word_of_int (a * 2), md_bits = \<lambda>k a. a = 3, md_limit = \<lambda>k. 125\<rparr>"

definition demo_modbus_tag :: "string \<Rightarrow> nat \<Rightarrow> modbus_kind \<Rightarrow> 16 word \<Rightarrow> modbus_tag" where
  "demo_modbus_tag m a k addr = \<lparr>pt_metric = m, pt_alias = a, pt_long = True, pt_scale = Fin 0, mb_kind = k,
     mb_address = addr, mb_quantity = 0, mb_type = MtUint16, mb_word_swap = False\<rparr>"

definition demo_modbus_tags :: "modbus_tag list" where
  "demo_modbus_tags = [demo_modbus_tag ''A'' 1 MbHolding 7, demo_modbus_tag ''B'' 2 MbHolding 4, demo_modbus_tag ''C'' 3 MbCoil 3]"

definition demo_s7 :: s7_device where
  "demo_s7 = \<lparr>sd_mem = \<lambda>db i. word_of_int i, sd_size = \<lambda>db. 16\<rparr>"

definition demo_s7_tags :: "s7_tag list" where
  "demo_s7_tags = [\<lparr>pt_metric = ''A'', pt_alias = 1, pt_long = True, pt_scale = Fin 0, s7_db = 1, s7_offset = 4, s7_bit = 0, s7_type = S7DInt\<rparr>,
     \<lparr>pt_metric = ''B'', pt_alias = 2, pt_long = False, pt_scale = Fin 2, s7_db = 1, s7_offset = 2, s7_bit = 0, s7_type = S7Int\<rparr>]"

lemma demo_modbus_ok: "modbus_ok demo_modbus demo_modbus_tags"
  by (auto simp: modbus_ok_def demo_modbus_def demo_modbus_tags_def demo_modbus_tag_def usable_tag_def tag_regs_def
      read_plan_def plan_step_def Let_def split: if_splits)

lemma demo_s7_ok: "s7_ok demo_s7 demo_s7_tags"
  by (simp add: s7_ok_def demo_s7_def demo_s7_tags_def db_read_plan_def)

theorem poll_batching_exact_witness:
  "modbus_sample (device_read demo_modbus) False demo_modbus_tags
     = Inr (map (\<lambda>t. sim_of False t (device_value demo_modbus t)) demo_modbus_tags)
   \<and> s7_sample (s7_device_read demo_s7) True demo_s7_tags
     = Inr (map (\<lambda>t. sim_of True t (the (s7_tag_value demo_s7 t))) demo_s7_tags)"
  using poll_batching_exact [of demo_modbus demo_modbus_tags False] poll_batching_exact [of _ _ True demo_s7 demo_s7_tags]
    demo_modbus_ok demo_s7_ok by blast

section \<open>A span that ends at the last address\<close>

lemma plan_step_keeps: "plan_inv ts plan \<Longrightarrow> plan_inv ts (plan_step t plan)"
  unfolding plan_inv_def
proof (intro ballI)
  fix u assume "\<forall>u\<in>set ts. \<exists>s e. plan (mb_kind u) = Some (s, e) \<and> uint s \<le> uint (mb_address u)
      \<and> uint (mb_address u) + tag_regs u \<le> uint e" "u \<in> set ts"
  then obtain s e where "plan (mb_kind u) = Some (s, e)" "uint s \<le> uint (mb_address u)"
      "uint (mb_address u) + tag_regs u \<le> uint e" by blast
  then show "\<exists>s e. plan_step t plan (mb_kind u) = Some (s, e) \<and> uint s \<le> uint (mb_address u)
      \<and> uint (mb_address u) + tag_regs u \<le> uint e"
    by (cases "mb_kind u = mb_kind t"; cases "plan (mb_kind t)")
      (auto simp: plan_step_def Let_def word_less_def split: prod.split)
qed

lemma fold_plan_keeps: "plan_inv ts plan \<Longrightarrow> plan_inv ts (fold plan_step us plan)"
  by (induction us arbitrary: plan) (auto intro: plan_step_keeps)

lemma read_plan_one:
  assumes "u \<in> set ts" "usable_tag u"
  shows "\<exists>s e. read_plan ts (mb_kind u) = Some (s, e) \<and> uint s \<le> uint (mb_address u)
     \<and> uint (mb_address u) + tag_regs u \<le> uint e"
proof -
  from assms(1) obtain xs ys where ts: "ts = xs @ u # ys" by (meson split_list)
  have "plan_inv [u] (plan_step u (fold plan_step xs Map.empty))"
    using plan_step_inv [OF _ assms(2), of "[]"] by (simp add: plan_inv_def)
  from fold_plan_keeps [OF this, of ys] show ?thesis by (simp add: ts read_plan_def plan_inv_def)
qed

lemma emit_tags_fails:
  assumes "t \<in> set ts" "f t = None"
  shows "\<exists>m. emit_tags f birth ts = Inl (PollUndecodable m)"
  using assms
proof (induction ts)
  case (Cons u us)
  then show ?case by (cases "f u"; cases "u = t") auto
qed simp

text \<open>
  The end of a span is 16-bit and exclusive, so a register at the last address (65535) counts as
  ending at 0 and is left out of the block as soon as a lower tag shares its space: every later
  sample of that poller fails as undecodable (or on the read), all its tags with it.
\<close>

theorem modbus_top_address_blocks:
  assumes "t \<in> set ts" "mb_address t = 65535" "mb_type t \<in> {MtUint16, MtInt16}"
    and "u \<in> set ts" "usable_tag u" "mb_kind u = mb_kind t" "\<not> kind_is_bit (mb_kind t)"
    and "\<And>s q b. read (mb_kind t) s q = Some b \<Longrightarrow> int (length b) = 2 * uint q"
  shows "\<exists>e. modbus_sample read birth ts = Inl e \<and> (e = PollReadFailed \<or> (\<exists>m. e = PollUndecodable m))"
proof (cases "list_ex (\<lambda>t. modbus_block read ts (mb_kind t) = None) ts")
  case True
  then show ?thesis by (simp add: modbus_sample_def sample_blocks_def)
next
  case False
  then obtain blk where blk: "modbus_block read ts (mb_kind t) = Some blk" using assms(1) by (auto simp: list_ex_iff)
  from read_plan_one [OF assms(4,5)] assms(6) obtain s e where p: "read_plan ts (mb_kind t) = Some (s, e)"
      "uint s \<le> uint (mb_address u)" "uint (mb_address u) + tag_regs u \<le> uint e" by auto
  have lt: "uint s < uint e" "uint e \<le> 65535" using p tag_regs_pos [of u] uint_lt2p [of e] by simp_all
  from blk p(1) obtain b where b: "read (mb_kind t) s (e - s) = Some b" "blk = (s, b)"
    by (auto simp: modbus_block_def)
  have "uint (e - s) = uint e - uint s" using lt by (simp add: uint_sub_lem [THEN iffD1])
  with assms(8) [OF b(1)] have len: "int (length b) = 2 * (uint e - uint s)" by simp
  have "get_uint16 b ((65535 - uint s) * 2) = None" using len lt by (simp add: get_uint16_def)
  then have "modbus_decode t blk = None"
    using assms(2,3,7) b(2) by (auto simp: modbus_decode_def)
  then have "\<exists>m. emit_tags (\<lambda>t. case modbus_block read ts (mb_kind t) of None \<Rightarrow> None | Some b \<Rightarrow> modbus_decode t b) birth ts
      = Inl (PollUndecodable m)" using blk by (intro emit_tags_fails [OF assms(1)]) simp
  with False show ?thesis by (auto simp: modbus_sample_def sample_blocks_def)
qed

definition demo_top_tags :: "modbus_tag list" where
  "demo_top_tags = [demo_modbus_tag ''A'' 1 MbHolding 65534, demo_modbus_tag ''B'' 2 MbHolding 65535]"

lemma device_read_length: "device_read d k s q = Some b \<Longrightarrow> \<not> kind_is_bit k \<Longrightarrow> int (length b) = 2 * uint q"
  by (auto simp: device_read_def split: if_splits simp del: map_map)

theorem modbus_top_address_blocks_witness:
  "\<exists>e. modbus_sample (device_read demo_modbus) True demo_top_tags = Inl e
     \<and> (e = PollReadFailed \<or> (\<exists>m. e = PollUndecodable m))"
  by (rule modbus_top_address_blocks [of "demo_modbus_tag ''B'' 2 MbHolding 65535" _ "demo_modbus_tag ''A'' 1 MbHolding 65534"])
    (auto simp: demo_top_tags_def demo_modbus_tag_def usable_tag_def tag_regs_def intro: device_read_length)

end
