(* ===== verification/PlcWire.thy ===== *)
theory PlcWire
  imports PlcProps
begin

text \<open>
  The PLC readers against the decoder's alias table (SparkplugB) and the agent's envelope: what
  a reader that published its birth sends is resolved back to its tags; a reader whose first
  birth failed never sends one; one value JSON cannot carry drops the whole envelope.
\<close>

section \<open>Reader and decoder\<close>

text \<open>The decoder's side of a publisher's messages, in order.\<close>

fun decode_all :: "int \<Rightarrow> publisher_key \<Rightarrow> (string \<times> payload) list \<Rightarrow> state_store
    \<Rightarrow> (ingest_error + resolved_payload option) list \<times> seq_gap list \<times> state_store" where
  "decode_all now key [] st = ([], [], st)"
| "decode_all now key ((mt, p) # ms) st =
     (case ingest now key mt p st of (r, gaps, st1) \<Rightarrow>
      case decode_all now key ms st1 of (rs, gaps', st2) \<Rightarrow> (r # rs, gaps @ gaps', st2))"

text \<open>A successful sample with value \<open>v t\<close> for tag \<open>t\<close>, and what the decoder makes of a metric.\<close>

definition sampled :: "('a poll_tag_scheme \<Rightarrow> f64) \<Rightarrow> 'a poll_tag_scheme list \<Rightarrow> bool \<Rightarrow> poll_error + sim_metric list" where
  "sampled v ts birth = Inr (map (\<lambda>t. sim_of birth t (v t)) ts)"

definition decoded_metric :: "int \<Rightarrow> 'a poll_tag_scheme \<Rightarrow> f64 \<Rightarrow> resolved_metric" where
  "decoded_metric now t x = \<lparr>rm_name = pt_metric t, rm_alias = pt_alias t, rm_timestamp = now_millis now,
     rm_datatype = (if pt_long t then 4 else 10),
     rm_value = (if pt_long t then VUint64 (word_of_int (si_long (sim_of False t x)))
                 else VFloat64 (si_double (sim_of False t x)))\<rparr>"

text \<open>The sequence numbers of the DATA messages after a message numbered \<open>s\<close>.\<close>

fun decoded_ticks :: "publisher_key \<Rightarrow> 'a poll_tag_scheme list \<Rightarrow> (int \<times> ('a poll_tag_scheme \<Rightarrow> f64)) list \<Rightarrow> nat
    \<Rightarrow> (ingest_error + resolved_payload option) list" where
  "decoded_ticks key ts [] s = []"
| "decoded_ticks key ts ((now, v) # vs) s =
     Inr (Some \<lparr>rp_key = key, rp_timestamp = now_millis now, rp_seq = next_mod256 s,
       rp_metrics = map (\<lambda>t. decoded_metric now t (v t)) ts\<rparr>) # decoded_ticks key ts vs (next_mod256 s)"

lemma check_tags_ok:
  "check_tags extra i seen ts = None \<Longrightarrow> distinct (map pt_alias ts) \<and> (\<forall>t\<in>set ts. pt_metric t \<noteq> [] \<and> pt_alias t \<notin> set seen)"
proof (induction ts arbitrary: i seen)
  case (Cons t ts)
  then have "check_tags extra (Suc i) (pt_alias t # seen) ts = None"
    and "pt_metric t \<noteq> []" "pt_alias t \<notin> set seen" by (auto split: if_splits option.splits)
  with Cons.IH [OF this(1)] show ?case by auto
qed simp

lemma new_poller_ok:
  "new_poller extra ts = Inr us \<Longrightarrow> us = ts \<and> ts \<noteq> [] \<and> distinct (map pt_alias ts) \<and> (\<forall>t\<in>set ts. pt_metric t \<noteq> [])"
  using check_tags_ok [of extra 0 "[]" ts] by (auto simp: new_poller_def split: if_splits option.splits)

lemma next_mod256_suc: "next_mod256 s = (s + 1) mod 256"
  by (simp add: next_mod256_def)

text \<open>The aliases of a birth are those of its tags.\<close>

definition learn_alias :: "wire_metric \<Rightarrow> (nat \<rightharpoonup> alias_entry) \<Rightarrow> (nat \<rightharpoonup> alias_entry)" where
  "learn_alias m t = (case wm_alias m of None \<Rightarrow> t
     | Some a \<Rightarrow> t(a \<mapsto> \<lparr>ae_name = get_or [] (wm_name m), ae_datatype = get_or 0 (wm_datatype m)\<rparr>))"

lemma birth_aliases_fold: "birth_aliases ms = fold learn_alias ms Map.empty"
  by (simp add: birth_aliases_def learn_alias_def [abs_def])

lemma learn_sim: "learn_alias (sim_wire n (sim_of True t x)) tb = tb(pt_alias t \<mapsto> \<lparr>ae_name = pt_metric t, ae_datatype = (if pt_long t then 4 else 10)\<rparr>)"
  by (simp add: learn_alias_def sim_wire_def sim_of_def empty_metric_def Let_def get_or_def)

lemma fold_learn_sim:
  assumes "distinct (map pt_alias ts)" "t \<in> set ts"
  shows "fold learn_alias (map (\<lambda>t. sim_wire n (sim_of True t (v t))) ts) tb (pt_alias t)
    = Some \<lparr>ae_name = pt_metric t, ae_datatype = (if pt_long t then 4 else 10)\<rparr>"
proof -
  have other: "a \<notin> set (map pt_alias us) \<Longrightarrow> fold learn_alias (map (\<lambda>t. sim_wire n (sim_of True t (v t))) us) tb a = tb a" for a us tb
    by (induction us arbitrary: tb) (simp_all add: learn_sim)
  show ?thesis using assms
  proof (induction ts arbitrary: tb)
    case (Cons u us)
    then show ?case using other [of "pt_alias u" us] by (auto simp: learn_sim)
  qed simp
qed

text \<open>The table a publisher's state holds after its birth.\<close>

definition knows_tags :: "(nat \<rightharpoonup> alias_entry) \<Rightarrow> 'a poll_tag_scheme list \<Rightarrow> bool" where
  "knows_tags tb ts \<longleftrightarrow> (\<forall>t\<in>set ts. \<exists>d. tb (pt_alias t) = Some \<lparr>ae_name = pt_metric t, ae_datatype = d\<rparr>)"

lemma birth_knows_tags:
  assumes "distinct (map pt_alias ts)"
  shows "knows_tags (birth_aliases (pl_metrics (fst (encode_sim now True (map (\<lambda>t. sim_of True t (v t)) ts) s)))) ts"
proof -
  have "learn_alias (empty_metric\<lparr>wm_name := n, wm_timestamp := x, wm_datatype := d, wm_value := y\<rparr>) tb = tb" for n x d y tb
    by (simp add: learn_alias_def empty_metric_def)
  with fold_learn_sim [OF assms, of _ "now_millis now" v] show ?thesis
    by (auto simp: knows_tags_def birth_aliases_fold encode_sim_def Let_def comp_def)
qed

lemma resolve_sim:
  "knows_tags tb ts \<Longrightarrow> set us \<subseteq> set ts \<Longrightarrow>
   resolve_metrics key tb (map (\<lambda>t. sim_wire (now_millis now) (sim_of False t (v t))) us)
     = Inr (map (\<lambda>t. decoded_metric now t (v t)) us)"
proof (induction us)
  case (Cons u us)
  from Cons.prems obtain d where "tb (pt_alias u) = Some \<lparr>ae_name = pt_metric u, ae_datatype = d\<rparr>" by (auto simp: knows_tags_def)
  with Cons show ?case
    by (simp add: sim_wire_def empty_metric_def get_or_def decoded_metric_def sim_of_def Let_def)
qed simp

lemma ingest_tick:
  assumes "st key = Some ps" "knows_tags (pst_aliases ps) ts"
  shows "ingest now key ''NDATA'' (fst (encode_sim t0 False (map (\<lambda>t. sim_of False t (v t)) ts) (pst_last_seq ps))) st
    = (Inr (Some \<lparr>rp_key = key, rp_timestamp = now_millis t0, rp_seq = next_mod256 (pst_last_seq ps),
         rp_metrics = map (\<lambda>t. decoded_metric t0 t (v t)) ts\<rparr>), [],
       st(key \<mapsto> ps\<lparr>pst_last_seq := next_mod256 (pst_last_seq ps), pst_last_message_at := now\<rparr>))"
  using resolve_sim [OF assms(2), of ts key t0 v] assms(1)
  by (simp add: ingest_def apply_data_def encode_sim_def Let_def get_or_def next_mod256_suc comp_def)

lemma run_ticks:
  assumes "st key = Some ps" "knows_tags (pst_aliases ps) ts" "pst_last_seq ps = rd_seq rd" "rd_birthed rd"
  shows "\<exists>st'. decode_all now key (fst (reader_run (map (\<lambda>(t0, v). ReaderTick t0 (sampled v ts)) vs) rd)) st
    = (decoded_ticks key ts vs (rd_seq rd), [], st')"
  using assms
proof (induction vs arbitrary: st ps rd)
  case (Cons e vs)
  obtain t0 v where e: "e = (t0, v)" by fastforce
  let ?rd = "rd\<lparr>rd_seq := next_mod256 (rd_seq rd)\<rparr>" and ?ps = "ps\<lparr>pst_last_seq := next_mod256 (rd_seq rd), pst_last_message_at := now\<rparr>"
  let ?p = "fst (encode_sim t0 False (map (\<lambda>t. sim_of False t (v t)) ts) (rd_seq rd))"
  have step: "reader_step (ReaderTick t0 (sampled v ts)) rd = ([(''NDATA'', ?p)], ?rd)"
    using Cons.prems(4) by (simp add: reader_step_def sampled_def encode_sim_def Let_def next_mod256_suc)
  have "\<exists>st'. decode_all now key (fst (reader_run (map (\<lambda>(t0, v). ReaderTick t0 (sampled v ts)) vs) ?rd)) (st(key \<mapsto> ?ps))
      = (decoded_ticks key ts vs (rd_seq ?rd), [], st')"
    using Cons.prems by (intro Cons.IH [where ps = ?ps]) simp_all
  then show ?case using ingest_tick [of st key ps ts now t0 v] Cons.prems e step
    by (auto simp: case_prod_unfold)
qed simp

text \<open>
  C23: Once a reader built by NewPoller has published its NBIRTH, every successful tick reaches the
  decoder as all its tags, in order, under their names, with their scaled values, types and times,
  and with no sequence gap, however many ticks there are.
\<close>

theorem poller_roundtrip:
  assumes "new_poller extra ts = Inr us"
  shows "\<exists>st'. decode_all now key (fst (reader_run (BrokerUp t0 (sampled v0 us)
      # map (\<lambda>(t, v). ReaderTick t (sampled v us)) vs) new_reader)) st
    = (Inr None # decoded_ticks key us vs 0, [], st')"
proof -
  from new_poller_ok [OF assms] have us: "distinct (map pt_alias us)" by simp
  let ?p = "fst (encode_sim t0 True (map (\<lambda>t. sim_of True t (v0 t)) us) 0)"
  let ?ps = "\<lparr>pst_aliases = birth_aliases (pl_metrics ?p), pst_last_seq = 0, pst_last_birth_at = now, pst_last_message_at = now\<rparr>"
  let ?rd = "\<lparr>rd_birthed = True, rd_seq = 0\<rparr>"
  have seq: "get_or 0 (pl_seq ?p) = 0" by (simp add: encode_sim_def Let_def get_or_def)
  have "reader_step (BrokerUp t0 (sampled v0 us)) new_reader = ([(''NBIRTH'', ?p)], ?rd)"
    by (simp add: reader_step_def publish_birth_def sampled_def new_reader_def encode_sim_def Let_def)
  moreover have "ingest now key ''NBIRTH'' ?p st = (Inr None, [], st(key \<mapsto> ?ps))"
    using seq by (simp add: ingest_def apply_birth_def)
  moreover obtain st' where "decode_all now key (fst (reader_run (map (\<lambda>(t0, v). ReaderTick t0 (sampled v us)) vs) ?rd)) (st(key \<mapsto> ?ps))
      = (decoded_ticks key us vs 0, [], st')"
    using run_ticks [of "st(key \<mapsto> ?ps)" key ?ps us ?rd now vs] birth_knows_tags [OF us, of t0 v0 0] by auto
  ultimately show ?thesis by (simp add: split_beta)
qed

definition demo_poll_tags :: "unit poll_tag_scheme list" where
  "demo_poll_tags = [\<lparr>pt_metric = ''A'', pt_alias = 1, pt_long = True, pt_scale = Fin 0\<rparr>,
     \<lparr>pt_metric = ''B'', pt_alias = 2, pt_long = False, pt_scale = Fin 2\<rparr>]"

theorem poller_roundtrip_witness:
  "\<exists>st'. decode_all 9 demo_key (fst (reader_run (BrokerUp 1000 (sampled (\<lambda>t. Fin 5) demo_poll_tags)
      # map (\<lambda>(t, v). ReaderTick t (sampled v demo_poll_tags)) [(2000, \<lambda>t. Fin 6)]) new_reader)) new_state_store
    = (Inr None # decoded_ticks demo_key demo_poll_tags [(2000, \<lambda>t. Fin 6)] 0, [], st')"
  by (rule poller_roundtrip [of "\<lambda>t. None" demo_poll_tags]) (simp add: demo_poll_tags_def new_poller_def)

section \<open>A birth that failed\<close>

lemma run_unborn:
  assumes "st key = None" "rd_birthed rd"
  shows "decode_all now key (fst (reader_run (map (\<lambda>(t0, v). ReaderTick t0 (sampled v ts)) vs) rd)) st
    = (replicate (length vs) (Inl NoBirth), [], st)"
  using assms
proof (induction vs arbitrary: rd)
  case (Cons e vs)
  obtain t0 v where e: "e = (t0, v)" by fastforce
  let ?r = "encode_sim t0 False (map (\<lambda>t. sim_of False t (v t)) ts) (rd_seq rd)"
  have "reader_step (ReaderTick t0 (sampled v ts)) rd = ([(''NDATA'', fst ?r)], rd\<lparr>rd_seq := snd ?r\<rparr>)"
    using Cons.prems(2) by (simp add: reader_step_def sampled_def split_beta)
  moreover have "ingest now key ''NDATA'' p st = (Inl NoBirth, [], st)" for p
    using Cons.prems(1) by (simp add: ingest_def apply_data_def)
  ultimately show ?case using Cons.IH [of "rd\<lparr>rd_seq := snd ?r\<rparr>"] Cons.prems e by (simp add: split_beta)
qed simp

text \<open>
  In the direct SparkPlug mode a birth that fails, at connect or on the re-birth tick, is still
  recorded as published: if every later read succeeds the reader only sends NDATA, and the decoder
  drops all of it for want of a birth, forever.
\<close>

theorem failed_birth_never_retried:
  assumes "ev = BrokerUp t0 f \<or> ev = ReaderTick t0 f \<and> \<not> rd_birthed rd" "f True = Inl e"
    and "st key = None"
  shows "decode_all now key (fst (reader_run (ev # map (\<lambda>(t, v). ReaderTick t (sampled v ts)) vs) rd)) st
    = (replicate (length vs) (Inl NoBirth), [], st)"
proof -
  have "reader_step ev rd = ([], rd\<lparr>rd_birthed := True\<rparr>)"
    using assms(1,2) by (auto simp: reader_step_def publish_birth_def)
  then show ?thesis using run_unborn [of st key "rd\<lparr>rd_birthed := True\<rparr>" now ts vs] assms(3) by (simp add: split_beta)
qed

theorem failed_birth_never_retried_witness:
  "decode_all 9 demo_key (fst (reader_run (BrokerUp 1000 (\<lambda>b. Inl PollReadFailed)
      # map (\<lambda>(t, v). ReaderTick t (sampled v demo_poll_tags)) [(2000, \<lambda>t. Fin 6), (3000, \<lambda>t. Fin 7)]) new_reader)) new_state_store
    = (replicate (length [(2000 :: int, \<lambda>t :: unit poll_tag_scheme. Fin 6), (3000, \<lambda>t. Fin 7)]) (Inl NoBirth), [], new_state_store)"
  by (rule failed_birth_never_retried [where e = PollReadFailed]) (simp_all add: new_reader_def new_state_store_def)

section \<open>A value JSON cannot carry\<close>

text \<open>
  A single reading that is NaN or infinite after scaling keeps the endpoint's whole envelope from
  being published: the tick sends nothing, whatever the other tags read.
\<close>

theorem one_nan_silences_endpoint:
  assumes "t \<in> set ts" "\<not> pt_long t" "\<not> finite_f64 (si_double (sim_of True t (v t)))"
  shows "raw_emit_tick endpoint prefix now (sampled v ts) = None"
proof -
  have "\<not> marshals (to_out_tag prefix (sim_of True t (v t)))"
    using assms(2,3) by (simp add: marshals_def to_out_tag_def sim_of_def Let_def)
  then have "\<not> list_all marshals (map (to_out_tag prefix) (map (\<lambda>t. sim_of True t (v t)) ts))"
    using assms(1) by (auto simp: list_all_iff)
  then show ?thesis by (simp add: raw_emit_tick_def sampled_def Let_def del: map_map)
qed

theorem one_nan_silences_endpoint_witness:
  "raw_emit_tick ''s7'' [] 1000 (sampled (\<lambda>t. if pt_alias t = 2 then float32_frombits 2143289344 else Fin 5) demo_poll_tags) = None"
  by (rule one_nan_silences_endpoint [of "\<lparr>pt_metric = ''B'', pt_alias = 2, pt_long = False, pt_scale = Fin 2\<rparr>"])
    (simp_all add: demo_poll_tags_def sim_of_def float32_frombits_def)

end
