(* ===== verification/ConfirmPublish.thy ===== *)
theory ConfirmPublish
  imports GoStrings Prelude
begin

text \<open>
  The three publishers that wait for RabbitMQ's publisher confirms: analyticspub/publisher.go of
  the decoder (the outbox drain's), \<open>republish\<close> of oeecloud-fanout and amqp/publisher.go of the
  ingest shim. A confirm channel numbers its publishes from one; the client library hands the
  confirmations to the program in that order, and the program takes the next one in the
  channel for the answer to its own publish. \<open>ch_verdict n\<close> is what the broker answers to
  publish \<open>n\<close>, whenever the answer arrives. How long an answer takes is the environment's
  choice (\<open>wait\<close>). A listener buffer that fills up blocks the client library; that is not
  modelled.
\<close>

section \<open>A confirm channel\<close>

record confirm_chan =
  ch_verdict :: "nat \<Rightarrow> bool"
  ch_published :: nat
  ch_read :: nat

definition fresh_chan :: "(nat \<Rightarrow> bool) \<Rightarrow> confirm_chan" where
  "fresh_chan verdict = \<lparr>ch_verdict = verdict, ch_published = 0, ch_read = 0\<rparr>"

datatype wait = WaitConfirm | WaitDeadline | WaitClosed | WaitCancelled

datatype confirm_result = Confirmed | Nacked | TimedOut | ChanClosed | Cancelled | SendFailed

text \<open>The select over the confirm channel, the timer and the context.\<close>

definition await_confirm :: "wait \<Rightarrow> confirm_chan \<Rightarrow> confirm_result \<times> confirm_chan" where
  "await_confirm w c =
     (case w of
        WaitConfirm \<Rightarrow> (if ch_verdict c (Suc (ch_read c)) then Confirmed else Nacked, c\<lparr>ch_read := Suc (ch_read c)\<rparr>)
      | WaitDeadline \<Rightarrow> (TimedOut, c)
      | WaitClosed \<Rightarrow> (ChanClosed, c)
      | WaitCancelled \<Rightarrow> (Cancelled, c))"

text \<open>
  One publish and its wait, as \<open>republish\<close> and \<open>publishBytesOnce\<close> make it; a publish that
  fails to be sent takes no number.
\<close>

record publish_env =
  pe_sent :: bool
  pe_wait :: wait
  pe_stale :: bool     \<comment> \<open>a confirmation is in the channel before the publish\<close>

definition publish_wait :: "publish_env \<Rightarrow> confirm_chan \<Rightarrow> confirm_result \<times> confirm_chan" where
  "publish_wait e c =
     (if \<not> pe_sent e then (SendFailed, c) else await_confirm (pe_wait e) (c\<lparr>ch_published := Suc (ch_published c)\<rparr>))"

text \<open>\<open>Publish\<close> of the shim first takes one confirmation that is already there.\<close>

definition drain_stale :: "publish_env \<Rightarrow> confirm_chan \<Rightarrow> confirm_chan" where
  "drain_stale e c = (if pe_stale e \<and> ch_read c < ch_published c then c\<lparr>ch_read := Suc (ch_read c)\<rparr> else c)"

definition shim_publish :: "publish_env \<Rightarrow> confirm_chan \<Rightarrow> confirm_result \<times> confirm_chan" where
  "shim_publish e c = publish_wait e (drain_stale e c)"

fun publish_run :: "('e \<Rightarrow> 's \<Rightarrow> 'r \<times> 's) \<Rightarrow> 'e list \<Rightarrow> 's \<Rightarrow> 'r list \<times> 's" where
  "publish_run pub [] s = ([], s)"
| "publish_run pub (e # es) s = (case pub e s of (r, s1) \<Rightarrow> case publish_run pub es s1 of (rs, s2) \<Rightarrow> (r # rs, s2))"

section \<open>The analytics publisher\<close>

record analytics_pub =
  an_chan :: "confirm_chan option"     \<comment> \<open>\<open>None\<close> is a nil channel\<close>
  an_published :: nat
  an_confirmed :: nat
  an_nacked :: nat
  an_timeouts :: nat
  an_failed :: nat
  an_reconnects :: nat
  an_last_attempt :: int
  an_last_confirm :: int

definition new_analytics_pub :: "int \<Rightarrow> (nat \<Rightarrow> bool) \<Rightarrow> analytics_pub" where
  "new_analytics_pub now verdict = \<lparr>an_chan = Some (fresh_chan verdict), an_published = 0, an_confirmed = 0, an_nacked = 0,
     an_timeouts = 0, an_failed = 0, an_reconnects = 0, an_last_attempt = now, an_last_confirm = now\<rparr>"

text \<open>The error texts a caller can see; \<open>isConnectionError\<close> looks into them.\<close>

definition err_nacked :: string where "err_nacked = ''analyticspub: RabbitMQ nacked publish''"
definition err_timeout :: string where "err_timeout = ''analyticspub: RabbitMQ confirm timeout''"
definition err_closed :: string where "err_closed = ''analyticspub: confirms channel closed''"
definition err_no_channel :: string where "err_no_channel = ''analyticspub: no channel''"

definition is_connection_error :: "string \<Rightarrow> bool" where
  "is_connection_error s \<longleftrightarrow> str_contains ''channel/connection is not open'' s \<or> str_contains ''channel closed'' s
     \<or> str_contains ''connection closed'' s \<or> str_contains ''EOF'' s \<or> str_contains ''broken pipe'' s
     \<or> str_contains ''use of closed network connection'' s"

text \<open>\<open>waitConfirmLocked\<close>: count and error of a result; a cancelled wait counts nothing.\<close>

definition count_result :: "int \<Rightarrow> string \<Rightarrow> confirm_result \<Rightarrow> analytics_pub \<Rightarrow> string option \<times> analytics_pub" where
  "count_result now ctx_err r p =
     (case r of
        Confirmed \<Rightarrow> (None, p\<lparr>an_confirmed := Suc (an_confirmed p), an_last_confirm := now\<rparr>)
      | Nacked \<Rightarrow> (Some err_nacked, p\<lparr>an_nacked := Suc (an_nacked p)\<rparr>)
      | TimedOut \<Rightarrow> (Some err_timeout, p\<lparr>an_timeouts := Suc (an_timeouts p)\<rparr>)
      | ChanClosed \<Rightarrow> (Some err_closed, p\<lparr>an_failed := Suc (an_failed p)\<rparr>)
      | _ \<Rightarrow> (Some ctx_err, p))"

text \<open>\<open>publishBytesOnce\<close>; \<open>send_err\<close> is the text of \<open>PublishWithContext\<close>'s error.\<close>

record once_env =
  on_now :: int
  on_send_err :: "string option"
  on_wait :: wait
  on_ctx_err :: string

definition publish_once :: "once_env \<Rightarrow> string \<Rightarrow> analytics_pub \<Rightarrow> string option \<times> analytics_pub" where
  "publish_once e key p =
     (let p0 = p\<lparr>an_last_attempt := on_now e\<rparr>
      in case an_chan p of
           None \<Rightarrow> (Some err_no_channel, p0)
         | Some c \<Rightarrow>
           (case on_send_err e of
              Some err \<Rightarrow> (Some (''analyticspub: publish '' @ key @ '': '' @ err), p0\<lparr>an_failed := Suc (an_failed p)\<rparr>)
            | None \<Rightarrow>
              (case publish_wait \<lparr>pe_sent = True, pe_wait = on_wait e, pe_stale = False\<rparr> c of
                 (r, c') \<Rightarrow> count_result (on_now e) (on_ctx_err e) r (p0\<lparr>an_published := Suc (an_published p), an_chan := Some c'\<rparr>))))"

text \<open>\<open>reconnect\<close>: \<open>None\<close> when dialling or setting up the channel fails.\<close>

definition reconnect :: "(nat \<Rightarrow> bool) option \<Rightarrow> analytics_pub \<Rightarrow> bool \<times> analytics_pub" where
  "reconnect dial p =
     (case dial of
        None \<Rightarrow> (False, p\<lparr>an_chan := None\<rparr>)
      | Some verdict \<Rightarrow> (True, p\<lparr>an_chan := Some (fresh_chan verdict), an_reconnects := Suc (an_reconnects p)\<rparr>))"

text \<open>\<open>PublishBytes\<close>: one retry after a connection error and a successful reconnect.\<close>

definition publish_bytes :: "once_env \<Rightarrow> (nat \<Rightarrow> bool) option \<Rightarrow> once_env \<Rightarrow> string \<Rightarrow> analytics_pub \<Rightarrow> string option \<times> analytics_pub" where
  "publish_bytes e dial e2 key p =
     (case publish_once e key p of
        (None, p1) \<Rightarrow> (None, p1)
      | (Some err, p1) \<Rightarrow>
        if is_connection_error err
        then (case reconnect dial p1 of
                (False, p2) \<Rightarrow> (Some err, p2)
              | (True, p2) \<Rightarrow> publish_once e2 key p2)
        else (Some err, p1))"

text \<open>The monitor's step when a connection closes, and its retry.\<close>

definition connection_closed :: "bool \<Rightarrow> analytics_pub \<Rightarrow> analytics_pub" where
  "connection_closed same p = (if same then p\<lparr>an_chan := None\<rparr> else p)"

subsection \<open>Health\<close>

definition in_flight_backlog :: "analytics_pub \<Rightarrow> nat" where
  "in_flight_backlog p = (if an_published p < an_confirmed p then 0 else an_published p - an_confirmed p)"

definition emit_stalled :: "int \<Rightarrow> int \<Rightarrow> int \<Rightarrow> int \<Rightarrow> bool" where
  "emit_stalled now last_attempt last_confirm timeout \<longleftrightarrow>
     \<not> timeout \<le> 0 \<and> sub64 now last_attempt \<le> timeout \<and> timeout < sub64 now last_confirm"

datatype degraded = Stalled | Backlogged nat | HasNacks nat

definition degraded :: "int \<Rightarrow> int \<Rightarrow> analytics_pub \<Rightarrow> degraded option" where
  "degraded now timeout p =
     (if emit_stalled now (an_last_attempt p) (an_last_confirm p) timeout then Some Stalled
      else if 100 < in_flight_backlog p then Some (Backlogged (in_flight_backlog p))
      else if 0 < an_nacked p then Some (HasNacks (an_nacked p))
      else None)"

section \<open>The contract\<close>

text \<open>Every publish has been answered, and every answer read.\<close>

definition in_step :: "confirm_chan \<Rightarrow> bool" where
  "in_step c \<longleftrightarrow> ch_read c = ch_published c"

text \<open>
  A publisher on a confirm channel: what it does to the channel's counters, and that \<open>Confirmed\<close>
  and \<open>Nacked\<close> report the confirmation it read last.
\<close>

locale confirm_publisher =
  fixes pub :: "'e \<Rightarrow> confirm_chan \<Rightarrow> confirm_result \<times> confirm_chan"
  assumes verdict_kept: "pub e c = (r, c') \<Longrightarrow> ch_verdict c' = ch_verdict c"
    and numbers: "pub e c = (r, c') \<Longrightarrow> ch_published c' = (if r = SendFailed then ch_published c else Suc (ch_published c))"
    and reads: "pub e c = (r, c') \<Longrightarrow> ch_read c \<le> ch_published c \<Longrightarrow> ch_read c' \<le> ch_published c' \<and> ch_read c \<le> ch_read c'"
    and answers: "pub e c = (r, c') \<Longrightarrow> r \<in> {Confirmed, Nacked} \<Longrightarrow>
          ch_read c < ch_read c' \<and> (r = Confirmed) = ch_verdict c (ch_read c')"
begin

lemma answer_is_own:
  assumes "pub e c = (r, c')" "in_step c" "r \<in> {Confirmed, Nacked}"
  shows "(r = Confirmed) = ch_verdict c (ch_published c')" "in_step c'"
proof -
  have "ch_published c' = Suc (ch_published c)" "ch_read c' = Suc (ch_published c)"
    using numbers [OF assms(1)] reads [OF assms(1)] answers [OF assms(1,3)] assms(2,3) by (auto simp: in_step_def)
  then show "(r = Confirmed) = ch_verdict c (ch_published c')" "in_step c'"
    using answers [OF assms(1,3)] by (simp_all add: in_step_def)
qed

lemma send_failed_in_step: "pub e c = (SendFailed, c') \<Longrightarrow> in_step c \<Longrightarrow> in_step c'"
  using numbers [of e c SendFailed c'] reads [of e c SendFailed c'] by (simp add: in_step_def)

lemma run_own:
  assumes "publish_run pub es c = (rs, c')" "in_step c" "set rs \<subseteq> {Confirmed, Nacked, SendFailed}"
  shows "in_step c' \<and> map (\<lambda>r. r = Confirmed) (filter (\<lambda>r. r \<noteq> SendFailed) rs)
    = map (ch_verdict c) [Suc (ch_published c)..<Suc (ch_published c')]"
  using assms
proof (induction es arbitrary: c rs)
  case (Cons e es)
  obtain r c1 rs' where e: "pub e c = (r, c1)" "publish_run pub es c1 = (rs', c')" "rs = r # rs'"
    using Cons.prems(1) by (auto split: prod.splits)
  have r: "r \<in> {Confirmed, Nacked, SendFailed}" using Cons.prems(3) e(3) by simp
  have step: "in_step c1" using answer_is_own(2) [OF e(1) Cons.prems(2)] send_failed_in_step [of e c c1] e(1) Cons.prems(2) r by auto
  note IH = Cons.IH [OF e(2) step] Cons.prems(3) e(3)
  have "ch_published c1 \<le> ch_published c'" using e(2)
  proof (induction es arbitrary: c1 rs')
    case (Cons e es)
    then show ?case using numbers by (auto split: prod.splits) (metis Suc_leD le_trans order_refl)
  qed simp
  then show ?case using IH numbers [OF e(1)] answer_is_own(1) [OF e(1) Cons.prems(2)] verdict_kept [OF e(1)] r e(3)
    by (cases "r = SendFailed") (auto simp: upt_conv_Cons simp del: upt_Suc)
qed simp

end

interpretation waiting: confirm_publisher publish_wait
  by unfold_locales (auto simp: publish_wait_def await_confirm_def split: wait.splits if_splits)

interpretation shim: confirm_publisher shim_publish
  by unfold_locales (auto simp: shim_publish_def drain_stale_def publish_wait_def await_confirm_def split: wait.splits if_splits)

end
