(* ===== verification/Relays.thy ===== *)
theory Relays
  imports ConfirmPublish Outbox
begin

text \<open>
  The relays around the broker: the decoder's outbox drain with its real publisher
  (cmd/edge-transformer \<open>runOutboxDrain\<close> with analyticspub), the twin fan-out
  (oeecloud-fanout: retenant.go, fanout.go, config.go) and the ingest shim (ingest-shim:
  httpserver/server.go, amqp/publisher.go, config.go). A body is its decoded JSON, \<open>None\<close> when it
  does not decode; numbers keep their text; a body that gives a key twice is outside the model.
  Case folding is ASCII.
\<close>

section \<open>JSON\<close>

datatype jval = JvNull | JvBool bool | JvNumber string | JvString string | JvArray "jval list" | JvObject "(string \<times> jval) list"

definition equal_fold :: "string \<Rightarrow> string \<Rightarrow> bool" where
  "equal_fold a b \<longleftrightarrow> to_lower a = to_lower b"

definition set_field :: "string \<Rightarrow> jval \<Rightarrow> (string \<times> jval) list \<Rightarrow> (string \<times> jval) list" where
  "set_field k v = map (\<lambda>(k', x). (k', if k' = k then v else x))"

definition delete_fields :: "string list \<Rightarrow> (string \<times> jval) list \<Rightarrow> (string \<times> jval) list" where
  "delete_fields ks = filter (\<lambda>(k, x). k \<notin> set ks)"

section \<open>The drain with its publisher\<close>

text \<open>A queued row, what its publish meets (twice, around a reconnect), and whether the database answers.\<close>

type_synonym 'b drain_item = "'b outbox_envelope option outbox_message \<times> (once_env \<times> (nat \<Rightarrow> bool) option \<times> once_env) \<times> bool"

fun drain_publish :: "int \<Rightarrow> 'b drain_item list \<Rightarrow> analytics_pub \<Rightarrow> 'b outbox_envelope option outbox_store
    \<Rightarrow> 'b outbox_envelope list \<times> analytics_pub \<times> 'b outbox_envelope option outbox_store" where
  "drain_publish now [] p st = ([], p, st)"
| "drain_publish now ((m, (e, dial, e2), db_ok) # ms) p st =
     (case (case om_payload m of None \<Rightarrow> (None, p) | Some env \<Rightarrow> publish_bytes e dial e2 (oe_routing_key env) p) of (err, p1) \<Rightarrow>
      case drain_one now m (err = None) db_ok st of (out, st1) \<Rightarrow>
      case drain_publish now ms p1 st1 of (outs, p2, st2) \<Rightarrow> (out @ outs, p2, st2))"

section \<open>Re-tenanting\<close>

record retenant_cfg =
  rc_source :: string
  rc_target :: string

definition equipment_id_fields :: "string list" where
  "equipment_id_fields = [''id_equipment'', ''equipment_id'', ''idequipment'', ''id_enterprise'']"

definition tenant_fields :: "string list" where
  "tenant_fields = [''tenant'', ''group_id'', ''groupid'']"

definition before_slash :: "string \<Rightarrow> string" where
  "before_slash s = takeWhile (\<lambda>c. c \<noteq> CHR ''/'') s"

definition group_of_name :: "string \<Rightarrow> string" where
  "group_of_name s = (if CHR ''/'' \<in> set s \<and> before_slash s \<noteq> [] then before_slash s else s)"

text \<open>\<open>firstGroup\<close>: the first metric that is an object with a non-empty name.\<close>

fun metric_name :: "jval \<Rightarrow> string option" where
  "metric_name (JvObject fs) = (case map_of fs ''name'' of Some (JvString s) \<Rightarrow> Some s | _ \<Rightarrow> None)"
| "metric_name _ = None"

fun first_group :: "jval list \<Rightarrow> string" where
  "first_group [] = []"
| "first_group (m # ms) = (case metric_name m of None \<Rightarrow> first_group ms
     | Some n \<Rightarrow> if n = [] then first_group ms else group_of_name n)"

definition rewrite_group :: "string \<Rightarrow> string \<Rightarrow> string \<Rightarrow> string" where
  "rewrite_group name src tgt =
     (if equal_fold (before_slash name) src then tgt @ drop (length (before_slash name)) name else name)"

fun retenant_metric :: "string \<Rightarrow> string \<Rightarrow> jval \<Rightarrow> jval" where
  "retenant_metric src tgt (JvObject fs) =
     JvObject (delete_fields equipment_id_fields
       (case metric_name (JvObject fs) of None \<Rightarrow> fs | Some n \<Rightarrow> set_field ''name'' (JvString (rewrite_group n src tgt)) fs))"
| "retenant_metric src tgt v = v"

datatype retenant_result = RtError | RtNotOurs | RtOurs jval

definition retenant :: "retenant_cfg \<Rightarrow> jval option \<Rightarrow> retenant_result" where
  "retenant cfg body =
     (case body of
        Some (JvObject env) \<Rightarrow>
          (case map_of env ''metrics'' of
             Some (JvArray ms) \<Rightarrow>
               (let src = to_upper (rc_source cfg); tgt = rc_target cfg
                in if \<not> equal_fold (first_group ms) src then RtNotOurs
                   else RtOurs (JvObject (delete_fields equipment_id_fields
                     (fold (\<lambda>f. set_field f (JvString (to_lower tgt))) tenant_fields
                       (set_field ''metrics'' (JvArray (map (retenant_metric src tgt) ms)) env)))))
           | _ \<Rightarrow> RtNotOurs)
      | Some JvNull \<Rightarrow> RtNotOurs
      | _ \<Rightarrow> RtError)"

section \<open>The fan-out consumer\<close>

record fanout_stats =
  fs_delivered :: nat
  fs_republished :: nat
  fs_skipped :: nat
  fs_dropped :: nat
  fs_failed :: nat

definition no_stats :: fanout_stats where
  "no_stats = \<lparr>fs_delivered = 0, fs_republished = 0, fs_skipped = 0, fs_dropped = 0, fs_failed = 0\<rparr>"

datatype fate = FateAck | FateRequeue

text \<open>\<open>handle\<close>: the fate of the source delivery and the clone that was sent.\<close>

definition fanout_handle :: "retenant_cfg \<Rightarrow> jval option \<times> publish_env \<Rightarrow> fanout_stats \<times> confirm_chan
    \<Rightarrow> (fate \<times> jval option) \<times> fanout_stats \<times> confirm_chan" where
  "fanout_handle cfg ev s =
     (let st = (fst s)\<lparr>fs_delivered := Suc (fs_delivered (fst s))\<rparr>
      in case retenant cfg (fst ev) of
           RtError \<Rightarrow> ((FateAck, None), st\<lparr>fs_dropped := Suc (fs_dropped st)\<rparr>, snd s)
         | RtNotOurs \<Rightarrow> ((FateAck, None), st\<lparr>fs_skipped := Suc (fs_skipped st)\<rparr>, snd s)
         | RtOurs out \<Rightarrow>
           (case publish_wait (snd ev) (snd s) of (r, c) \<Rightarrow>
              let sent = (if r = SendFailed then None else Some out)
              in if r = Confirmed then ((FateAck, sent), st\<lparr>fs_republished := Suc (fs_republished st)\<rparr>, c)
                 else ((FateRequeue, sent), st\<lparr>fs_failed := Suc (fs_failed st)\<rparr>, c)))"

text \<open>\<open>sourceRoutingKeys\<close> and the default target key.\<close>

definition source_routing_keys :: "string \<Rightarrow> string \<Rightarrow> string list" where
  "source_routing_keys env grp =
     (let out = filter (\<lambda>k. k \<noteq> []) (map trim_space (split_on (CHR '','') env))
      in if env \<noteq> [] \<and> out \<noteq> [] then out else [''sparkplug.data'', ''sparkplug.data.'' @ to_lower grp])"

definition target_routing_key :: "string \<Rightarrow> string \<Rightarrow> string" where
  "target_routing_key env grp = (if env = [] then ''sparkplug.data.'' @ to_lower grp else env)"

section \<open>The ingest shim\<close>

text \<open>\<open>Publish\<close> behind the connection: \<open>None\<close> is a nil channel.\<close>

record shim_pub =
  sp_chan :: "confirm_chan option"
  sp_connected :: bool

definition shim_send :: "publish_env \<Rightarrow> shim_pub \<Rightarrow> bool \<times> shim_pub" where
  "shim_send e p =
     (case sp_chan p of
        Some c \<Rightarrow>
          if \<not> sp_connected p then (False, p)
          else (case shim_publish e c of (r, c') \<Rightarrow>
            (r = Confirmed, p\<lparr>sp_chan := Some c', sp_connected := r \<notin> {SendFailed, ChanClosed}\<rparr>))
      | None \<Rightarrow> (False, p))"

text \<open>\<open>scopeProbe\<close>: field names match without case, a value of another type fails the decoding.\<close>

fun probe_string :: "string \<Rightarrow> string \<Rightarrow> (string \<times> jval) list \<Rightarrow> string option" where
  "probe_string name acc [] = Some acc"
| "probe_string name acc ((k, v) # fs) =
     (if equal_fold k name
      then (case v of JvString s \<Rightarrow> probe_string name s fs | JvNull \<Rightarrow> probe_string name acc fs | _ \<Rightarrow> None)
      else probe_string name acc fs)"

fun probe_names :: "jval list \<Rightarrow> string list option" where
  "probe_names [] = Some []"
| "probe_names (m # ms) =
     (case (case m of JvObject fs \<Rightarrow> probe_string ''name'' [] fs | JvNull \<Rightarrow> Some [] | _ \<Rightarrow> None) of
        None \<Rightarrow> None | Some n \<Rightarrow> map_option ((#) n) (probe_names ms))"

fun probe_metrics :: "string list \<Rightarrow> (string \<times> jval) list \<Rightarrow> string list option" where
  "probe_metrics acc [] = Some acc"
| "probe_metrics acc ((k, v) # fs) =
     (if equal_fold k ''metrics''
      then (case v of JvNull \<Rightarrow> probe_metrics [] fs
            | JvArray ms \<Rightarrow> (case probe_names ms of None \<Rightarrow> None | Some ns \<Rightarrow> probe_metrics ns fs) | _ \<Rightarrow> None)
      else probe_metrics acc fs)"

definition first_segment :: "string \<Rightarrow> string" where
  "first_segment s = (let t = trim_space s in if CHR ''/'' \<in> set t then trim_space (before_slash t) else t)"

text \<open>\<open>extractGroup\<close>: topic, group, group id, then the metric names.\<close>

definition extract_group :: "jval option \<Rightarrow> string option" where
  "extract_group body =
     (case (case body of Some (JvObject fs) \<Rightarrow> Some fs | Some JvNull \<Rightarrow> Some [] | _ \<Rightarrow> None) of
        None \<Rightarrow> None
      | Some fs \<Rightarrow>
        (case (probe_string ''topic'' [] fs, probe_string ''group'' [] fs, probe_string ''group_id'' [] fs, probe_metrics [] fs) of
           (Some t, Some g, Some i, Some ns) \<Rightarrow>
             List.find (\<lambda>s. s \<noteq> []) (map first_segment ([t, g, i] @ ns))
         | _ \<Rightarrow> None))"

definition with_source_type :: "string \<Rightarrow> (string \<times> jval) list \<Rightarrow> (string \<times> jval) list" where
  "with_source_type st fs = AList.update ''source_type'' (JvString st) fs"

fun publish_copies :: "(nat \<Rightarrow> publish_env) \<Rightarrow> nat \<Rightarrow> string list \<Rightarrow> (string \<times> jval) list \<Rightarrow> shim_pub
    \<Rightarrow> bool \<times> jval list \<times> shim_pub" where
  "publish_copies envs i [] fs p = (True, [], p)"
| "publish_copies envs i (st # sts) fs p =
     (case shim_send (envs i) p of
        (False, p1) \<Rightarrow> (False, [], p1)
      | (True, p1) \<Rightarrow> (case publish_copies envs (Suc i) sts fs p1 of
          (ok, out, p2) \<Rightarrow> (ok, JvObject (with_source_type st fs) # out, p2)))"

datatype body_read = TooLarge | Unreadable | BodyOf nat "jval option"

record shim_cfg =
  sc_key :: string
  sc_group :: string
  sc_source_types :: "string list"

text \<open>\<open>parseFanout\<close>; \<open>New\<close> replaces an empty list by one verbatim copy.\<close>

definition parse_fanout :: "string \<Rightarrow> string list" where
  "parse_fanout s = map (\<lambda>t. if t = [] \<or> equal_fold t ''legacy'' then [] else t) (map trim_space (split_on (CHR '','') s))"

definition shim_copies :: "shim_cfg \<Rightarrow> string list" where
  "shim_copies cfg = (if sc_source_types cfg = [] then [[]] else sc_source_types cfg)"

text \<open>\<open>handleIngest\<close>: the status and the confirmed copies.\<close>

definition shim_ingest :: "shim_cfg \<Rightarrow> (nat \<Rightarrow> publish_env) \<Rightarrow> string \<Rightarrow> body_read \<Rightarrow> shim_pub \<Rightarrow> nat \<times> jval list \<times> shim_pub" where
  "shim_ingest cfg envs key body p =
     (if key \<noteq> sc_key cfg then (401, [], p)
      else case body of
        TooLarge \<Rightarrow> (413, [], p)
      | Unreadable \<Rightarrow> (400, [], p)
      | BodyOf n json \<Rightarrow>
        if n = 0 then (400, [], p)
        else case extract_group json of
          None \<Rightarrow> (400, [], p)
        | Some g \<Rightarrow>
          if \<not> equal_fold g (to_upper (sc_group cfg)) then (403, [], p)
          else case json of
            Some (JvObject fs) \<Rightarrow> (case publish_copies envs 0 (shim_copies cfg) fs p of
                (True, out, p1) \<Rightarrow> (202, out, p1)
              | (False, out, p1) \<Rightarrow> (503, out, p1))
          | _ \<Rightarrow> (400, [], p))"

end
