(* ===== verification/RelayProps.thy ===== *)
theory RelayProps
  imports Relays
begin

text \<open>
  Properties of the relays: a publisher whose every wait was answered reports the broker's
  verdict on the message itself; one wait that ran out shifts every later verdict, and the
  drain then deletes a row the broker refused; the shim's look at the channel before a publish
  repairs that when the late answer has arrived by then. A clone carries nothing of its source
  and is never cloned again. What the shim admits, and an envelope it should not have.
\<close>

section \<open>Confirms\<close>


definition sends :: "wait \<Rightarrow> publish_env" where
  "sends w = \<lparr>pe_sent = True, pe_wait = w, pe_stale = True\<rparr>"


text \<open>
  The shim takes a stale confirmation before it publishes. If every late confirmation has arrived
  by the next publish, then whatever the waits did, a confirmed publish is one the broker
  accepted, and at most one answer is ever outstanding.
\<close>

theorem shim_confirms_own:
  assumes "publish_run shim_publish es c = (rs, c')" "\<forall>e\<in>set es. pe_stale e"
    and "ch_read c \<le> ch_published c" "ch_published c \<le> Suc (ch_read c)"
  shows "ch_published c' \<le> Suc (ch_read c') \<and> (\<forall>k<length rs. rs ! k = Confirmed \<longrightarrow>
     ch_verdict c (ch_published c + length (filter (\<lambda>r. r \<noteq> SendFailed) (take (Suc k) rs))))"
  using assms
proof (induction es arbitrary: c rs)
  case (Cons e es)
  obtain r c1 rs' where e: "shim_publish e c = (r, c1)" "publish_run shim_publish es c1 = (rs', c')" "rs = r # rs'"
    using Cons.prems(1) by (auto split: prod.splits)
  have drained: "in_step (drain_stale e c)" "ch_published (drain_stale e c) = ch_published c" "ch_verdict (drain_stale e c) = ch_verdict c"
    using Cons.prems(2-4) by (auto simp: in_step_def drain_stale_def)
  have w: "publish_wait e (drain_stale e c) = (r, c1)" using e(1) by (simp add: shim_publish_def)
  have c1: "ch_verdict c1 = ch_verdict c" "ch_published c1 = (if r = SendFailed then ch_published c else Suc (ch_published c))"
    using waiting.verdict_kept [OF w] waiting.numbers [OF w] drained by simp_all
  have lag: "ch_read c1 \<le> ch_published c1" "ch_published c1 \<le> Suc (ch_read c1)"
    using waiting.reads [OF w] drained c1(2) by (auto simp: in_step_def split: if_splits)
  have own: "r = Confirmed \<Longrightarrow> ch_verdict c (Suc (ch_published c))"
    using waiting.answer_is_own(1) [OF w drained(1)] drained(3) c1(2) by simp
  note IH = Cons.IH [OF e(2) _ lag] Cons.prems(2)
  have "ch_verdict c (ch_published c + length (filter (\<lambda>r. r \<noteq> SendFailed) (take (Suc k) rs)))" if "k < length rs" "rs ! k = Confirmed" for k
  proof (cases k)
    case 0
    then show ?thesis using that own e(3) by simp
  next
    case (Suc j)
    then show ?thesis using that IH e(3) c1 by (auto split: if_splits)
  qed
  then show ?case using IH by simp
qed simp

theorem shim_confirms_own_witness:
  "\<exists>rs c'. publish_run shim_publish [sends WaitDeadline, sends WaitConfirm] (fresh_chan (\<lambda>n. n = 2)) = (rs, c')
     \<and> ch_published c' \<le> Suc (ch_read c') \<and> rs = [TimedOut, Confirmed]"
proof -
  obtain rs c' where r: "publish_run shim_publish [sends WaitDeadline, sends WaitConfirm] (fresh_chan (\<lambda>n. n = 2)) = (rs, c')" by fastforce
  have "rs = [TimedOut, Confirmed]" using r
    by (auto simp: shim_publish_def drain_stale_def publish_wait_def await_confirm_def sends_def fresh_chan_def)
  with shim_confirms_own [OF r] r show ?thesis by (auto simp: sends_def fresh_chan_def)
qed

lemma timeout_no_reconnect: "\<not> is_connection_error err_timeout" "\<not> is_connection_error err_nacked"
  by (simp_all add: is_connection_error_def err_timeout_def err_nacked_def str_contains_def has_prefix_def)

definition sends_once :: "once_env \<Rightarrow> wait \<Rightarrow> bool" where
  "sends_once e w \<longleftrightarrow> on_send_err e = None \<and> on_wait e = w"

lemma publish_bytes_waits:
  assumes "an_chan p = Some c" "sends_once e w" "w = WaitDeadline \<or> w = WaitConfirm"
  shows "\<exists>p'. publish_bytes e dial e2 key p = (if w = WaitDeadline then Some err_timeout
      else if ch_verdict c (Suc (ch_read c)) then None else Some err_nacked, p')
    \<and> an_chan p' = Some (snd (await_confirm w (c\<lparr>ch_published := Suc (ch_published c)\<rparr>)))"
  using assms timeout_no_reconnect
  by (auto simp: publish_bytes_def publish_once_def sends_once_def publish_wait_def await_confirm_def count_result_def Let_def
      split: wait.splits)

text \<open>
  C35: In the outbox drain: if the confirmation of one row is late, a timeout keeps that row, but its
  answer is then taken for the next row's: that row is deleted although the broker refused
  it, against the promise that silent loss is impossible.
\<close>

theorem late_confirm_loses_row:
  assumes "an_chan p = Some c" "in_step c" "ch_verdict c (Suc (ch_published c))" "\<not> ch_verdict c (Suc (Suc (ch_published c)))"
    and "om_payload m1 = Some env1" "om_payload m2 = Some env2"
    and "sends_once e1 WaitDeadline" "sends_once e2 WaitConfirm"
  shows "\<exists>p' st'. drain_publish now [(m1, (e1, d1, x1), True), (m2, (e2, d2, x2), True)] p st = ([env2], p', st')
    \<and> om_id m2 \<notin> or_id ` set (db_rows (os_db st'))"
proof -
  obtain p1 where p1: "publish_bytes e1 d1 x1 (oe_routing_key env1) p = (Some err_timeout, p1)"
      "an_chan p1 = Some (c\<lparr>ch_published := Suc (ch_published c)\<rparr>)"
    using publish_bytes_waits [OF assms(1,7), of d1 x1 "oe_routing_key env1"] by (auto simp: await_confirm_def)
  obtain p2 where p2: "publish_bytes e2 d2 x2 (oe_routing_key env2) p1 = (None, p2)"
    using publish_bytes_waits [OF p1(2) assms(8), of d2 x2 "oe_routing_key env2"] assms(2,3) by (auto simp: in_step_def)
  show ?thesis using assms(5,6) p1(1) p2 by (auto simp: drain_one_def delete_row_def)
qed

definition demo_once :: "wait \<Rightarrow> once_env" where
  "demo_once w = \<lparr>on_now = 5, on_send_err = None, on_wait = w, on_ctx_err = []\<rparr>"

definition demo_message :: "int \<Rightarrow> string outbox_envelope option outbox_message" where
  "demo_message n = \<lparr>om_id = n, om_tenant = ''t'', om_topic = ''d'',
     om_payload = Some \<lparr>oe_routing_key = ''sparkplug.data'', oe_message_id = ''m'', oe_body = ''b'', oe_traceparent = []\<rparr>,
     om_enqueued_at = None, om_attempts = 0\<rparr>"

definition demo_row :: "int \<Rightarrow> string outbox_envelope option outbox_row" where
  "demo_row n = \<lparr>or_id = n, or_tenant = ''t'', or_topic = ''d'', or_payload = om_payload (demo_message n),
     or_enqueued_at = 0, or_attempts = 0, or_next_attempt_at = 0\<rparr>"

definition demo_store :: "string outbox_envelope option outbox_store" where
  "demo_store = \<lparr>os_db = \<lparr>db_rows = [demo_row 1, demo_row 2], db_seq = 2, db_state = []\<rparr>, os_cap = 10\<rparr>"

theorem late_confirm_loses_row_witness:
  "\<exists>out p' st'. drain_publish 5 [(demo_message 1, (demo_once WaitDeadline, None, demo_once WaitDeadline), True),
       (demo_message 2, (demo_once WaitConfirm, None, demo_once WaitConfirm), True)] (new_analytics_pub 0 (\<lambda>n. n = 1)) demo_store
     = (out, p', st') \<and> 2 \<notin> or_id ` set (db_rows (os_db st'))"
proof -
  have "an_chan (new_analytics_pub 0 (\<lambda>n. n = 1)) = Some (fresh_chan (\<lambda>n. n = 1))" by (simp add: new_analytics_pub_def)
  moreover have "in_step (fresh_chan (\<lambda>n. n = 1))" "ch_verdict (fresh_chan (\<lambda>n. n = 1)) (Suc (ch_published (fresh_chan (\<lambda>n. n = 1))))"
    "\<not> ch_verdict (fresh_chan (\<lambda>n. n = 1)) (Suc (Suc (ch_published (fresh_chan (\<lambda>n. n = 1)))))"
    by (simp_all add: fresh_chan_def in_step_def)
  moreover have "\<exists>env. om_payload (demo_message n) = Some env" for n by (simp add: demo_message_def)
  moreover have "sends_once (demo_once w) w" for w by (simp add: sends_once_def demo_once_def)
  moreover have "om_id (demo_message 2) = 2" by (simp add: demo_message_def)
  ultimately show ?thesis using late_confirm_loses_row by metis
qed


section \<open>Clones\<close>

lemma code_of_lower: "(of_char (lower_char c) :: nat) = (if 65 \<le> (of_char c :: nat) \<and> (of_char c :: nat) \<le> 90 then of_char c + 32 else of_char c)"
  by (simp add: lower_char_def)

lemma code_of_upper: "(of_char (upper_char c) :: nat) = (if 97 \<le> (of_char c :: nat) \<and> (of_char c :: nat) \<le> 122 then of_char c - 32 else of_char c)"
  by (auto simp: upper_char_def)

lemma lower_upper_char: "lower_char (upper_char c) = lower_char c"
proof -
  have "(of_char (lower_char (upper_char c)) :: nat) = of_char (lower_char c)" unfolding code_of_lower code_of_upper by auto
  then show ?thesis by (simp only: of_char_eq_iff)
qed

lemma to_lower_upper: "to_lower (to_upper s) = to_lower s"
  by (simp add: to_lower_def to_upper_def lower_upper_char)

lemma equal_fold_upper [simp]: "equal_fold a (to_upper b) = equal_fold a b"
  by (simp add: equal_fold_def to_lower_upper)

lemma map_of_set_field: "map_of (set_field k v fs) k' = (if k' = k then map_option (\<lambda>x. v) (map_of fs k') else map_of fs k')"
  by (induction fs) (auto simp: set_field_def)

lemma map_of_delete_fields: "map_of (delete_fields ks fs) k = (if k \<in> set ks then None else map_of fs k)"
  by (induction fs) (auto simp: delete_fields_def)

lemma fold_set_fields: "k \<notin> set ks \<Longrightarrow> map_of (fold (\<lambda>f. set_field f v) ks fs) k = map_of fs k"
  by (induction ks arbitrary: fs) (auto simp: map_of_set_field)

lemma before_slash_append: "CHR ''/'' \<notin> set t \<Longrightarrow> before_slash (t @ CHR ''/'' # s) = t"
  unfolding before_slash_def by (subst takeWhile_append2) auto

lemma before_slash_none: "CHR ''/'' \<notin> set t \<Longrightarrow> before_slash t = t"
  by (auto simp: before_slash_def takeWhile_eq_all_conv)

text \<open>The name of a rewritten metric.\<close>

lemma metric_name_rewritten: "metric_name (retenant_metric src tgt m) = map_option (\<lambda>n. rewrite_group n src tgt) (metric_name m)"
proof (cases m)
  case (JvObject fs)
  then show ?thesis
    by (cases "map_of fs ''name''") (auto simp: map_of_delete_fields map_of_set_field equipment_id_fields_def split: jval.split)
qed simp_all

lemma rewrite_group_cases:
  "rewrite_group n src tgt = (if equal_fold (before_slash n) src
     then (if CHR ''/'' \<in> set n then tgt @ CHR ''/'' # tl (dropWhile (\<lambda>c. c \<noteq> CHR ''/'') n) else tgt) else n)"
proof -
  have n: "n = before_slash n @ dropWhile (\<lambda>c. c \<noteq> CHR ''/'') n" by (simp add: before_slash_def)
  then have d: "drop (length (before_slash n)) n = dropWhile (\<lambda>c. c \<noteq> CHR ''/'') n" by (metis append_eq_conv_conj)
  have "dropWhile (\<lambda>c. c \<noteq> CHR ''/'') n = CHR ''/'' # tl (dropWhile (\<lambda>c. c \<noteq> CHR ''/'') n)" if "CHR ''/'' \<in> set n"
    using that by (induction n) auto
  moreover have "dropWhile (\<lambda>c. c \<noteq> CHR ''/'') n = []" if "CHR ''/'' \<notin> set n" using that by (auto simp: dropWhile_eq_Nil_conv)
  ultimately show ?thesis by (simp add: rewrite_group_def d)
qed

lemma rewritten_group:
  assumes "CHR ''/'' \<notin> set tgt" "\<not> equal_fold tgt src"
  shows "\<not> equal_fold (before_slash (rewrite_group n src tgt)) src"
  using assms by (auto simp: rewrite_group_cases before_slash_append before_slash_none)

definition plain_group :: "string \<Rightarrow> bool" where
  "plain_group g \<longleftrightarrow> g \<noteq> [] \<and> CHR ''/'' \<notin> set g"

lemma slash_fold: "equal_fold a b \<Longrightarrow> CHR ''/'' \<in> set a \<longleftrightarrow> CHR ''/'' \<in> set b"
proof -
  have l: "lower_char c = CHR ''/'' \<longleftrightarrow> c = CHR ''/''" for c
  proof -
    have "lower_char c = CHR ''/'' \<longleftrightarrow> (of_char (lower_char c) :: nat) = of_char (CHR ''/'')" by (simp only: of_char_eq_iff)
    also have "\<dots> \<longleftrightarrow> (of_char c :: nat) = of_char (CHR ''/'')" unfolding code_of_lower by auto
    finally show ?thesis by (simp only: of_char_eq_iff)
  qed
  have "CHR ''/'' \<in> set (to_lower s) \<longleftrightarrow> CHR ''/'' \<in> set s" for s unfolding to_lower_def set_map image_iff using l by metis
  then show "equal_fold a b \<Longrightarrow> CHR ''/'' \<in> set a \<longleftrightarrow> CHR ''/'' \<in> set b" by (metis equal_fold_def)
qed

lemma group_rewritten:
  assumes "equal_fold (group_of_name n) src" "plain_group src" "plain_group tgt"
  shows "rewrite_group n src tgt \<noteq> [] \<and> group_of_name (rewrite_group n src tgt) = tgt"
proof -
  have bs: "equal_fold (before_slash n) src"
    using assms(1,2) slash_fold [of n src] by (auto simp: group_of_name_def plain_group_def before_slash_none split: if_splits)
  then show ?thesis using assms(3)
    by (auto simp: rewrite_group_cases group_of_name_def plain_group_def before_slash_append)
qed

lemma first_group_rewritten:
  assumes "equal_fold (first_group ms) src" "plain_group src" "plain_group tgt"
  shows "first_group (map (retenant_metric src tgt) ms) = tgt"
  using assms(1)
proof (induction ms)
  case Nil
  then show ?case using assms(2) by (auto simp: equal_fold_def plain_group_def to_lower_def)
next
  case (Cons m ms)
  have empty: "rewrite_group [] src tgt = []"
    using assms(2) by (auto simp: rewrite_group_def before_slash_def equal_fold_def plain_group_def to_lower_def)
  show ?case
  proof (cases "metric_name m")
    case None
    then show ?thesis using Cons by (simp add: metric_name_rewritten)
  next
    case (Some n)
    then show ?thesis using Cons empty group_rewritten [OF _ assms(2,3), of n]
      by (cases "n = []") (simp_all add: metric_name_rewritten)
  qed
qed

definition fields_of :: "jval \<Rightarrow> string \<rightharpoonup> jval" where
  "fields_of v = (case v of JvObject fs \<Rightarrow> map_of fs | _ \<Rightarrow> Map.empty)"

lemma fields_rewritten:
  "k \<in> set equipment_id_fields \<Longrightarrow> fields_of (retenant_metric src tgt m) k = None"
  "k \<notin> set equipment_id_fields \<Longrightarrow> k \<noteq> ''name'' \<Longrightarrow> fields_of (retenant_metric src tgt m) k = fields_of m k"
  by (cases m; simp add: fields_of_def map_of_delete_fields map_of_set_field split: option.split)+


definition demo_groups :: retenant_cfg where
  "demo_groups = \<lparr>rc_source = ''CPACK'', rc_target = ''SBXCPACK''\<rparr>"

definition demo_body :: "string \<Rightarrow> jval" where
  "demo_body n = JvObject [(''metrics'', JvArray [JvObject [(''name'', JvString n), (''id_equipment'', JvNumber ''47''), (''counter'', JvNumber ''12'')]])]"



section \<open>The fan-out\<close>

text \<open>
  C30: On a channel with nothing unanswered, and when the broker answers: a source delivery is
  acknowledged exactly when it is not the source's, cannot be decoded, or the broker accepted its
  clone; only the source's deliveries are sent; every delivery is counted once.
\<close>

theorem fanout_fate:
  assumes "fanout_handle cfg (body, e) (st, c) = ((fate, sent), st', c')" "in_step c" "pe_wait e = WaitConfirm"
  shows "(fate = FateAck \<longleftrightarrow> (\<forall>out. retenant cfg body \<noteq> RtOurs out) \<or> (pe_sent e \<and> ch_verdict c (Suc (ch_published c))))
    \<and> (\<forall>out. sent = Some out \<longrightarrow> retenant cfg body = RtOurs out)
    \<and> in_step c' \<and> fs_delivered st' = Suc (fs_delivered st)
    \<and> fs_republished st' + fs_skipped st' + fs_dropped st' + fs_failed st'
      = Suc (fs_republished st + fs_skipped st + fs_dropped st + fs_failed st)"
proof (cases "retenant cfg body")
  case (RtOurs out)
  show ?thesis using assms RtOurs
    by (auto simp: fanout_handle_def publish_wait_def await_confirm_def in_step_def Let_def split: if_splits)
qed (use assms in \<open>auto simp: fanout_handle_def Let_def\<close>)

theorem fanout_fate_witness:
  "\<exists>fate sent st' c'. fanout_handle demo_groups (Some (demo_body ''CPACK/SC/L5''), sends WaitConfirm) (no_stats, fresh_chan (\<lambda>n. True))
     = ((fate, sent), st', c') \<and> fate = FateAck \<and> in_step c'"
proof -
  obtain fate sent st' c' where r: "fanout_handle demo_groups (Some (demo_body ''CPACK/SC/L5''), sends WaitConfirm) (no_stats, fresh_chan (\<lambda>n. True))
     = ((fate, sent), st', c')" by (metis surj_pair)
  have "in_step (fresh_chan (\<lambda>n. True))" by (simp add: in_step_def fresh_chan_def)
  from fanout_fate [OF r this] r show ?thesis by (auto simp: sends_def fresh_chan_def)
qed

text \<open>
  Only the first named metric decides whose an envelope is: the metrics of a third tenant behind it
  go to the target's routing key as they are.
\<close>

lemma foreign_metric_cloned:
  assumes "equal_fold (first_group ms) (rc_source cfg)" "metric_name m = Some n" "\<not> equal_fold (before_slash n) (rc_source cfg)" "m \<in> set ms"
  shows "\<exists>out ms' m'. retenant cfg (Some (JvObject [(''metrics'', JvArray ms)])) = RtOurs out
    \<and> fields_of out ''metrics'' = Some (JvArray ms') \<and> m' \<in> set ms' \<and> metric_name m' = Some n"
proof -
  let ?m = "retenant_metric (to_upper (rc_source cfg)) (rc_target cfg)"
  have "metric_name (?m m) = Some n" using assms(2,3) by (simp add: metric_name_rewritten rewrite_group_def)
  then show ?thesis using assms(1,4)
    by (auto simp: retenant_def Let_def fields_of_def map_of_delete_fields fold_set_fields tenant_fields_def equipment_id_fields_def map_of_set_field)
qed

section \<open>The ingest shim\<close>

lemma publish_copies_ok:
  "publish_copies envs i sts fs p = (True, out, p') \<Longrightarrow> out = map (\<lambda>st. JvObject (with_source_type st fs)) sts"
  by (induction sts arbitrary: i p out) (auto split: prod.splits bool.splits)

lemma publish_copies_prefix:
  "publish_copies envs i sts fs p = (ok, out, p') \<Longrightarrow> \<exists>n\<le>length sts. out = map (\<lambda>st. JvObject (with_source_type st fs)) (take n sts)"
proof (induction sts arbitrary: i p out ok)
  case (Cons st sts)
  show ?case
  proof (cases "shim_send (envs i) p")
    case (Pair b p1)
    show ?thesis
    proof (cases b)
      case True
      with Cons.prems Pair obtain out' where o: "publish_copies envs (Suc i) sts fs p1 = (ok, out', p')"
        "out = JvObject (with_source_type st fs) # out'" by (auto split: prod.splits)
      from Cons.IH [OF o(1)] obtain n where "n \<le> length sts" "out' = map (\<lambda>st. JvObject (with_source_type st fs)) (take n sts)" by blast
      with o(2) show ?thesis by (intro exI [of _ "Suc n"]) simp
    next
      case False
      with Cons.prems Pair show ?thesis by (intro exI [of _ 0]) simp
    qed
  qed
qed simp

text \<open>
  The shim sends nothing unless the key is the configured one and the body's group is in scope;
  what it sends are copies of the body with one source type each, and it answers 202 only when
  every configured copy was confirmed.
\<close>

theorem shim_admission:
  assumes "shim_ingest cfg envs key body p = (status, out, p')"
  shows "(out \<noteq> [] \<or> p' \<noteq> p \<longrightarrow> key = sc_key cfg \<and> (\<exists>n json g. body = BodyOf n json \<and> extract_group json = Some g \<and> equal_fold g (sc_group cfg)))
    \<and> (\<forall>v\<in>set out. \<exists>n fs st. body = BodyOf n (Some (JvObject fs)) \<and> st \<in> set (shim_copies cfg) \<and> v = JvObject (with_source_type st fs))
    \<and> (status = 202 \<longrightarrow> (\<exists>n fs. body = BodyOf n (Some (JvObject fs)) \<and> out = map (\<lambda>st. JvObject (with_source_type st fs)) (shim_copies cfg)))"
proof (cases "key = sc_key cfg")
  case False
  then show ?thesis using assms by (auto simp: shim_ingest_def)
next
  case key: True
  show ?thesis
  proof (cases body)
    case (BodyOf n json)
    consider "out = []" "p' = p" "status \<noteq> 202"
      | fs g ok where "json = Some (JvObject fs)" "extract_group json = Some g" "equal_fold g (sc_group cfg)"
          "publish_copies envs 0 (shim_copies cfg) fs p = (ok, out, p')" "status = (if ok then 202 else 503)"
      using assms key BodyOf by (auto simp: shim_ingest_def split: if_splits option.splits jval.splits prod.splits bool.splits)
    then show ?thesis
    proof cases
      case 2
      from publish_copies_prefix [OF 2(4)] have "\<forall>v\<in>set out. \<exists>st\<in>set (shim_copies cfg). v = JvObject (with_source_type st fs)"
        using set_take_subset [of _ "shim_copies cfg"] by fastforce
      moreover have "out = map (\<lambda>st. JvObject (with_source_type st fs)) (shim_copies cfg)" if "status = 202"
        using publish_copies_ok 2(4,5) that by (auto split: if_splits)
      ultimately show ?thesis using key BodyOf 2(1-3) by blast
    qed (use key in simp)
  qed (use assms key in \<open>auto simp: shim_ingest_def\<close>)
qed

definition demo_shim :: shim_cfg where
  "demo_shim = \<lparr>sc_key = ''k'', sc_group = ''INCOPLAST'', sc_source_types = [[], ''go'']\<rparr>"

definition demo_shim_pub :: shim_pub where
  "demo_shim_pub = \<lparr>sp_chan = Some (fresh_chan (\<lambda>n. True)), sp_connected = True\<rparr>"

text \<open>
  A top-level topic outranks the metric names in the scope guard: an envelope that says the
  shim's group there is admitted and published although every metric of it names another
  tenant, which is what the consumer behind the broker routes by.
\<close>

theorem shim_scope_bypass:
  assumes "sp_chan p = Some c" "sp_connected p" "in_step c" "\<And>i. envs i = sends WaitConfirm" "\<And>k. ch_verdict c k"
    and "0 < n" "equal_fold (first_segment t) (sc_group cfg)" "first_segment t \<noteq> []" "probe_names ms \<noteq> None"
  shows "\<exists>out p'. shim_ingest cfg envs (sc_key cfg) (BodyOf n (Some (JvObject [(''topic'', JvString t), (''metrics'', JvArray ms)]))) p = (202, out, p')
    \<and> length out = length (shim_copies cfg) \<and> (\<forall>v\<in>set out. fields_of v ''metrics'' = Some (JvArray ms))"
proof -
  let ?fs = "[(''topic'', JvString t), (''metrics'', JvArray ms)]"
  obtain ns where ns: "probe_names ms = Some ns" using assms(9) by blast
  have g: "extract_group (Some (JvObject ?fs)) = Some (first_segment t)"
    using ns assms(8) by (simp add: extract_group_def equal_fold_def to_lower_def lower_char_def)
  have send: "\<exists>p2 c2. shim_send (sends WaitConfirm) p1 = (True, p2) \<and> sp_chan p2 = Some c2 \<and> sp_connected p2 \<and> in_step c2 \<and> ch_verdict c2 = ch_verdict c"
    if "sp_chan p1 = Some c1" "sp_connected p1" "in_step c1" "ch_verdict c1 = ch_verdict c" for p1 c1
    using that assms(5) by (auto simp: shim_send_def shim_publish_def drain_stale_def publish_wait_def await_confirm_def sends_def in_step_def)
  have copies: "\<exists>out p'. publish_copies envs i sts ?fs p1 = (True, out, p')"
    if "sp_chan p1 = Some c1" "sp_connected p1" "in_step c1" "ch_verdict c1 = ch_verdict c" for i sts p1 c1
    using that
  proof (induction sts arbitrary: i p1 c1)
    case (Cons st sts)
    from send [OF Cons.prems] obtain p2 c2 where "shim_send (sends WaitConfirm) p1 = (True, p2)" "sp_chan p2 = Some c2" "sp_connected p2"
      "in_step c2" "ch_verdict c2 = ch_verdict c" by blast
    with Cons.IH [of p2 c2 "Suc i"] assms(4) show ?case by (auto split: prod.splits)
  qed simp
  from copies [OF assms(1-3) refl] obtain out p' where o: "publish_copies envs 0 (shim_copies cfg) ?fs p = (True, out, p')" by blast
  have "fields_of (JvObject (with_source_type st ?fs)) ''metrics'' = Some (JvArray ms)" for st
    by (simp add: fields_of_def with_source_type_def)
  with publish_copies_ok [OF o] o g assms(6,7) show ?thesis by (auto simp: shim_ingest_def)
qed

theorem shim_scope_bypass_witness:
  "\<exists>out p'. shim_ingest demo_shim (\<lambda>i. sends WaitConfirm) ''k'' (BodyOf 90 (Some (JvObject [(''topic'', JvString ''INCOPLAST/x''),
       (''metrics'', JvArray [JvObject [(''name'', JvString ''CPACK/SC/L5/M/Admin/ProdProcessedCount'')]])]))) demo_shim_pub = (202, out, p')
     \<and> length out = 2"
proof -
  let ?ms = "[JvObject [(''name'', JvString ''CPACK/SC/L5/M/Admin/ProdProcessedCount'')]]"
  have "sp_chan demo_shim_pub = Some (fresh_chan (\<lambda>n. True))" "sp_connected demo_shim_pub" "in_step (fresh_chan (\<lambda>n. True))"
    "ch_verdict (fresh_chan (\<lambda>n. True)) k" for k
    by (simp_all add: demo_shim_pub_def fresh_chan_def in_step_def)
  moreover have "first_segment ''INCOPLAST/x'' = ''INCOPLAST''"
    by (simp add: first_segment_def trim_space_def is_space_def before_slash_def Let_def)
  moreover have "probe_names ?ms \<noteq> None" by (simp add: equal_fold_def)
  moreover have "sc_key demo_shim = ''k''" "sc_group demo_shim = ''INCOPLAST''" "shim_copies demo_shim = [[], ''go'']"
    by (simp_all add: demo_shim_def shim_copies_def)
  ultimately show ?thesis
    using shim_scope_bypass [of demo_shim_pub "fresh_chan (\<lambda>n. True)" "\<lambda>i. sends WaitConfirm" 90 "''INCOPLAST/x''" demo_shim ?ms]
    by (auto simp: equal_fold_def)
qed

theorem shim_admission_witness:
  "\<exists>status out p'. shim_ingest demo_shim (\<lambda>i. sends WaitConfirm) ''x'' Unreadable demo_shim_pub = (status, out, p') \<and> out = [] \<and> p' = demo_shim_pub"
proof -
  obtain status out p' where r: "shim_ingest demo_shim (\<lambda>i. sends WaitConfirm) ''x'' Unreadable demo_shim_pub = (status, out, p')"
    by (metis surj_pair)
  have "''x'' \<noteq> sc_key demo_shim" by (simp add: demo_shim_def)
  with shim_admission [OF r] r show ?thesis by blast
qed

end
