(* ===== verification/EventTable.thy ===== *)
theory EventTable
  imports Complex_Main Prelude
begin

text \<open>
  The stop-event tables of the stream engine (internal/events) and what its three jobs share: a
  table is a list of rows with the key equipment and start, times are microseconds, a
  statement is what its SQL text does to the rows. The jobs run at one \<open>now()\<close> per transaction.
  Statuses are never null here; the columns the jobs neither read nor write are left out.
\<close>

definition secs :: "int \<Rightarrow> int" where "secs n = n * 1000000"
definition hours :: "int \<Rightarrow> int" where "hours n = secs (3600 * n)"
definition days :: "int \<Rightarrow> int" where "days n = hours (24 * n)"

record machine_event =
  me_ts :: int
  me_end :: "int option"
  me_equipment :: int
  me_status :: int
  me_enterprise :: int
  me_duration :: "int option"
  me_forced :: "bool option"
  me_category :: "string option"
  me_subcategory :: "string option"
  me_machine :: "string option"
  me_notes :: "string option"
  me_planned :: "bool option"
  me_change_over :: "bool option"
  me_idle :: "string option"

definition me_key :: "machine_event \<Rightarrow> int \<times> int" where
  "me_key r = (me_equipment r, me_ts r)"

definition keys_unique :: "machine_event list \<Rightarrow> bool" where
  "keys_unique rs \<longleftrightarrow> distinct (map me_key rs)"

text \<open>\<open>humanJustifiedPred\<close> of closer.go, and \<open>humanTouchedPred\<close> and \<open>humanCoverPred\<close> of the stop detector.\<close>

definition human_justified :: "machine_event \<Rightarrow> bool" where
  "human_justified r \<longleftrightarrow> me_category r \<noteq> None \<or> me_subcategory r \<noteq> None \<or> me_machine r \<noteq> None \<or> me_notes r \<noteq> None
     \<or> me_planned r = Some True \<or> me_change_over r = Some True \<or> me_idle r \<noteq> None"

definition human_touched :: "machine_event \<Rightarrow> bool" where
  "human_touched r \<longleftrightarrow> me_forced r = Some True \<or> human_justified r"

text \<open>\<open>extract(epoch ...)\<close> assigned to an integer column: the nearest second, halves away from zero.\<close>

definition round_secs :: "int \<Rightarrow> int" where
  "round_secs us = (if 0 \<le> us then (us + 500000) div 1000000 else - ((- us + 500000) div 1000000))"

text \<open>A row as the derivers insert it; \<open>forced\<close> is the value of \<open>forced_creation_system\<close>.\<close>

definition minted :: "bool option \<Rightarrow> int \<Rightarrow> int \<Rightarrow> int \<Rightarrow> int \<Rightarrow> int option \<Rightarrow> int \<Rightarrow> machine_event" where
  "minted forced now ent eq ts te status = \<lparr>me_ts = ts, me_end = te, me_equipment = eq, me_status = status, me_enterprise = ent,
     me_duration = Some (round_secs ((case te of None \<Rightarrow> now | Some e \<Rightarrow> e) - ts)), me_forced = forced,
     me_category = None, me_subcategory = None, me_machine = None, me_notes = None, me_planned = None, me_change_over = None, me_idle = None\<rparr>"

text \<open>\<open>lead(ts_event)\<close> along one equipment's transitions in order of time.\<close>

fun chain_events :: "bool option \<Rightarrow> int \<Rightarrow> int \<Rightarrow> int \<Rightarrow> (int \<times> int) list \<Rightarrow> machine_event list" where
  "chain_events forced now ent eq [] = []"
| "chain_events forced now ent eq ((t, s) # rest) =
     minted forced now ent eq t (case rest of [] \<Rightarrow> None | (t', s') # _ \<Rightarrow> Some t') s # chain_events forced now ent eq rest"

text \<open>The columns a derived row sets on a conflict.\<close>

definition redate :: "machine_event \<Rightarrow> machine_event \<Rightarrow> machine_event" where
  "redate f r = r\<lparr>me_end := me_end f, me_status := me_status f, me_duration := me_duration f\<rparr>"

text \<open>An UPDATE that ends the row with key \<open>k\<close> at \<open>te\<close>.\<close>

definition end_row :: "int \<Rightarrow> machine_event \<Rightarrow> machine_event" where
  "end_row te r = r\<lparr>me_end := Some te, me_duration := Some (round_secs (te - me_ts r))\<rparr>"

section \<open>Sessions\<close>

text \<open>
  The sessionisation of sorted instants: an instant more than \<open>g\<close> after its predecessor starts a
  new session; a session is its first and its last instant.
\<close>

fun sessions :: "int \<Rightarrow> int list \<Rightarrow> (int \<times> int) list" where
  "sessions g [] = []"
| "sessions g (t # ts) =
     (case sessions g ts of
        [] \<Rightarrow> [(t, t)]
      | (s, l) # rest \<Rightarrow> if g < s - t then (t, t) # (s, l) # rest else (t, l) # rest)"

lemma sessions_empty: "sessions g ts = [] \<longleftrightarrow> ts = []"
  by (cases ts) (auto split: list.splits prod.splits)

lemma sessions_head: "ts \<noteq> [] \<Longrightarrow> fst (hd (sessions g ts)) = hd ts"
  by (cases ts) (auto split: list.splits prod.splits)

lemma sessions_members: "(s, l) \<in> set (sessions g ts) \<Longrightarrow> sorted ts \<Longrightarrow> s \<in> set ts \<and> l \<in> set ts \<and> s \<le> l"
proof (induction ts arbitrary: s l)
  case (Cons t ts)
  show ?case
  proof (cases "sessions g ts")
    case Nil
    then show ?thesis using Cons.prems by simp
  next
    case (Cons p rest)
    then obtain s0 l0 where c: "sessions g ts = (s0, l0) # rest" by (cases p) auto
    have "s0 \<in> set ts \<and> l0 \<in> set ts \<and> s0 \<le> l0" using Cons.IH [of s0 l0] c Cons.prems(2) by simp
    then show ?thesis using Cons.prems Cons.IH [of s l] c by (auto split: if_splits)
  qed
qed simp

text \<open>Each session ends more than \<open>g\<close> before the next one starts.\<close>

definition apart :: "int \<Rightarrow> (int \<times> int) list \<Rightarrow> bool" where
  "apart g = sorted_wrt (\<lambda>p q. snd p + g < fst q)"

lemma sessions_apart: "sorted ts \<Longrightarrow> 0 \<le> g \<Longrightarrow> apart g (sessions g ts)"
proof (induction ts)
  case (Cons t ts)
  show ?case
  proof (cases "sessions g ts")
    case Nil
    then show ?thesis by (simp add: apart_def)
  next
    case (Cons p rest)
    then obtain s0 l0 where c: "sessions g ts = (s0, l0) # rest" by (cases p) auto
    have ih: "apart g ((s0, l0) # rest)" using Cons.IH Cons.prems c by simp
    have le: "s0 \<le> l0" using sessions_members [of s0 l0 g ts] c Cons.prems by simp
    have "\<forall>q\<in>set rest. t + g < fst q" if "g < s0 - t"
      using ih le that Cons.prems(2) by (fastforce simp: apart_def)
    then show ?thesis using ih c by (auto simp: apart_def)
  qed
qed (simp add: apart_def)

lemma sessions_cover: "t \<in> set ts \<Longrightarrow> sorted ts \<Longrightarrow> \<exists>s l. (s, l) \<in> set (sessions g ts) \<and> s \<le> t \<and> t \<le> l"
proof (induction ts)
  case (Cons u ts)
  show ?case
  proof (cases "sessions g ts")
    case Nil
    then show ?thesis using Cons.prems sessions_empty [of g ts] by auto
  next
    case (Cons p rest)
    then obtain s0 l0 where c: "sessions g ts = (s0, l0) # rest" by (cases p) auto
    have m: "s0 \<in> set ts" "s0 \<le> l0" using sessions_members [of s0 l0 g ts] c Cons.prems(2) by simp_all
    show ?thesis
    proof (cases "t \<in> set ts")
      case True
      then obtain s l where sl: "(s, l) \<in> set (sessions g ts)" "s \<le> t" "t \<le> l" using Cons.IH Cons.prems(2) by auto
      have ut: "u \<le> t" using True Cons.prems(2) by simp
      show ?thesis
      proof (cases "(s, l) = (s0, l0)")
        case True
        then show ?thesis using sl ut c by (cases "g < s0 - u") auto
      next
        case False
        then show ?thesis using sl c by (cases "g < s0 - u") auto
      qed
    next
      case False
      then have "t = u" using Cons.prems(1) by simp
      moreover have "u \<le> l0" using m Cons.prems(2) by fastforce
      ultimately show ?thesis using c by (cases "g < s0 - u") auto
    qed
  qed
qed simp

lemma apart_separated:
  assumes "apart g ss" "p \<in> set ss" "q \<in> set ss"
  shows "p = q \<or> snd p + g < fst q \<or> snd q + g < fst p"
  using assms
proof (induction ss)
  case (Cons r ss)
  then show ?case by (auto simp: apart_def)
qed simp

lemma sessions_silence:
  assumes "sorted ts" "0 \<le> g" "(s, l) \<in> set (sessions g ts)" "t \<in> set ts"
  shows "\<not> (l < t \<and> t \<le> l + g)" "\<not> (s - g \<le> t \<and> t < s)"
proof -
  obtain s' l' where c: "(s', l') \<in> set (sessions g ts)" "s' \<le> t" "t \<le> l'" using sessions_cover assms(1,4) by blast
  have "(s, l) = (s', l') \<or> l + g < s' \<or> l' + g < s"
    using apart_separated [OF sessions_apart [OF assms(1,2)] assms(3) c(1)] by simp
  then show "\<not> (l < t \<and> t \<le> l + g)" "\<not> (s - g \<le> t \<and> t < s)"
    using c assms(2) sessions_members [OF assms(3,1)] by auto
qed

end
