(* ===== verification/StopDetector.thy ===== *)
theory StopDetector
  imports EventTable
begin

text \<open>
  The stop detector (events/cpac_deriver.go): the sessions of an equipment's productive minutes give
  a stream of RUNNING (6), STOPPED (10) and NO DATA (20) transitions over the last 25 hours, and
  three statements, correct, upsert and close, bring the event table in line with it in one
  transaction. The tables a pass reads are the record \<open>stop_db\<close>; a counter is null or a number.
\<close>

section \<open>What a pass reads\<close>

record stop_equipment =
  sq_id :: int
  sq_enterprise :: int
  sq_status_type :: int
  sq_tp :: int
  sq_threshold :: "int option"
  sq_lead :: "int option"
  sq_downtime_from_lead :: bool
  sq_area :: "int option"

record minute_row =
  mr_equipment :: int
  mr_ts :: int
  mr_gross :: "rat option"
  mr_net :: "rat option"
  mr_scrap :: "rat option"

record link_minute =
  lm_enterprise :: int
  lm_endpoint :: string
  lm_ts :: int
  lm_ok_ticks :: int

record stop_db =
  sd_equipments :: "stop_equipment list"
  sd_minutes :: "minute_row list"
  sd_endpoints :: "(int \<times> string \<times> int) list"     \<comment> \<open>enterprise, endpoint, equipment\<close>
  sd_links :: "link_minute list"

record stop_cfg =
  sg_enterprises :: "int list"
  sg_threshold_default :: int
  sg_lead_activity :: bool
  sg_link_health :: bool
  sg_line_lead :: bool

definition moved :: "rat option \<Rightarrow> bool" where
  "moved v = (case v of None \<Rightarrow> False | Some x \<Rightarrow> 0 < x)"

section \<open>Scope and productive minutes\<close>

record scope_row =
  sr_id :: int
  sr_enterprise :: int
  sr_threshold :: int      \<comment> \<open>seconds\<close>
  sr_src :: int

definition default_threshold :: "stop_cfg \<Rightarrow> int" where
  "default_threshold cfg = (if sg_threshold_default cfg \<le> 0 then 300 else sg_threshold_default cfg)"

definition threshold_of :: "stop_cfg \<Rightarrow> stop_equipment \<Rightarrow> int" where
  "threshold_of cfg e = (case sq_threshold e of None \<Rightarrow> default_threshold cfg
     | Some t \<Rightarrow> if t = 0 then default_threshold cfg else t)"

definition has_lead :: "stop_equipment \<Rightarrow> bool" where
  "has_lead e \<longleftrightarrow> (case sq_lead e of None \<Rightarrow> False | Some l \<Rightarrow> 0 < l)"

definition scope_of :: "stop_cfg \<Rightarrow> stop_db \<Rightarrow> scope_row list" where
  "scope_of cfg db = map (\<lambda>e. \<lparr>sr_id = sq_id e, sr_enterprise = sq_enterprise e, sr_threshold = threshold_of cfg e,
       sr_src = (if sg_line_lead cfg \<and> sq_tp e = 3 \<and> has_lead e then the (sq_lead e) else sq_id e)\<rparr>)
     (filter (\<lambda>e. sq_status_type e = 0 \<and> sq_tp e \<in> {1, 3} \<and> sq_enterprise e \<in> set (sg_enterprises cfg)) (sd_equipments db))"

definition lead_machines :: "stop_cfg \<Rightarrow> stop_db \<Rightarrow> int set" where
  "lead_machines cfg db = set (map (\<lambda>e. the (sq_lead e))
     (filter (\<lambda>e. sq_tp e = 3 \<and> sq_downtime_from_lead e \<and> has_lead e \<and> sq_enterprise e \<in> set (sg_enterprises cfg)) (sd_equipments db)))"

definition productive :: "stop_cfg \<Rightarrow> stop_db \<Rightarrow> scope_row \<Rightarrow> minute_row \<Rightarrow> bool" where
  "productive cfg db s m \<longleftrightarrow> moved (mr_gross m)
     \<or> (sg_lead_activity cfg \<and> sr_id s \<in> lead_machines cfg db \<and> (moved (mr_net m) \<or> moved (mr_scrap m)))
     \<or> (sg_line_lead cfg \<and> sr_src s \<noteq> sr_id s \<and> (moved (mr_net m) \<or> moved (mr_scrap m)))"

text \<open>The instants of \<open>counts\<close>: the window and its look-back.\<close>

definition count_instants :: "stop_cfg \<Rightarrow> stop_db \<Rightarrow> int \<Rightarrow> scope_row \<Rightarrow> int list" where
  "count_instants cfg db now s = sort (map mr_ts (filter (\<lambda>m. mr_equipment m = sr_src s
       \<and> now - hours 25 - secs (sr_threshold s + 60) < mr_ts m \<and> now - days 2 < mr_ts m \<and> productive cfg db s m) (sd_minutes db)))"

section \<open>PLC link\<close>

definition trunc_minute :: "int \<Rightarrow> int" where
  "trunc_minute t = t - t mod secs 60"

definition observable :: "stop_cfg \<Rightarrow> stop_db \<Rightarrow> int \<Rightarrow> scope_row \<Rightarrow> bool" where
  "observable cfg db now s \<longleftrightarrow> (\<exists>m\<in>set (sd_minutes db). mr_equipment m = sr_id s \<and> now - days 7 < mr_ts m \<and> productive cfg db s m)"

definition endpoints_of :: "stop_cfg \<Rightarrow> stop_db \<Rightarrow> int \<Rightarrow> scope_row \<Rightarrow> string list" where
  "endpoints_of cfg db now s = (if observable cfg db now s
     then remdups (map (\<lambda>(ent, ep, eq). ep) (filter (\<lambda>(ent, ep, eq). ent = sr_enterprise s \<and> eq = sr_id s) (sd_endpoints db))) else [])"

definition link_since :: "stop_db \<Rightarrow> int \<Rightarrow> string \<Rightarrow> int option" where
  "link_since db ent ep = (case map lm_ts (filter (\<lambda>l. lm_enterprise l = ent \<and> lm_endpoint l = ep) (sd_links db)) of
     [] \<Rightarrow> None | t # ts \<Rightarrow> Some (fold min ts t))"

definition link_active :: "stop_db \<Rightarrow> int \<Rightarrow> int \<Rightarrow> string \<Rightarrow> int \<Rightarrow> bool" where
  "link_active db now ent ep minute \<longleftrightarrow> (\<exists>(ent', ep', eq)\<in>set (sd_endpoints db). ent' = ent \<and> ep' = ep
     \<and> (\<exists>m\<in>set (sd_minutes db). mr_equipment m = eq \<and> mr_ts m = minute \<and> now - hours 27 < mr_ts m))"

definition link_ok :: "stop_db \<Rightarrow> int \<Rightarrow> string \<Rightarrow> int \<Rightarrow> bool" where
  "link_ok db ent ep minute \<longleftrightarrow> (\<exists>l\<in>set (sd_links db). lm_enterprise l = ent \<and> lm_endpoint l = ep \<and> lm_ts l = minute \<and> 0 < lm_ok_ticks l)"

definition nodata_minutes :: "stop_db \<Rightarrow> int \<Rightarrow> int \<Rightarrow> string \<Rightarrow> int list" where
  "nodata_minutes db now ent ep =
     (case link_since db ent ep of
        None \<Rightarrow> []
      | Some since \<Rightarrow>
        let lo = trunc_minute (max since (now - hours 27)); hi = trunc_minute now - secs 180
        in filter (\<lambda>m. \<not> link_ok db ent ep m \<and> \<not> link_active db now ent ep m)
             (map (\<lambda>k. lo + secs 60 * int k) [0..<nat ((hi - lo) div secs 60 + 1)]))"

text \<open>Islands of consecutive minutes are their sessions with a gap of one minute.\<close>

definition nodata_islands :: "stop_cfg \<Rightarrow> stop_db \<Rightarrow> int \<Rightarrow> scope_row \<Rightarrow> (int \<times> int option) list" where
  "nodata_islands cfg db now s = (if \<not> sg_link_health cfg then [] else
     map (\<lambda>(nd_start, nd_last). (nd_start, if trunc_minute now - secs 120 \<le> nd_last then None else Some nd_last))
       (filter (\<lambda>(nd_start, nd_last). secs (sr_threshold s) \<le> nd_last - nd_start)
         (map (\<lambda>(a, b). (a, b + secs 60))
           (concat (map (\<lambda>ep. sessions (secs 60) (nodata_minutes db now (sr_enterprise s) ep)) (endpoints_of cfg db now s))))))"

section \<open>Transitions\<close>

definition in_nodata :: "(int \<times> int option) list \<Rightarrow> int \<Rightarrow> bool" where
  "in_nodata nd t \<longleftrightarrow> (\<exists>(a, b)\<in>set nd. a \<le> t \<and> (case b of None \<Rightarrow> True | Some e \<Rightarrow> t < e))"

definition session_arms :: "int \<Rightarrow> int \<Rightarrow> (int \<times> int option) list \<Rightarrow> (int \<times> int) list \<Rightarrow> (int \<times> int) list" where
  "session_arms g now nd ss = concat (map (\<lambda>(s, l). (s, 6) # (if l + g < now \<and> \<not> in_nodata nd (l + g) then [(l + g, 10)] else [])) ss)"

definition link_arms :: "int \<Rightarrow> (int \<times> int option) list \<Rightarrow> (int \<times> int) list \<Rightarrow> (int \<times> int) list" where
  "link_arms g nd ss = map (\<lambda>(a, b). (a, 20)) nd
     @ concat (map (\<lambda>(a, b). case b of None \<Rightarrow> []
         | Some e \<Rightarrow> if \<exists>(s, l)\<in>set ss. a \<le> s \<and> s \<le> e + g then [] else [(e, 10)]) nd)"

definition window_start :: "int \<Rightarrow> int" where
  "window_start now = now - hours 25 + secs 10"

definition stop_transitions :: "stop_cfg \<Rightarrow> stop_db \<Rightarrow> int \<Rightarrow> scope_row \<Rightarrow> (int \<times> int) list" where
  "stop_transitions cfg db now s =
     (let g = secs (sr_threshold s); ss = sessions g (count_instants cfg db now s); nd = nodata_islands cfg db now s
      in session_arms g now nd ss @ link_arms g nd ss)"

definition cpac_final :: "stop_cfg \<Rightarrow> stop_db \<Rightarrow> int \<Rightarrow> machine_event list" where
  "cpac_final cfg db now = concat (map (\<lambda>s. chain_events (Some False) now (sr_enterprise s) (sr_id s)
     (sort_key fst (filter (\<lambda>(t, st). window_start now \<le> t) (stop_transitions cfg db now s)))) (scope_of cfg db))"

section \<open>The three statements\<close>

text \<open>A row lies in the span of a human-touched row.\<close>

definition human_cover :: "int \<Rightarrow> machine_event \<Rightarrow> machine_event \<Rightarrow> bool" where
  "human_cover now f h \<longleftrightarrow> me_equipment h = me_equipment f \<and> human_touched h \<and> now - days 60 \<le> me_ts h
     \<and> me_ts h \<le> me_ts f \<and> me_ts f < (case me_end h of None \<Rightarrow> now | Some e \<Rightarrow> e)"

definition stale_event :: "int \<Rightarrow> machine_event list \<Rightarrow> machine_event list \<Rightarrow> machine_event \<Rightarrow> bool" where
  "stale_event now final rows r \<longleftrightarrow>
     \<not> (\<exists>t\<in>set final. me_key t = me_key r \<and> me_status t = me_status r)
     \<or> (\<exists>h\<in>set rows. me_ts h \<noteq> me_ts r \<and> human_cover now r h)"

definition cpac_correct :: "int list \<Rightarrow> int \<Rightarrow> machine_event list \<Rightarrow> machine_event list \<Rightarrow> machine_event list" where
  "cpac_correct ents now final rows = filter (\<lambda>r. \<not> (now - days 1 < me_ts r \<and> me_enterprise r \<in> set ents
     \<and> \<not> human_touched r \<and> stale_event now final rows r)) rows"

text \<open>
  One proposed row of the INSERT: PostgreSQL refuses to touch a row the same statement inserted or
  updated before.
\<close>

definition same_times :: "machine_event \<Rightarrow> machine_event \<Rightarrow> bool" where
  "same_times r f \<longleftrightarrow> me_end r = me_end f \<and> me_status r = me_status f \<and> me_duration r = me_duration f"

definition upsert_one :: "machine_event \<Rightarrow> (int \<times> int) set \<times> machine_event list \<Rightarrow> ((int \<times> int) set \<times> machine_event list) option" where
  "upsert_one f st =
     (case st of (touched, rows) \<Rightarrow>
        (case List.find (\<lambda>r. me_key r = me_key f) rows of
           None \<Rightarrow> Some (insert (me_key f) touched, rows @ [f])
         | Some r \<Rightarrow>
           if me_key f \<in> touched then None
           else if human_touched r \<or> same_times r f then Some (touched, rows)
           else Some (insert (me_key f) touched, map (\<lambda>r. if me_key r = me_key f then redate f r else r) rows)))"

fun upsert_all :: "machine_event list \<Rightarrow> (int \<times> int) set \<times> machine_event list \<Rightarrow> ((int \<times> int) set \<times> machine_event list) option" where
  "upsert_all [] st = Some st"
| "upsert_all (f # fs) st = (case upsert_one f st of None \<Rightarrow> None | Some st' \<Rightarrow> upsert_all fs st')"

definition uncovered :: "int \<Rightarrow> machine_event list \<Rightarrow> machine_event list \<Rightarrow> machine_event list" where
  "uncovered now rows final = filter (\<lambda>f. \<not> (\<exists>h\<in>set rows. human_cover now f h)) final"

definition cpac_upsert :: "int \<Rightarrow> machine_event list \<Rightarrow> machine_event list \<Rightarrow> machine_event list option" where
  "cpac_upsert now final rows = map_option snd (upsert_all (uncovered now rows final) ({}, rows))"

text \<open>The row of an equipment the window left behind, and what follows it.\<close>

definition newest_before :: "int \<Rightarrow> int \<Rightarrow> machine_event list \<Rightarrow> machine_event option" where
  "newest_before now eq rows =
     (let old = filter (\<lambda>r. me_equipment r = eq \<and> me_ts r < window_start now \<and> now - days 60 \<le> me_ts r) rows
      in case old of [] \<Rightarrow> None | r # rs \<Rightarrow> Some (fold (\<lambda>x y. if me_ts y < me_ts x then x else y) rs r))"

definition first_in_window :: "int \<Rightarrow> int \<Rightarrow> machine_event list \<Rightarrow> int option" where
  "first_in_window now eq rows =
     (case map me_ts (filter (\<lambda>r. me_equipment r = eq \<and> window_start now \<le> me_ts r) rows) of
        [] \<Rightarrow> None | t # ts \<Rightarrow> Some (fold min ts t))"

definition close_candidate :: "int \<Rightarrow> machine_event list \<Rightarrow> int \<Rightarrow> (int \<times> int) option" where
  "close_candidate now rows eq =
     (case (newest_before now eq rows, first_in_window now eq rows) of
        (Some p, Some nx) \<Rightarrow> if me_end p = None then Some (me_ts p, nx) else None
      | _ \<Rightarrow> None)"

definition closed_row :: "int \<Rightarrow> machine_event list \<Rightarrow> machine_event list \<Rightarrow> machine_event \<Rightarrow> machine_event" where
  "closed_row now final rows r =
     (if me_equipment r \<in> me_equipment ` set final \<and> me_end r = None \<and> \<not> human_touched r
      then (case close_candidate now rows (me_equipment r) of
              Some (t, nx) \<Rightarrow> if t = me_ts r then end_row nx r else r
            | None \<Rightarrow> r)
      else r)"

definition cpac_close :: "int \<Rightarrow> machine_event list \<Rightarrow> machine_event list \<Rightarrow> machine_event list" where
  "cpac_close now final rows = map (closed_row now final rows) rows"

text \<open>\<open>RunOnceCPAC\<close>: one transaction; an error leaves the table as it was.\<close>

definition run_cpac :: "stop_cfg \<Rightarrow> int \<Rightarrow> stop_db \<Rightarrow> machine_event list \<Rightarrow> machine_event list option" where
  "run_cpac cfg now db rows =
     (let final = cpac_final cfg db now
      in map_option (cpac_close now final) (cpac_upsert now final (cpac_correct (sg_enterprises cfg) now final rows)))"

end
