(* ===== verification/StopProps.thy ===== *)
theory StopProps
  imports StopDetector
begin

text \<open>
  Properties of the stop detector: what operators own is never touched, a pass repeated at the
  same instant changes nothing, a stop is silence and a run starts after silence, and a row the
  correct pass deletes although no pass of the detector could have made it.
\<close>

section \<open>A small plant\<close>

definition outage_cfg :: stop_cfg where
  "outage_cfg = \<lparr>sg_enterprises = [5], sg_threshold_default = 300, sg_lead_activity = False, sg_link_health = True, sg_line_lead = False\<rparr>"

definition outage_equipment :: stop_equipment where
  "outage_equipment = \<lparr>sq_id = 10, sq_enterprise = 5, sq_status_type = 0, sq_tp = 1, sq_threshold = None, sq_lead = None,
     sq_downtime_from_lead = False, sq_area = Some 1\<rparr>"

definition outage_db :: stop_db where
  "outage_db = \<lparr>sd_equipments = [outage_equipment],
     sd_minutes = [\<lparr>mr_equipment = 10, mr_ts = 0, mr_gross = Some 5, mr_net = None, mr_scrap = None\<rparr>],
     sd_endpoints = [(5, ''A'', 10), (5, ''B'', 10)],
     sd_links = [\<lparr>lm_enterprise = 5, lm_endpoint = ''A'', lm_ts = 0, lm_ok_ticks = 1\<rparr>, \<lparr>lm_enterprise = 5, lm_endpoint = ''B'', lm_ts = 0, lm_ok_ticks = 1\<rparr>]\<rparr>"

definition outage_scope :: scope_row where
  "outage_scope = \<lparr>sr_id = 10, sr_enterprise = 5, sr_threshold = 300, sr_src = 10\<rparr>"

definition quiet_cfg :: stop_cfg where
  "quiet_cfg = outage_cfg\<lparr>sg_link_health := False\<rparr>"

text \<open>One productive minute twelve minutes ago: a run of the threshold, then a stop.\<close>

lemma quiet_scope: "scope_of quiet_cfg outage_db = [outage_scope]"
  by (simp add: scope_of_def quiet_cfg_def outage_cfg_def outage_db_def outage_equipment_def outage_scope_def threshold_of_def default_threshold_def)

lemma quiet_final: "cpac_final quiet_cfg outage_db (secs 720)
    = [minted (Some False) (secs 720) 5 10 0 (Some (secs 300)) 6, minted (Some False) (secs 720) 5 10 (secs 300) None 10]"
  unfolding cpac_final_def quiet_scope by code_simp

section \<open>Rows and keys\<close>

lemma minted_simps [simp]:
  "me_ts (minted fc now ent eq t te st) = t" "me_end (minted fc now ent eq t te st) = te"
  "me_equipment (minted fc now ent eq t te st) = eq" "me_status (minted fc now ent eq t te st) = st"
  "me_enterprise (minted fc now ent eq t te st) = ent" "me_key (minted fc now ent eq t te st) = (eq, t)"
  "human_touched (minted fc now ent eq t te st) \<longleftrightarrow> fc = Some True"
  by (simp_all add: minted_def me_key_def human_touched_def human_justified_def)

lemma redate_simps [simp]: "me_key (redate f r) = me_key r" "human_touched (redate f r) = human_touched r"
    "me_enterprise (redate f r) = me_enterprise r" "me_equipment (redate f r) = me_equipment r" "me_ts (redate f r) = me_ts r"
  "me_status (redate f r) = me_status f" "same_times (redate f r) f"
  by (simp_all add: redate_def me_key_def human_touched_def human_justified_def same_times_def)

lemma end_row_simps [simp]: "me_key (end_row te r) = me_key r" "human_touched (end_row te r) = human_touched r"
    "me_enterprise (end_row te r) = me_enterprise r" "me_equipment (end_row te r) = me_equipment r" "me_ts (end_row te r) = me_ts r"
    "me_status (end_row te r) = me_status r" "me_end (end_row te r) = Some te"
  by (simp_all add: end_row_def me_key_def human_touched_def human_justified_def)

lemma chain_derived: "r \<in> set (chain_events fc now ent eq ts) \<Longrightarrow> me_equipment r = eq \<and> me_enterprise r = ent
    \<and> (human_touched r \<longleftrightarrow> fc = Some True) \<and> (me_ts r, me_status r) \<in> set ts"
  by (induction fc now ent eq ts rule: chain_events.induct) auto

lemma chain_keys: "map me_key (chain_events fc now ent eq ts) = map (Pair eq) (map fst ts)"
  by (induction fc now ent eq ts rule: chain_events.induct) auto

lemma final_derived: "f \<in> set (cpac_final cfg db now) \<Longrightarrow> \<not> human_touched f \<and> window_start now \<le> me_ts f"
  unfolding cpac_final_def by (auto dest!: chain_derived)

lemma unique_row: "keys_unique rs \<Longrightarrow> r \<in> set rs \<Longrightarrow> r' \<in> set rs \<Longrightarrow> me_key r = me_key r' \<Longrightarrow> r = r'"
  unfolding keys_unique_def by (metis distinct_map inj_on_eq_iff)

lemma find_key: "keys_unique rs \<Longrightarrow> r \<in> set rs \<Longrightarrow> List.find (\<lambda>r. me_key r = k) rs = (if me_key r = k then Some r else List.find (\<lambda>r. me_key r = k) rs)"
  unfolding keys_unique_def by (induction rs) (auto simp: rev_image_eqI)

lemma find_key_some: "List.find (\<lambda>r. me_key r = k) rs = Some r \<Longrightarrow> r \<in> set rs \<and> me_key r = k"
  by (auto simp: find_Some_iff)

lemma find_key_none: "List.find (\<lambda>r. me_key r = k) rs = None \<longleftrightarrow> k \<notin> me_key ` set rs"
  by (auto simp: find_None_iff)

section \<open>The upsert\<close>

text \<open>What one proposed row does to a table with unique keys.\<close>

lemma upsert_one_effect:
  assumes "upsert_one f (touched, rows) = Some (touched', rows')" "keys_unique rows" "\<not> human_touched f"
  shows "keys_unique rows'" "filter human_touched rows' = filter human_touched rows"
    "\<And>r. r \<in> set rows' \<Longrightarrow> me_key r \<noteq> me_key f \<Longrightarrow> r \<in> set rows"
    "\<And>r. r \<in> set rows \<Longrightarrow> me_key r \<noteq> me_key f \<Longrightarrow> r \<in> set rows'"
    "\<And>r. r \<in> set rows' \<Longrightarrow> me_key r = me_key f \<Longrightarrow> human_touched r \<or> same_times r f"
    "me_key ` set rows' = insert (me_key f) (me_key ` set rows)"
    "\<And>r. r \<in> set rows' \<Longrightarrow> me_enterprise r = me_enterprise f \<or> (\<exists>q\<in>set rows. me_key q = me_key r \<and> me_enterprise q = me_enterprise r)"
proof -
  let ?u = "\<lambda>r. if me_key r = me_key f then redate f r else r"
  consider (new) "me_key f \<notin> me_key ` set rows" "rows' = rows @ [f]"
    | (keep) q where "q \<in> set rows" "me_key q = me_key f" "human_touched q \<or> same_times q f" "rows' = rows"
    | (upd) q where "q \<in> set rows" "me_key q = me_key f" "\<not> human_touched q" "rows' = map ?u rows"
  proof (cases "List.find (\<lambda>r. me_key r = me_key f) rows")
    case None
    then show ?thesis using new assms(1) find_key_none [of "me_key f" rows] by (simp add: upsert_one_def)
  next
    case (Some q)
    then show ?thesis using keep [of q] upd [of q] assms(1) find_key_some [OF Some] by (simp add: upsert_one_def split: if_splits)
  qed
  then have "keys_unique rows' \<and> filter human_touched rows' = filter human_touched rows
    \<and> (\<forall>r\<in>set rows'. me_key r \<noteq> me_key f \<longrightarrow> r \<in> set rows) \<and> (\<forall>r\<in>set rows. me_key r \<noteq> me_key f \<longrightarrow> r \<in> set rows')
    \<and> (\<forall>r\<in>set rows'. me_key r = me_key f \<longrightarrow> human_touched r \<or> same_times r f)
    \<and> me_key ` set rows' = insert (me_key f) (me_key ` set rows)
    \<and> (\<forall>r\<in>set rows'. me_enterprise r = me_enterprise f \<or> (\<exists>q\<in>set rows. me_key q = me_key r \<and> me_enterprise q = me_enterprise r))"
  proof cases
    case new
    then have "\<forall>r\<in>set rows. me_key r \<noteq> me_key f" by (metis image_eqI)
    with new show ?thesis using assms(2,3) by (auto simp: keys_unique_def same_times_def)
  next
    case keep
    then have "me_key f \<in> me_key ` set rows" by (metis image_eqI)
    with keep show ?thesis using assms(2) by (auto dest: unique_row [OF assms(2)])
  next
    case upd
    have "map me_key (map ?u rows) = map me_key rows" unfolding map_map by (rule map_cong) auto
    then have k: "map me_key rows' = map me_key rows" using upd(4) by simp
    have "filter human_touched (map ?u rows) = filter human_touched rows" if "\<forall>r\<in>set rows. me_key r = me_key f \<longrightarrow> \<not> human_touched r"
      using that by (induction rows) auto
    moreover have "\<forall>r\<in>set rows. me_key r = me_key f \<longrightarrow> \<not> human_touched r" using upd(1-3) unique_row [OF assms(2)] by metis
    ultimately have h: "filter human_touched rows' = filter human_touched rows" using upd(4) by simp
    have "me_key ` set rows' = me_key ` set rows" using k by (metis set_map)
    moreover have "me_key f \<in> me_key ` set rows" using upd(1,2) by (metis image_eqI)
    ultimately have "me_key ` set rows' = insert (me_key f) (me_key ` set rows)" by blast
    moreover have "keys_unique rows'" using assms(2) k by (simp add: keys_unique_def)
    moreover have "\<forall>r\<in>set rows'. me_enterprise r = me_enterprise f \<or> (\<exists>q\<in>set rows. me_key q = me_key r \<and> me_enterprise q = me_enterprise r)"
      using upd(4) by auto
    ultimately show ?thesis using h upd(4) by auto
  qed
  then show "keys_unique rows'" "filter human_touched rows' = filter human_touched rows"
    "\<And>r. r \<in> set rows' \<Longrightarrow> me_key r \<noteq> me_key f \<Longrightarrow> r \<in> set rows"
    "\<And>r. r \<in> set rows \<Longrightarrow> me_key r \<noteq> me_key f \<Longrightarrow> r \<in> set rows'"
    "\<And>r. r \<in> set rows' \<Longrightarrow> me_key r = me_key f \<Longrightarrow> human_touched r \<or> same_times r f"
    "me_key ` set rows' = insert (me_key f) (me_key ` set rows)"
    "\<And>r. r \<in> set rows' \<Longrightarrow> me_enterprise r = me_enterprise f \<or> (\<exists>q\<in>set rows. me_key q = me_key r \<and> me_enterprise q = me_enterprise r)"
    by blast+
qed

lemma upsert_all_effect:
  assumes "upsert_all fs (touched, rows) = Some (touched', rows')" "keys_unique rows" "\<forall>f\<in>set fs. \<not> human_touched f"
  shows "keys_unique rows' \<and> filter human_touched rows' = filter human_touched rows
    \<and> me_key ` set rows' = me_key ` set fs \<union> me_key ` set rows
    \<and> (\<forall>r\<in>set rows'. me_key r \<notin> me_key ` set fs \<longrightarrow> r \<in> set rows)"
  using assms
proof (induction fs arbitrary: touched rows)
  case (Cons f fs)
  from Cons.prems(1) obtain t1 rows1 where s: "upsert_one f (touched, rows) = Some (t1, rows1)" "upsert_all fs (t1, rows1) = Some (touched', rows')"
    by (cases "upsert_one f (touched, rows)") auto
  have g: "\<not> human_touched f" using Cons.prems(3) by simp
  note e = upsert_one_effect [OF s(1) Cons.prems(2) g]
  have "\<forall>f\<in>set fs. \<not> human_touched f" using Cons.prems(3) by simp
  note ih = Cons.IH [OF s(2) e(1) this]
  have "me_key ` set rows' = me_key ` set (f # fs) \<union> me_key ` set rows" using ih e(6) by simp
  moreover have "\<forall>r\<in>set rows'. me_key r \<notin> me_key ` set (f # fs) \<longrightarrow> r \<in> set rows" using ih e(3) by simp
  ultimately show ?case using ih e(2) by simp
qed simp

text \<open>Each proposed row, with distinct keys, ends up in the table unless a human owns its key.\<close>

lemma upsert_all_sets:
  assumes "upsert_all fs (touched, rows) = Some (touched', rows')" "keys_unique rows" "\<forall>f\<in>set fs. \<not> human_touched f"
    and "distinct (map me_key fs)" "r \<in> set rows'" "f \<in> set fs" "me_key r = me_key f"
  shows "human_touched r \<or> same_times r f"
  using assms
proof (induction fs arbitrary: touched rows)
  case (Cons g fs)
  from Cons.prems(1) obtain t1 rows1 where s: "upsert_one g (touched, rows) = Some (t1, rows1)" "upsert_all fs (t1, rows1) = Some (touched', rows')"
    by (cases "upsert_one g (touched, rows)") auto
  have g: "\<not> human_touched g" using Cons.prems(3) by simp
  note e = upsert_one_effect [OF s(1) Cons.prems(2) g]
  show ?case
  proof (cases "f = g")
    case True
    then have "me_key r \<notin> me_key ` set fs" using Cons.prems(4,7) by auto
    moreover have "\<forall>r\<in>set rows'. me_key r \<notin> me_key ` set fs \<longrightarrow> r \<in> set rows1"
      using upsert_all_effect [OF s(2) e(1)] Cons.prems(3) by auto
    ultimately have "r \<in> set rows1" using Cons.prems(5) by blast
    then show ?thesis using e(5) [of r] True Cons.prems(7) by simp
  next
    case False
    then show ?thesis using Cons.IH [OF s(2) e(1)] Cons.prems by auto
  qed
qed simp

section \<open>The close\<close>

lemma newest_before_some:
  "newest_before now eq rows = Some p \<Longrightarrow> p \<in> set rows \<and> me_equipment p = eq \<and> me_ts p < window_start now \<and> now - days 60 \<le> me_ts p
    \<and> (\<forall>r\<in>set rows. me_equipment r = eq \<and> me_ts r < window_start now \<and> now - days 60 \<le> me_ts r \<longrightarrow> me_ts r \<le> me_ts p)"
proof -
  let ?m = "\<lambda>x y. if me_ts y < me_ts x then x else y"
  have f: "fold ?m rs r \<in> set (r # rs) \<and> (\<forall>q\<in>set (r # rs). me_ts q \<le> me_ts (fold ?m rs r))" for rs :: "machine_event list" and r
  proof (induction rs arbitrary: r)
    case (Cons x rs)
    have "fold ?m (x # rs) r = fold ?m rs (?m x r)" by simp
    with Cons [of "?m x r"] show ?case by (auto split: if_splits)
  qed simp
  assume "newest_before now eq rows = Some p"
  then obtain r rs where o: "filter (\<lambda>r. me_equipment r = eq \<and> me_ts r < window_start now \<and> now - days 60 \<le> me_ts r) rows = r # rs"
    "p = fold ?m rs r" by (auto simp: newest_before_def Let_def split: list.splits)
  have set_o: "set (r # rs) = {r \<in> set rows. me_equipment r = eq \<and> me_ts r < window_start now \<and> now - days 60 \<le> me_ts r}"
    using arg_cong [OF o(1), of set] by simp
  show ?thesis using f [of rs r] set_o unfolding o(2) by blast
qed

lemma candidate_old: "close_candidate now rows eq = Some (t, nx) \<Longrightarrow> t < window_start now"
  using newest_before_some [of now eq rows] by (cases "newest_before now eq rows") (auto simp: close_candidate_def split: option.splits if_splits)

lemma closed_row_cases: "closed_row now final rows r = r
    \<or> (me_end r = None \<and> \<not> human_touched r \<and> (\<exists>nx. close_candidate now rows (me_equipment r) = Some (me_ts r, nx) \<and> closed_row now final rows r = end_row nx r))"
  by (auto simp: closed_row_def split: option.splits)

lemma closed_row_simps [simp]: "me_key (closed_row now final rows r) = me_key r" "human_touched (closed_row now final rows r) = human_touched r"
    "me_enterprise (closed_row now final rows r) = me_enterprise r"
  using closed_row_cases [of now final rows r] by (metis end_row_simps(1), metis end_row_simps(2), metis end_row_simps(3))

lemma closed_row_same: "window_start now \<le> me_ts r \<or> human_touched r \<or> me_end (closed_row now final rows r) = None \<Longrightarrow> closed_row now final rows r = r"
  using closed_row_cases [of now final rows r] candidate_old [of now rows "me_equipment r" "me_ts r"] by fastforce

lemma close_keys [simp]: "map me_key (cpac_close now final rows) = map me_key rows"
  by (simp add: cpac_close_def comp_def)

lemma close_humans: "filter human_touched (cpac_close now final rows) = filter human_touched rows"
proof -
  have "filter human_touched (map u rs) = filter human_touched rs"
    if "\<And>r. human_touched (u r) = human_touched r" "\<And>r. human_touched r \<Longrightarrow> u r = r" for u :: "machine_event \<Rightarrow> machine_event" and rs
    using that by (induction rs) auto
  then show ?thesis unfolding cpac_close_def using closed_row_same by simp
qed

text \<open>A row of the closed table and the row it comes from.\<close>

lemma close_row:
  assumes "r' \<in> set (cpac_close now final rows)"
  shows "\<exists>r\<in>set rows. me_key r' = me_key r \<and> human_touched r' = human_touched r \<and> me_enterprise r' = me_enterprise r
    \<and> (window_start now \<le> me_ts r \<longrightarrow> r' = r) \<and> (me_end r' = None \<longrightarrow> r' = r)"
  using assms closed_row_same unfolding cpac_close_def by auto

lemma close_row_of: "r \<in> set rows \<Longrightarrow> window_start now \<le> me_ts r \<Longrightarrow> r \<in> set (cpac_close now final rows)"
  using closed_row_same [of now r final rows] unfolding cpac_close_def by (metis image_eqI set_map)

lemma correct_humans: "filter human_touched (cpac_correct ents now final rows) = filter human_touched rows"
  unfolding cpac_correct_def filter_filter by (rule filter_cong) auto

lemma correct_unique: "keys_unique rows \<Longrightarrow> keys_unique (cpac_correct ents now final rows)"
  unfolding cpac_correct_def keys_unique_def by (rule distinct_map_filter)

lemma same_humans:
  assumes "filter human_touched rs = filter human_touched rs'"
  shows "(\<exists>h\<in>set rs. P h \<and> human_cover now f h) = (\<exists>h\<in>set rs'. P h \<and> human_cover now f h)"
proof -
  have "{h \<in> set rs. human_touched h} = {h \<in> set rs'. human_touched h}" using arg_cong [OF assms, of set] by simp
  then show ?thesis unfolding human_cover_def by blast
qed

lemma uncovered_humans: "filter human_touched rs = filter human_touched rs' \<Longrightarrow> uncovered now rs final = uncovered now rs' final"
  using same_humans [of rs rs' "\<lambda>h. True"] unfolding uncovered_def by simp

text \<open>A pass, statement by statement.\<close>

lemma run_cpac_steps:
  assumes "run_cpac cfg now db rows = Some rows'" "keys_unique rows"
  obtains touched rows1 rows2 where "rows1 = cpac_correct (sg_enterprises cfg) now (cpac_final cfg db now) rows"
    and "upsert_all (uncovered now rows (cpac_final cfg db now)) ({}, rows1) = Some (touched, rows2)"
    and "rows' = cpac_close now (cpac_final cfg db now) rows2"
    and "keys_unique rows1" "keys_unique rows2" "keys_unique rows'"
    and "filter human_touched rows1 = filter human_touched rows" "filter human_touched rows2 = filter human_touched rows"
        "filter human_touched rows' = filter human_touched rows"
proof -
  let ?final = "cpac_final cfg db now" and ?rows1 = "cpac_correct (sg_enterprises cfg) now (cpac_final cfg db now) rows"
  have h1: "filter human_touched ?rows1 = filter human_touched rows" by (rule correct_humans)
  have u1: "keys_unique ?rows1" using assms(2) by (rule correct_unique)
  from assms(1) obtain st where st: "upsert_all (uncovered now ?rows1 ?final) ({}, ?rows1) = Some st" "rows' = cpac_close now ?final (snd st)"
    by (auto simp: run_cpac_def cpac_upsert_def Let_def)
  then have up: "upsert_all (uncovered now rows ?final) ({}, ?rows1) = Some (fst st, snd st)" using uncovered_humans [OF h1] by simp
  have d: "\<forall>f\<in>set (uncovered now rows ?final). \<not> human_touched f" using final_derived by (auto simp: uncovered_def)
  note e = upsert_all_effect [OF up u1 d]
  have "keys_unique rows'" using e st(2) by (simp add: keys_unique_def)
  moreover have "filter human_touched rows' = filter human_touched rows" using e st(2) h1 by (simp add: close_humans)
  ultimately show ?thesis using that [OF refl up st(2) u1 _ _ h1] e h1 by simp
qed

lemma cover_by_key: "me_key r = me_key f \<Longrightarrow> human_cover now r h = human_cover now f h"
  by (simp add: human_cover_def me_key_def)

text \<open>
  C9: A pass of the stop detector keeps every row an operator touched as it is and in its order, and leaves,
  of the last day and its enterprises, no derived row inside the span of an operator's row at
  another instant.
\<close>

theorem cpac_respects_operators:
  assumes "run_cpac cfg now db rows = Some rows'" "keys_unique rows"
  shows "keys_unique rows' \<and> filter human_touched rows' = filter human_touched rows
    \<and> (\<forall>r\<in>set rows'. now - days 1 < me_ts r \<and> me_enterprise r \<in> set (sg_enterprises cfg) \<and> \<not> human_touched r
        \<longrightarrow> \<not> (\<exists>h\<in>set rows. me_ts h \<noteq> me_ts r \<and> human_cover now r h))"
proof -
  obtain touched rows1 rows2 where s: "rows1 = cpac_correct (sg_enterprises cfg) now (cpac_final cfg db now) rows"
      "upsert_all (uncovered now rows (cpac_final cfg db now)) ({}, rows1) = Some (touched, rows2)"
      "rows' = cpac_close now (cpac_final cfg db now) rows2" "keys_unique rows1" "keys_unique rows'"
      "filter human_touched rows' = filter human_touched rows"
    using run_cpac_steps [OF assms] by metis
  have d: "\<forall>f\<in>set (uncovered now rows (cpac_final cfg db now)). \<not> human_touched f" using final_derived by (auto simp: uncovered_def)
  have "\<not> (\<exists>h\<in>set rows. me_ts h \<noteq> me_ts r \<and> human_cover now r h)"
    if r: "r \<in> set rows'" "now - days 1 < me_ts r" "me_enterprise r \<in> set (sg_enterprises cfg)" "\<not> human_touched r" for r
  proof -
    from close_row [of r now _ rows2] r(1) s(3) obtain r2 where r2: "r2 \<in> set rows2" "me_key r = me_key r2" "\<not> human_touched r2"
        "me_enterprise r2 = me_enterprise r" using r(4) by metis
    show ?thesis
    proof (cases "me_key r2 \<in> me_key ` set (uncovered now rows (cpac_final cfg db now))")
      case True
      then obtain f where "f \<in> set (uncovered now rows (cpac_final cfg db now))" "me_key r = me_key f" using r2(2) by auto
      then show ?thesis using cover_by_key [of r f now] by (auto simp: uncovered_def)
    next
      case False
      then have "r2 \<in> set rows1" using upsert_all_effect [OF s(2,4) d] r2(1) by blast
      then have "\<not> stale_event now (cpac_final cfg db now) rows r2"
        using r r2 unfolding s(1) cpac_correct_def by (auto simp: me_key_def)
      then show ?thesis using cover_by_key [OF r2(2), of now] r2(2) by (auto simp: stale_event_def me_key_def)
    qed
  qed
  then show ?thesis using s(5,6) by blast
qed

text \<open>With one proposed row per key the upsert is not refused.\<close>

lemma disjoint_insert: "A \<subseteq> insert k B \<Longrightarrow> k \<notin> C \<Longrightarrow> B \<inter> C = {} \<Longrightarrow> A \<inter> C = {}"
  by blast

lemma upsert_all_total:
  assumes "distinct (map me_key fs)" "touched \<inter> me_key ` set fs = {}"
  shows "\<exists>st. upsert_all fs (touched, rows) = Some st"
  using assms
proof (induction fs arbitrary: touched rows)
  case (Cons f fs)
  then have "me_key f \<notin> touched" by auto
  then have "\<exists>t1 rows1. upsert_one f (touched, rows) = Some (t1, rows1) \<and> t1 \<subseteq> insert (me_key f) touched"
    by (cases "List.find (\<lambda>r. me_key r = me_key f) rows") (auto simp: upsert_one_def)
  then obtain t1 rows1 where o: "upsert_one f (touched, rows) = Some (t1, rows1)" "t1 \<subseteq> insert (me_key f) touched" by blast
  have "touched \<inter> me_key ` set fs = {}" using Cons.prems(2) by auto
  then have "t1 \<inter> me_key ` set fs = {}" using disjoint_insert [OF o(2)] Cons.prems(1) by simp
  then show ?case using Cons.IH [of t1 rows1] Cons.prems(1) o(1) by simp
qed simp

lemma run_cpac_commits:
  assumes "keys_unique rows" "distinct (map me_key (cpac_final cfg db now))"
  shows "\<exists>rows'. run_cpac cfg now db rows = Some rows'"
proof -
  let ?rows1 = "cpac_correct (sg_enterprises cfg) now (cpac_final cfg db now) rows"
  have "distinct (map me_key (uncovered now ?rows1 (cpac_final cfg db now)))" using assms(2) unfolding uncovered_def by (rule distinct_map_filter)
  then obtain st where "upsert_all (uncovered now ?rows1 (cpac_final cfg db now)) ({}, ?rows1) = Some st"
    using upsert_all_total [of _ "{}"] by blast
  then show ?thesis by (simp add: run_cpac_def cpac_upsert_def Let_def)
qed

theorem cpac_respects_operators_witness:
  "\<exists>rows'. run_cpac quiet_cfg (secs 720) outage_db [(minted None (secs 720) 5 10 (secs 100) (Some (secs 400)) 10)\<lparr>me_category := Some ''jam''\<rparr>] = Some rows'
     \<and> keys_unique rows' \<and> length (filter human_touched rows') = 1"
proof -
  let ?h = "(minted None (secs 720) 5 10 (secs 100) (Some (secs 400)) 10)\<lparr>me_category := Some ''jam''\<rparr>"
  have u: "keys_unique [?h]" by (simp add: keys_unique_def)
  have "distinct (map me_key (cpac_final quiet_cfg outage_db (secs 720)))" unfolding quiet_final by (simp add: secs_def)
  from run_cpac_commits [OF u this] obtain rows' where r: "run_cpac quiet_cfg (secs 720) outage_db [?h] = Some rows'" by blast
  have "human_touched ?h" by (simp add: human_touched_def human_justified_def)
  with cpac_respects_operators [OF r u] r show ?thesis by simp
qed

lemma upsert_noop:
  assumes "keys_unique rows" "\<forall>f\<in>set fs. \<exists>r\<in>set rows. me_key r = me_key f \<and> (human_touched r \<or> same_times r f)"
  shows "upsert_all fs ({}, rows) = Some ({}, rows)"
  using assms(2)
proof (induction fs)
  case (Cons f fs)
  then obtain r where r: "r \<in> set rows" "me_key r = me_key f" "human_touched r \<or> same_times r f" by auto
  have "List.find (\<lambda>r. me_key r = me_key f) rows = Some r" using find_key [OF assms(1) r(1), of "me_key f"] r(2) by simp
  with r Cons show ?case by (simp add: upsert_one_def)
qed simp

lemma newest_before_exists:
  "r \<in> set rows \<Longrightarrow> me_equipment r = eq \<Longrightarrow> me_ts r < window_start now \<Longrightarrow> now - days 60 \<le> me_ts r \<Longrightarrow> newest_before now eq rows \<noteq> None"
  by (auto simp: newest_before_def Let_def filter_empty_conv split: list.splits)

lemma closed_row_place: "me_equipment (closed_row now final rows r) = me_equipment r" "me_ts (closed_row now final rows r) = me_ts r"
  using closed_row_simps(1) [of now final rows r] by (simp_all add: me_key_def)

text \<open>Closing a closed table changes nothing.\<close>

lemma close_twice:
  assumes "keys_unique rows"
  shows "cpac_close now final (cpac_close now final rows) = cpac_close now final rows"
proof -
  let ?rows' = "cpac_close now final rows"
  have in_rows: "p \<in> set rows" if "p \<in> set ?rows'" "me_end p = None" for p
    using close_row [OF that(1)] that(2) by blast
  have "closed_row now final ?rows' r = r" if r: "r \<in> set ?rows'" for r
  proof (rule ccontr)
    assume ne: "closed_row now final ?rows' r \<noteq> r"
    with closed_row_cases [of now final ?rows' r] obtain nx where c: "me_end r = None" "\<not> human_touched r"
      "close_candidate now ?rows' (me_equipment r) = Some (me_ts r, nx)" by blast
    have eq: "me_equipment r \<in> me_equipment ` set final" using ne by (auto simp: closed_row_def split: if_splits)
    from c(3) obtain p where p: "newest_before now (me_equipment r) ?rows' = Some p" "me_end p = None" "me_ts p = me_ts r"
      and nx: "first_in_window now (me_equipment r) ?rows' = Some nx"
      by (auto simp: close_candidate_def split: option.splits if_splits)
    note np = newest_before_some [OF p(1)]
    have pin: "p \<in> set rows" using in_rows np p(2) by blast
    obtain q where q: "newest_before now (me_equipment r) rows = Some q" using newest_before_exists [OF pin] np by blast
    note nq = newest_before_some [OF q]
    have "closed_row now final rows q \<in> set ?rows'" using nq by (simp add: cpac_close_def)
    then have "me_ts q \<le> me_ts p" using np nq closed_row_place by metis
    moreover have "me_ts p \<le> me_ts q" using nq pin np by blast
    ultimately have "q = p" using unique_row [OF assms, of q p] nq pin np by (simp add: me_key_def)
    moreover have "first_in_window now (me_equipment r) rows = Some nx"
      using nx by (simp add: first_in_window_def cpac_close_def filter_map comp_def closed_row_place)
    ultimately have "close_candidate now rows (me_equipment r) = Some (me_ts r, nx)" using q p(2,3) by (simp add: close_candidate_def)
    then have "closed_row now final rows r = end_row nx r" using c(1,2) eq by (simp add: closed_row_def)
    moreover have "r \<in> set rows" using in_rows r c(1) by blast
    ultimately have "end_row nx r \<in> set ?rows'" by (metis cpac_close_def image_eqI set_map)
    moreover have "keys_unique ?rows'" using assms by (simp add: keys_unique_def)
    ultimately have "end_row nx r = r" using unique_row [of ?rows' "end_row nx r" r] r by simp
    then show False using c(1) by (metis end_row_simps(7) option.distinct(1))
  qed
  then show ?thesis unfolding cpac_close_def [of now final ?rows'] by (rule map_idI)
qed

text \<open>What a pass leaves of the derivation, row by row.\<close>

lemma pass_present:
  assumes "run_cpac cfg now db rows = Some rows'" "keys_unique rows" "distinct (map me_key (cpac_final cfg db now))"
    and f: "f \<in> set (uncovered now rows (cpac_final cfg db now))"
  shows "\<exists>r\<in>set rows'. me_key r = me_key f \<and> (human_touched r \<or> same_times r f)"
proof -
  let ?un = "uncovered now rows (cpac_final cfg db now)"
  obtain touched rows1 rows2 where s: "upsert_all ?un ({}, rows1) = Some (touched, rows2)"
      "rows' = cpac_close now (cpac_final cfg db now) rows2" "keys_unique rows1"
    using run_cpac_steps [OF assms(1,2)] by metis
  have d: "\<forall>f\<in>set ?un. \<not> human_touched f" using final_derived by (auto simp: uncovered_def)
  have dist: "distinct (map me_key ?un)" using assms(3) unfolding uncovered_def by (rule distinct_map_filter)
  have "me_key f \<in> me_key ` set rows2" using upsert_all_effect [OF s(1,3) d] f by blast
  then obtain r where r: "r \<in> set rows2" "me_key r = me_key f" by (metis imageE)
  moreover have "window_start now \<le> me_ts r" using r(2) f final_derived [of f] by (auto simp: uncovered_def me_key_def)
  ultimately show ?thesis using upsert_all_sets [OF s(1,3) d dist r(1) f r(2)] close_row_of s(2) by blast
qed

lemma pass_derived:
  assumes "run_cpac cfg now db rows = Some rows'" "keys_unique rows" "distinct (map me_key (cpac_final cfg db now))"
    and r: "r \<in> set rows'" "now - days 1 < me_ts r" "me_enterprise r \<in> set (sg_enterprises cfg)" "\<not> human_touched r"
  shows "\<exists>f\<in>set (uncovered now rows (cpac_final cfg db now)). me_key r = me_key f \<and> same_times r f"
proof -
  let ?final = "cpac_final cfg db now" and ?un = "uncovered now rows (cpac_final cfg db now)"
  obtain touched rows1 rows2 where s: "rows1 = cpac_correct (sg_enterprises cfg) now ?final rows"
      "upsert_all ?un ({}, rows1) = Some (touched, rows2)" "rows' = cpac_close now ?final rows2" "keys_unique rows1"
    using run_cpac_steps [OF assms(1,2)] by metis
  have d: "\<forall>f\<in>set ?un. \<not> human_touched f" using final_derived by (auto simp: uncovered_def)
  have dist: "distinct (map me_key ?un)" using assms(3) unfolding uncovered_def by (rule distinct_map_filter)
  have "window_start now \<le> me_ts r" using r(2) by (simp add: window_start_def days_def hours_def secs_def)
  with close_row [of r now _ rows2] r(1) s(3) have r2: "r \<in> set rows2" by (metis me_key_def prod.inject)
  show ?thesis
  proof (cases "me_key r \<in> me_key ` set ?un")
    case True
    then show ?thesis using upsert_all_sets [OF s(2,4) d dist r2] r(4) by (metis imageE)
  next
    case False
    then have r1: "r \<in> set rows1" using upsert_all_effect [OF s(2,4) d] r2 by blast
    then have "\<not> stale_event now ?final rows r" using r unfolding s(1) cpac_correct_def by auto
    then obtain t where t: "t \<in> set ?final" "me_key t = me_key r" "\<not> (\<exists>h\<in>set rows. me_ts h \<noteq> me_ts r \<and> human_cover now r h)"
      by (auto simp: stale_event_def)
    have "r \<in> set rows" using r1 unfolding s(1) cpac_correct_def by simp
    then have "\<not> (\<exists>h\<in>set rows. human_cover now r h)"
      using t(3) r(4) unique_row [OF assms(2), of r] by (metis human_cover_def me_key_def)
    then have "t \<in> set ?un" using t(1) cover_by_key [OF t(2), of now] by (auto simp: uncovered_def)
    then show ?thesis using False t(2) by (metis image_eqI)
  qed
qed

lemma pass_not_stale:
  assumes "filter human_touched rows' = filter human_touched rows" "f \<in> set (uncovered now rows final)" "me_key r = me_key f" "same_times r f"
  shows "\<not> stale_event now final rows' r"
proof -
  have "\<not> (\<exists>h\<in>set rows. me_ts h \<noteq> me_ts r \<and> human_cover now r h)"
    using assms(2) cover_by_key [OF assms(3), of now] by (auto simp: uncovered_def)
  then have "\<not> (\<exists>h\<in>set rows'. me_ts h \<noteq> me_ts r \<and> human_cover now r h)" using same_humans [OF assms(1), of "\<lambda>h. me_ts h \<noteq> me_ts r"] by blast
  moreover have "f \<in> set final" using assms(2) by (simp add: uncovered_def)
  ultimately show ?thesis using assms(3,4) by (auto simp: stale_event_def same_times_def)
qed

text \<open>
  C10: If the derivation has one row per key, then after a pass the derived rows of the last day and of the
  detector's enterprises are exactly the derivation's rows outside the spans and keys of operators, with its
  ends, statuses and durations; and the pass repeated at the same instant changes nothing.
\<close>

theorem cpac_table_is_derivation:
  assumes "keys_unique rows" "distinct (map me_key (cpac_final cfg db now))"
  shows "\<exists>rows'. run_cpac cfg now db rows = Some rows'
    \<and> (\<forall>f\<in>set (uncovered now rows (cpac_final cfg db now)). \<exists>r\<in>set rows'. me_key r = me_key f \<and> (human_touched r \<or> same_times r f))
    \<and> (\<forall>r\<in>set rows'. now - days 1 < me_ts r \<and> me_enterprise r \<in> set (sg_enterprises cfg) \<and> \<not> human_touched r
        \<longrightarrow> (\<exists>f\<in>set (uncovered now rows (cpac_final cfg db now)). me_key r = me_key f \<and> same_times r f))
    \<and> run_cpac cfg now db rows' = Some rows'"
proof -
  let ?final = "cpac_final cfg db now"
  obtain rows' where run: "run_cpac cfg now db rows = Some rows'" using run_cpac_commits [OF assms] by blast
  obtain rows2 where s: "rows' = cpac_close now ?final rows2" "keys_unique rows2" "keys_unique rows'"
      "filter human_touched rows' = filter human_touched rows"
    using run_cpac_steps [OF run assms(1)] by metis
  note present = pass_present [OF run assms] and derived = pass_derived [OF run assms]
  have "cpac_correct (sg_enterprises cfg) now ?final rows' = rows'"
    unfolding cpac_correct_def filter_id_conv using derived pass_not_stale [OF s(4)] by blast
  moreover have "upsert_all (uncovered now rows' ?final) ({}, rows') = Some ({}, rows')"
    using upsert_noop [OF s(3)] present uncovered_humans [OF s(4)] by simp
  moreover have "cpac_close now ?final rows' = rows'" using close_twice [OF s(2)] s(1) by simp
  ultimately have "run_cpac cfg now db rows' = Some rows'" by (simp add: run_cpac_def cpac_upsert_def)
  then show ?thesis using run present derived by blast
qed

theorem cpac_table_is_derivation_witness:
  "\<exists>rows'. run_cpac quiet_cfg (secs 720) outage_db [] = Some rows' \<and> rows' \<noteq> [] \<and> run_cpac quiet_cfg (secs 720) outage_db rows' = Some rows'"
proof -
  have d: "distinct (map me_key (cpac_final quiet_cfg outage_db (secs 720)))" unfolding quiet_final by (simp add: secs_def)
  have u: "keys_unique []" by (simp add: keys_unique_def)
  have "uncovered (secs 720) [] (cpac_final quiet_cfg outage_db (secs 720)) \<noteq> []" by (simp add: uncovered_def quiet_final)
  with cpac_table_is_derivation [OF u d] show ?thesis by (metis list.set_intros(1) list.exhaust empty_iff empty_set)
qed

section \<open>A stop is silence\<close>

definition produced :: "stop_cfg \<Rightarrow> stop_db \<Rightarrow> scope_row \<Rightarrow> int \<Rightarrow> bool" where
  "produced cfg db s t \<longleftrightarrow> (\<exists>m\<in>set (sd_minutes db). mr_equipment m = sr_src s \<and> productive cfg db s m \<and> mr_ts m = t)"

text \<open>The look-back and the constant bound leave no gap.\<close>

definition lookback_fits :: "scope_row \<Rightarrow> bool" where
  "lookback_fits s \<longleftrightarrow> 0 < sr_threshold s \<and> sr_threshold s + 60 + 25 * 3600 \<le> 2 * 24 * 3600"

lemma count_instants_set: "lookback_fits s \<Longrightarrow> t \<in> set (count_instants cfg db now s) \<longleftrightarrow>
    produced cfg db s t \<and> now - hours 25 - secs (sr_threshold s + 60) < t"
  by (auto simp: count_instants_def produced_def lookback_fits_def hours_def days_def secs_def)

lemma session_arms_set: "(t, st) \<in> set (session_arms g now [] ss) \<longleftrightarrow>
    (st = 6 \<and> (\<exists>l. (t, l) \<in> set ss)) \<or> (st = 10 \<and> t < now \<and> (\<exists>s. (s, t - g) \<in> set ss))"
  by (force simp: session_arms_def in_nodata_def split: if_splits)

lemma session_arms_sorted:
  assumes "apart g ss" "0 < g" "\<forall>(s, l)\<in>set ss. s \<le> l"
  shows "sorted_wrt (<) (map fst (session_arms g now [] ss))"
  using assms(1,3)
proof (induction ss)
  case (Cons p ss)
  obtain s l where p: "p = (s, l)" by (cases p)
  have "l + g < fst q" if q: "q \<in> set (session_arms g now [] ss)" for q
  proof -
    obtain t st where "q = (t, st)" by (cases q)
    with q session_arms_set [of t st g now ss] Cons.prems p assms(2) show ?thesis by (fastforce simp: apart_def)
  qed
  moreover have "session_arms g now [] (p # ss) = (s, 6) # (if l + g < now then [(l + g, 10)] else []) @ session_arms g now [] ss"
    by (simp add: session_arms_def p in_nodata_def)
  moreover have "s \<le> l" using Cons.prems p by simp
  ultimately show ?case using Cons assms(2) by (fastforce simp: apart_def sorted_wrt_append p)
qed (simp add: session_arms_def)

lemma chain_next:
  assumes "r \<in> set (chain_events fc now ent eq L)" "sorted_wrt (<) (map fst L)"
  shows "(case me_end r of None \<Rightarrow> \<forall>(t, st)\<in>set L. t \<le> me_ts r
    | Some e \<Rightarrow> me_ts r < e \<and> (\<exists>st. (e, st) \<in> set L) \<and> (\<forall>(t, st)\<in>set L. me_ts r < t \<longrightarrow> e \<le> t))"
  using assms
proof (induction fc now ent eq L rule: chain_events.induct)
  case (2 fc now ent eq t s rest)
  show ?case
  proof (cases "r \<in> set (chain_events fc now ent eq rest)")
    case True
    have "t < me_ts r" using chain_derived [OF True] 2(3) by force
    with 2(1) [OF True] 2(3) show ?thesis by (fastforce split: option.splits)
  next
    case False
    then have r: "r = minted fc now ent eq t (case rest of [] \<Rightarrow> None | (t', s') # _ \<Rightarrow> Some t') s" using 2(2) by simp
    then show ?thesis using 2(3) by (cases rest) fastforce+
  qed
qed simp

lemma sort_sorted: "sorted_wrt (<) (map fst L) \<Longrightarrow> sort_key fst L = (L :: (int \<times> int) list)"
  by (intro sort_key_id_if_sorted sorted_wrt_mono_rel [of "map fst L" "(<)" "(\<le>)"]) simp_all

text \<open>The transitions of sorted instants, and what the row of a transition says of them.\<close>

lemma arms_of_instants:
  assumes "sorted ts" "0 < g" "ss = sessions g ts" "L = filter (\<lambda>(t, st). W \<le> t) (session_arms g now [] ss)"
  shows "sorted_wrt (<) (map fst L)"
    and "(a, l) \<in> set ss \<Longrightarrow> a \<in> set ts \<and> l \<in> set ts \<and> a \<le> l"
    and "(a, l) \<in> set ss \<Longrightarrow> (a', l') \<in> set ss \<Longrightarrow> (a, l) = (a', l') \<or> l + g < a' \<or> l' + g < a"
    and "(t, st) \<in> set L \<longleftrightarrow> W \<le> t \<and> ((st = 6 \<and> (\<exists>l. (t, l) \<in> set ss)) \<or> (st = 10 \<and> t < now \<and> (\<exists>a. (a, t - g) \<in> set ss)))"
proof -
  have ap: "apart g ss" using sessions_apart [OF assms(1)] assms(2,3) by simp
  have mem: "(a, l) \<in> set ss \<Longrightarrow> a \<in> set ts \<and> l \<in> set ts \<and> a \<le> l" for a l using sessions_members assms(1,3) by simp
  then show "(a, l) \<in> set ss \<Longrightarrow> a \<in> set ts \<and> l \<in> set ts \<and> a \<le> l" .
  have "sorted_wrt (<) (map fst (session_arms g now [] ss))" using session_arms_sorted [OF ap assms(2)] mem by blast
  then show "sorted_wrt (<) (map fst L)" unfolding assms(4) by (simp add: sorted_wrt_map sorted_wrt_filter)
  show "(a, l) \<in> set ss \<Longrightarrow> (a', l') \<in> set ss \<Longrightarrow> (a, l) = (a', l') \<or> l + g < a' \<or> l' + g < a"
    using apart_separated [OF ap, of "(a, l)" "(a', l')"] by simp
  show "(t, st) \<in> set L \<longleftrightarrow> W \<le> t \<and> ((st = 6 \<and> (\<exists>l. (t, l) \<in> set ss)) \<or> (st = 10 \<and> t < now \<and> (\<exists>a. (a, t - g) \<in> set ss)))"
    using session_arms_set [of t st g now ss] by (auto simp: assms(4))
qed

lemma running_row:
  assumes "sorted ts" "0 < g" "ss = sessions g ts" "L = filter (\<lambda>(t, st). W \<le> t) (session_arms g now [] ss)"
    and "r \<in> set (chain_events fc now ent eq L)" "me_status r = 6" "\<forall>u\<in>set ts. u \<le> now"
  shows "\<exists>l. (me_ts r, l) \<in> set ss \<and> (\<forall>e. me_end r = Some e \<longrightarrow> e = l + g)"
proof -
  note arms = arms_of_instants [OF assms(1-4)]
  note nx = chain_next [OF assms(5) arms(1)]
  have "(me_ts r, me_status r) \<in> set L" using chain_derived [OF assms(5)] by blast
  with assms(6) obtain l where l: "(me_ts r, l) \<in> set ss" and W: "W \<le> me_ts r" unfolding arms(4) by auto
  have "e = l + g" if e: "me_end r = Some e" for e
  proof (rule ccontr)
    assume ne: "e \<noteq> l + g"
    from nx e obtain st' where n: "me_ts r < e" "(e, st') \<in> set L" "\<forall>(t, st)\<in>set L. me_ts r < t \<longrightarrow> e \<le> t" by auto
    have "l + g < e \<and> l + g < now"
      using n(2) unfolding arms(4)
    proof (elim conjE disjE exE)
      fix l' assume "(e, l') \<in> set ss"
      then show ?thesis using arms(3) [OF l, of e l'] arms(2) [of e l'] assms(2,7) n(1) by auto
    next
      fix a assume "e < now" "(a, e - g) \<in> set ss"
      then show ?thesis using arms(3) [OF l, of a "e - g"] arms(2) [of a "e - g"] n(1) ne assms(2) by auto
    qed
    moreover have "me_ts r < l + g" using arms(2) [OF l] assms(2) by simp
    moreover have "(l + g, 10) \<in> set L" using calculation W l unfolding arms(4) by auto
    ultimately show False using n(3) by auto
  qed
  with l show ?thesis by blast
qed

lemma stopped_row:
  assumes "sorted ts" "0 < g" "ss = sessions g ts" "L = filter (\<lambda>(t, st). W \<le> t) (session_arms g now [] ss)"
    and "r \<in> set (chain_events fc now ent eq L)" "me_status r = 10"
  shows "me_ts r - g \<in> set ts \<and> (\<forall>t\<in>set ts. me_ts r - g < t \<longrightarrow> (\<exists>e. me_end r = Some e \<and> e \<le> t))
    \<and> (\<forall>e. me_end r = Some e \<longrightarrow> e \<in> set ts)"
proof -
  note arms = arms_of_instants [OF assms(1-4)]
  note nx = chain_next [OF assms(5) arms(1)]
  have "(me_ts r, me_status r) \<in> set L" using chain_derived [OF assms(5)] by blast
  with assms(6) obtain a where l: "(a, me_ts r - g) \<in> set ss" and W: "W \<le> me_ts r" unfolding arms(4) by auto
  have "\<exists>e. me_end r = Some e \<and> e \<le> t" if t: "t \<in> set ts" "me_ts r - g < t" for t
  proof -
    obtain a' l' where c: "(a', l') \<in> set ss" "a' \<le> t" "t \<le> l'" using t(1) sessions_cover assms(1) unfolding assms(3) by blast
    have "me_ts r < a'" using arms(3) [OF l c(1)] c t(2) arms(2) [OF l] assms(2) by auto
    moreover have "(a', 6) \<in> set L" using calculation W c(1) unfolding arms(4) by auto
    ultimately show ?thesis using nx c(2) by (fastforce split: option.splits)
  qed
  moreover have "e \<in> set ts" if e: "me_end r = Some e" for e
  proof -
    from nx e obtain st' where n: "me_ts r < e" "(e, st') \<in> set L" "\<forall>(t, st)\<in>set L. me_ts r < t \<longrightarrow> e \<le> t" by auto
    from n(2) show ?thesis unfolding arms(4)
    proof (elim conjE disjE exE)
      fix l' assume "(e, l') \<in> set ss"
      then show ?thesis using arms(2) by blast
    next
      fix a' assume a': "(a', e - g) \<in> set ss"
      have "me_ts r < a'" "a' < e" using arms(3) [OF l a'] arms(2) [OF a'] arms(2) [OF l] n(1) assms(2) by auto
      moreover have "(a', 6) \<in> set L" using calculation W a' unfolding arms(4) by auto
      ultimately show ?thesis using n(3) by auto
    qed
  qed
  ultimately show ?thesis using arms(2) [OF l] by blast
qed

text \<open>The rows of one equipment are the chain of its transitions.\<close>

lemma row_of_scope:
  assumes "r \<in> set (cpac_final cfg db now)" "s \<in> set (scope_of cfg db)" "me_equipment r = sr_id s"
    and "\<not> sg_link_health cfg" "distinct (map sr_id (scope_of cfg db))" "lookback_fits s"
  shows "r \<in> set (chain_events (Some False) now (sr_enterprise s) (sr_id s) (filter (\<lambda>(t, st). window_start now \<le> t)
    (session_arms (secs (sr_threshold s)) now [] (sessions (secs (sr_threshold s)) (count_instants cfg db now s)))))"
proof -
  let ?g = "secs (sr_threshold s)" and ?W = "window_start now"
  let ?L = "filter (\<lambda>(t, st). ?W \<le> t) (session_arms ?g now [] (sessions ?g (count_instants cfg db now s)))"
  from assms(1) obtain s0 where s0: "s0 \<in> set (scope_of cfg db)"
    "r \<in> set (chain_events (Some False) now (sr_enterprise s0) (sr_id s0) (sort_key fst (filter (\<lambda>(t, st). ?W \<le> t) (stop_transitions cfg db now s0))))"
    by (auto simp: cpac_final_def)
  have "s0 = s" using chain_derived [OF s0(2)] assms(2,3,5) s0(1) by (metis distinct_map inj_on_eq_iff)
  moreover have "filter (\<lambda>(t, st). ?W \<le> t) (stop_transitions cfg db now s) = ?L"
    using assms(4) by (simp add: stop_transitions_def nodata_islands_def link_arms_def Let_def)
  moreover have "0 < ?g" using assms(6) by (simp add: lookback_fits_def secs_def)
  then have "sort_key fst ?L = ?L" by (intro sort_sorted arms_of_instants(1) [OF _ _ refl refl]) (simp_all add: count_instants_def)
  ultimately show ?thesis using s0(2) by simp
qed

text \<open>
  C11: Without link reports, an equipment's transitions tell silence from production: a RUNNING row starts at
  a productive minute with none in the threshold before it, and ends the threshold after its last
  one; a STOPPED row starts the threshold after a productive minute, contains none, and ends at one.
\<close>

theorem stops_are_silence:
  assumes "r \<in> set (cpac_final cfg db now)" "s \<in> set (scope_of cfg db)" "me_equipment r = sr_id s"
    and "\<not> sg_link_health cfg" "distinct (map sr_id (scope_of cfg db))" "lookback_fits s" "\<forall>m\<in>set (sd_minutes db). mr_ts m \<le> now"
  shows "me_status r \<in> {6, 10}
    \<and> (me_status r = 6 \<longrightarrow> produced cfg db s (me_ts r)
        \<and> (\<forall>t. produced cfg db s t \<longrightarrow> \<not> (me_ts r - secs (sr_threshold s) \<le> t \<and> t < me_ts r))
        \<and> (\<forall>e. me_end r = Some e \<longrightarrow> me_ts r \<le> e - secs (sr_threshold s) \<and> produced cfg db s (e - secs (sr_threshold s))
             \<and> (\<forall>t. produced cfg db s t \<longrightarrow> \<not> (e - secs (sr_threshold s) < t \<and> t \<le> e))))
    \<and> (me_status r = 10 \<longrightarrow> produced cfg db s (me_ts r - secs (sr_threshold s))
        \<and> (\<forall>t. produced cfg db s t \<and> me_ts r - secs (sr_threshold s) < t \<longrightarrow> (\<exists>e. me_end r = Some e \<and> e \<le> t))
        \<and> (\<forall>e. me_end r = Some e \<longrightarrow> produced cfg db s e))"
proof -
  let ?g = "secs (sr_threshold s)"
  define ts where "ts = count_instants cfg db now s"
  define ss where "ss = sessions ?g ts"
  define L where "L = filter (\<lambda>(t, st). window_start now \<le> t) (session_arms ?g now [] ss)"
  have g: "0 < ?g" using assms(6) by (simp add: lookback_fits_def secs_def)
  have ts: "sorted ts" "t \<in> set ts \<longleftrightarrow> produced cfg db s t \<and> now - hours 25 - secs (sr_threshold s + 60) < t" for t
    using count_instants_set [OF assms(6)] by (simp_all add: ts_def count_instants_def)
  note arms = arms_of_instants [OF ts(1) g ss_def L_def]
  have silent: "(a, l) \<in> set ss \<Longrightarrow> t \<in> set ts \<Longrightarrow> \<not> (l < t \<and> t \<le> l + ?g) \<and> \<not> (a - ?g \<le> t \<and> t < a)" for a l t
    using sessions_silence [OF ts(1) _, of ?g a l t] g by (simp add: ss_def)
  have r: "r \<in> set (chain_events (Some False) now (sr_enterprise s) (sr_id s) L)"
    using row_of_scope [OF assms(1-6)] by (simp add: L_def ss_def ts_def)
  have "(me_ts r, me_status r) \<in> set L" using chain_derived [OF r] by blast
  then have st: "me_status r \<in> {6, 10}" and W: "window_start now \<le> me_ts r" unfolding arms(4) by auto
  have late: "u \<in> set ts" if "produced cfg db s u" "window_start now - ?g \<le> u" for u
    using that ts(2) by (simp add: window_start_def secs_def)
  have after: "u \<in> set ts" if "produced cfg db s u" "v \<in> set ts" "v < u" for u v using that ts(2) by auto
  have past: "\<forall>u\<in>set ts. u \<le> now" using assms(7) ts(2) by (auto simp: produced_def)
  show ?thesis
  proof (cases "me_status r = 6")
    case True
    obtain l where l: "(me_ts r, l) \<in> set ss" "\<forall>e. me_end r = Some e \<longrightarrow> e = l + ?g"
      using running_row [OF ts(1) g ss_def L_def r True past] by blast
    have "\<not> (me_ts r - ?g \<le> t \<and> t < me_ts r)" if "produced cfg db s t" for t using silent [OF l(1), of t] late [OF that] W by auto
    moreover have "\<not> (l < t \<and> t \<le> l + ?g)" if "produced cfg db s t" for t
      using silent [OF l(1), of t] after [OF that, of l] arms(2) [OF l(1)] by auto
    ultimately show ?thesis using True l(2) arms(2) [OF l(1)] ts(2) by auto
  next
    case False
    then have ten: "me_status r = 10" using st by simp
    note stop = stopped_row [OF ts(1) g ss_def L_def r ten]
    have "\<exists>e. me_end r = Some e \<and> e \<le> t" if "produced cfg db s t" "me_ts r - ?g < t" for t
      using stop after [OF that(1), of "me_ts r - ?g"] that(2) by blast
    then show ?thesis using ten stop ts(2) by auto
  qed
qed

theorem stops_are_silence_witness:
  "\<exists>r\<in>set (cpac_final quiet_cfg outage_db (secs 720)). me_status r = 10 \<and> me_end r = None \<and> produced quiet_cfg outage_db outage_scope (me_ts r - secs 300)"
proof -
  let ?r = "minted (Some False) (secs 720) 5 10 (secs 300) None 10"
  have r: "?r \<in> set (cpac_final quiet_cfg outage_db (secs 720))" by (simp add: quiet_final)
  have s: "outage_scope \<in> set (scope_of quiet_cfg outage_db)" "distinct (map sr_id (scope_of quiet_cfg outage_db))" by (simp_all add: quiet_scope)
  have h: "me_equipment ?r = sr_id outage_scope" "\<not> sg_link_health quiet_cfg" "lookback_fits outage_scope"
      "\<forall>m\<in>set (sd_minutes outage_db). mr_ts m \<le> secs 720" "sr_threshold outage_scope = 300"
    by (simp_all add: outage_scope_def quiet_cfg_def lookback_fits_def outage_db_def secs_def)
  have "produced quiet_cfg outage_db outage_scope (me_ts ?r - secs 300)"
    using stops_are_silence [OF r s(1) h(1,2) s(2) h(3,4)] h(5) by simp
  with r show ?thesis by (intro bexI [of _ ?r]) simp_all
qed

end
