(* ===== verification/StopLink.thy ===== *)
theory StopLink
  imports StopProps "HOL-Library.Multiset"
begin

text \<open>
  The stop detector's keys. Without link reports the derivation has one row per key, so a pass
  commits. With them an equipment that two silent endpoints feed gets its NO DATA row twice, and
  the pass is refused. And the correct pass reaches rows the detector does not own.
\<close>

section \<open>One row per key\<close>

lemma distinct_concat_keys:
  assumes "distinct (map g xs)" "\<And>x. x \<in> set xs \<Longrightarrow> distinct (F x)" "\<And>x y. x \<in> set xs \<Longrightarrow> y \<in> set (F x) \<Longrightarrow> fst y = g x"
  shows "distinct (concat (map F xs))"
  using assms by (induction xs) (force simp: rev_image_eqI)+

lemma final_keys:
  "map me_key (cpac_final cfg db now) = concat (map (\<lambda>s. map (Pair (sr_id s))
     (map fst (sort_key fst (filter (\<lambda>(t, st). window_start now \<le> t) (stop_transitions cfg db now s))))) (scope_of cfg db))"
  by (simp add: cpac_final_def map_concat comp_def chain_keys)

lemma final_keys_distinct:
  assumes "\<not> sg_link_health cfg" "distinct (map sr_id (scope_of cfg db))" "\<forall>s\<in>set (scope_of cfg db). 0 < sr_threshold s"
  shows "distinct (map me_key (cpac_final cfg db now))"
proof -
  have "distinct (map fst (sort_key fst (filter (\<lambda>(t, st). window_start now \<le> t) (stop_transitions cfg db now s))))"
    if s: "s \<in> set (scope_of cfg db)" for s
  proof -
    let ?g = "secs (sr_threshold s)" and ?ts = "count_instants cfg db now s"
    have g: "0 < ?g" using s assms(3) by (simp add: secs_def)
    have ts: "sorted ?ts" by (simp add: count_instants_def)
    have "sorted_wrt (<) (map fst (session_arms ?g now [] (sessions ?g ?ts)))"
      using session_arms_sorted [OF sessions_apart [OF ts] g] g sessions_members ts by (metis (no_types, lifting) case_prodI2 less_imp_le)
    then have "sorted_wrt (<) (map fst (filter (\<lambda>(t, st). window_start now \<le> t) (stop_transitions cfg db now s)))"
      using assms(1) by (simp add: stop_transitions_def nodata_islands_def link_arms_def Let_def sorted_wrt_map sorted_wrt_filter)
    then show ?thesis using sort_sorted strict_sorted_iff by metis
  qed
  then show ?thesis unfolding final_keys by (intro distinct_concat_keys [OF assms(2)]) (auto simp: distinct_map inj_on_def)
qed

section \<open>Two endpoints, one equipment\<close>

lemma redate_keys: "me_key ` set (map (\<lambda>r. if me_key r = k then redate f r else r) rows) = me_key ` set rows"
  unfolding set_map image_image by (rule image_cong) auto

lemma upsert_one_grows:
  assumes "upsert_one f (touched, rows) = Some (t1, rows1)"
  shows "touched \<subseteq> t1 \<and> me_key ` set rows1 = insert (me_key f) (me_key ` set rows)
    \<and> (me_key f \<in> me_key ` set rows \<longrightarrow> me_key f \<notin> touched) \<and> (me_key f \<notin> me_key ` set rows \<longrightarrow> me_key f \<in> t1)"
proof (cases "List.find (\<lambda>r. me_key r = me_key f) rows")
  case None
  then show ?thesis using assms find_key_none [of "me_key f" rows] by (auto simp: upsert_one_def)
next
  case (Some q)
  then have "me_key f \<in> me_key ` set rows" using find_key_some [OF Some] by (metis image_eqI)
  moreover have "me_key f \<notin> touched" "touched \<subseteq> t1" using assms Some by (auto simp: upsert_one_def split: if_splits)
  moreover have "me_key ` set rows1 = me_key ` set rows"
    using assms Some redate_keys [of "me_key f" f rows] by (auto simp: upsert_one_def split: if_splits)
  ultimately show ?thesis by (simp add: insert_absorb)
qed

lemma upsert_touched:
  "k \<in> touched \<Longrightarrow> k \<in> me_key ` set rows \<Longrightarrow> k \<in> me_key ` set fs \<Longrightarrow> upsert_all fs (touched, rows) = None"
proof (induction fs arbitrary: touched rows)
  case (Cons f fs)
  show ?case
  proof (cases "upsert_one f (touched, rows)")
    case (Some st)
    obtain t1 rows1 where st: "st = (t1, rows1)" by (cases st)
    note grows = upsert_one_grows [OF Some [unfolded st]]
    have "k \<noteq> me_key f" using grows Cons.prems(1,2) by metis
    moreover have "k \<in> t1" "k \<in> me_key ` set rows1" using grows Cons.prems(1,2) by (blast, simp)
    ultimately have "upsert_all fs (t1, rows1) = None" using Cons.IH [of t1 rows1] Cons.prems(3) by simp
    then show ?thesis using Some st by simp
  qed simp
qed simp

lemma upsert_twice:
  "k \<notin> me_key ` set rows \<Longrightarrow> 2 \<le> length (filter (\<lambda>f. me_key f = k) fs) \<Longrightarrow> upsert_all fs (touched, rows) = None"
proof (induction fs arbitrary: touched rows)
  case (Cons f fs)
  show ?case
  proof (cases "upsert_one f (touched, rows)")
    case (Some st)
    obtain t1 rows1 where st: "st = (t1, rows1)" by (cases st)
    note grows = upsert_one_grows [OF Some [unfolded st]]
    have "upsert_all fs (t1, rows1) = None"
    proof (cases "me_key f = k")
      case True
      then have "filter (\<lambda>f. me_key f = k) fs \<noteq> []" using Cons.prems(2) by auto
      then have "k \<in> me_key ` set fs" by (auto simp: filter_empty_conv)
      then show ?thesis using upsert_touched [of k t1 rows1 fs] grows True Cons.prems(1) by simp
    next
      case False
      then show ?thesis using Cons.IH [of rows1 t1] Cons.prems grows by simp
    qed
    then show ?thesis using Some st by simp
  qed simp
qed simp

text \<open>Two endpoints of one equipment whose undecided minutes coincide give each island twice.\<close>

lemma twice_in_two_endpoints:
  assumes "e1 \<in> set eps" "e2 \<in> set eps" "e1 \<noteq> e2" "x \<in> set (F e1)" "x \<in> set (F e2)"
  shows "2 \<le> length (filter ((=) x) (concat (map F eps)))"
proof -
  have pos: "0 < length (filter ((=) x) (F e))" if "x \<in> set (F e)" for e using that by (auto simp: filter_empty_conv)
  have "length (filter ((=) x) (F e1)) + length (filter ((=) x) (F e2)) \<le> length (filter ((=) x) (concat (map F eps)))"
    using assms(1-3)
  proof (induction eps)
    case (Cons e eps)
    have one: "length (filter ((=) x) (F e')) \<le> length (filter ((=) x) (concat (map F eps)))" if "e' \<in> set eps" for e'
      using that by (induction eps) auto
    from Cons show ?case using one [of e1] one [of e2] by (cases "e1 = e"; cases "e2 = e") auto
  qed simp
  then show ?thesis using pos [OF assms(4)] pos [OF assms(5)] by linarith
qed

lemma filter_sort_length: "length (filter P (sort_key f xs)) = length (filter P xs)"
  by (metis mset_filter mset_sort size_mset)

lemma filter_map_ge: "(\<And>x. x \<in> set xs \<Longrightarrow> P x \<Longrightarrow> Q (h x)) \<Longrightarrow> length (filter P xs) \<le> length (filter Q (map h xs))"
  by (induction xs) auto

text \<open>An island of two endpoints is an island twice; an instant twice in the transitions is a key twice in the derivation.\<close>

lemma island_count:
  assumes "sg_link_health cfg" "secs (sr_threshold s) \<le> b + secs 60 - a"
  shows "length (filter ((=) (a, b)) (concat (map (\<lambda>ep. sessions (secs 60) (nodata_minutes db now (sr_enterprise s) ep)) (endpoints_of cfg db now s))))
    \<le> length (filter (\<lambda>(x, y). x = a) (nodata_islands cfg db now s))"
proof -
  let ?sess = "\<lambda>ep. sessions (secs 60) (nodata_minutes db now (sr_enterprise s) ep)" and ?eps = "endpoints_of cfg db now s"
  let ?long = "\<lambda>(nd_start, nd_last). secs (sr_threshold s) \<le> nd_last - (nd_start :: int)"
  let ?edge = "\<lambda>(nd_start, nd_last). (nd_start :: int, if trunc_minute now - secs 120 \<le> nd_last then None else Some nd_last)"
  have "length (filter ((=) (a, b)) (concat (map ?sess ?eps)))
      \<le> length (filter (\<lambda>p. p = (a, b + secs 60)) (map (\<lambda>(a, b). (a, b + secs 60)) (concat (map ?sess ?eps))))"
    by (rule filter_map_ge) auto
  also have "\<dots> = length (filter (\<lambda>p. p = (a, b + secs 60)) (filter ?long (map (\<lambda>(a, b). (a, b + secs 60)) (concat (map ?sess ?eps)))))"
    unfolding filter_filter using assms(2) by (intro arg_cong [of _ _ length] filter_cong) auto
  also have "\<dots> \<le> length (filter (\<lambda>(x, y). x = a) (map ?edge (filter ?long (map (\<lambda>(a, b). (a, b + secs 60)) (concat (map ?sess ?eps))))))"
    by (rule filter_map_ge) auto
  finally show ?thesis using assms(1) by (simp add: nodata_islands_def)
qed

lemma transition_count:
  assumes "s \<in> set (scope_of cfg db)" "window_start now \<le> a"
  shows "length (filter (\<lambda>(t, st). t = a) (stop_transitions cfg db now s)) \<le> length (filter (\<lambda>f. me_key f = (sr_id s, a)) (cpac_final cfg db now))"
proof -
  let ?trans = "stop_transitions cfg db now s" and ?k = "(sr_id s, a)"
  have one: "length (filter (\<lambda>(t, st). t = a) L) = length (filter (\<lambda>k. k = ?k) (map (Pair (sr_id s)) (map fst L)))" for L :: "(int \<times> int) list"
    by (induction L) auto
  have part: "x \<in> set xs \<Longrightarrow> length (filter Q (F x)) \<le> length (filter Q (concat (map F xs)))" for Q x and xs :: "scope_row list" and F :: "scope_row \<Rightarrow> (int \<times> int) list"
    by (induction xs) auto
  have "length (filter (\<lambda>(t, st). t = a) ?trans) = length (filter (\<lambda>(t, st). t = a) (filter (\<lambda>(t, st). window_start now \<le> t) ?trans))"
    unfolding filter_filter using assms(2) by (intro arg_cong [of _ _ length] filter_cong) auto
  also have "\<dots> = length (filter (\<lambda>(t, st). t = a) (sort_key fst (filter (\<lambda>(t, st). window_start now \<le> t) ?trans)))"
    by (simp add: filter_sort_length)
  also have "\<dots> \<le> length (filter (\<lambda>k. k = ?k) (map me_key (cpac_final cfg db now)))"
    unfolding final_keys one
    by (rule part [where F = "\<lambda>s. map (Pair (sr_id s)) (map fst (sort_key fst (filter (\<lambda>(t, st). window_start now \<le> t) (stop_transitions cfg db now s))))", OF assms(1)])
  also have "\<dots> = length (filter (\<lambda>f. me_key f = ?k) (cpac_final cfg db now))" by (simp add: filter_map comp_def)
  finally show ?thesis .
qed

text \<open>
  C39: If two reader endpoints feed one equipment and both fall silent for the same minutes, the derivation proposes
  its NO DATA row twice, and the whole pass is refused: no equipment's events are derived while
  the outage is in the window.
\<close>

theorem shared_outage_aborts_pass:
  assumes "s \<in> set (scope_of cfg db)" "sg_link_health cfg"
    and "e1 \<in> set (endpoints_of cfg db now s)" "e2 \<in> set (endpoints_of cfg db now s)" "e1 \<noteq> e2"
    and "(a, b) \<in> set (sessions (secs 60) (nodata_minutes db now (sr_enterprise s) e1))"
        "(a, b) \<in> set (sessions (secs 60) (nodata_minutes db now (sr_enterprise s) e2))"
    and "secs (sr_threshold s) \<le> b + secs 60 - a" "window_start now \<le> a"
    and "(sr_id s, a) \<notin> me_key ` set rows"
        "\<forall>h\<in>set rows. human_touched h \<and> me_equipment h = sr_id s \<longrightarrow> a < me_ts h \<or> (\<exists>e. me_end h = Some e \<and> e \<le> a)"
  shows "run_cpac cfg now db rows = None"
proof -
  let ?final = "cpac_final cfg db now" and ?rows1 = "cpac_correct (sg_enterprises cfg) now (cpac_final cfg db now) rows"
  let ?k = "(sr_id s, a)"
  have "2 \<le> length (filter ((=) (a, b)) (concat (map (\<lambda>ep. sessions (secs 60) (nodata_minutes db now (sr_enterprise s) ep)) (endpoints_of cfg db now s))))"
    by (rule twice_in_two_endpoints [OF assms(3-7)])
  also note island_count [OF assms(2,8)]
  also have "length (filter (\<lambda>(x, y). x = a) (nodata_islands cfg db now s))
      \<le> length (filter (\<lambda>(t, st). t = a) (map (\<lambda>(a, b). (a, 20::int)) (nodata_islands cfg db now s)))"
    by (rule filter_map_ge) auto
  also have "\<dots> \<le> length (filter (\<lambda>(t, st). t = a) (stop_transitions cfg db now s))"
    by (simp add: stop_transitions_def link_arms_def Let_def)
  also note transition_count [OF assms(1,9)]
  also have "length (filter (\<lambda>f. me_key f = ?k) ?final) = length (filter (\<lambda>f. me_key f = ?k) (uncovered now ?rows1 ?final))"
  proof -
    have "\<not> (\<exists>h\<in>set ?rows1. human_cover now f h)" if "me_key f = ?k" for f
      using assms(9,11) that by (auto simp: human_cover_def me_key_def cpac_correct_def window_start_def)
    then show ?thesis unfolding uncovered_def filter_filter by (intro arg_cong [of _ _ length] filter_cong) auto
  qed
  finally have "2 \<le> length (filter (\<lambda>f. me_key f = ?k) (uncovered now ?rows1 ?final))" .
  moreover have "?k \<notin> me_key ` set ?rows1" using assms(10) by (auto simp: cpac_correct_def)
  ultimately show ?thesis using upsert_twice [of ?k ?rows1] by (simp add: run_cpac_def cpac_upsert_def)
qed

lemma outage_islands:
  "nodata_minutes outage_db (secs 720) 5 ''A'' = map (\<lambda>k. secs 60 * k) [1,2,3,4,5,6,7,8,9]"
  "nodata_minutes outage_db (secs 720) 5 ''B'' = map (\<lambda>k. secs 60 * k) [1,2,3,4,5,6,7,8,9]"
  by code_simp+

theorem shared_outage_aborts_pass_witness: "run_cpac outage_cfg (secs 720) outage_db [] = None"
proof (rule shared_outage_aborts_pass [of outage_scope _ _ "''A''" _ "''B''" "secs 60" "secs 540"])
  have e: "sr_enterprise outage_scope = 5" by (simp add: outage_scope_def)
  show "outage_scope \<in> set (scope_of outage_cfg outage_db)" by code_simp
  show "''A'' \<in> set (endpoints_of outage_cfg outage_db (secs 720) outage_scope)" "''B'' \<in> set (endpoints_of outage_cfg outage_db (secs 720) outage_scope)"
    by code_simp+
  show "(secs 60, secs 540) \<in> set (sessions (secs 60) (nodata_minutes outage_db (secs 720) (sr_enterprise outage_scope) ''A''))"
    "(secs 60, secs 540) \<in> set (sessions (secs 60) (nodata_minutes outage_db (secs 720) (sr_enterprise outage_scope) ''B''))"
    unfolding e outage_islands by code_simp+
qed (simp_all add: outage_cfg_def outage_scope_def secs_def window_start_def hours_def)

section \<open>Rows of others\<close>

text \<open>
  The correct pass deletes, of the last day, every row no operator touched of an equipment outside the detector's
  scope in the same enterprise: the rows another deriver makes for it.
\<close>

theorem correct_deletes_unscoped:
  assumes "run_cpac cfg now db rows = Some rows'" "keys_unique rows" "r \<in> set rows" "\<not> human_touched r" "now - days 1 < me_ts r"
    and "me_enterprise r \<in> set (sg_enterprises cfg)" "me_equipment r \<notin> sr_id ` set (scope_of cfg db)"
  shows "me_key r \<notin> me_key ` set rows'"
proof
  let ?final = "cpac_final cfg db now"
  obtain touched rows1 rows2 where s: "rows1 = cpac_correct (sg_enterprises cfg) now ?final rows"
      "upsert_all (uncovered now rows ?final) ({}, rows1) = Some (touched, rows2)" "rows' = cpac_close now ?final rows2" "keys_unique rows1"
    using run_cpac_steps [OF assms(1,2)] by metis
  have nf: "me_key r \<notin> me_key ` set ?final"
    using assms(7) chain_derived by (fastforce simp: cpac_final_def me_key_def)
  have nu: "me_key r \<notin> me_key ` set (uncovered now rows ?final)" using nf unfolding uncovered_def by auto
  have d: "\<forall>f\<in>set (uncovered now rows ?final). \<not> human_touched f" using final_derived by (auto simp: uncovered_def)
  assume "me_key r \<in> me_key ` set rows'"
  then have "me_key r \<in> me_key ` set rows2" using s(3) by (metis close_keys set_map)
  then have "me_key r \<in> me_key ` set rows1" using upsert_all_effect [OF s(2,4) d] nu by blast
  then obtain q where q: "q \<in> set rows1" "me_key q = me_key r" by (metis imageE)
  then have "q = r" using unique_row [OF assms(2) _ assms(3)] unfolding s(1) cpac_correct_def by simp
  moreover have "stale_event now ?final rows r" using nf by (auto simp: stale_event_def rev_image_eqI)
  ultimately show False using q(1) assms(4-6) unfolding s(1) cpac_correct_def by simp
qed

theorem correct_deletes_unscoped_witness:
  "\<exists>rows'. run_cpac outage_cfg (secs 720) (outage_db\<lparr>sd_links := [], sd_equipments := [outage_equipment\<lparr>sq_status_type := 4\<rparr>]\<rparr>)
      [minted None (secs 720) 5 10 (secs 100) None 6] = Some rows' \<and> (10, secs 100) \<notin> me_key ` set rows'"
proof -
  let ?db = "outage_db\<lparr>sd_links := [], sd_equipments := [outage_equipment\<lparr>sq_status_type := 4\<rparr>]\<rparr>" and ?r = "minted None (secs 720) 5 10 (secs 100) None 6"
  have ents: "sg_enterprises outage_cfg = [5]" by (simp add: outage_cfg_def)
  have sc: "scope_of outage_cfg ?db = []" by (simp add: scope_of_def outage_equipment_def)
  then have "cpac_final outage_cfg ?db (secs 720) = []" by (simp add: cpac_final_def)
  then obtain rows' where run: "run_cpac outage_cfg (secs 720) ?db [?r] = Some rows'"
    by (simp add: run_cpac_def cpac_upsert_def uncovered_def)
  have "me_key ?r \<notin> me_key ` set rows'"
    by (rule correct_deletes_unscoped [OF run]) (simp_all add: sc ents keys_unique_def days_def hours_def secs_def)
  with run show ?thesis by simp
qed

end
