(* ===== verification/EventJobs.thy ===== *)
theory EventJobs
  imports StopDetector
begin

text \<open>
  The other two jobs on the event tables: the deriver of state transitions (events/deriver.go) for
  equipment that reports its state, and the closer of stale open events (events/closer.go). They
  read the same equipments and minutes as the stop detector.
\<close>

section \<open>The state deriver\<close>

record value_row =
  vr_ts :: int
  vr_equipment :: int
  vr_state :: "int option"

record deriver_cfg =
  dv_excluded_areas :: "int list"
  dv_excluded_enterprises :: "int list"
  dv_widerow_enterprises :: "int list"

text \<open>\<open>NOT (x = ANY(xs))\<close>: a null is not in the empty array only.\<close>

definition not_any :: "int option \<Rightarrow> int list \<Rightarrow> bool" where
  "not_any x xs \<longleftrightarrow> xs = [] \<or> (case x of None \<Rightarrow> False | Some v \<Rightarrow> v \<notin> set xs)"

definition derived_equipment :: "deriver_cfg \<Rightarrow> stop_equipment \<Rightarrow> bool" where
  "derived_equipment cfg e \<longleftrightarrow> ((sq_status_type e = 4 \<and> 0 < sq_tp e) \<or> (sq_enterprise e \<in> set (dv_widerow_enterprises cfg) \<and> sq_tp e = 1))
     \<and> not_any (sq_area e) (dv_excluded_areas cfg) \<and> not_any (Some (sq_enterprise e)) (dv_excluded_enterprises cfg)"

definition trunc_second :: "int \<Rightarrow> int" where
  "trunc_second t = t - t mod secs 1"

text \<open>
  The samples of one equipment in order, one per second: samples of one second share a group and
  its first value.
\<close>

fun one_per_second :: "(int \<times> int) list \<Rightarrow> (int \<times> int) list" where
  "one_per_second [] = []"
| "one_per_second [p] = [p]"
| "one_per_second ((t, a) # (u, b) # rest) = (if t = u then one_per_second ((t, a) # rest) else (t, a) # one_per_second ((u, b) # rest))"

definition state_stream :: "int \<Rightarrow> value_row list \<Rightarrow> int \<Rightarrow> (int \<times> int) list" where
  "state_stream now vs eq = one_per_second (sort_key fst (map (\<lambda>v. (trunc_second (vr_ts v), the (vr_state v)))
     (filter (\<lambda>v. vr_equipment v = eq \<and> now - hours 25 - secs 1 < vr_ts v \<and> now - hours 25 < trunc_second (vr_ts v) \<and> vr_state v \<noteq> None) vs)))"

fun state_changes :: "(int \<times> int) list \<Rightarrow> (int \<times> int) list" where
  "state_changes ((t, a) # (u, b) # rest) = (if b \<noteq> a then [(u, b)] else []) @ state_changes ((u, b) # rest)"
| "state_changes ps = []"

text \<open>\<open>final\<close>; samples carry the enterprise of their equipment, and so do the rows.\<close>

definition state_final :: "deriver_cfg \<Rightarrow> bool option \<Rightarrow> int \<Rightarrow> stop_equipment list \<Rightarrow> value_row list \<Rightarrow> machine_event list" where
  "state_final cfg forced now es vs = concat (map (\<lambda>e. chain_events forced now (sq_enterprise e) (sq_id e)
     (filter (\<lambda>(t, st). window_start now \<le> t) (state_changes (state_stream now vs (sq_id e))))) (filter (derived_equipment cfg) es))"

definition state_correct :: "deriver_cfg \<Rightarrow> int \<Rightarrow> stop_equipment list \<Rightarrow> machine_event list \<Rightarrow> machine_event list \<Rightarrow> machine_event list" where
  "state_correct cfg now es final rows = filter (\<lambda>r. \<not> (now - days 1 < me_ts r \<and> me_forced r = Some False
     \<and> (\<exists>e\<in>set es. sq_id e = me_equipment r \<and> derived_equipment cfg e)
     \<and> \<not> (\<exists>t\<in>set final. me_key t = me_key r \<and> me_status t = me_status r))) rows"

text \<open>A new row takes the column's default for \<open>forced_creation_system\<close>, which the statement does not name.\<close>

definition state_upsert_one :: "machine_event \<Rightarrow> machine_event list \<Rightarrow> machine_event list" where
  "state_upsert_one f rows = (if me_key f \<in> me_key ` set rows
     then map (\<lambda>r. if me_key r = me_key f then redate f r else r) rows else rows @ [f])"

text \<open>\<open>RunOnce\<close>: each pass is a transaction of its own with its own \<open>now()\<close>.\<close>

definition run_state_deriver :: "deriver_cfg \<Rightarrow> bool option \<Rightarrow> int \<times> bool \<Rightarrow> int \<times> bool \<Rightarrow> stop_equipment list \<Rightarrow> value_row list
    \<Rightarrow> machine_event list \<Rightarrow> machine_event list" where
  "run_state_deriver cfg forced c u es vs rows =
     (if \<not> snd c then rows
      else (let rows1 = state_correct cfg (fst c) es (state_final cfg forced (fst c) es vs) rows
            in if snd u then fold state_upsert_one (state_final cfg forced (fst u) es vs) rows1 else rows1))"

section \<open>The closer\<close>

record closer_cfg =
  cl_enterprises :: "int list"
  cl_threshold_default :: int
  cl_horizon_hours :: int
  cl_long_days :: int

definition default_int :: "int \<Rightarrow> int \<Rightarrow> int" where
  "default_int v def = (if v \<le> 0 then def else v)"

definition closer_threshold :: "closer_cfg \<Rightarrow> stop_equipment \<Rightarrow> int" where
  "closer_threshold cfg e = (case sq_threshold e of None \<Rightarrow> default_int (cl_threshold_default cfg) 300
     | Some t \<Rightarrow> if t = 0 then default_int (cl_threshold_default cfg) 300 else t)"

definition closer_scope :: "closer_cfg \<Rightarrow> stop_equipment list \<Rightarrow> stop_equipment list" where
  "closer_scope cfg es = filter (\<lambda>e. sq_status_type e = 0 \<and> sq_tp e \<in> {1, 3} \<and> sq_enterprise e \<in> set (cl_enterprises cfg)) es"

definition horizon_start :: "closer_cfg \<Rightarrow> int \<Rightarrow> int" where
  "horizon_start cfg now = now - hours (default_int (cl_horizon_hours cfg) 72)"

definition last_count :: "closer_cfg \<Rightarrow> int \<Rightarrow> minute_row list \<Rightarrow> int \<Rightarrow> int option" where
  "last_count cfg now ms eq =
     (case map mr_ts (filter (\<lambda>m. mr_equipment m = eq \<and> horizon_start cfg now < mr_ts m \<and> moved (mr_gross m)) ms) of
        [] \<Rightarrow> None | t # ts \<Rightarrow> Some (fold max ts t))"

text \<open>The start of the next row of the same equipment.\<close>

definition next_start :: "machine_event list \<Rightarrow> machine_event \<Rightarrow> int option" where
  "next_start rows r = (case map me_ts (filter (\<lambda>n. me_equipment n = me_equipment r \<and> me_ts r < me_ts n) rows) of
     [] \<Rightarrow> None | t # ts \<Rightarrow> Some (fold min ts t))"

text \<open>\<open>plan\<close>: the new end and whether a successor bounds it.\<close>

definition close_plan :: "closer_cfg \<Rightarrow> int \<Rightarrow> stop_equipment list \<Rightarrow> minute_row list \<Rightarrow> machine_event list \<Rightarrow> machine_event \<Rightarrow> (int \<times> bool) option" where
  "close_plan cfg now es ms rows r =
     (case List.find (\<lambda>e. sq_id e = me_equipment r) (closer_scope cfg es) of
        None \<Rightarrow> None
      | Some e \<Rightarrow>
        if me_ts r < horizon_start cfg now then None
        else case next_start (filter (\<lambda>n. horizon_start cfg now \<le> me_ts n) rows) r of
          Some n \<Rightarrow> Some (n, True)
        | None \<Rightarrow> (case last_count cfg now ms (me_equipment r) of
            None \<Rightarrow> None
          | Some l \<Rightarrow> if me_status r = 6 \<and> l + secs (closer_threshold cfg e) < now
              then Some (max (me_ts r) (l + secs (closer_threshold cfg e)), False) else None))"

definition close_main :: "closer_cfg \<Rightarrow> int \<Rightarrow> stop_equipment list \<Rightarrow> minute_row list \<Rightarrow> machine_event list \<Rightarrow> machine_event list" where
  "close_main cfg now es ms rows = map (\<lambda>r.
     case close_plan cfg now es ms rows r of
       None \<Rightarrow> r
     | Some (te, bounded) \<Rightarrow>
       if (me_end r = None \<or> (bounded \<and> me_end r \<noteq> Some te)) \<and> (bounded \<or> \<not> human_justified r) then end_row te r else r) rows"

definition close_long :: "closer_cfg \<Rightarrow> int \<Rightarrow> stop_equipment list \<Rightarrow> machine_event list \<Rightarrow> machine_event list" where
  "close_long cfg now es rows = map (\<lambda>r.
     if me_end r = None \<and> me_equipment r \<in> sq_id ` set (closer_scope cfg es) \<and> me_ts r < horizon_start cfg now
        \<and> now - days (default_int (cl_long_days cfg) 60) \<le> me_ts r
     then (case next_start rows r of None \<Rightarrow> r | Some n \<Rightarrow> end_row n r) else r) rows"

definition run_close :: "closer_cfg \<Rightarrow> int \<Rightarrow> stop_equipment list \<Rightarrow> minute_row list \<Rightarrow> machine_event list \<Rightarrow> machine_event list" where
  "run_close cfg now es ms rows = close_long cfg now es (close_main cfg now es ms rows)"

end
