(* ===== verification/EventJobsProps.thy ===== *)
theory EventJobsProps
  imports EventJobs StopProps
begin

text \<open>
  Properties of the closer and of the state deriver: the closer chains the rows of the horizon
  and judges trailing ones, it repeats itself without effect, and it rewrites ends it is said to
  leave; the deriver never corrects the rows it made itself and overwrites the ends operators set.
\<close>

section \<open>The closer\<close>

lemma next_start_min:
  "next_start rows r = (let ts = map me_ts (filter (\<lambda>n. me_equipment n = me_equipment r \<and> me_ts r < me_ts n) rows)
     in if ts = [] then None else Some (Min (set ts)))"
proof -
  have "(case ts of [] \<Rightarrow> None | t # us \<Rightarrow> Some (fold min us t)) = (if ts = [] then None else Some (Min (set ts)))" for ts :: "int list"
    by (cases ts) (simp_all only: list.case list.distinct if_True if_False Min.set_eq_fold simp_thms)
  then show ?thesis by (simp only: next_start_def Let_def)
qed

lemma next_start_none: "next_start rows r = None \<longleftrightarrow> \<not> (\<exists>q\<in>set rows. me_equipment q = me_equipment r \<and> me_ts r < me_ts q)"
  unfolding next_start_min Let_def by (auto simp: filter_empty_conv)

lemma next_start_some: "next_start rows r = Some n \<longleftrightarrow> (\<exists>q\<in>set rows. me_equipment q = me_equipment r \<and> me_ts q = n) \<and> me_ts r < n
    \<and> (\<forall>q\<in>set rows. me_equipment q = me_equipment r \<and> me_ts r < me_ts q \<longrightarrow> n \<le> me_ts q)"
proof -
  define ts where "ts = map me_ts (filter (\<lambda>n. me_equipment n = me_equipment r \<and> me_ts r < me_ts n) rows)"
  have s: "set ts = {t. me_ts r < t \<and> (\<exists>q\<in>set rows. me_equipment q = me_equipment r \<and> me_ts q = t)}" by (auto simp: ts_def)
  show ?thesis
  proof (cases "ts = []")
    case True
    then have "set ts = {}" by simp
    then show ?thesis using True s by (auto simp: next_start_min ts_def [symmetric] Let_def)
  next
    case False
    then have "next_start rows r = Some n \<longleftrightarrow> Min (set ts) = n" by (simp add: next_start_min ts_def [symmetric] Let_def)
    also have "\<dots> \<longleftrightarrow> n \<in> set ts \<and> (\<forall>t\<in>set ts. n \<le> t)" using False by (intro Min_eq_iff) simp_all
    finally show ?thesis unfolding s by auto
  qed
qed

text \<open>A successor in the horizon is a successor among all rows.\<close>

lemma next_start_horizon: "W \<le> me_ts r \<Longrightarrow> next_start (filter (\<lambda>n. W \<le> me_ts n) rows) r = next_start rows r"
  by (simp add: next_start_def) (metis (mono_tags, lifting) filter_cong le_less_trans less_imp_le order_trans)

text \<open>The shape of a pass: a row keeps everything but its end and its duration.\<close>

definition main_row :: "closer_cfg \<Rightarrow> int \<Rightarrow> stop_equipment list \<Rightarrow> minute_row list \<Rightarrow> machine_event list \<Rightarrow> machine_event \<Rightarrow> machine_event" where
  "main_row cfg now es ms rows r = (case close_plan cfg now es ms rows r of
       None \<Rightarrow> r
     | Some (te, bounded) \<Rightarrow>
       if (me_end r = None \<or> (bounded \<and> me_end r \<noteq> Some te)) \<and> (bounded \<or> \<not> human_justified r) then end_row te r else r)"

definition long_row :: "closer_cfg \<Rightarrow> int \<Rightarrow> stop_equipment list \<Rightarrow> machine_event list \<Rightarrow> machine_event \<Rightarrow> machine_event" where
  "long_row cfg now es rows r = (if me_end r = None \<and> me_equipment r \<in> sq_id ` set (closer_scope cfg es) \<and> me_ts r < horizon_start cfg now
        \<and> now - days (default_int (cl_long_days cfg) 60) \<le> me_ts r
     then (case next_start rows r of None \<Rightarrow> r | Some n \<Rightarrow> end_row n r) else r)"

lemma close_main_map: "close_main cfg now es ms rows = map (main_row cfg now es ms rows) rows"
  by (simp add: close_main_def main_row_def)

lemma close_long_map: "close_long cfg now es rows = map (long_row cfg now es rows) rows"
  by (simp add: close_long_def long_row_def)

lemma main_row_simps [simp]: "me_key (main_row cfg now es ms rows r) = me_key r" "me_ts (main_row cfg now es ms rows r) = me_ts r"
    "me_equipment (main_row cfg now es ms rows r) = me_equipment r" "me_status (main_row cfg now es ms rows r) = me_status r"
  by (auto simp: main_row_def split: option.splits prod.splits)

lemma long_row_simps [simp]: "me_key (long_row cfg now es rows r) = me_key r" "me_ts (long_row cfg now es rows r) = me_ts r"
    "me_equipment (long_row cfg now es rows r) = me_equipment r" "me_status (long_row cfg now es rows r) = me_status r"
  by (auto simp: long_row_def split: option.splits)

lemma next_start_map:
  assumes "\<And>q. me_ts (u q) = me_ts q \<and> me_equipment (u q) = me_equipment q"
  shows "next_start (map u rows) r = next_start rows r"
  using assms by (simp add: next_start_def filter_map comp_def)

lemma next_start_key: "me_key q = me_key r \<Longrightarrow> next_start rows q = next_start rows r"
  by (simp add: next_start_def me_key_def)

text \<open>\<open>close_row\<close> of a whole pass on one row.\<close>

definition run_row :: "closer_cfg \<Rightarrow> int \<Rightarrow> stop_equipment list \<Rightarrow> minute_row list \<Rightarrow> machine_event list \<Rightarrow> machine_event \<Rightarrow> machine_event" where
  "run_row cfg now es ms rows r = long_row cfg now es rows (main_row cfg now es ms rows r)"

lemma run_close_map: "run_close cfg now es ms rows = map (run_row cfg now es ms rows) rows"
proof -
  have "next_start (map (main_row cfg now es ms rows) rows) r = next_start rows r" for r by (rule next_start_map) simp
  then show ?thesis by (simp add: run_close_def close_main_map close_long_map run_row_def comp_def long_row_def)
qed

lemma plan_map:
  assumes "\<And>q. me_ts (u q) = me_ts q \<and> me_equipment (u q) = me_equipment q"
  shows "close_plan cfg now es ms (map u rows) r = close_plan cfg now es ms rows r"
  using next_start_map [of u] assms by (simp add: close_plan_def filter_map comp_def cong: option.case_cong if_cong)

lemma end_row_same: "me_end r = Some te \<Longrightarrow> me_duration r = Some (round_secs (te - me_ts r)) \<Longrightarrow> end_row te r = r"
  by (simp add: end_row_def)

text \<open>The plan of a row is that of the row with another end.\<close>

lemma plan_end_row: "close_plan cfg now es ms rows (end_row te r) = close_plan cfg now es ms rows r"
proof -
  have "next_start rs (end_row te r) = next_start rs r" for rs by (rule next_start_key) simp
  then show ?thesis unfolding close_plan_def by (simp split: option.split)
qed

lemma main_row_twice: "main_row cfg now es ms rows (main_row cfg now es ms rows r) = main_row cfg now es ms rows r"
proof -
  have "main_row cfg now es ms rows (end_row te r) = end_row te r" if "close_plan cfg now es ms rows r = Some (te, b)" for te b
    using that plan_end_row [of cfg now es ms rows te r] by (simp add: main_row_def)
  then show ?thesis by (auto simp: main_row_def split: option.splits prod.splits)
qed

lemma plan_in_horizon: "close_plan cfg now es ms rows r = Some p \<Longrightarrow> horizon_start cfg now \<le> me_ts r"
  by (auto simp: close_plan_def split: option.splits if_splits)

lemma run_row_twice: "run_row cfg now es ms rows (run_row cfg now es ms rows r) = run_row cfg now es ms rows r"
proof (cases "horizon_start cfg now \<le> me_ts r")
  case True
  then show ?thesis by (simp add: run_row_def long_row_def main_row_twice)
next
  case False
  then have main: "main_row cfg now es ms rows q = q" if "me_ts q = me_ts r" for q
    using plan_in_horizon [of cfg now es ms rows q] that by (cases "close_plan cfg now es ms rows q") (auto simp: main_row_def)
  have "long_row cfg now es rows (long_row cfg now es rows r) = long_row cfg now es rows r"
    by (auto simp: long_row_def split: option.splits)
  then show ?thesis by (simp add: run_row_def main)
qed

lemma run_row_map: "run_row cfg now es ms (map (run_row cfg now es ms rows) rows) r = run_row cfg now es ms rows r"
proof -
  have u: "me_ts (run_row cfg now es ms rows q) = me_ts q \<and> me_equipment (run_row cfg now es ms rows q) = me_equipment q" for q
    by (simp add: run_row_def)
  show ?thesis unfolding run_row_def [of _ _ _ _ "map _ _"] long_row_def main_row_def plan_map [OF u] next_start_map [OF u]
    by (simp add: run_row_def long_row_def main_row_def)
qed

lemma find_distinct: "distinct (map f xs) \<Longrightarrow> x \<in> set xs \<Longrightarrow> List.find (\<lambda>y. f y = f x) xs = Some x"
  by (induction xs) (auto simp: rev_image_eqI)

text \<open>
  C12: After a pass of the closer every row of the horizon that has a successor ends where it starts, and so does
  every older open one within the long horizon; a row without successor is ended only if it is
  an open run no operator justified and its last count is more than the threshold ago, at that
  instant or at its own start; nothing else changes but durations, and the pass repeated at the
  same instant changes nothing.
\<close>

theorem closer_chains:
  assumes "e \<in> set (closer_scope cfg es)" "distinct (map sq_id es)"
  shows "(\<forall>r\<in>set (run_close cfg now es ms rows). me_equipment r = sq_id e \<and> horizon_start cfg now \<le> me_ts r
        \<longrightarrow> (\<forall>n. next_start rows r = Some n \<longrightarrow> me_end r = Some n))
    \<and> (\<forall>r\<in>set (run_close cfg now es ms rows). me_equipment r = sq_id e \<and> me_end r = None
        \<and> now - days (default_int (cl_long_days cfg) 60) \<le> me_ts r \<longrightarrow> next_start rows r = None)
    \<and> (\<forall>r\<in>set rows. next_start rows r = None \<and> me_equipment r = sq_id e \<longrightarrow> run_row cfg now es ms rows r = r
        \<or> (me_end r = None \<and> me_status r = 6 \<and> \<not> human_justified r \<and> (\<exists>l. last_count cfg now ms (sq_id e) = Some l
            \<and> l + secs (closer_threshold cfg e) < now
            \<and> run_row cfg now es ms rows r = end_row (max (me_ts r) (l + secs (closer_threshold cfg e))) r)))
    \<and> run_close cfg now es ms rows = map (run_row cfg now es ms rows) rows
    \<and> run_close cfg now es ms (run_close cfg now es ms rows) = run_close cfg now es ms rows"
proof -
  have "distinct (map sq_id (closer_scope cfg es))" using assms(2) unfolding closer_scope_def by (rule distinct_map_filter)
  note find = find_distinct [OF this assms(1)]
  have a: "me_end r = Some n" if "r \<in> set (run_close cfg now es ms rows)" "me_equipment r = sq_id e" "horizon_start cfg now \<le> me_ts r"
      "next_start rows r = Some n" for r n
  proof -
    from that(1) obtain q where q: "r = run_row cfg now es ms rows q" unfolding run_close_map by auto
    have k: "me_equipment q = sq_id e" "horizon_start cfg now \<le> me_ts q" "next_start rows q = Some n"
      using that next_start_key [of r q rows] by (simp_all add: q run_row_def)
    then have "close_plan cfg now es ms rows q = Some (n, True)" using find next_start_horizon [of _ q rows] by (simp add: close_plan_def)
    then show ?thesis using k(2) by (simp add: q run_row_def long_row_def main_row_def)
  qed
  have b: "next_start rows r = None" if r: "r \<in> set (run_close cfg now es ms rows)" "me_equipment r = sq_id e" "me_end r = None"
      "now - days (default_int (cl_long_days cfg) 60) \<le> me_ts r" for r
  proof (cases "horizon_start cfg now \<le> me_ts r")
    case True
    then show ?thesis using a [OF r(1,2)] r(3) by (cases "next_start rows r") auto
  next
    case False
    from r(1) obtain q where q: "r = run_row cfg now es ms rows q" unfolding run_close_map by auto
    then have m: "main_row cfg now es ms rows q = q"
      using plan_in_horizon [of cfg now es ms rows q] False by (cases "close_plan cfg now es ms rows q") (auto simp: main_row_def run_row_def)
    have "sq_id e \<in> sq_id ` set (closer_scope cfg es)" using assms(1) by simp
    then have "next_start rows q = None" using r(2-4) False unfolding q run_row_def m
      by (auto simp: long_row_def split: if_splits option.splits)
    then show ?thesis using next_start_key [of r q rows] by (simp add: q run_row_def)
  qed
  have c: "run_row cfg now es ms rows r = r \<or> (me_end r = None \<and> me_status r = 6 \<and> \<not> human_justified r
        \<and> (\<exists>l. last_count cfg now ms (sq_id e) = Some l \<and> l + secs (closer_threshold cfg e) < now
            \<and> run_row cfg now es ms rows r = end_row (max (me_ts r) (l + secs (closer_threshold cfg e))) r))"
    if "next_start rows r = None" "me_equipment r = sq_id e" for r
  proof -
    have plan: "close_plan cfg now es ms rows r = (if me_ts r < horizon_start cfg now then None
        else case last_count cfg now ms (sq_id e) of None \<Rightarrow> None | Some l \<Rightarrow> if me_status r = 6 \<and> l + secs (closer_threshold cfg e) < now
              then Some (max (me_ts r) (l + secs (closer_threshold cfg e)), False) else None)"
      using that find next_start_horizon [of _ r rows] by (simp add: close_plan_def)
    have long: "long_row cfg now es rows q = q" if "me_key q = me_key r" for q
      using next_start_key [OF that, of rows] \<open>next_start rows r = None\<close> by (simp add: long_row_def)
    have "run_row cfg now es ms rows r = main_row cfg now es ms rows r" unfolding run_row_def by (rule long) simp
    then show ?thesis unfolding main_row_def plan by (auto split: option.splits if_splits)
  qed
  have "run_close cfg now es ms (run_close cfg now es ms rows) = run_close cfg now es ms rows"
    unfolding run_close_map run_row_map by (simp add: comp_def run_row_twice)
  then show ?thesis using a b c run_close_map by blast
qed

definition demo_closer :: closer_cfg where
  "demo_closer = \<lparr>cl_enterprises = [5], cl_threshold_default = 0, cl_horizon_hours = 0, cl_long_days = 0\<rparr>"

lemma demo_closer_scope: "closer_scope demo_closer [outage_equipment] = [outage_equipment]"
  by (simp add: closer_scope_def demo_closer_def outage_equipment_def)

theorem closer_chains_witness:
  "\<exists>rows'. rows' = run_close demo_closer 100 [outage_equipment] [] [minted None 100 5 10 0 None 6, minted None 100 5 10 50 None 10]
    \<and> (\<exists>r\<in>set rows'. me_ts r = 0 \<and> me_end r = Some 50) \<and> run_close demo_closer 100 [outage_equipment] [] rows' = rows'"
proof -
  let ?r = "minted None 100 5 10 0 None 6" and ?q = "minted None 100 5 10 50 None 10"
  let ?run = "run_row demo_closer 100 [outage_equipment] [] [?r, ?q]"
  have e: "outage_equipment \<in> set (closer_scope demo_closer [outage_equipment])" "distinct (map sq_id [outage_equipment])" by (simp_all add: demo_closer_scope)
  note chains = closer_chains [OF e, of 100 "[]" "[?r, ?q]"]
  have k: "me_key (?run ?r) = me_key ?r" by (simp add: run_row_def)
  then have "next_start [?r, ?q] (?run ?r) = Some 50" by (subst next_start_key [OF k]) (simp add: next_start_def)
  moreover have "me_ts (?run ?r) = 0" "me_equipment (?run ?r) = sq_id outage_equipment" "horizon_start demo_closer 100 \<le> 0"
    using k by (simp_all add: me_key_def outage_equipment_def horizon_start_def demo_closer_def default_int_def hours_def secs_def)
  moreover have m: "?run ?r \<in> set (run_close demo_closer 100 [outage_equipment] [] [?r, ?q])" by (simp add: run_close_map)
  ultimately have "me_ts (?run ?r) = 0 \<and> me_end (?run ?r) = Some 50" using chains by (metis (no_types, lifting))
  then show ?thesis using m chains by blast
qed

text \<open>
  The closer's header says that it only ever writes rows whose end is null. A row of the horizon that is
  already ended, by an operator too, gets the start of its successor as its end.
\<close>

theorem closer_moves_set_ends:
  assumes "e \<in> set (closer_scope cfg es)" "distinct (map sq_id es)" "r \<in> set rows" "me_equipment r = sq_id e"
    and "horizon_start cfg now \<le> me_ts r" "me_end r = Some t" "next_start rows r = Some n" "t \<noteq> n"
  shows "end_row n r \<in> set (run_close cfg now es ms rows) \<and> me_end (end_row n r) = Some n \<and> human_touched (end_row n r) = human_touched r"
proof -
  have "distinct (map sq_id (closer_scope cfg es))" using assms(2) unfolding closer_scope_def by (rule distinct_map_filter)
  from find_distinct [OF this assms(1)] have "close_plan cfg now es ms rows r = Some (n, True)"
    using assms(4,5,7) next_start_horizon [of _ r rows] by (simp add: close_plan_def)
  then have "run_row cfg now es ms rows r = end_row n r" using assms(5,6,8) by (simp add: run_row_def main_row_def long_row_def)
  then show ?thesis using assms(3) unfolding run_close_map by (metis end_row_simps(2,7) image_eqI set_map)
qed

theorem closer_moves_set_ends_witness:
  "\<exists>r\<in>set (run_close demo_closer 100 [outage_equipment] [] [(minted (Some True) 100 5 10 0 (Some 20) 10), minted None 100 5 10 50 None 6]).
     human_touched r \<and> me_end r = Some 50"
proof -
  let ?r = "minted (Some True) 100 5 10 0 (Some 20) 10" and ?q = "minted None 100 5 10 50 None 6"
  have "next_start [?r, ?q] ?r = Some 50" by (simp add: next_start_def)
  moreover have "horizon_start demo_closer 100 \<le> 0" by (simp add: horizon_start_def demo_closer_def default_int_def hours_def secs_def)
  moreover have "sq_id outage_equipment = 10" by (simp add: outage_equipment_def)
  ultimately have "end_row 50 ?r \<in> set (run_close demo_closer 100 [outage_equipment] [] [?r, ?q])"
    using closer_moves_set_ends [of outage_equipment demo_closer "[outage_equipment]" ?r "[?r, ?q]" 100 20 50 "[]"] by (simp add: demo_closer_scope)
  then show ?thesis by (rule bexI [rotated]) simp
qed

section \<open>The state deriver\<close>

lemma upsert_state_keeps: "me_key r \<noteq> me_key f \<Longrightarrow> r \<in> set rows \<Longrightarrow> r \<in> set (state_upsert_one f rows)"
  by (force simp: state_upsert_one_def)

lemma upsert_states_keep: "me_key r \<notin> me_key ` set fs \<Longrightarrow> r \<in> set rows \<Longrightarrow> r \<in> set (fold state_upsert_one fs rows)"
  by (induction fs arbitrary: rows) (auto simp: upsert_state_keeps)

lemma upsert_state_hit:
  assumes "r \<in> set rows" "me_key r = me_key f"
  shows "redate f r \<in> set (state_upsert_one f rows)"
proof -
  have "me_key f \<in> me_key ` set rows" using assms by (metis image_eqI)
  moreover have "redate f r = (if me_key r = me_key f then redate f r else r)" using assms(2) by simp
  moreover have "(if me_key r = me_key f then redate f r else r) \<in> (\<lambda>r. if me_key r = me_key f then redate f r else r) ` set rows"
    using assms(1) by (rule imageI)
  ultimately show ?thesis by (simp only: state_upsert_one_def if_True list.set_map)
qed

lemma upsert_states_redate:
  "r \<in> set rows \<Longrightarrow> me_key r = me_key f \<Longrightarrow> f \<in> set fs \<Longrightarrow> distinct (map me_key fs) \<Longrightarrow> redate f r \<in> set (fold state_upsert_one fs rows)"
proof (induction fs arbitrary: rows)
  case (Cons g fs)
  show ?case
  proof (cases "g = f")
    case True
    have "redate f r \<in> set (state_upsert_one f rows)" using Cons.prems(1,2) by (rule upsert_state_hit)
    moreover have "me_key (redate f r) \<notin> me_key ` set fs" using Cons.prems(2,4) True by simp
    ultimately show ?thesis using True upsert_states_keep by simp
  next
    case False
    then have "f \<in> set fs" "me_key r \<noteq> me_key g" using Cons.prems by (auto simp: rev_image_eqI)
    then show ?thesis using Cons.IH [of "state_upsert_one g rows"] upsert_state_keeps Cons.prems by simp
  qed
qed simp

lemma state_final_forced: "f \<in> set (state_final cfg forced now es vs) \<Longrightarrow> me_forced f = forced"
proof -
  have "f \<in> set (chain_events forced now ent eq L) \<Longrightarrow> me_forced f = forced" for ent eq L
    by (induction forced now ent eq L rule: chain_events.induct) (auto simp: minted_def)
  then show "f \<in> set (state_final cfg forced now es vs) \<Longrightarrow> me_forced f = forced" by (auto simp: state_final_def)
qed

text \<open>
  Where the column \<open>forced_creation_system\<close> has no default, the state deriver never corrects its own rows: a
  row it once made stays, as it is, although the stream no longer has the transition.
\<close>

theorem deriver_never_corrects:
  assumes "f \<in> set (state_final cfg None now0 es0 vs0)" "f \<in> set rows" "me_key f \<notin> me_key ` set (state_final cfg None (fst u) es vs)"
  shows "f \<in> set (run_state_deriver cfg None c u es vs rows)"
proof -
  have "f \<in> set (state_correct cfg (fst c) es (state_final cfg None (fst c) es vs) rows)"
    using assms(2) state_final_forced [OF assms(1)] by (simp add: state_correct_def)
  then show ?thesis using assms(2) upsert_states_keep [OF assms(3)] by (simp add: run_state_deriver_def Let_def)
qed

definition demo_deriver :: deriver_cfg where
  "demo_deriver = \<lparr>dv_excluded_areas = [], dv_excluded_enterprises = [], dv_widerow_enterprises = [5]\<rparr>"

definition sample :: "int \<Rightarrow> int \<Rightarrow> value_row" where
  "sample t s = \<lparr>vr_ts = secs t, vr_equipment = 10, vr_state = Some s\<rparr>"

lemma demo_state_final: "state_final demo_deriver forced (secs 60) [outage_equipment] [sample 0 6, sample 20 10]
    = [minted forced (secs 60) 5 10 (secs 20) None 10]"
  by (simp add: state_final_def derived_equipment_def not_any_def demo_deriver_def outage_equipment_def state_stream_def sample_def trunc_second_def
      window_start_def hours_def secs_def)

lemma demo_state_none: "state_final demo_deriver forced (secs 60) [outage_equipment] [] = []"
  by (simp add: state_final_def derived_equipment_def not_any_def demo_deriver_def outage_equipment_def state_stream_def)

theorem deriver_never_corrects_witness:
  "minted None (secs 60) 5 10 (secs 20) None 10
    \<in> set (run_state_deriver demo_deriver None (secs 60, True) (secs 60, True) [outage_equipment] [] [minted None (secs 60) 5 10 (secs 20) None 10])"
  by (rule deriver_never_corrects [of _ demo_deriver "secs 60" "[outage_equipment]" "[sample 0 6, sample 20 10]"])
     (simp_all add: demo_state_final demo_state_none)

text \<open>
  C40: The state deriver's upsert has no guard for operators: the end and the duration an operator's trim gave to a row
  are replaced by the stream's at the next pass.
\<close>

theorem deriver_undoes_trim:
  assumes "f \<in> set (state_final cfg forced (fst u) es vs)" "distinct (map me_key (state_final cfg forced (fst u) es vs))"
    and "r \<in> set rows" "me_key r = me_key f" "me_forced r = Some True" "snd c" "snd u"
  shows "redate f r \<in> set (run_state_deriver cfg forced c u es vs rows) \<and> me_end (redate f r) = me_end f \<and> me_forced (redate f r) = Some True"
proof -
  have "r \<in> set (state_correct cfg (fst c) es (state_final cfg forced (fst c) es vs) rows)" using assms(3,5) by (simp add: state_correct_def)
  from upsert_states_redate [OF this assms(4,1,2)] show ?thesis using assms(5-7) by (simp add: run_state_deriver_def redate_def Let_def)
qed

theorem deriver_undoes_trim_witness:
  "\<exists>r\<in>set (run_state_deriver demo_deriver None (secs 60, True) (secs 60, True) [outage_equipment] [sample 0 6, sample 20 10]
      [minted (Some True) (secs 60) 5 10 (secs 20) (Some (secs 30)) 10]). me_forced r = Some True \<and> me_end r = None"
proof -
  let ?f = "minted None (secs 60) 5 10 (secs 20) None 10" and ?r = "minted (Some True) (secs 60) 5 10 (secs 20) (Some (secs 30)) 10"
  have "?f \<in> set (state_final demo_deriver None (fst (secs 60, True)) [outage_equipment] [sample 0 6, sample 20 10])"
    "distinct (map me_key (state_final demo_deriver None (fst (secs 60, True)) [outage_equipment] [sample 0 6, sample 20 10]))"
    by (simp_all add: demo_state_final)
  moreover have "me_forced ?r = Some True" by (simp add: minted_def)
  ultimately show ?thesis using deriver_undoes_trim [of ?f demo_deriver None "(secs 60, True)" "[outage_equipment]" "[sample 0 6, sample 20 10]" ?r "[?r]" "(secs 60, True)"]
    by (metis fst_conv list.set_intros(1) minted_simps(2,6) snd_conv)
qed

end
