(* ===== verification/ShiftResolver.thy ===== *)
theory ShiftResolver
  imports Prelude "HOL-Library.Product_Lexorder"
begin

text \<open>
  The shift of an equipment at an instant (stream-engine internal/shiftresolver/resolver.go): the
  second of the site's shift week, the choice among the shift hours that contain it, and the
  cache of the three reference tables. A location is its zone transitions, as package time keeps
  them, an instant is nanoseconds since 1970; \<open>week_begin\<close> is within a duration's range.
\<close>

section \<open>Local time\<close>

record go_location =
  gl_first :: int                      \<comment> \<open>offset before the first transition\<close>
  gl_zones :: "(int \<times> int) list"      \<comment> \<open>start in UTC seconds and offset, in order\<close>

text \<open>\<open>lookup\<close>: the offset at an instant and the bounds of its zone.\<close>

fun lookup_zone :: "int \<Rightarrow> int option \<Rightarrow> (int \<times> int) list \<Rightarrow> int \<Rightarrow> int \<times> int option \<times> int option" where
  "lookup_zone off start [] t = (off, start, None)"
| "lookup_zone off start ((s, off') # zs) t = (if t < s then (off, start, Some s) else lookup_zone off' (Some s) zs t)"

definition zone_at :: "go_location \<Rightarrow> int \<Rightarrow> int \<times> int option \<times> int option" where
  "zone_at loc t = lookup_zone (gl_first loc) None (gl_zones loc) t"

text \<open>\<open>time.Date\<close> in a location: a civil second to a UTC second.\<close>

definition civil_to_utc :: "go_location \<Rightarrow> int \<Rightarrow> int" where
  "civil_to_utc loc c =
     (case zone_at loc c of (off, start, stop) \<Rightarrow>
        if off = 0 then c
        else if (case start of None \<Rightarrow> False | Some s \<Rightarrow> c - off < s) \<or> (case stop of None \<Rightarrow> False | Some e \<Rightarrow> e \<le> c - off)
        then c - fst (zone_at loc (c - off)) else c - off)"

record site_info =
  si_enterprise :: int
  si_loc :: go_location
  si_week_begin :: int

text \<open>\<open>WeekOffsetSeconds\<close>; day 0 of 1970 is a Thursday.\<close>

definition nanos :: int where "nanos = 1000000000"

definition week_offset :: "int \<Rightarrow> site_info \<Rightarrow> int" where
  "week_offset ts site =
     (let sec = ts div nanos;
          naive = sec + fst (zone_at (si_loc site) sec);
          shifted = naive - si_week_begin site;
          day = shifted div 86400;
          monday = (day - (day + 3) mod 7) * 86400;
          week_start = civil_to_utc (si_loc site) monday
      in (ts - week_start * nanos) sdiv nanos - si_week_begin site)"

section \<open>The choice\<close>

record shift_hour =
  sh_id :: int
  sh_shift :: int
  sh_area :: "int option"
  sh_begin :: int
  sh_end :: int

definition area_rank :: "int \<Rightarrow> shift_hour \<Rightarrow> int" where
  "area_rank area h = (case sh_area h of None \<Rightarrow> 0 | Some a \<Rightarrow> if a = area then 2 else 1)"

fun pick_loop :: "int \<Rightarrow> (shift_hour \<times> int) option \<Rightarrow> shift_hour list \<Rightarrow> shift_hour option" where
  "pick_loop area best [] = map_option fst best"
| "pick_loop area best (c # cs) =
     (let r = area_rank area c
      in case best of
           None \<Rightarrow> pick_loop area (Some (c, r)) cs
         | Some (b, br) \<Rightarrow>
           if br < r \<or> (r = br \<and> sh_id c < sh_id b) then pick_loop area (Some (c, r)) cs
           else pick_loop area (Some (b, br)) cs)"

definition pick_shift :: "shift_hour list \<Rightarrow> int \<Rightarrow> shift_hour option" where
  "pick_shift cs area = pick_loop area None cs"

section \<open>The cache\<close>

text \<open>What the three SELECTs return; a time zone that does not load is \<open>None\<close>.\<close>

record ref_tables =
  rt_sites :: "(int \<times> int \<times> go_location option \<times> int) list"
  rt_equipments :: "(int \<times> int option \<times> int option) list"
  rt_hours :: "(int \<times> shift_hour) list"

record resolver =
  rs_loaded_at :: "int option"     \<comment> \<open>\<open>None\<close> is the zero time\<close>
  rs_sites :: "int \<Rightarrow> site_info option"
  rs_equips :: "int \<Rightarrow> (int \<times> int) option"
  rs_hours :: "int \<Rightarrow> shift_hour list"

definition new_resolver_cache :: resolver where
  "new_resolver_cache = \<lparr>rs_loaded_at = None, rs_sites = Map.empty, rs_equips = Map.empty, rs_hours = (\<lambda>s. [])\<rparr>"

definition resolver_ttl :: "int \<Rightarrow> int" where
  "resolver_ttl ttl = (if ttl \<le> 0 then 300 * nanos else ttl)"

definition load_rows :: "('v \<Rightarrow> 'w option) \<Rightarrow> (int \<times> 'v) list \<Rightarrow> int \<Rightarrow> 'w option" where
  "load_rows F rows = map_of (rev (concat (map (\<lambda>(i, v). case F v of None \<Rightarrow> [] | Some w \<Rightarrow> [(i, w)]) rows)))"

definition site_of_row :: "int \<times> go_location option \<times> int \<Rightarrow> site_info option" where
  "site_of_row v = (case v of (ent, tz, wb) \<Rightarrow>
     map_option (\<lambda>loc. \<lparr>si_enterprise = ent, si_loc = loc, si_week_begin = wb\<rparr>) tz)"

definition equip_of_row :: "int option \<times> int option \<Rightarrow> (int \<times> int) option" where
  "equip_of_row v = (case v of (site, area) \<Rightarrow> map_option (\<lambda>s. (s, case area of None \<Rightarrow> 0 | Some a \<Rightarrow> a)) site)"

definition load_tables :: "int \<Rightarrow> ref_tables \<Rightarrow> resolver" where
  "load_tables now t = \<lparr>rs_loaded_at = Some now, rs_sites = load_rows site_of_row (rt_sites t),
     rs_equips = load_rows equip_of_row (rt_equipments t),
     rs_hours = (\<lambda>s. map snd (filter (\<lambda>(s', h). s' = s) (rt_hours t)))\<rparr>"

text \<open>\<open>ensureFresh\<close>: a failed query leaves the cache and reports the error.\<close>

definition ensure_fresh :: "int \<Rightarrow> int \<Rightarrow> ref_tables option \<Rightarrow> resolver \<Rightarrow> bool \<times> resolver" where
  "ensure_fresh now ttl fetch r =
     (if (case rs_loaded_at r of None \<Rightarrow> False | Some t \<Rightarrow> now - t < resolver_ttl ttl) then (True, r)
      else case fetch of None \<Rightarrow> (False, r) | Some t \<Rightarrow> (True, load_tables now t))"

definition resolve_cached :: "resolver \<Rightarrow> int \<Rightarrow> int \<Rightarrow> int \<Rightarrow> (int \<times> int) option" where
  "resolve_cached r ent eq ts =
     (case rs_equips r eq of
        None \<Rightarrow> None
      | Some (site_id, area) \<Rightarrow>
        (case rs_sites r site_id of
           None \<Rightarrow> None
         | Some site \<Rightarrow>
           if si_enterprise site \<noteq> ent then None
           else (let x = week_offset ts site
                 in map_option (\<lambda>h. (sh_shift h, sh_id h))
                      (pick_shift (filter (\<lambda>h. sh_begin h \<le> x \<and> x < sh_end h) (rs_hours r site_id)) area))))"

definition resolve_shift :: "int \<Rightarrow> int \<Rightarrow> ref_tables option \<Rightarrow> resolver \<Rightarrow> int \<Rightarrow> int \<Rightarrow> int \<Rightarrow> (int \<times> int) option \<times> resolver" where
  "resolve_shift now ttl fetch r ent eq ts =
     (case ensure_fresh now ttl fetch r of
        (False, r1) \<Rightarrow> (None, r1)
      | (True, r1) \<Rightarrow> (resolve_cached r1 ent eq ts, r1))"

section \<open>Properties\<close>

text \<open>The trigger's ORDER BY: a match, a mismatch, a null; then the id.\<close>

definition order_key :: "int option \<Rightarrow> shift_hour \<Rightarrow> int \<times> int" where
  "order_key area h = (case (sh_area h, area) of (Some a, Some b) \<Rightarrow> if a = b then 0 else 1 | _ \<Rightarrow> 2, sh_id h)"

definition first_by :: "('a \<Rightarrow> int \<times> int) \<Rightarrow> 'a list \<Rightarrow> 'a option" where
  "first_by f xs = (case sort_key f xs of [] \<Rightarrow> None | x # ys \<Rightarrow> Some x)"

lemma first_by_cons: "first_by f (x # xs) = (case first_by f xs of None \<Rightarrow> Some x | Some y \<Rightarrow> if f x \<le> f y then Some x else Some y)"
  by (cases "sort_key f xs") (auto simp: first_by_def)

lemma first_by_some: "xs \<noteq> [] \<Longrightarrow> \<exists>x. first_by f xs = Some x \<and> x \<in> set xs"
proof -
  assume "xs \<noteq> []"
  then have "set (sort_key f xs) \<noteq> {}" by simp
  then obtain x ys where x: "sort_key f xs = x # ys" by (cases "sort_key f xs") auto
  then have "x \<in> set (sort_key f xs)" by simp
  then have "x \<in> set xs" by (simp only: set_sort)
  with x show ?thesis by (simp add: first_by_def)
qed

lemma first_by_pair: "first_by f (x # y # zs) = first_by f ((if f y < f x then y else x) # zs)"
  by (auto simp: first_by_cons split: option.splits)

lemma pick_loop_first: "pick_loop area (Some (b, area_rank area b)) cs = first_by (order_key (Some area)) (b # cs)"
proof (induction cs arbitrary: b)
  case (Cons c cs)
  have k: "area_rank area b < area_rank area c \<or> (area_rank area c = area_rank area b \<and> sh_id c < sh_id b)
      \<longleftrightarrow> order_key (Some area) c < order_key (Some area) b"
    by (auto simp: area_rank_def order_key_def split: option.splits)
  show ?case unfolding first_by_pair using k Cons by (simp add: Let_def)
qed (simp add: first_by_def)

lemma pick_is_first: "pick_shift cs area = first_by (order_key (Some area)) cs"
  by (cases cs) (simp_all add: pick_shift_def pick_loop_first Let_def first_by_def)

text \<open>The trigger over the tables themselves.\<close>

definition trigger_shift :: "ref_tables \<Rightarrow> int \<Rightarrow> int \<Rightarrow> int \<Rightarrow> (int \<times> int) option" where
  "trigger_shift t ent eq ts =
     (case map_of (rt_equipments t) eq of
        Some (Some s, area) \<Rightarrow>
          (case map_of (rt_sites t) s of
             Some (ent', Some loc, wb) \<Rightarrow>
               if ent' \<noteq> ent then None
               else (let x = week_offset ts \<lparr>si_enterprise = ent', si_loc = loc, si_week_begin = wb\<rparr>
                     in map_option (\<lambda>h. (sh_shift h, sh_id h)) (first_by (order_key area)
                          (filter (\<lambda>h. sh_begin h \<le> x \<and> x < sh_end h) (map snd (filter (\<lambda>(s', h). s' = s) (rt_hours t))))))
           | _ \<Rightarrow> None)
      | _ \<Rightarrow> None)"

lemma map_of_unique_rev: "distinct (map fst xs) \<Longrightarrow> map_of (rev xs) = map_of xs"
proof (induction xs)
  case (Cons x xs)
  then have "map_of xs (fst x) = None" by (simp add: map_of_eq_None_iff)
  then show ?case using Cons by (cases x) (auto simp: map_add_def fun_eq_iff split: option.splits)
qed simp

lemma load_rows_find:
  assumes "distinct (map fst xs)"
  shows "load_rows F xs k = Option.bind (map_of xs k) F"
proof -
  let ?G = "\<lambda>(i, v). case F v of None \<Rightarrow> [] | Some w \<Rightarrow> [(i, w)]"
  have sub: "fst ` set (concat (map ?G xs)) \<subseteq> fst ` set xs" for xs by (auto split: option.splits) force
  have "distinct (map fst (concat (map ?G xs))) \<and> map_of (concat (map ?G xs)) k = Option.bind (map_of xs k) F" using assms
  proof (induction xs)
    case (Cons x xs)
    obtain i v where x: "x = (i, v)" by (cases x)
    then have "i \<notin> fst ` set xs" using Cons.prems by simp
    then have i: "i \<notin> fst ` set (concat (map ?G xs))" "map_of xs i = None" using sub [of xs] by (blast, simp add: map_of_eq_None_iff)
    from i(1) have "map_of (concat (map ?G xs)) i = None" by (simp only: map_of_eq_None_iff not_False_eq_True)
    then show ?case using Cons x i by (cases "F v"; cases "i = k") (simp_all del: set_concat)
  qed simp
  then show ?thesis by (simp add: load_rows_def map_of_unique_rev)
qed

lemma sdiv_exact:
  assumes "(0 :: int) < c"
  shows "(x * c) sdiv c = x"
proof -
  have "\<bar>x * c\<bar> div \<bar>c\<bar> = \<bar>x\<bar>" using assms by (simp add: abs_mult)
  moreover have "sgn (x * c) * sgn c = sgn x" using assms by (simp add: sgn_mult)
  ultimately show ?thesis unfolding signed_divide_int_def by (simp only: sgn_mult_abs)
qed

lemma sdiv_nanos: "(a * nanos - b * nanos) sdiv nanos = a - b"
  unfolding left_diff_distrib [symmetric] by (rule sdiv_exact) (simp add: nanos_def)


text \<open>
  C18: In a zone with a fixed offset the second of the shift week is the local time less the site's week begin and
  the first Monday of 1970, modulo a week; so shift hours that cover the week give every instant
  a shift, one that contains that second.
\<close>

theorem shift_week_resolves:
  assumes "gl_zones (si_loc site) = []" "rs_equips r eq = Some (sid, area)" "rs_sites r sid = Some site" "si_enterprise site = ent"
    and "\<forall>x. 0 \<le> x \<and> x < 604800 \<longrightarrow> (\<exists>h\<in>set (rs_hours r sid). sh_begin h \<le> x \<and> x < sh_end h)"
  shows "week_offset (sec * nanos) site = (sec + gl_first (si_loc site) - si_week_begin site - 345600) mod 604800
    \<and> (\<exists>h\<in>set (rs_hours r sid). resolve_cached r ent eq (sec * nanos) = Some (sh_shift h, sh_id h)
        \<and> sh_begin h \<le> week_offset (sec * nanos) site \<and> week_offset (sec * nanos) site < sh_end h)"
proof -
  let ?off = "gl_first (si_loc site)" and ?x = "week_offset (sec * nanos) site"
  define sh where "sh = sec + ?off - si_week_begin site"
  define day where "day = sh div 86400"
  have zone: "zone_at (si_loc site) c = (?off, None, None)" for c using assms(1) by (simp add: zone_at_def)
  have "civil_to_utc (si_loc site) c = c - ?off" for c by (simp add: civil_to_utc_def zone)
  moreover have "sec * nanos div nanos = sec" by (simp add: nanos_def)
  ultimately have "?x = sh - (day - (day + 3) mod 7) * 86400" by (simp add: week_offset_def zone Let_def sh_def day_def sdiv_nanos)
  also have "\<dots> = sh mod 86400 + (day + 3) mod 7 * 86400"
    unfolding left_diff_distrib minus_div_mult_eq_mod [symmetric, of sh 86400] by (simp add: day_def)
  finally have x: "?x = sh mod 86400 + (day + 3) mod 7 * 86400" .
  have "(sh - 345600) mod 604800 = ?x"
  proof -
    define q m k where "q = (day + 3) div 7" and "m = (day + 3) mod 7" and "k = sh mod 86400"
    have "day = 7 * q + m - 3" unfolding q_def m_def by simp
    moreover have "sh = 86400 * day + k" by (simp add: day_def k_def)
    ultimately have "sh - 345600 = k + m * 86400 + (q - 1) * 604800" by simp
    then have e: "sh - 345600 = ?x + (q - 1) * 604800" unfolding x m_def k_def .
    have "(sh - 345600) mod 604800 = ?x mod 604800" unfolding e by (rule mod_mult_self1)
    moreover have "0 \<le> ?x" "?x < 604800"
      using pos_mod_bound [of 86400 sh] pos_mod_sign [of 86400 sh] pos_mod_bound [of 7 "day + 3"] pos_mod_sign [of 7 "day + 3"] unfolding x by linarith+
    ultimately show ?thesis by simp
  qed
  then have val: "?x = (sec + ?off - si_week_begin site - 345600) mod 604800" by (simp add: sh_def)
  then have "0 \<le> ?x \<and> ?x < 604800" by simp
  with assms(5) obtain h0 where h0: "h0 \<in> set (rs_hours r sid)" "sh_begin h0 \<le> ?x" "?x < sh_end h0" by blast
  let ?c = "filter (\<lambda>h. sh_begin h \<le> ?x \<and> ?x < sh_end h) (rs_hours r sid)"
  obtain h where hh: "first_by (order_key (Some area)) ?c = Some h" "h \<in> set ?c"
    using first_by_some [of ?c "order_key (Some area)"] h0 by (auto simp del: set_filter simp: filter_empty_conv)
  have "resolve_cached r ent eq (sec * nanos) = Some (sh_shift h, sh_id h)"
    using assms(2-4) hh(1) by (simp add: resolve_cached_def Let_def pick_is_first)
  with hh(2) val show ?thesis by auto
qed

definition sao_paulo :: go_location where
  "sao_paulo = \<lparr>gl_first = - 10800, gl_zones = []\<rparr>"

definition whole_week :: "int \<Rightarrow> int option \<Rightarrow> shift_hour" where
  "whole_week i area = \<lparr>sh_id = i, sh_shift = 7, sh_area = area, sh_begin = 0, sh_end = 604800\<rparr>"

definition demo_tables :: "int option \<Rightarrow> ref_tables" where
  "demo_tables area = \<lparr>rt_sites = [(1, 3, Some sao_paulo, - 3000)], rt_equipments = [(47, Some 1, area)],
     rt_hours = [(1, whole_week 1 None), (1, whole_week 2 (Some 99))]\<rparr>"


theorem shift_week_resolves_witness:
  "week_offset (5 * nanos) \<lparr>si_enterprise = 3, si_loc = sao_paulo, si_week_begin = - 3000\<rparr> = (5 + - 10800 - - 3000 - 345600) mod 604800"
proof -
  let ?site = "\<lparr>si_enterprise = 3, si_loc = sao_paulo, si_week_begin = - 3000\<rparr>"
  let ?r = "new_resolver_cache\<lparr>rs_equips := [47 \<mapsto> (1, 0)], rs_sites := [1 \<mapsto> ?site], rs_hours := (\<lambda>s. [whole_week 1 None])\<rparr>"
  have "week_offset (5 * nanos) ?site = (5 + gl_first (si_loc ?site) - si_week_begin ?site - 345600) mod 604800"
    using shift_week_resolves [of ?site ?r 47 1 0 3 5] by (simp add: sao_paulo_def whole_week_def)
  then show ?thesis by (simp add: sao_paulo_def)
qed

text \<open>
  The package promises the trigger's choice one to one. An equipment without an area is given area 0, and
  a shift hour of some area outranks the site's own one with the lower id, which the trigger
  takes: all its area comparisons are null.
\<close>

theorem null_area_prefers_foreign:
  assumes "sh_area h1 = None" "sh_area h2 = Some b" "sh_id h1 < sh_id h2" "snd (the (equip_of_row (Some s, None))) = area"
  shows "pick_shift [h1, h2] area = Some h2 \<and> first_by (order_key None) [h1, h2] = Some h1"
  using assms by (simp add: pick_is_first first_by_def order_key_def equip_of_row_def)

theorem null_area_prefers_foreign_witness:
  "pick_shift [whole_week 1 None, whole_week 2 (Some 99)] 0 = Some (whole_week 2 (Some 99))"
  using null_area_prefers_foreign [of "whole_week 1 None" "whole_week 2 (Some 99)" 99 1 0] by (simp add: whole_week_def equip_of_row_def)

end
