(* ===== verification/RollupJobs.thy ===== *)
theory RollupJobs
  imports Oee
begin

text \<open>
  The parts of the roll-up jobs that are program and not SQL (stream-engine internal/rollup): the
  adaptive batch (batch.go) and the sweep scheduler (compute.go). A pass is what it answers: its rows, its duration, and whether it failed or ran
  out of its own budget.
\<close>

section \<open>The adaptive batch\<close>

record batch_sizer =
  bz_max :: int
  bz_min :: int
  bz_cur :: "string \<Rightarrow> int option"

definition min_batch :: int where "min_batch = 5"

definition new_batch_sizer :: "int \<Rightarrow> batch_sizer" where
  "new_batch_sizer mx = \<lparr>bz_max = (if mx < min_batch then min_batch else mx), bz_min = min_batch, bz_cur = Map.empty\<rparr>"

definition batch_limit :: "batch_sizer \<Rightarrow> string \<Rightarrow> int" where
  "batch_limit b dest = (case bz_cur b dest of None \<Rightarrow> bz_max b | Some n \<Rightarrow> n)"

definition batch_observe :: "string \<Rightarrow> int \<Rightarrow> int \<Rightarrow> int \<Rightarrow> int \<Rightarrow> bool \<Rightarrow> batch_sizer \<Rightarrow> (int \<times> bool) \<times> batch_sizer" where
  "batch_observe dest limit n elapsed budget over b =
     (let old = batch_limit b dest;
          next0 = (if over then limit sdiv 2 else if limit \<le> n \<and> elapsed < budget sdiv 4 then limit * 2 else old);
          next1 = (if next0 < bz_min b then bz_min b else next0);
          next2 = (if bz_max b < next1 then bz_max b else next1)
      in ((next2, next2 \<noteq> old), b\<lparr>bz_cur := (bz_cur b)(dest \<mapsto> next2)\<rparr>))"

datatype pass_end = PassOk | PassFailed | PassOverBudget

record pass_answer =
  pa_rows :: int
  pa_elapsed :: int
  pa_end :: pass_end

text \<open>\<open>runAdaptive\<close>: the limit used and the sizer after the pass.\<close>

definition run_adaptive :: "string \<Rightarrow> int \<Rightarrow> (int \<Rightarrow> pass_answer) \<Rightarrow> batch_sizer \<Rightarrow> (int \<times> pass_answer) \<times> batch_sizer" where
  "run_adaptive dest budget pass b =
     (let limit = batch_limit b dest; a = pass limit
      in ((limit, a), if pa_end a = PassFailed then b
          else snd (batch_observe dest limit (pa_rows a) (pa_elapsed a) budget (pa_end a = PassOverBudget) b)))"

fun adaptive_ticks :: "string \<Rightarrow> int \<Rightarrow> (int \<Rightarrow> pass_answer) list \<Rightarrow> batch_sizer \<Rightarrow> (int \<times> pass_answer) list \<times> batch_sizer" where
  "adaptive_ticks dest budget [] b = ([], b)"
| "adaptive_ticks dest budget (p # ps) b = (case run_adaptive dest budget p b of (r, b1) \<Rightarrow>
     case adaptive_ticks dest budget ps b1 of (rs, b2) \<Rightarrow> (r # rs, b2))"

definition sizer_ok :: "batch_sizer \<Rightarrow> bool" where
  "sizer_ok b \<longleftrightarrow> bz_min b = min_batch \<and> min_batch \<le> bz_max b \<and> (\<forall>d n. bz_cur b d = Some n \<longrightarrow> min_batch \<le> n \<and> n \<le> bz_max b)"

lemma sizer_limit: "sizer_ok b \<Longrightarrow> min_batch \<le> batch_limit b d \<and> batch_limit b d \<le> bz_max b"
  by (auto simp: sizer_ok_def batch_limit_def split: option.splits)

lemma observe_ok: "sizer_ok b \<Longrightarrow> batch_observe dest limit n elapsed budget over b = (r, b') \<Longrightarrow> sizer_ok b' \<and> bz_max b' = bz_max b"
  by (auto simp: sizer_ok_def batch_observe_def Let_def split: if_splits)

lemma adaptive_ok: "sizer_ok b \<Longrightarrow> run_adaptive dest budget p b = (r, b') \<Longrightarrow> sizer_ok b' \<and> bz_max b' = bz_max b"
  by (cases "batch_observe dest (batch_limit b dest) (pa_rows (p (batch_limit b dest))) (pa_elapsed (p (batch_limit b dest))) budget
        (pa_end (p (batch_limit b dest)) = PassOverBudget) b")
     (auto simp: run_adaptive_def Let_def dest: observe_ok split: if_splits)

lemma sdiv_2: "0 \<le> x \<Longrightarrow> x sdiv 2 = x div (2 :: int)"
  by (simp add: signed_divide_int_def sgn_if)

text \<open>A pass that runs out of its budget halves the batch.\<close>

lemma over_budget_halves:
  assumes "sizer_ok b" "run_adaptive dest budget p b = ((l, a), b')" "pa_end a = PassOverBudget"
  shows "batch_limit b' dest = max min_batch (l div 2) \<and> l = batch_limit b dest"
proof -
  let ?l = "batch_limit b dest"
  have b: "bz_min b = 5" "5 \<le> ?l" "?l \<le> bz_max b" using assms(1) sizer_limit [OF assms(1), of dest] by (simp_all add: sizer_ok_def min_batch_def)
  have l: "l = ?l" "a = p ?l" "b' = snd (batch_observe dest ?l (pa_rows a) (pa_elapsed a) budget True b)"
    using assms(2,3) by (auto simp: run_adaptive_def Let_def)
  have up: "batch_limit (b\<lparr>bz_cur := (bz_cur b)(dest \<mapsto> n)\<rparr>) dest = n" for n by (simp add: batch_limit_def)
  show ?thesis using b sdiv_2 [of ?l] unfolding l(3) l(1) batch_observe_def Let_def if_True snd_conv up by (auto simp: min_batch_def max_def)
qed

lemma run_of_overruns:
  assumes "sizer_ok b" "adaptive_ticks dest budget ps b = (rs, b')" "\<forall>(l, a)\<in>set rs. pa_end a = PassOverBudget"
  shows "batch_limit b' dest = max min_batch (batch_limit b dest div 2 ^ length rs)"
  using assms
proof (induction ps arbitrary: b rs)
  case Nil
  then show ?case using sizer_limit [of b dest] by (auto simp: max_def)
next
  case (Cons p ps)
  obtain l a b1 rs' where r: "run_adaptive dest budget p b = ((l, a), b1)" "adaptive_ticks dest budget ps b1 = (rs', b')" "rs = (l, a) # rs'"
    using Cons.prems(2) by (auto split: prod.splits)
  have o: "batch_limit b1 dest = max min_batch (batch_limit b dest div 2)" using over_budget_halves [OF Cons.prems(1) r(1)] Cons.prems(3) r(3) by simp
  have "batch_limit b' dest = max min_batch (batch_limit b1 dest div 2 ^ length rs')"
    using Cons.IH [OF _ r(2)] adaptive_ok [OF Cons.prems(1) r(1)] Cons.prems(3) r(3) by simp
  also have "\<dots> = max min_batch (batch_limit b dest div 2 div 2 ^ length rs')"
  proof (cases "min_batch \<le> batch_limit b dest div 2")
    case True
    then show ?thesis using o by (simp add: max_def)
  next
    case False
    have le: "x div 2 ^ n \<le> min_batch" if "x \<le> min_batch" "0 \<le> x" for x :: int and n
      using that zdiv_mono2 [of x 1 "2 ^ n"] by simp
    show ?thesis using False o le [of min_batch "length rs'"] le [of "batch_limit b dest div 2" "length rs'"] sizer_limit [OF Cons.prems(1), of dest]
      by (simp add: max_def min_batch_def)
  qed
  finally show ?case using r(3) by (simp add: zdiv_zmult2_eq)
qed

text \<open>
  C19: Whatever the passes answer, the batch stays between the floor and the configured limit; and if every pass
  with at most \<open>cap\<close> rows fits its budget, then of any run of passes long enough to halve the limit
  down to \<open>cap\<close> and one more, not all run out of it: a backlog is not rolled back for ever.
\<close>

theorem batch_recovers:
  assumes "adaptive_ticks dest budget ps (new_batch_sizer mx) = (rs, b)"
    and "\<forall>p\<in>set ps. \<forall>l. l \<le> cap \<longrightarrow> pa_end (p l) \<noteq> PassOverBudget" "min_batch \<le> cap" "mx < cap * 2 ^ k" "k < length ps"
  shows "(\<forall>(l, a)\<in>set rs. min_batch \<le> l \<and> l \<le> max min_batch mx) \<and> \<not> (\<forall>(l, a)\<in>set rs. pa_end a = PassOverBudget)"
proof -
  have ok: "sizer_ok (new_batch_sizer mx)" "bz_max (new_batch_sizer mx) = max min_batch mx" by (auto simp: sizer_ok_def new_batch_sizer_def)
  have bound: "\<forall>(l, a)\<in>set rs. min_batch \<le> l \<and> l \<le> bz_max b0" if "adaptive_ticks dest budget ps b0 = (rs, b)" "sizer_ok b0" for ps b0 rs b
    using that
  proof (induction ps arbitrary: b0 rs)
    case (Cons p ps)
    obtain l a b1 rs' where r: "run_adaptive dest budget p b0 = ((l, a), b1)" "adaptive_ticks dest budget ps b1 = (rs', b)" "rs = (l, a) # rs'"
      using Cons.prems(1) by (auto split: prod.splits)
    have "l = batch_limit b0 dest" using r(1) by (simp add: run_adaptive_def Let_def)
    then show ?case using Cons.IH [OF r(2)] adaptive_ok [OF Cons.prems(2) r(1)] sizer_limit [OF Cons.prems(2), of dest] r(3) by auto
  qed simp
  have split: "adaptive_ticks dest budget (xs @ ys) b0 = (case adaptive_ticks dest budget xs b0 of (r1, b1) \<Rightarrow>
      case adaptive_ticks dest budget ys b1 of (r2, b2) \<Rightarrow> (r1 @ r2, b2))" for xs ys b0
    by (induction xs arbitrary: b0) (auto split: prod.splits)
  have "\<not> (\<forall>(l, a)\<in>set rs. pa_end a = PassOverBudget)"
  proof
    assume all: "\<forall>(l, a)\<in>set rs. pa_end a = PassOverBudget"
    obtain p qs where ps: "ps = take k ps @ p # qs" using assms(5) id_take_nth_drop by blast
    obtain r1 b1 where t1: "adaptive_ticks dest budget (take k ps) (new_batch_sizer mx) = (r1, b1)" by fastforce
    obtain r b2 where t2: "run_adaptive dest budget p b1 = (r, b2)" by fastforce
    obtain r2 b3 where t3: "adaptive_ticks dest budget qs b2 = (r2, b3)" by fastforce
    have "adaptive_ticks dest budget (take k ps @ p # qs) (new_batch_sizer mx) = (r1 @ r # r2, b3)"
      by (simp only: split t1 adaptive_ticks.simps t2 t3 prod.case)
    then have "rs = r1 @ r # r2" using assms(1) ps by (metis prod.inject)
    then have rs: "set r1 \<subseteq> set rs" "r \<in> set rs" by auto
    have len: "adaptive_ticks dest budget xs b0 = (r0, b3) \<Longrightarrow> length r0 = length xs" for xs b0 r0 b3
      by (induction xs arbitrary: b0 r0) (auto split: prod.splits)
    have "length r1 = k" using len [OF t1] assms(5) by simp
    then have "batch_limit b1 dest = max min_batch (batch_limit (new_batch_sizer mx) dest div 2 ^ k)"
      using run_of_overruns [OF ok(1) t1] all rs(1) by blast
    moreover have "max min_batch mx div 2 ^ k \<le> cap"
    proof -
      have "min_batch div 2 ^ k \<le> cap" using assms(3) zdiv_mono2 [of min_batch 1 "2 ^ k"] by (simp add: min_batch_def)
      moreover have "mx div 2 ^ k \<le> cap" using zdiv_mono1 [of mx "cap * 2 ^ k" "2 ^ k"] assms(4) by simp
      ultimately show ?thesis by (simp add: max_def)
    qed
    moreover have "batch_limit (new_batch_sizer mx) dest = max min_batch mx" by (simp add: batch_limit_def new_batch_sizer_def)
    ultimately have "batch_limit b1 dest \<le> cap" using assms(3) by simp
    moreover have "p \<in> set ps" by (subst ps) simp
    ultimately have "pa_end (snd r) \<noteq> PassOverBudget" using assms(2) t2 by (auto simp: run_adaptive_def Let_def)
    then show False using all rs(2) by (cases r) auto
  qed
  then show ?thesis using bound [OF assms(1) ok(1)] ok(2) by simp
qed

theorem batch_recovers_witness:
  "\<exists>rs b. adaptive_ticks ''f1'' 120 (replicate 6 (\<lambda>l. \<lparr>pa_rows = l, pa_elapsed = 0, pa_end = (if 10 < l then PassOverBudget else PassOk)\<rparr>)) (new_batch_sizer 200) = (rs, b)
     \<and> \<not> (\<forall>(l, a)\<in>set rs. pa_end a = PassOverBudget)"
proof -
  obtain rs b where r: "adaptive_ticks ''f1'' 120 (replicate 6 (\<lambda>l. \<lparr>pa_rows = l, pa_elapsed = 0, pa_end = (if 10 < l then PassOverBudget else PassOk)\<rparr>))
     (new_batch_sizer 200) = (rs, b)" by fastforce
  have "\<not> (\<forall>(l, a)\<in>set rs. pa_end a = PassOverBudget)" using batch_recovers [OF r, of 10 5] by (simp add: min_batch_def)
  with r show ?thesis by blast
qed

section \<open>The sweep scheduler\<close>

record sweep_scheduler =
  sw_total :: int
  sw_every :: int
  sw_last :: int

definition new_sweep_scheduler :: "int \<Rightarrow> int \<Rightarrow> sweep_scheduler" where
  "new_sweep_scheduler period every =
     (if period \<le> 0 \<or> every \<le> 0 then \<lparr>sw_total = 0, sw_every = 0, sw_last = 0\<rparr>
      else \<lparr>sw_total = (let n = period sdiv every in if n < 1 then 1 else n), sw_every = every, sw_last = 0\<rparr>)"

definition sweep_due :: "int \<Rightarrow> sweep_scheduler \<Rightarrow> int list \<times> sweep_scheduler" where
  "sweep_due now s =
     (if sw_total s = 0 then ([], s)
      else (let cur = now sdiv sw_every s
            in if 0 < sw_last s \<and> sw_last s < cur
               then (let from = (if sw_total s < cur - (sw_last s + 1) + 1 then cur - sw_total s + 1 else sw_last s + 1)
                     in (map (\<lambda>t. t smod sw_total s) [from..cur], s\<lparr>sw_last := cur\<rparr>))
               else if cur \<le> sw_last s then ([], s)
               else ([cur smod sw_total s], s\<lparr>sw_last := cur\<rparr>)))"

fun sweep_ticks :: "int list \<Rightarrow> sweep_scheduler \<Rightarrow> int list \<times> sweep_scheduler" where
  "sweep_ticks [] s = ([], s)"
| "sweep_ticks (t # ts) s = (case sweep_due t s of (out, s1) \<Rightarrow> case sweep_ticks ts s1 of (outs, s2) \<Rightarrow> (out @ outs, s2))"

text \<open>The scheduler is asked at instants whose ticks never jump by more than a cycle.\<close>

fun paced :: "int \<Rightarrow> int \<Rightarrow> int \<Rightarrow> int list \<Rightarrow> bool" where
  "paced e n c [] = True"
| "paced e n c (t # ts) \<longleftrightarrow> c \<le> t div e \<and> t div e \<le> c + n \<and> paced e n (t div e) ts"

fun last_tick :: "int \<Rightarrow> int \<Rightarrow> int list \<Rightarrow> int" where
  "last_tick e c [] = c"
| "last_tick e c (t # ts) = last_tick e (t div e) ts"

lemma last_tick_ge: "paced e n c ts \<Longrightarrow> c \<le> last_tick e c ts"
  by (induction e n c ts rule: paced.induct) auto

lemma sdiv_is_div: "0 \<le> a \<Longrightarrow> 0 < b \<Longrightarrow> a sdiv b = a div (b :: int)" "0 \<le> a \<Longrightarrow> 0 < b \<Longrightarrow> a smod b = a mod (b :: int)"
  by (simp_all add: signed_divide_int_def signed_modulo_int_def sgn_if minus_mult_div_eq_mod [symmetric] mult.commute)

lemma sweep_from:
  assumes "0 < sw_every s" "0 < sw_total s" "0 < sw_last s" "paced (sw_every s) (sw_total s) (sw_last s) ts"
  shows "fst (sweep_ticks ts s) = map (\<lambda>k. k mod sw_total s) [sw_last s + 1..last_tick (sw_every s) (sw_last s) ts]"
  using assms
proof (induction ts arbitrary: s)
  case (Cons t ts)
  let ?e = "sw_every s" and ?n = "sw_total s" and ?c = "sw_last s"
  let ?cur = "t div ?e" and ?s1 = "s\<lparr>sw_last := t div ?e\<rparr>"
  have c: "?c \<le> ?cur" "?cur \<le> ?c + ?n" using Cons.prems(4) by simp_all
  have t0: "0 \<le> t"
  proof (rule ccontr)
    assume "\<not> 0 \<le> t"
    then have "?cur < 0" using Cons.prems(1) by (intro div_neg_pos_less0) simp_all
    then show False using c(1) Cons.prems(3) by linarith
  qed
  have cur: "t sdiv ?e = ?cur" using sdiv_is_div(1) [OF t0 Cons.prems(1)] .
  have md: "map (\<lambda>k. k smod ?n) [?c + 1..?cur] = map (\<lambda>k. k mod ?n) [?c + 1..?cur]"
    using Cons.prems(2,3) by (intro map_cong refl sdiv_is_div(2)) auto
  have due: "sweep_due t s = (map (\<lambda>k. k mod ?n) [?c + 1..?cur], ?s1)"
  proof (cases "?c < ?cur")
    case True
    then show ?thesis using Cons.prems(2,3) c(2) md by (simp add: sweep_due_def cur Let_def)
  next
    case False
    then have e: "?cur = ?c" using c(1) by simp
    show ?thesis using Cons.prems(2,3) by (simp add: sweep_due_def cur Let_def e)
  qed
  have "fst (sweep_ticks ts ?s1) = map (\<lambda>k. k mod ?n) [?cur + 1..last_tick ?e ?cur ts]"
    using Cons.IH [of ?s1] Cons.prems c(1) by simp
  moreover have "?cur \<le> last_tick ?e ?cur ts" using Cons.prems(4) by (intro last_tick_ge [of _ ?n]) simp
  then have "[?c + 1..?cur] @ [?cur + 1..last_tick ?e ?cur ts] = [?c + 1..last_tick ?e ?cur ts]"
    using c(1) upto_split2 [of "?c + 1" ?cur "last_tick ?e ?cur ts"] by (cases "?c = ?cur") auto
  then have "map (\<lambda>k. k mod ?n) [?c + 1..?cur] @ map (\<lambda>k. k mod ?n) [?cur + 1..last_tick ?e ?cur ts]
      = map (\<lambda>k. k mod ?n) [?c + 1..last_tick ?e ?cur ts]" by (metis map_append)
  ultimately show ?case by (simp add: due case_prod_beta)
qed simp

text \<open>
  Asked at instants that never skip more than a cycle, the sweep hands out the slice of every tick from the
  first to the last exactly once and in order; over a cycle of ticks that is every slice.
\<close>

theorem sweep_starves_no_slice:
  assumes "0 < every" "0 < period" "0 < t div every" "s = new_sweep_scheduler period every" "paced every (sw_total s) (t div every) ts"
  shows "fst (sweep_ticks (t # ts) s) = map (\<lambda>k. k mod sw_total s) [t div every..last_tick every (t div every) ts]
    \<and> (t div every + sw_total s \<le> last_tick every (t div every) ts + 1 \<longrightarrow> set (fst (sweep_ticks (t # ts) s)) = {0..<sw_total s})"
proof -
  let ?c = "t div every" and ?n = "sw_total s" and ?l = "last_tick every (t div every) ts"
  have s: "sw_every s = every" "0 < ?n" "sw_last s = 0" using assms(1,2,4) by (auto simp: new_sweep_scheduler_def Let_def)
  have t0: "0 \<le> t"
  proof (rule ccontr)
    assume "\<not> 0 \<le> t"
    then have "?c < 0" using assms(1) by (intro div_neg_pos_less0) simp_all
    then show False using assms(3) by linarith
  qed
  have "sweep_due t s = ([?c mod ?n], s\<lparr>sw_last := ?c\<rparr>)"
    using s assms(3) sdiv_is_div(1) [OF t0 assms(1)] sdiv_is_div(2) [of ?c ?n] by (simp add: sweep_due_def Let_def)
  moreover have "fst (sweep_ticks ts (s\<lparr>sw_last := ?c\<rparr>)) = map (\<lambda>k. k mod ?n) [?c + 1..?l]"
    using sweep_from [of "s\<lparr>sw_last := ?c\<rparr>" ts] s assms(1,3,5) by simp
  moreover have l: "?c \<le> ?l" by (rule last_tick_ge [OF assms(5)])
  ultimately have out: "fst (sweep_ticks (t # ts) s) = map (\<lambda>k. k mod ?n) [?c..?l]"
    by (simp add: case_prod_beta upto_rec1 [of ?c ?l])
  have "{0..<?n} \<subseteq> (\<lambda>k. k mod ?n) ` {?c..?l}" if "?c + ?n \<le> ?l + 1"
  proof
    fix k assume k: "k \<in> {0..<?n}"
    let ?t = "?c + (k - ?c) mod ?n"
    have "?t mod ?n = k" using k by (simp add: mod_add_right_eq)
    moreover have "?c \<le> ?t" "?t \<le> ?l" using pos_mod_bound [OF s(2), of "k - ?c"] pos_mod_sign [OF s(2), of "k - ?c"] that by linarith+
    ultimately show "k \<in> (\<lambda>k. k mod ?n) ` {?c..?l}" by (metis atLeastAtMost_iff image_eqI)
  qed
  moreover have "(\<lambda>k. k mod ?n) ` {?c..?l} \<subseteq> {0..<?n}" using s(2) by auto
  ultimately show ?thesis using out by auto
qed

theorem sweep_starves_no_slice_witness:
  "set (fst (sweep_ticks [100, 130, 135, 160] (new_sweep_scheduler 30 10))) = {0..<3}"
proof -
  let ?s = "new_sweep_scheduler 30 10"
  have n: "sw_total ?s = 3" by (simp add: new_sweep_scheduler_def Let_def sdiv_is_div)
  have p: "paced 10 (sw_total ?s) (100 div 10) [130, 135, 160]" by (simp add: n)
  have l: "100 div 10 + sw_total ?s \<le> last_tick 10 (100 div 10) [130, 135, 160] + 1" by (simp add: n)
  have "100 div 10 + sw_total ?s \<le> last_tick 10 (100 div 10) [130, 135, 160] + 1
      \<longrightarrow> set (fst (sweep_ticks [100, 130, 135, 160] ?s)) = {0..<sw_total ?s}"
    by (rule sweep_starves_no_slice [THEN conjunct2, OF _ _ _ refl p]) simp_all
  from this l have "set (fst (sweep_ticks [100, 130, 135, 160] ?s)) = {0..<sw_total ?s}" by (rule mp)
  then show ?thesis by (simp only: n)
qed

end
