(* ===== verification/DataQuality.thy ===== *)
theory DataQuality
  imports FloatMono
begin

text \<open>
  The data-quality rules of the stream engine (internal/rollup/dq.go): \<open>DetectGrain\<close>, the pure function
  from one computed grain row to the events it records, and the two properties its comments state of it.
  A float is an \<open>f64\<close>, so a NaN a column holds is a value of the model, and a NULL factor is None.
\<close>

section \<open>Rows and events\<close>

datatype dq_rule = OEE_GT_1 | NET_GT_GROSS | NEGATIVE_METRIC | IDEAL_SPEED_NULL_WHILE_PRODUCING | IDEAL_SPEED_TOO_LOW
  | INVARIANT_CLAMPED_INCREMENT | METRIC_MISSING_ALL_LEVELS

datatype dq_severity = SevWarn | SevError

record grain_metrics =
  gm_enterprise :: int
  gm_equipment :: int
  gm_grain :: string
  gm_bucket :: int
  gm_oee :: "f64 option"
  gm_oee_a :: "f64 option"
  gm_oee_p :: "f64 option"
  gm_oee_q :: "f64 option"
  gm_gross :: f64
  gm_net :: f64
  gm_ideal_production :: f64
  gm_ideal_speed :: "f64 option"
  gm_ideal_tracked :: bool
  gm_available :: f64
  gm_running :: f64
  gm_stopped :: f64
  gm_planned :: f64
  gm_downtime :: f64
  gm_changeover :: f64
  gm_idle :: f64

record dq_event =
  dq_enterprise :: int
  dq_equipment :: int
  dq_grain :: string
  dq_bucket :: int
  dq_rule :: dq_rule
  dq_observed :: "f64 option"
  dq_severity :: dq_severity

section \<open>Detection\<close>

definition oee_factor_absurd :: f64 where "oee_factor_absurd = Fin 10"

definition worst_factor :: "f64 option list \<Rightarrow> f64 option" where
  "worst_factor fs = fold (\<lambda>f acc. case f of None \<Rightarrow> acc
     | Some v \<Rightarrow> (case acc of None \<Rightarrow> Some v | Some w \<Rightarrow> if flt w v then Some v else Some w)) fs None"

definition most_negative :: "f64 list \<Rightarrow> f64 option" where
  "most_negative vs = fold (\<lambda>v acc. if flt v (Fin 0)
     then Some (case acc of None \<Rightarrow> v | Some w \<Rightarrow> if flt v w then v else w) else acc) vs None"

definition dq_emit :: "grain_metrics \<Rightarrow> dq_rule \<Rightarrow> dq_severity \<Rightarrow> f64 option \<Rightarrow> dq_event" where
  "dq_emit m rule sev obs = \<lparr>dq_enterprise = gm_enterprise m, dq_equipment = gm_equipment m, dq_grain = gm_grain m,
     dq_bucket = gm_bucket m, dq_rule = rule, dq_observed = obs, dq_severity = sev\<rparr>"

definition gm_factors :: "grain_metrics \<Rightarrow> f64 option list" where
  "gm_factors m = [gm_oee m, gm_oee_a m, gm_oee_p m, gm_oee_q m]"

definition gm_counts :: "grain_metrics \<Rightarrow> f64 list" where
  "gm_counts m = [gm_gross m, gm_net m, gm_available m, gm_running m, gm_stopped m, gm_planned m, gm_downtime m,
     gm_changeover m, gm_idle m]"

definition detect_grain :: "grain_metrics \<Rightarrow> dq_event list" where
  "detect_grain m =
     (case worst_factor (gm_factors m) of None \<Rightarrow> []
      | Some w \<Rightarrow> if flt oee_factor_absurd w \<or> (case gm_oee_a m of None \<Rightarrow> False | Some a \<Rightarrow> flt (Fin 1) a)
                  then [dq_emit m OEE_GT_1 SevError (Some w)] else [])
     @ (if flt (gm_gross m) (gm_net m) \<and> gm_grain m \<noteq> ''hour''
        then [dq_emit m NET_GT_GROSS SevError (Some (fsub (gm_net m) (gm_gross m)))] else [])
     @ (case most_negative (gm_counts m) of None \<Rightarrow> [] | Some v \<Rightarrow> [dq_emit m NEGATIVE_METRIC SevError (Some v)])
     @ (if gm_ideal_tracked m \<and> flt (Fin 0) (gm_net m)
          \<and> (case gm_ideal_speed m of None \<Rightarrow> True | Some s \<Rightarrow> feq s (Fin 0))
        then [dq_emit m IDEAL_SPEED_NULL_WHILE_PRODUCING SevWarn (gm_ideal_speed m)] else [])
     @ (if gm_ideal_tracked m \<and> flt (Fin 0) (gm_ideal_production m) \<and> flt (gm_ideal_production m) (gm_net m)
        then [dq_emit m IDEAL_SPEED_TOO_LOW SevWarn (Some (fdiv (gm_net m) (gm_ideal_production m)))] else [])"

section \<open>The running maximum and minimum\<close>

lemma flt_fle_trans: "flt x y \<Longrightarrow> fle y z \<Longrightarrow> flt x z"
  by (cases x; cases y; cases z) (auto simp: fle_def)

lemma fle_total: "x \<noteq> NaN \<Longrightarrow> y \<noteq> NaN \<Longrightarrow> \<not> flt x y \<Longrightarrow> fle y x"
  by (cases x; cases y) (auto simp: fle_def)

lemma flt_fle: "flt x y \<Longrightarrow> fle x y"
  by (simp add: fle_def)

lemma flt_not_nan [dest]: "flt x y \<Longrightarrow> x \<noteq> NaN \<and> y \<noteq> NaN"
  by (cases x; cases y) auto

text \<open>The fold over the factors from an accumulator that is already the largest so far.\<close>

definition worst_step :: "f64 option \<Rightarrow> f64 option \<Rightarrow> f64 option" where
  "worst_step f acc = (case f of None \<Rightarrow> acc
     | Some v \<Rightarrow> (case acc of None \<Rightarrow> Some v | Some w \<Rightarrow> if flt w v then Some v else Some w))"

lemma worst_fold: "worst_factor fs = fold worst_step fs None"
  by (simp add: worst_factor_def worst_step_def [abs_def])


lemma worst_is_max:
  assumes "Some NaN \<notin> set fs" "acc \<noteq> Some NaN"
  shows "case fold worst_step fs acc of None \<Rightarrow> acc = None \<and> set fs \<subseteq> {None}
    | Some w \<Rightarrow> w \<noteq> NaN \<and> (acc = Some w \<or> Some w \<in> set fs) \<and> (\<forall>v. acc = Some v \<or> Some v \<in> set fs \<longrightarrow> fle v w)"
  using assms
proof (induction fs arbitrary: acc)
  case Nil
  then show ?case by (cases acc) (auto simp: fle_refl)
next
  case (Cons f fs)
  have "worst_step f acc \<noteq> Some NaN" using Cons.prems by (auto simp: worst_step_def split: option.splits)
  moreover have "Some NaN \<notin> set fs" using Cons.prems by simp
  ultimately have ih: "case fold worst_step fs (worst_step f acc) of None \<Rightarrow> worst_step f acc = None \<and> set fs \<subseteq> {None}
    | Some w \<Rightarrow> w \<noteq> NaN \<and> (worst_step f acc = Some w \<or> Some w \<in> set fs) \<and> (\<forall>v. worst_step f acc = Some v \<or> Some v \<in> set fs \<longrightarrow> fle v w)"
    by (intro Cons.IH)
  have step: "\<And>w. worst_step f acc = Some w \<Longrightarrow> acc = Some w \<or> f = Some w"
    "\<And>v. acc = Some v \<or> f = Some v \<Longrightarrow> \<exists>w. worst_step f acc = Some w \<and> fle v w"
    using Cons.prems by (auto simp: worst_step_def fle_refl fle_total flt_fle split: option.splits if_splits)
  show ?case
  proof (cases "fold worst_step fs (worst_step f acc)")
    case None
    then show ?thesis using ih step(2) by (cases acc; cases f) auto
  next
    case (Some w)
    then have w: "w \<noteq> NaN" "worst_step f acc = Some w \<or> Some w \<in> set fs" "\<And>v. worst_step f acc = Some v \<or> Some v \<in> set fs \<Longrightarrow> fle v w"
      using ih by auto
    have "fle v w" if "acc = Some v \<or> Some v \<in> set (f # fs)" for v
    proof (cases "Some v \<in> set fs")
      case False
      then have "acc = Some v \<or> f = Some v" using that by auto
      then obtain u where "worst_step f acc = Some u" "fle v u" using step(2) by blast
      then show ?thesis using w(3) [of u] fle_trans by blast
    qed (simp add: w(3))
    then show ?thesis using Some w(1,2) step(1) by auto
  qed
qed

definition neg_step :: "f64 \<Rightarrow> f64 option \<Rightarrow> f64 option" where
  "neg_step v acc = (if flt v (Fin 0) then Some (case acc of None \<Rightarrow> v | Some w \<Rightarrow> if flt v w then v else w) else acc)"

lemma neg_fold: "most_negative vs = fold neg_step vs None"
  by (simp add: most_negative_def neg_step_def [abs_def])

lemma neg_is_min:
  assumes "\<And>a. acc = Some a \<Longrightarrow> flt a (Fin 0)"
  shows "case fold neg_step vs acc of None \<Rightarrow> acc = None \<and> (\<forall>v\<in>set vs. \<not> flt v (Fin 0))
    | Some w \<Rightarrow> flt w (Fin 0) \<and> (acc = Some w \<or> w \<in> set vs) \<and> (\<forall>v. acc = Some v \<or> v \<in> set vs \<and> flt v (Fin 0) \<longrightarrow> fle w v)"
  using assms
proof (induction vs arbitrary: acc)
  case Nil
  then show ?case by (cases acc) (auto dest: flt_not_nan intro: fle_refl)
next
  case (Cons f fs)
  have "flt a (Fin 0)" if "neg_step f acc = Some a" for a
    using that Cons.prems by (auto simp: neg_step_def split: option.splits if_splits)
  then have ih: "case fold neg_step fs (neg_step f acc) of None \<Rightarrow> neg_step f acc = None \<and> (\<forall>v\<in>set fs. \<not> flt v (Fin 0))
    | Some w \<Rightarrow> flt w (Fin 0) \<and> (neg_step f acc = Some w \<or> w \<in> set fs)
        \<and> (\<forall>v. neg_step f acc = Some v \<or> v \<in> set fs \<and> flt v (Fin 0) \<longrightarrow> fle w v)"
    by (rule Cons.IH)
  have step1: "acc = Some w \<or> f = w" if "neg_step f acc = Some w" for w
    using that by (auto simp: neg_step_def split: option.splits if_splits)
  have step2: "\<exists>w. neg_step f acc = Some w \<and> fle w v" if "acc = Some v \<or> f = v \<and> flt v (Fin 0)" for v
    using that Cons.prems
    by (auto simp: neg_step_def dest: flt_not_nan intro: fle_refl flt_fle fle_total split: option.splits)
  show ?case
  proof (cases "fold neg_step fs (neg_step f acc)")
    case None
    then show ?thesis using ih step2 by (cases acc) auto
  next
    case (Some w)
    then have w: "flt w (Fin 0)" "neg_step f acc = Some w \<or> w \<in> set fs"
      "\<And>v. neg_step f acc = Some v \<or> v \<in> set fs \<and> flt v (Fin 0) \<Longrightarrow> fle w v" using ih by auto
    have "fle w v" if v: "acc = Some v \<or> v \<in> set (f # fs) \<and> flt v (Fin 0)" for v
    proof (cases "v \<in> set fs \<and> flt v (Fin 0)")
      case False
      then obtain u where "neg_step f acc = Some u" "fle u v" using v step2 [of v] by auto
      then show ?thesis using w(3) [of u] fle_trans by blast
    qed (simp add: w(3))
    then show ?thesis using Some w(1,2) step1 by auto
  qed
qed

lemmas worst_max = worst_is_max [of _ None, folded worst_fold, simplified]
lemmas neg_min = neg_is_min [of None, folded neg_fold, simplified]

section \<open>Properties\<close>

text \<open>The events of one rule.\<close>

definition fired :: "dq_rule \<Rightarrow> grain_metrics \<Rightarrow> dq_event list" where
  "fired r m = filter (\<lambda>e. dq_rule e = r) (detect_grain m)"

lemma fired_oee:
  "fired OEE_GT_1 m = (case worst_factor (gm_factors m) of None \<Rightarrow> []
      | Some w \<Rightarrow> if flt oee_factor_absurd w \<or> (case gm_oee_a m of None \<Rightarrow> False | Some a \<Rightarrow> flt (Fin 1) a)
                  then [dq_emit m OEE_GT_1 SevError (Some w)] else [])"
  by (auto simp: fired_def detect_grain_def dq_emit_def split: option.splits)

lemma fired_neg:
  "fired NEGATIVE_METRIC m = (case most_negative (gm_counts m) of None \<Rightarrow> [] | Some v \<Rightarrow> [dq_emit m NEGATIVE_METRIC SevError (Some v)])"
  by (auto simp: fired_def detect_grain_def dq_emit_def split: option.splits)

lemma rule_blocks:
  "map dq_rule a \<in> {[], [OEE_GT_1]} \<Longrightarrow> map dq_rule b \<in> {[], [NET_GT_GROSS]} \<Longrightarrow> map dq_rule c \<in> {[], [NEGATIVE_METRIC]}
    \<Longrightarrow> map dq_rule d \<in> {[], [IDEAL_SPEED_NULL_WHILE_PRODUCING]} \<Longrightarrow> map dq_rule e \<in> {[], [IDEAL_SPEED_TOO_LOW]}
    \<Longrightarrow> distinct (map dq_rule (a @ b @ c @ d @ e))"
  by (simp only: map_append) auto

lemma rules_once: "distinct (map dq_rule (detect_grain m))"
  unfolding detect_grain_def by (rule rule_blocks) (simp_all add: dq_emit_def split: option.split)

text \<open>
  C20: On a row whose factors are numbers, the OEE rule fires exactly when some present factor is above 10 or the availability
  factor is above 1, and records the largest present factor; the negative rule fires exactly when some count or duration
  is below zero and records the least; and no rule fires twice, so a batch of one row never meets itself on the dedup index.
\<close>

theorem detection_exact:
  assumes "Some NaN \<notin> set (gm_factors m)"
  shows "(fired OEE_GT_1 m \<noteq> [] \<longleftrightarrow> (\<exists>v. Some v \<in> set (gm_factors m) \<and> flt (Fin 10) v) \<or> (\<exists>a. gm_oee_a m = Some a \<and> flt (Fin 1) a))
    \<and> (\<forall>e\<in>set (fired OEE_GT_1 m). \<exists>w. dq_observed e = Some w \<and> Some w \<in> set (gm_factors m) \<and> (\<forall>v. Some v \<in> set (gm_factors m) \<longrightarrow> fle v w))
    \<and> (fired NEGATIVE_METRIC m \<noteq> [] \<longleftrightarrow> (\<exists>v\<in>set (gm_counts m). flt v (Fin 0)))
    \<and> (\<forall>e\<in>set (fired NEGATIVE_METRIC m). \<exists>w. dq_observed e = Some w \<and> w \<in> set (gm_counts m) \<and> (\<forall>v\<in>set (gm_counts m). flt v (Fin 0) \<longrightarrow> fle w v))
    \<and> distinct (map dq_rule (detect_grain m))"
proof -
  have w: "case worst_factor (gm_factors m) of None \<Rightarrow> set (gm_factors m) \<subseteq> {None}
    | Some w \<Rightarrow> w \<noteq> NaN \<and> Some w \<in> set (gm_factors m) \<and> (\<forall>v. Some v \<in> set (gm_factors m) \<longrightarrow> fle v w)"
    using worst_max [OF assms] by (simp split: option.splits)
  have n: "case most_negative (gm_counts m) of None \<Rightarrow> \<forall>v\<in>set (gm_counts m). \<not> flt v (Fin 0)
    | Some w \<Rightarrow> flt w (Fin 0) \<and> w \<in> set (gm_counts m) \<and> (\<forall>v. v \<in> set (gm_counts m) \<and> flt v (Fin 0) \<longrightarrow> fle w v)"
    using neg_min [of "gm_counts m"] by (simp split: option.splits)
  have a: "gm_oee_a m \<in> set (gm_factors m)" by (simp add: gm_factors_def)
  have "fired OEE_GT_1 m \<noteq> [] \<longleftrightarrow> (\<exists>v. Some v \<in> set (gm_factors m) \<and> flt (Fin 10) v) \<or> (\<exists>a. gm_oee_a m = Some a \<and> flt (Fin 1) a)"
  proof (cases "worst_factor (gm_factors m)")
    case None
    then show ?thesis using w a by (auto simp: fired_oee)
  next
    case (Some u)
    then have "flt (Fin 10) u \<longleftrightarrow> (\<exists>v. Some v \<in> set (gm_factors m) \<and> flt (Fin 10) v)" using w flt_fle_trans by auto
    then show ?thesis using Some by (auto simp: fired_oee oee_factor_absurd_def split: option.splits)
  qed
  moreover have "\<forall>e\<in>set (fired OEE_GT_1 m). \<exists>w. dq_observed e = Some w \<and> Some w \<in> set (gm_factors m) \<and> (\<forall>v. Some v \<in> set (gm_factors m) \<longrightarrow> fle v w)"
    using w by (auto simp: fired_oee dq_emit_def split: option.splits if_splits)
  moreover have "fired NEGATIVE_METRIC m \<noteq> [] \<longleftrightarrow> (\<exists>v\<in>set (gm_counts m). flt v (Fin 0))"
    using n by (auto simp: fired_neg split: option.splits)
  moreover have "\<forall>e\<in>set (fired NEGATIVE_METRIC m). \<exists>w. dq_observed e = Some w \<and> w \<in> set (gm_counts m) \<and> (\<forall>v\<in>set (gm_counts m). flt v (Fin 0) \<longrightarrow> fle w v)"
    using n by (auto simp: fired_neg dq_emit_def split: option.splits)
  moreover have "distinct (map dq_rule (detect_grain m))"
    by (rule rules_once)
  ultimately show ?thesis by blast
qed

definition quiet_row :: grain_metrics where
  "quiet_row = \<lparr>gm_enterprise = 1, gm_equipment = 7, gm_grain = ''shift'', gm_bucket = 0, gm_oee = None, gm_oee_a = None,
     gm_oee_p = None, gm_oee_q = None, gm_gross = Fin 100, gm_net = Fin 90, gm_ideal_production = Fin 120,
     gm_ideal_speed = Some (Fin 2), gm_ideal_tracked = True, gm_available = Fin 60, gm_running = Fin 60, gm_stopped = Fin 0,
     gm_planned = Fin 0, gm_downtime = Fin 0, gm_changeover = Fin 0, gm_idle = Fin 0\<rparr>"

theorem detection_exact_witness:
  "fired OEE_GT_1 (quiet_row\<lparr>gm_oee := Some (Fin (1 / 2)), gm_oee_p := Some (Fin 12)\<rparr>) \<noteq> [] \<and> fired NEGATIVE_METRIC quiet_row = []"
  using detection_exact [of "quiet_row\<lparr>gm_oee := Some (Fin (1 / 2)), gm_oee_p := Some (Fin 12)\<rparr>"] detection_exact [of quiet_row]
  by (auto simp: quiet_row_def gm_factors_def gm_counts_def)

text \<open>
  A NaN in the first factor hides the others: the running maximum never leaves it, so a row whose \<open>oee\<close> is NaN and whose
  availability is in range raises no OEE event, however absurd its performance or quality factor is.
\<close>

theorem nan_masks_absurd:
  assumes "gm_oee m = Some NaN" "\<And>a. gm_oee_a m = Some a \<Longrightarrow> \<not> flt (Fin 1) a"
  shows "fired OEE_GT_1 m = []"
proof -
  have "worst_step f (Some NaN) = Some NaN" for f by (cases f) (auto simp: worst_step_def)
  moreover have "worst_step (Some NaN) None = Some NaN" by (simp add: worst_step_def)
  ultimately have "worst_factor (gm_factors m) = Some NaN" using assms(1) by (simp add: worst_fold gm_factors_def)
  then show ?thesis using assms(2) by (auto simp: fired_oee oee_factor_absurd_def split: option.splits)
qed

theorem nan_masks_absurd_witness: "fired OEE_GT_1 (quiet_row\<lparr>gm_oee := Some NaN, gm_oee_p := Some (Fin 8200000000000000000)\<rparr>) = []"
  by (rule nan_masks_absurd) (simp_all add: quiet_row_def)

end
