(* ===== verification/Spec2Isabelle.thy ===== *)
theory Spec2Isabelle
  imports EdgeProps CalcTypes CommandProps ErpProps DeriveProps AgentUplink CalcBounds CalcSafety LineScrap StreamProps PoExecProps Oee PlcWire RelayProps
    StopLink EventJobsProps ShiftResolver RollupJobs DataQuality
begin

text \<open>
  A model of the data path of packiot-stack-alpha (Go, src/services/sparkplug-decoder,
  stream-engine, oeecloud-fanout and ingest-shim): how the counters of a factory's machines become production
  increments in the cloud's tables, and how commands travel back to the machines.

  \<^bold>\<open>The program and its parts.\<close> A reader polls a PLC and posts raw tags to the agent (cmd/sparkplug-agent). The
  agent's ingest derives counts a machine does not sense, resolves each tag against the tenant's
  tag map and keeps the last value of each (tag store). A tick loop publishes the changed ones as
  SparkPlug B messages through a durable outbox and an MQTT uplink; births declare the aliases.
  In the cloud the edge-transformer (cmd/edge-transformer) resolves aliases, evaluates every
  counter reading with \<open>Calc\<close> against its State, builds and stamps analytics envelopes and
  commits them, with the changed baselines, to its own outbox, whose drain publishes them.
  Operator commands come back over AMQP, are translated to SparkPlug DCMDs and written to the
  machine once per idempotency key. A connector reads from and writes to a tenant's ERP. The
  stream engine consumes the envelopes: it finds each metric's equipment, judges the increment
  against the totalizer and the rated speed, and writes one row per second and equipment; the
  production-order parameters of an envelope start and end orders. Its jobs derive running and
  stopped intervals from the counter minutes, close stale ones and roll the rows up. Beside this path, oeecloud-fanout
  clones one tenant's envelopes for its twin and ingest-shim admits one tenant's over HTTP.

  \<^bold>\<open>Theories and the code they model.\<close>
  \<^item> Base: Prelude (int64 wrap-around, stores as locale \<open>keyed_store\<close>, options), GoStrings
    (package strings, \<open>Atoi\<close>), Float64 (binary64 with round to nearest even), GoFormat
    (\<open>Floor\<close>, \<open>FormatInt\<close>, \<open>FormatFloat\<close>), FloatMono (order facts of rounding).
  \<^item> internal/transforms/calc\_production\_counters: CalcState (state.go), TrackedState
    (tracked\_state.go), DecisionTree and TopicShape (decision\_tree.go, topics), CounterMath
    (counter\_math.go), LineAggregation (line\_aggregation.go), Calc (calc.go, \<open>CalcWithConfig\<close>
    phase by phase). The State is a record of maps; deferred mutations are a list of writes that
    the caller applies (\<open>calc_step\<close>), direct ones are returned beside the decision.
  \<^item> Properties of Calc: CalcProps, CalcSafety (guards, isolation, signs), CalcCorrect
    (conservation over runs), CalcTypes (everything stays in int64), CalcBounds (speed, spike
    clamp), LineScrap (line scrap accounting).
  \<^item> Producer side of SparkPlug: AgentTags (agent/rawtag, tagstore, aliasmap), Deriver
    (agent/deriver), CounterDerive (agent/counterderive), AgentIngest (ingest closure of
    main.go, agent/numeric, parameter decomposition), Birth (agent/birth), Session
    (agent/session, resolver), AgentUplink (agent/uplink and the tick loop); SessionProps and
    DeriveProps hold their properties. The resolver interface is the locale \<open>metric_resolver\<close>.
  \<^item> Readers: PlcDecode (modbus/decode.go, s7/decode.go), PlcReader (the pollers of modbus, s7 and
    opcua, sparkplug/sim.go, rawemit, the direct loop of cmd/s7-reader); PlcProps (the locale
    \<open>batched_read\<close>, implemented by the Modbus and the S7 poller on a model of their device) and
    PlcWire (readers against the decoder). A device is the function that answers its reads.
  \<^item> Queue: Outbox and OutboxProps (internal/outbox and \<open>runOutboxDrain\<close>): the SQLite
    statements by what they do to the rows, transactions as one step with an outcome argument.
  \<^item> Consumer side: SparkplugB (internal/sparkplug, rebirth requests), BirthBind
    (internal/birthbind and its wiring), Durability (baselines and messages in one transaction,
    restore at boot), EdgeTransformer (\<open>sparkplugHandler\<close>, \<open>runShadow\<close>, envelopes), EdgeProps.
  \<^item> Commands: Dedup (the FIFO sets of command/dedup.go and erpconnector/dedup.go as
    implementations of the locale \<open>seen_set\<close>), Command (dcmd.go, executor.go,
    \<open>handleDelivery\<close>), CommandProps.
  \<^item> ERP: ErpConnector (templates, secrets, reads and writes, manager), ErpProps.

  \<^item> Stream engine (src/services/stream-engine/internal): StreamMetric (sparkplug/parse.go, the
    timestamp fallback), StreamResolver (sparkplug/resolver.go and birthbound.go), StreamClamp and
    ClampProps (writers/increment\_clamp.go), StreamWriters (the writers), StreamHandler
    (handlers/sparkplug.go), StreamProps (the handler as increments on a table), PoControl and
    PoProps (pocontrol: decide.go and the lifecycle of pocontrol.go), PoExecutors and PoExecProps
    (its other executors and the dispatch, transactions in the option monad), Oee (rollup/oee.go). Tables
    are lists of keyed rows; a statement is a datatype constructor with its bound arguments, and
    \<open>exec_stmt\<close> is what its SQL text does to the rows.
  \<^item> Relays: ConfirmPublish (the publishers that wait for publisher confirms: analyticspub,
    oeecloud-fanout and ingest-shim, as implementations of the locale \<open>confirm_publisher\<close>), Relays
    (\<open>runOutboxDrain\<close> with its publisher, oeecloud-fanout/internal, ingest-shim/internal),
    RelayProps. A channel of confirms is the broker's verdict on each numbered publish and two
    counters, of publishes made and of answers read.
  \<^item> Stop events (stream-engine/internal/events): EventTable (the rows and the sessions of sorted
    instants), StopDetector (cpac\_deriver.go: the transitions of RUNNING, STOPPED and NO DATA and the
    three statements of \<open>RunOnceCPAC\<close>), StopProps and StopLink (its properties without and with link
    reports), EventJobs and EventJobsProps (deriver.go and closer.go). A table is a list of rows with
    unique keys, a pass is a function of the instant, the tables it reads and the rows.
  \<^item> Shifts and roll-ups: ShiftResolver (internal/shiftresolver), RollupJobs (the adaptive batch and
    the sweep scheduler of internal/rollup), DataQuality (rollup/dq.go, \<open>DetectGrain\<close>).

  \<^bold>\<open>What the lemmas show.\<close> Conservation: the increments emitted for a counter add up to the
  movement of its totalizer, across resets, 16-bit wraps, restarts and the handler. Safety:
  redelivered readings, foreign units, foreign tenants, replaced readings and repeated commands
  have no effect they should not have. Round trips: what the agent sends is what the decoder
  reads. Refinement: a delivery to the stream engine is a sequence of writes to a map from
  counter, equipment and second to increments. Bounds: capacity, clamps, int64, retries, OEE
  factors. Invariants: single running order, single open segment, chained events. Event tables: a pass
  leaves operators' rows alone, makes the others equal to the derivation and is idempotent. A second group proves behaviours the
  documentation rules out; each is a finding of the manifest with the line it comes from.

  \<^bold>\<open>Fuel and bounds.\<close> \<open>uplink_drain\<close> takes fuel, and \<open>uplink_drain_complete\<close> shows that one more
  than the queue's depth is enough; \<open>redeliver\<close> takes fuel, and \<open>command_retry_bound\<close> shows that
  two more than the retry limit is enough; \<open>shortest_decimal\<close> has 1074 places, the most a
  double has. All other functions are total. Machine integers are \<open>int\<close> with \<open>wrap64\<close> at every
  operation, wire integers are \<open>word\<close>s, floats are rationals with rounding at every operation.

  \<^bold>\<open>Parameters.\<close> Answers of networks, brokers, databases and disks are arguments of the step
  that asks; time is an argument; protobuf and JSON text are represented by the decoded values;
  the expression evaluator of derive rules, a third-party package, is an argument; so are the
  parsing of calendar times (it needs the time-zone database), the shift resolver of the writers (ShiftResolver
  models it on its own) and the executor of production-order parameters in the handler.

  \<^bold>\<open>Not modelled.\<close> Goroutines and locks (every method is one atomic step), logs, metrics and
  traces; the direct publish path and the local-state sink of the handler; live capture and
  onboarding; device connections, simulators and configuration generators; the SQL passes of the roll-ups, the reports and scanners of the stream engine, replication and the HTTP services
  of the other modules, whose logic is mostly SQL executed elsewhere.
\<close>

end
